(* ===== verification/DDT_Prelude.thy ===== *)
theory DDT_Prelude
  imports Main "HOL-Library.Word"
begin

text \<open>
  Shared material of the development: the machine types of the C sources, byte buffers in a
  flat memory, the loop shapes the test modules use (a \<open>for\<close> loop with an early return, a
  polling loop), and the generic lemmas about them.
\<close>

unbundle bit_operations_syntax

type_synonym u8 = "8 word"
type_synonym u16 = "16 word"
type_synonym u32 = "32 word"

text \<open>The kernel's view of memory: one byte per 32-bit address.\<close>

type_synonym memory = "u32 \<Rightarrow> u8"

named_theorems frame_simps \<open>what an operation leaves unchanged\<close>
named_theorems loop_simps \<open>closed forms of the loops\<close>

section \<open>Loops\<close>

text \<open>
  \<^verbatim>\<open>for (i = i0; i < i0 + k; i++) { if (step(i)) return error; }\<close>:
  the first non-zero result stops the loop and is returned with the state reached.
\<close>

fun for_or_fail :: "(nat \<Rightarrow> 'w \<Rightarrow> int \<times> 'w) \<Rightarrow> nat \<Rightarrow> nat \<Rightarrow> 'w \<Rightarrow> int \<times> 'w" where
  "for_or_fail step i 0 w = (0, w)"
| "for_or_fail step i (Suc k) w =
     (case step i w of (e, w') \<Rightarrow>
        if e \<noteq> 0 then (e, w') else for_or_fail step (Suc i) k w')"

text \<open>\<^verbatim>\<open>for (i = i0; i < i0 + k; i++) step(i);\<close>\<close>

fun for_each :: "(nat \<Rightarrow> 'w \<Rightarrow> 'w) \<Rightarrow> nat \<Rightarrow> nat \<Rightarrow> 'w \<Rightarrow> 'w" where
  "for_each step i 0 w = w"
| "for_each step i (Suc k) w = for_each step (Suc i) k (step i w)"

text \<open>
  The polling loop of the test modules: at most \<open>k\<close> rounds; in each round, if the condition
  holds, wait once more, check and leave; otherwise wait. The boolean tells whether the loop was
  left by its \<open>break\<close>.
\<close>

fun poll_loop :: "('w \<Rightarrow> bool) \<Rightarrow> ('w \<Rightarrow> 'w) \<Rightarrow> ('w \<Rightarrow> 'w) \<Rightarrow> nat \<Rightarrow> 'w \<Rightarrow> bool \<times> 'w" where
  "poll_loop finished wait check 0 w = (False, w)"
| "poll_loop finished wait check (Suc k) w =
     (if finished w then (True, check (wait w))
      else poll_loop finished wait check k (wait w))"

lemma for_or_fail_code:
  assumes step: "\<And>j w. i \<le> j \<Longrightarrow> j < i + k \<Longrightarrow> P j w \<Longrightarrow> fst (step j w) = 0
      \<Longrightarrow> P (Suc j) (snd (step j w))"
    and fail: "\<And>j w. i \<le> j \<Longrightarrow> j < i + k \<Longrightarrow> P j w \<Longrightarrow> fst (step j w) \<noteq> 0
      \<Longrightarrow> Q (fst (step j w)) (snd (step j w))"
    and start: "P i w"
  shows "if fst (for_or_fail step i k w) = 0 then P (i + k) (snd (for_or_fail step i k w))
    else Q (fst (for_or_fail step i k w)) (snd (for_or_fail step i k w))"
  using assms
proof (induction k arbitrary: i w)
  case 0
  then show ?case by simp
next
  case (Suc k)
  obtain e w' where s: "step i w = (e, w')" by (cases "step i w")
  show ?case
  proof (cases "e = 0")
    case False
    with s Suc.prems(2)[of i w] Suc.prems(3) show ?thesis by simp
  next
    case True
    have "if fst (for_or_fail step (Suc i) k w') = 0
        then P (Suc i + k) (snd (for_or_fail step (Suc i) k w'))
        else Q (fst (for_or_fail step (Suc i) k w')) (snd (for_or_fail step (Suc i) k w'))"
    proof (rule Suc.IH)
      show "P (Suc i) w'" using Suc.prems(1)[of i w] Suc.prems(3) s True by simp
    qed (use Suc.prems(1,2) in simp_all)
    with s True show ?thesis by (simp split: if_splits)
  qed
qed

lemmas for_or_fail_inv = for_or_fail_code [where Q = "\<lambda>_. Q" for Q]

lemma for_each_inv:
  assumes "\<And>j w. i \<le> j \<Longrightarrow> j < i + k \<Longrightarrow> P j w \<Longrightarrow> P (Suc j) (step j w)" and "P i w"
  shows "P (i + k) (for_each step i k w)"
  using assms
proof (induction k arbitrary: i w)
  case 0
  then show ?case by simp
next
  case (Suc k)
  have "P (Suc i + k) (for_each step (Suc i) k (step i w))"
    by (rule Suc.IH) (use Suc.prems in simp_all)
  then show ?case by simp
qed

lemma for_each_keeps:
  assumes "\<And>j w. P w \<Longrightarrow> P (step j w)" and "P w"
  shows "P (for_each step i k w)"
  using assms by (induction k arbitrary: i w) simp_all

lemma poll_loop_inv:
  assumes "\<And>w. P w \<Longrightarrow> P (wait w)" and "\<And>w. P w \<Longrightarrow> finished w \<Longrightarrow> Q (check (wait w))" and "P w"
  shows "if fst (poll_loop finished wait check k w) then Q (snd (poll_loop finished wait check k w))
    else P (snd (poll_loop finished wait check k w))"
  using assms by (induction k arbitrary: w) simp_all

lemma poll_loop_keeps:
  assumes "\<And>w. P w \<Longrightarrow> P (wait w)" and "\<And>w. P w \<Longrightarrow> P (check w)" and "P w"
  shows "P (snd (poll_loop finished wait check k w))"
  using assms by (induction k arbitrary: w) simp_all

text \<open>
  What a polling loop computes, in terms of the states reached by waiting: if the condition first
  holds after \<open>j < k\<close> rounds, the loop waits once more and checks there.
\<close>

lemma poll_loop_first:
  assumes "j < k" and "finished ((wait ^^ j) w)"
    and "\<And>i. i < j \<Longrightarrow> \<not> finished ((wait ^^ i) w)"
  shows "poll_loop finished wait check k w = (True, check ((wait ^^ Suc j) w))"
  using assms
proof (induction k arbitrary: j w)
  case 0
  then show ?case by simp
next
  case (Suc k)
  show ?case
  proof (cases j)
    case 0
    with Suc.prems show ?thesis by simp
  next
    case (Suc j')
    have "poll_loop finished wait check k (wait w) = (True, check ((wait ^^ Suc j') (wait w)))"
    proof (rule Suc.IH)
      show "j' < k" using Suc.prems(1) Suc by simp
      show "finished ((wait ^^ j') (wait w))"
        using Suc.prems(2) Suc by (simp add: funpow_swap1)
      show "\<not> finished ((wait ^^ i) (wait w))" if "i < j'" for i
        using Suc.prems(3)[of "Suc i"] Suc that by (simp add: funpow_swap1)
    qed
    moreover have "\<not> finished w" using Suc.prems(3)[of 0] Suc by simp
    ultimately show ?thesis using Suc by (simp add: funpow_swap1)
  qed
qed

lemma poll_loop_timeout:
  assumes "\<And>i. i < k \<Longrightarrow> \<not> finished ((wait ^^ i) w)"
  shows "poll_loop finished wait check k w = (False, (wait ^^ k) w)"
  using assms
proof (induction k arbitrary: w)
  case 0
  then show ?case by simp
next
  case (Suc k)
  have "poll_loop finished wait check k (wait w) = (False, (wait ^^ k) (wait w))"
  proof (rule Suc.IH)
    fix i
    assume "i < k"
    then show "\<not> finished ((wait ^^ i) (wait w))"
      using Suc.prems[of "Suc i"] by (simp add: funpow_swap1)
  qed
  moreover have "\<not> finished w" using Suc.prems[of 0] by simp
  ultimately show ?case by (simp add: funpow_swap1)
qed

section \<open>Byte buffers\<close>

text \<open>The first \<open>n\<close> bytes at \<open>s\<close> and at \<open>d\<close> agree.\<close>

definition bytes_equal :: "memory \<Rightarrow> u32 \<Rightarrow> u32 \<Rightarrow> nat \<Rightarrow> bool" where
  "bytes_equal m s d n \<longleftrightarrow> (\<forall>j<n. m (s + of_nat j) = m (d + of_nat j))"

lemma bytes_equal_0 [simp]: "bytes_equal m s d 0"
  by (simp add: bytes_equal_def)

lemma bytes_equal_Suc:
  "bytes_equal m s d (Suc n) \<longleftrightarrow> m s = m d \<and> bytes_equal m (s + 1) (d + 1) n"
proof
  assume eq: "bytes_equal m s d (Suc n)"
  have "m (s + 1 + of_nat j) = m (d + 1 + of_nat j)" if "j < n" for j
    using eq [unfolded bytes_equal_def, rule_format, of "Suc j"] that by (simp add: ac_simps)
  moreover have "m s = m d"
    using eq [unfolded bytes_equal_def, rule_format, of 0] by simp
  ultimately show "m s = m d \<and> bytes_equal m (s + 1) (d + 1) n"
    by (simp add: bytes_equal_def)
next
  assume eq: "m s = m d \<and> bytes_equal m (s + 1) (d + 1) n"
  have "m (s + of_nat j) = m (d + of_nat j)" if "j < Suc n" for j
  proof (cases j)
    case 0
    with eq show ?thesis by simp
  next
    case (Suc i)
    with eq that have "m (s + 1 + of_nat i) = m (d + 1 + of_nat i)"
      by (simp add: bytes_equal_def)
    with Suc show ?thesis by (simp add: ac_simps)
  qed
  then show "bytes_equal m s d (Suc n)" by (simp add: bytes_equal_def)
qed

lemma unat_u32_less: "unat (x :: u32) < 2 ^ 32"
  using unsigned_less[of x, where ?'a = nat] by simp

lemma of_nat_eq_iff_unat: "n < 2 ^ 32 \<Longrightarrow> (of_nat n = (x :: u32)) \<longleftrightarrow> n = unat x"
  by (auto simp: unat_of_nat take_bit_eq_mod)

lemma unat_of_nat_small: "n < 2 ^ 32 \<Longrightarrow> unat (of_nat n :: u32) = n"
  by (simp add: unat_of_nat)

lemma unat_of_nat_le: "unat (of_nat n :: u32) \<le> n"
  by (simp add: unat_of_nat)

lemma word_of_int_nonzero: "0 < v \<Longrightarrow> v < 2 ^ 32 \<Longrightarrow> (word_of_int v :: u32) \<noteq> 0"
  by (simp add: word_of_int_eq_0_iff zdvd_not_zless)

section \<open>Counting in lists\<close>

lemma length_filter_list_update:
  "i < length xs \<Longrightarrow>
     int (length (filter P (xs[i := x]))) =
     int (length (filter P xs)) - (if P (xs ! i) then 1 else 0) + (if P x then 1 else 0)"
proof (induction xs arbitrary: i)
  case Nil
  then show ?case by simp
next
  case (Cons y ys)
  show ?case
  proof (cases i)
    case 0
    then show ?thesis by simp
  next
    case (Suc j)
    with Cons.IH[of j] Cons.prems show ?thesis by (simp split: if_splits)
  qed
qed

lemma sum_list_map_update:
  "t < length xs \<Longrightarrow> sum_list (map f (xs[t := x])) = sum_list (map f xs) + f x - (f (xs ! t) :: int)"
proof (induction xs arbitrary: t)
  case (Cons y ys)
  then show ?case by (cases t) simp_all
qed simp

end
