(* ===== verification/Kernel_Env.thy ===== *)
theory Kernel_Env
  imports DDT_Prelude
begin

text \<open>
  The environment of the DMA test modules. The Linux kernel and the OMAP DMA driver are not part
  of the repository, so they are a parameter: a record \<open>kernel\<close> that gives the constants of the
  platform headers, the result of each call as an arbitrary function of the history of the run,
  and the interrupts and device writes that happen while a call is in progress. A theorem about
  every \<open>kernel\<close> is a theorem about every kernel behaviour and every interrupt timing at the
  granularity of calls; what a theorem needs beyond that it names as a hypothesis.

  The state of a module (\<open>base_world\<close> and its extensions) is the memory, the module's static
  data, and the history of calls and interrupts.
\<close>

section \<open>Calls into the kernel\<close>

text \<open>
  The parameters of a chained transfer (\<^verbatim>\<open>struct omap_dma_channel_params\<close>, filled in by
  \<^verbatim>\<open>request_dma_chain\<close>).
\<close>

record omap_dma_channel_params =
  p_data_type :: int
  p_elem_count :: int
  p_frame_count :: int
  p_src_amode :: int
  p_src_start :: int
  p_src_ei :: int
  p_src_fi :: int
  p_dst_amode :: int
  p_dst_start :: int
  p_dst_ei :: int
  p_dst_fi :: int
  p_trigger :: int
  p_sync_mode :: int
  p_ie :: int
  p_burst_mode :: int

text \<open>
  The descriptors of a scatter/gather list (\<^verbatim>\<open>struct omap_dma_sglist_node\<close>): the fields the modules
  write. The union \<^verbatim>\<open>sg_node\<close> holds a type 2a descriptor (source, destination, frame number, interrupt
  bits, element and frame indices), a type 3b descriptor (one address), or what the memory held.
\<close>

datatype (plugins only: code size) sg_node =
    T2a u32 u32 int int int int int int
  | T3b u32
  | Sg_unset

record sglist_node =
  desc_type :: int
  num_of_elem :: u32
  sg_flags :: int
  sg_data :: sg_node

text \<open>
  One constructor per kernel function the modules call, with the arguments the code passes. A
  pointer to an element of a module's static array is its index; the callback functions and the
  name strings are fixed per module and left out.
\<close>

datatype (plugins only: code size) kcall =
    Omap_request_dma int nat
  | Omap_set_dma_transfer_params int int int int int int int
  | Omap_set_dma_src_params int int int u32 int int
  | Omap_set_dma_src_burst_mode int int
  | Omap_set_dma_dest_params int int int u32 int int
  | Omap_set_dma_dest_burst_mode int int
  | Omap_dma_set_global_params int int int
  | Omap_dma_set_prio_lch int int int
  | Omap_start_dma int
  | Omap_stop_dma int
  | Omap_free_dma int
  | Omap_dma_link_lch int int
  | Omap_dma_unlink_lch int int
  | Omap_request_dma_chain int int int omap_dma_channel_params
  | Omap_dma_chain_a_transfer int u32 u32 int int nat
  | Omap_start_dma_chain_transfers int
  | Omap_stop_dma_chain_transfers int
  | Omap_free_dma_chain int
  | Omap_set_dma_callback int
  | Kmalloc u32
  | Kfree u32
  | Dma_map_single u32 u32
  | Dma_unmap_single u32 u32
  | Mdelay nat
  | Msleep nat
  | Create_proc_read_entry string
  | Remove_proc_entry string
  | Ioremap u32
  | Raw_readl u32
  | Dma_alloc_coherent u32
  | Dma_free_coherent u32 u32 u32
  | Omap_set_dma_sglist_mode int "sglist_node list" u32 int omap_dma_channel_params
  | Omap_request_dma_sglist int int
  | Omap_set_dma_sglist_params int "sglist_node list" omap_dma_channel_params
  | Omap_dma_set_sglist_fastmode int int
  | Omap_start_dma_sglist_transfers int int
  | Omap_resume_dma_sglist_transfers int int
  | Omap_get_completed_sglist_nodes int
  | Omap_dma_sglist_is_paused int
  | Omap_release_dma_sglist int

section \<open>The history of a run and the kernel as a parameter\<close>

text \<open>
  \<open>Called c r out\<close>: the call \<open>c\<close> returned \<open>r\<close> and wrote \<open>out\<close> through its pointer argument
  (\<open>None\<close>: nothing was written). \<open>Interrupt lch st d m\<close>: the registered callback was run for
  channel \<open>lch\<close> with status \<open>st\<close> and data pointer \<open>d\<close>, with memory contents \<open>m\<close>. Histories
  are kept newest first.
\<close>

datatype tev =
    Called kcall int "int option"
  | Interrupt int u16 nat memory

type_synonym history = "tev list"

text \<open>What can happen asynchronously: the DMA engine changes memory, or a callback is run.\<close>

datatype event =
    Device "memory \<Rightarrow> memory"
  | Irq int u16 nat

text \<open>The constants of the platform's DMA header that the modules use.\<close>

datatype (plugins only: code size) omap_const =
    OMAP_DMA_DATA_TYPE_S8 | OMAP_DMA_DATA_TYPE_S16 | OMAP_DMA_DATA_TYPE_S32
  | OMAP_DMA_NO_DEVICE | OMAP_DMA_SYNC_ELEMENT
  | OMAP_DMA_DATA_BURST_DIS | OMAP_DMA_DATA_BURST_4 | OMAP_DMA_DATA_BURST_8
  | OMAP_DMA_DATA_BURST_16 | DMA_TEST_LITTLE_ENDIAN
  | OMAP_DMA_AMODE_CONSTANT | OMAP_DMA_AMODE_POST_INC | OMAP_DMA_AMODE_SINGLE_IDX
  | OMAP_DMA_AMODE_DOUBLE_IDX | DMA_CH_PRIO_HIGH | DMA_CH_PRIO_LOW
  | DMA_DEFAULT_FIFO_DEPTH | OMAP_DMA_STATIC_CHAIN | OMAP_DMA_DYNAMIC_CHAIN
  | DMA_DEFAULT_ARB_RATE | DMA_THREAD_RESERVE_ONET | DMA_THREAD_FIFO_25
  | OMAP_DMA_SGLIST_DESCRIPTOR_TYPE2a | OMAP_DMA_SGLIST_DESCRIPTOR_TYPE3b
  | OMAP_DMA_LIST_SRC_VALID | OMAP_DMA_LIST_DST_VALID | ENOBUFS | PAGE_SIZE

record kernel =
  k_ret :: "history \<Rightarrow> kcall \<Rightarrow> int"
  k_out :: "history \<Rightarrow> kcall \<Rightarrow> int option"
  k_events :: "history \<Rightarrow> event list"
  k_const :: "omap_const \<Rightarrow> int"
  OMAP_DMA_BLOCK_IRQ :: u16

section \<open>Module state and calls\<close>

text \<open>
  \<open>test_passed\<close> is the verdict variable of the common module (\<open>-1\<close>: no verdict yet); the
  modules' own static data extend the record.
\<close>

record base_world =
  trace :: history
  mem :: memory
  test_passed :: int

text \<open>A callback: channel, status, data pointer, state.\<close>

type_synonym 'w handler = "int \<Rightarrow> u16 \<Rightarrow> nat \<Rightarrow> 'w \<Rightarrow> 'w"

definition log_ev :: "tev \<Rightarrow> 'a base_world_scheme \<Rightarrow> 'a base_world_scheme" where
  "log_ev e w = w\<lparr>trace := e # trace w\<rparr>"

text \<open>A call made with interrupts off (from a callback): only its result and the history.\<close>

definition kcall_ret :: "kernel \<Rightarrow> kcall \<Rightarrow> 'a base_world_scheme \<Rightarrow> int" where
  "kcall_ret K c w = k_ret K (trace w) c"

definition kcall_out :: "kernel \<Rightarrow> kcall \<Rightarrow> 'a base_world_scheme \<Rightarrow> int option" where
  "kcall_out K c w = k_out K (trace w) c"

definition kcall_irq :: "kernel \<Rightarrow> kcall \<Rightarrow> 'a base_world_scheme \<Rightarrow> 'a base_world_scheme" where
  "kcall_irq K c w = log_ev (Called c (kcall_ret K c w) (kcall_out K c w)) w"

text \<open>Delivering one event: the interrupt is recorded with the memory it saw, then handled.\<close>

fun deliver1 :: "'a base_world_scheme handler \<Rightarrow> event \<Rightarrow> 'a base_world_scheme
    \<Rightarrow> 'a base_world_scheme" where
  "deliver1 h (Device f) w = w\<lparr>mem := f (mem w)\<rparr>"
| "deliver1 h (Irq lch st d) w = h lch st d (log_ev (Interrupt lch st d (mem w)) w)"

fun deliver :: "'a base_world_scheme handler \<Rightarrow> event list \<Rightarrow> 'a base_world_scheme
    \<Rightarrow> 'a base_world_scheme" where
  "deliver h [] w = w"
| "deliver h (e # es) w = deliver h es (deliver1 h e w)"

text \<open>
  A call made by the module's own thread: it is recorded with its result, and the events of the
  time it takes are delivered before the thread goes on.
\<close>

definition kcall_thread :: "kernel \<Rightarrow> 'a base_world_scheme handler \<Rightarrow> kcall
    \<Rightarrow> 'a base_world_scheme \<Rightarrow> 'a base_world_scheme" where
  "kcall_thread K h c w =
     (let w' = kcall_irq K c w in deliver h (k_events K (trace w')) w')"

lemma log_ev_simps [simp]:
  "trace (log_ev e w) = e # trace w"
  "mem (log_ev e w) = mem w"
  "test_passed (log_ev e w) = test_passed w"
  by (simp_all add: log_ev_def)

lemma kcall_irq_simps [simp]:
  "trace (kcall_irq K c w) = Called c (kcall_ret K c w) (kcall_out K c w) # trace w"
  "mem (kcall_irq K c w) = mem w"
  "test_passed (kcall_irq K c w) = test_passed w"
  by (simp_all add: kcall_irq_def)

section \<open>The contract between a callback and the code it interrupts\<close>

text \<open>
  An invariant \<open>I\<close> that the callback keeps, that no device write can break, and that does not
  depend on the calls made: it then survives every call of the module's thread, whatever
  interrupts arrive. This is the interface between the callbacks of the modules and the code of
  the common module.
\<close>

locale irq_invariant =
  fixes h :: "'a base_world_scheme handler"
    and I :: "'a base_world_scheme \<Rightarrow> bool"
  assumes handler: "I w \<Longrightarrow> I (h lch st d (log_ev (Interrupt lch st d (mem w)) w))"
    and device: "I w \<Longrightarrow> I (w\<lparr>mem := m\<rparr>)"
begin

lemma deliver1_inv: "I w \<Longrightarrow> I (deliver1 h e w)"
  by (cases e) (simp_all add: handler device)

lemma deliver_inv: "I w \<Longrightarrow> I (deliver h es w)"
  by (induction es arbitrary: w) (simp_all add: deliver1_inv)

lemma kcall_thread_inv: "I (kcall_irq K c w) \<Longrightarrow> I (kcall_thread K h c w)"
  by (simp add: kcall_thread_def deliver_inv)

end

text \<open>Events without a callback only touch memory.\<close>

definition no_irq :: "event list \<Rightarrow> bool" where
  "no_irq es \<longleftrightarrow> (\<forall>e \<in> set es. case e of Device _ \<Rightarrow> True | Irq _ _ _ \<Rightarrow> False)"

lemma deliver_no_irq:
  assumes "no_irq es"
  shows "\<exists>m. deliver h es w = w\<lparr>mem := m\<rparr>"
  using assms
proof (induction es arbitrary: w)
  case Nil
  show ?case by (rule exI [of _ "mem w"]) simp
next
  case (Cons e es)
  then obtain f where e: "e = Device f"
    by (cases e) (auto simp: no_irq_def)
  have "no_irq es" using Cons.prems by (simp add: no_irq_def)
  from Cons.IH [OF this, of "w\<lparr>mem := f (mem w)\<rparr>"] e show ?case by simp
qed

end
