(* ===== verification/Dma_Single.thy ===== *)
theory Dma_Single
  imports Kernel_Env
begin

text \<open>
  The common module of the single-channel DMA tests: \<^verbatim>\<open>dma_single_channel.h\<close> (the structs) and
  \<^verbatim>\<open>dma_single_channel.c\<close> (one definition per function). A pointer to an element of a module's
  static array \<^verbatim>\<open>transfers\<close> is its index. Functions that call the kernel take the calling
  convention \<open>call\<close> as an argument: \<open>kcall_thread K h\<close> when run by the module's thread (which
  callbacks interrupt), \<open>kcall_irq K\<close> when run by a callback. Printing to the kernel log is not
  modelled.
\<close>

section \<open>Data\<close>

record dma_buffers_info =
  src_buf :: u32
  src_buf_phys :: u32
  dest_buf :: u32
  dest_buf_phys :: u32
  buf_size :: u32

record dma_transfer =
  elements_in_frame :: int
  frame_count :: int
  request_success :: int
  data_correct :: int
  finished :: int
  data_type :: int
  sync_mode :: int
  device_id :: int
  data_burst :: int
  transfer_id :: int
  priority :: int
  endian_type :: int
  addressing_mode :: int
  dst_addressing_mode :: int
  dest_ei :: int
  dest_fi :: int
  src_ei :: int
  src_fi :: int
  buffers :: dma_buffers_info

text \<open>The module state: the common part and the module's static array of transfers.\<close>

record sc_world = base_world +
  transfers :: "dma_transfer list"

definition tr_upd :: "nat \<Rightarrow> (dma_transfer \<Rightarrow> dma_transfer) \<Rightarrow> 'a sc_world_scheme
    \<Rightarrow> 'a sc_world_scheme" where
  "tr_upd i f w = w\<lparr>transfers := (transfers w)[i := f (transfers w ! i)]\<rparr>"

definition buf_upd :: "nat \<Rightarrow> (dma_buffers_info \<Rightarrow> dma_buffers_info) \<Rightarrow> 'a sc_world_scheme
    \<Rightarrow> 'a sc_world_scheme" where
  "buf_upd i f w = tr_upd i (\<lambda>t. t\<lparr>buffers := f (buffers t)\<rparr>) w"

abbreviation bufs :: "'a sc_world_scheme \<Rightarrow> nat \<Rightarrow> dma_buffers_info" where
  "bufs w i \<equiv> buffers (transfers w ! i)"

text \<open>Static data before the module is initialised: all zero.\<close>

definition zero_buffers :: dma_buffers_info where
  "zero_buffers = \<lparr>src_buf = 0, src_buf_phys = 0, dest_buf = 0, dest_buf_phys = 0, buf_size = 0\<rparr>"

definition zero_transfer :: dma_transfer where
  "zero_transfer = \<lparr>elements_in_frame = 0, frame_count = 0, request_success = 0,
     data_correct = 0, finished = 0, data_type = 0, sync_mode = 0, device_id = 0,
     data_burst = 0, transfer_id = 0, priority = 0, endian_type = 0, addressing_mode = 0,
     dst_addressing_mode = 0, dest_ei = 0, dest_fi = 0, src_ei = 0, src_fi = 0,
     buffers = zero_buffers\<rparr>"

definition sc_fresh :: "nat \<Rightarrow> memory \<Rightarrow> sc_world" where
  "sc_fresh n m = \<lparr>trace = [], mem = m, test_passed = - 1, transfers = replicate n zero_transfer\<rparr>"

section \<open>The verdict and its proc entry\<close>

definition set_test_passed :: "int \<Rightarrow> 'a base_world_scheme \<Rightarrow> 'a base_world_scheme" where
  "set_test_passed passed w = w\<lparr>test_passed := passed\<rparr>"

definition TEST_FINISHED_POLL_TIME :: nat where
  "TEST_FINISHED_POLL_TIME = 1000"

text \<open>
  \<^verbatim>\<open>while (test_passed == -1) mdelay(...)\<close>: the loop waits for another thread to store a
  verdict. \<open>None\<close> is running out of \<open>fuel\<close> rounds; the result is the text written to the
  buffer, whose length the C function returns.
\<close>

fun dma_read_proc :: "(kcall \<Rightarrow> 'a base_world_scheme \<Rightarrow> 'a base_world_scheme) \<Rightarrow> nat
    \<Rightarrow> 'a base_world_scheme \<Rightarrow> (string \<times> nat \<times> 'a base_world_scheme) option" where
  "dma_read_proc call 0 w = None"
| "dma_read_proc call (Suc fuel) w =
     (if test_passed w = - 1
      then dma_read_proc call fuel (call (Mdelay TEST_FINISHED_POLL_TIME) w)
      else let buf = (if test_passed w \<noteq> 0 then ''Test PASSED'' @ [CHR 0x0A]
                      else ''Test FAILED'' @ [CHR 0x0A])
           in Some (buf, length buf, w))"

definition PROC_FILE :: string where
  "PROC_FILE = ''driver/dma_test_status''"

definition create_dma_proc :: "(kcall \<Rightarrow> 'a base_world_scheme \<Rightarrow> 'a base_world_scheme) \<Rightarrow> string
    \<Rightarrow> 'a base_world_scheme \<Rightarrow> 'a base_world_scheme" where
  "create_dma_proc call proc_name w = call (Create_proc_read_entry proc_name) w"

definition remove_dma_proc :: "(kcall \<Rightarrow> 'a base_world_scheme \<Rightarrow> 'a base_world_scheme) \<Rightarrow> string
    \<Rightarrow> 'a base_world_scheme \<Rightarrow> 'a base_world_scheme" where
  "remove_dma_proc call proc_name w = call (Remove_proc_entry proc_name) w"

definition dma_s_init :: "(kcall \<Rightarrow> 'a base_world_scheme \<Rightarrow> 'a base_world_scheme)
    \<Rightarrow> 'a base_world_scheme \<Rightarrow> int \<times> 'a base_world_scheme" where
  "dma_s_init call w = (0, create_dma_proc call PROC_FILE w)"

definition dma_s_exit :: "(kcall \<Rightarrow> 'a base_world_scheme \<Rightarrow> 'a base_world_scheme)
    \<Rightarrow> 'a base_world_scheme \<Rightarrow> 'a base_world_scheme" where
  "dma_s_exit call w = remove_dma_proc call PROC_FILE w"

section \<open>Checking transfers\<close>

text \<open>
  The loop of \<^verbatim>\<open>check_dma_transfer_complete\<close> from index \<open>i\<close>, with the transfers that are left;
  the failure result is \<^verbatim>\<open>-(i)\<close>.
\<close>

fun check_dma_loop :: "nat \<Rightarrow> dma_transfer list \<Rightarrow> int" where
  "check_dma_loop i [] = 0"
| "check_dma_loop i (t # ts) =
     (if data_correct t = 0 then - int i else check_dma_loop (Suc i) ts)"

definition check_dma_transfer_complete :: "dma_transfer list \<Rightarrow> nat \<Rightarrow> int" where
  "check_dma_transfer_complete ts num_transfer = check_dma_loop 0 (take num_transfer ts)"

text \<open>The byte-by-byte comparison, with the two pointers and the number of bytes left.\<close>

fun verify_loop :: "memory \<Rightarrow> u32 \<Rightarrow> u32 \<Rightarrow> nat \<Rightarrow> int" where
  "verify_loop m src_address dest_address 0 = 0"
| "verify_loop m src_address dest_address (Suc n) =
     (if m src_address \<noteq> m dest_address then 1
      else verify_loop m (src_address + 1) (dest_address + 1) n)"

definition verify_buffers :: "memory \<Rightarrow> dma_buffers_info \<Rightarrow> int" where
  "verify_buffers m b = verify_loop m (src_buf b) (dest_buf b) (unat (buf_size b))"

text \<open>The byte stored at index \<open>i\<close>: \<^verbatim>\<open>(~i << 7) | (buf_size << 3) | i\<close>, cut to 8 bits.\<close>

definition fill_byte :: "u32 \<Rightarrow> nat \<Rightarrow> u8" where
  "fill_byte sz i =
     ucast (push_bit 7 (NOT (of_nat i :: u32)) OR push_bit 3 sz OR of_nat i)"

fun fill_loop :: "u32 \<Rightarrow> u32 \<Rightarrow> nat \<Rightarrow> memory \<Rightarrow> memory" where
  "fill_loop base sz 0 m = m"
| "fill_loop base sz (Suc n) m =
     (fill_loop base sz n m)(base + of_nat n := fill_byte sz n)"

definition fill_source_buffer :: "nat \<Rightarrow> 'a sc_world_scheme \<Rightarrow> 'a sc_world_scheme" where
  "fill_source_buffer i w =
     w\<lparr>mem := fill_loop (src_buf (bufs w i)) (buf_size (bufs w i))
                (unat (buf_size (bufs w i))) (mem w)\<rparr>"

section \<open>The callback\<close>

definition unmap_phys_buffers :: "(kcall \<Rightarrow> 'a sc_world_scheme \<Rightarrow> 'a sc_world_scheme) \<Rightarrow> nat
    \<Rightarrow> 'a sc_world_scheme \<Rightarrow> 'a sc_world_scheme" where
  "unmap_phys_buffers call i w =
     (let w1 = call (Dma_unmap_single (src_buf_phys (bufs w i)) (buf_size (bufs w i))) w
      in call (Dma_unmap_single (dest_buf_phys (bufs w1 i)) (buf_size (bufs w1 i))) w1)"

text \<open>The status test of every callback.\<close>

definition status_ok :: "kernel \<Rightarrow> u16 \<Rightarrow> bool" where
  "status_ok K st \<longleftrightarrow> st AND OMAP_DMA_BLOCK_IRQ K \<noteq> 0 \<or> st = 0"

text \<open>
  The data pointer is one the module registered, an index into its array; a pointer outside the
  array is never passed to the callback.
\<close>

definition dma_callback :: "kernel \<Rightarrow> 'a sc_world_scheme handler" where
  "dma_callback K lch st i w =
     (if i < length (transfers w) then
        let w1 = tr_upd i (\<lambda>t. t\<lparr>data_correct := 0, finished := 1\<rparr>) w;
            w2 = unmap_phys_buffers (kcall_irq K) i w1
        in if status_ok K st
           then let error = verify_buffers (mem w2) (bufs w2 i)
                in if error \<noteq> 0 then w2 else tr_upd i (\<lambda>t. t\<lparr>data_correct := 1\<rparr>) w2
           else w2
      else w)"

section \<open>Setting a transfer up\<close>

definition dma_link_lch :: "(kcall \<Rightarrow> 'a sc_world_scheme \<Rightarrow> 'a sc_world_scheme) \<Rightarrow> nat
    \<Rightarrow> 'a sc_world_scheme \<Rightarrow> 'a sc_world_scheme" where
  "dma_link_lch call i w =
     (let linkid = transfer_id (transfers w ! i) in call (Omap_dma_link_lch linkid linkid) w)"

definition create_transfer_buffers :: "kernel \<Rightarrow> (kcall \<Rightarrow> 'a sc_world_scheme \<Rightarrow> 'a sc_world_scheme)
    \<Rightarrow> nat \<Rightarrow> 'a sc_world_scheme \<Rightarrow> int \<times> 'a sc_world_scheme" where
  "create_transfer_buffers K call i w =
     (let w = buf_upd i (\<lambda>b. b\<lparr>src_buf := 0\<rparr>) w;
          c = Kmalloc (buf_size (bufs w i));
          a = kcall_ret K c w;
          w = buf_upd i (\<lambda>b. b\<lparr>src_buf := word_of_int a\<rparr>) (call c w);
          w = buf_upd i (\<lambda>b. b\<lparr>dest_buf := 0\<rparr>) w;
          c = Kmalloc (buf_size (bufs w i));
          a = kcall_ret K c w;
          w = buf_upd i (\<lambda>b. b\<lparr>dest_buf := word_of_int a\<rparr>) (call c w)
      in if src_buf (bufs w i) = 0 then (1, w)
         else if dest_buf (bufs w i) = 0 then (1, w)
         else (0, w))"

definition request_dma :: "kernel \<Rightarrow> (kcall \<Rightarrow> 'a sc_world_scheme \<Rightarrow> 'a sc_world_scheme)
    \<Rightarrow> nat \<Rightarrow> 'a sc_world_scheme \<Rightarrow> int \<times> 'a sc_world_scheme" where
  "request_dma K call i w =
     (let w = tr_upd i (\<lambda>t. t\<lparr>finished := 0\<rparr>) w;
          c = Omap_request_dma (device_id (transfers w ! i)) i;
          success = kcall_ret K c w;
          out = kcall_out K c w;
          w = call c w;
          w = (case out of None \<Rightarrow> w | Some ch \<Rightarrow> tr_upd i (\<lambda>t. t\<lparr>transfer_id := ch\<rparr>) w)
      in if success \<noteq> 0 then (1, tr_upd i (\<lambda>t. t\<lparr>request_success := 0\<rparr>) w)
         else (0, tr_upd i (\<lambda>t. t\<lparr>request_success := 1\<rparr>) w))"

definition map_to_phys_buffers :: "kernel \<Rightarrow> (kcall \<Rightarrow> 'a sc_world_scheme \<Rightarrow> 'a sc_world_scheme)
    \<Rightarrow> nat \<Rightarrow> 'a sc_world_scheme \<Rightarrow> 'a sc_world_scheme" where
  "map_to_phys_buffers K call i w =
     (let c = Dma_map_single (src_buf (bufs w i)) (buf_size (bufs w i));
          p = kcall_ret K c w;
          w = buf_upd i (\<lambda>b. b\<lparr>src_buf_phys := word_of_int p\<rparr>) (call c w);
          c = Dma_map_single (dest_buf (bufs w i)) (buf_size (bufs w i));
          p = kcall_ret K c w
      in buf_upd i (\<lambda>b. b\<lparr>dest_buf_phys := word_of_int p\<rparr>) (call c w))"

text \<open>
  The \<^verbatim>\<open>switch\<close> on the data type; the unsigned quotient is converted to \<^verbatim>\<open>int\<close>. An unknown type
  leaves the field as it was.
\<close>

definition frame_elements :: "kernel \<Rightarrow> int \<Rightarrow> u32 \<Rightarrow> int \<Rightarrow> int" where
  "frame_elements K dt sz old =
     (if dt = k_const K OMAP_DMA_DATA_TYPE_S8 then sint sz
      else if dt = k_const K OMAP_DMA_DATA_TYPE_S16 then sint (sz div 2)
      else if dt = k_const K OMAP_DMA_DATA_TYPE_S32 then sint (sz div 4)
      else old)"

definition setup_dma_transfer :: "kernel \<Rightarrow> (kcall \<Rightarrow> 'a sc_world_scheme \<Rightarrow> 'a sc_world_scheme)
    \<Rightarrow> nat \<Rightarrow> 'a sc_world_scheme \<Rightarrow> 'a sc_world_scheme" where
  "setup_dma_transfer K call i w =
     (let w = tr_upd i (\<lambda>t. t\<lparr>frame_count := 1\<rparr>) w;
          w = tr_upd i (\<lambda>t. t\<lparr>elements_in_frame :=
                frame_elements K (data_type t) (buf_size (buffers t)) (elements_in_frame t)\<rparr>) w;
          w = map_to_phys_buffers K call i w;
          t = transfers w ! i;
          w = call (Omap_set_dma_transfer_params (transfer_id t) (data_type t)
                (elements_in_frame t) (frame_count t) (sync_mode t) (device_id t) 0) w;
          t = transfers w ! i;
          w = call (Omap_set_dma_src_params (transfer_id t) 0 (addressing_mode t)
                (src_buf_phys (buffers t)) (src_ei t) (src_fi t)) w;
          t = transfers w ! i;
          w = call (Omap_set_dma_src_burst_mode (transfer_id t) (data_burst t)) w;
          t = transfers w ! i;
          w = call (Omap_set_dma_dest_params (transfer_id t) 0 (dst_addressing_mode t)
                (dest_buf_phys (buffers t)) (dest_ei t) (dest_fi t)) w;
          t = transfers w ! i;
          w = call (Omap_set_dma_dest_burst_mode (transfer_id t) (data_burst t)) w;
          w = call (Omap_dma_set_global_params 3 (k_const K DMA_DEFAULT_FIFO_DEPTH) 0) w;
          t = transfers w ! i
      in call (Omap_dma_set_prio_lch (transfer_id t) (priority t) (priority t)) w)"

section \<open>Starting and stopping\<close>

definition start_dma_transfer :: "(kcall \<Rightarrow> 'a sc_world_scheme \<Rightarrow> 'a sc_world_scheme)
    \<Rightarrow> nat \<Rightarrow> 'a sc_world_scheme \<Rightarrow> 'a sc_world_scheme" where
  "start_dma_transfer call i w = call (Omap_start_dma (transfer_id (transfers w ! i))) w"

definition stop_dma_transfer :: "(kcall \<Rightarrow> 'a sc_world_scheme \<Rightarrow> 'a sc_world_scheme)
    \<Rightarrow> nat \<Rightarrow> 'a sc_world_scheme \<Rightarrow> int \<times> 'a sc_world_scheme" where
  "stop_dma_transfer call i w =
     (if request_success (transfers w ! i) \<noteq> 0 then
        let w = call (Omap_stop_dma (transfer_id (transfers w ! i))) w;
            w = call (Omap_free_dma (transfer_id (transfers w ! i))) w;
            w = call (Kfree (src_buf (bufs w i))) w;
            w = call (Kfree (dest_buf (bufs w i))) w
        in (0, tr_upd i (\<lambda>t. t\<lparr>request_success := 0\<rparr>) w)
      else (1, w))"

definition stop_dma_selflink_transfer :: "(kcall \<Rightarrow> 'a base_world_scheme \<Rightarrow> 'a base_world_scheme)
    \<Rightarrow> int \<Rightarrow> 'a base_world_scheme \<Rightarrow> 'a base_world_scheme" where
  "stop_dma_selflink_transfer call channel_id w =
     (let w = call (Omap_stop_dma channel_id) w;
          w = call (Omap_dma_unlink_lch channel_id channel_id) w
      in call (Omap_free_dma channel_id) w)"

definition stop_dma_transfer_invalid :: "(kcall \<Rightarrow> 'a sc_world_scheme \<Rightarrow> 'a sc_world_scheme)
    \<Rightarrow> nat \<Rightarrow> 'a sc_world_scheme \<Rightarrow> 'a sc_world_scheme" where
  "stop_dma_transfer_invalid call i w =
     (if request_success (transfers w ! i) \<noteq> 0
      then call (Omap_free_dma (transfer_id (transfers w ! i))) w
      else w)"

text \<open>The local \<^verbatim>\<open>error\<close> is never assigned after its initialisation, so its test never fires.\<close>

definition unlink_stop_dma_selflink_transfer :: "(kcall \<Rightarrow> 'a base_world_scheme \<Rightarrow> 'a base_world_scheme)
    \<Rightarrow> int \<Rightarrow> 'a base_world_scheme \<Rightarrow> 'a base_world_scheme" where
  "unlink_stop_dma_selflink_transfer call channel_id w =
     (let error = (0::int);
          w = call (Omap_dma_unlink_lch channel_id channel_id) w;
          w = (if error \<noteq> 0 then set_test_passed 0 w else w);
          w = call (Omap_stop_dma channel_id) w
      in call (Omap_free_dma channel_id) w)"

section \<open>Buffers: what filling and comparing compute\<close>

lemma verify_loop_spec: "verify_loop m s d n = (if bytes_equal m s d n then 0 else 1)"
  by (induction n arbitrary: s d) (auto simp: bytes_equal_Suc)

lemma verify_buffers_spec:
  "verify_buffers m b =
     (if bytes_equal m (src_buf b) (dest_buf b) (unat (buf_size b)) then 0 else 1)"
  by (simp add: verify_buffers_def verify_loop_spec)

lemma fill_loop_spec:
  "n \<le> 2 ^ 32 \<Longrightarrow> fill_loop base sz n m a =
     (if unat (a - base) < n then fill_byte sz (unat (a - base)) else m a)"
proof (induction n)
  case 0
  then show ?case by simp
next
  case (Suc n)
  have "(a = base + of_nat n) \<longleftrightarrow> (of_nat n = a - base)" by (auto simp: algebra_simps)
  also have "\<dots> \<longleftrightarrow> unat (a - base) = n"
    using Suc.prems of_nat_eq_iff_unat[of n "a - base"] by auto
  finally have "(a = base + of_nat n) \<longleftrightarrow> unat (a - base) = n" .
  with Suc show ?case by (auto simp: less_Suc_eq)
qed

lemma fill_source_buffer_mem:
  "mem (fill_source_buffer i w) a =
     (if unat (a - src_buf (bufs w i)) < unat (buf_size (bufs w i))
      then fill_byte (buf_size (bufs w i)) (unat (a - src_buf (bufs w i))) else mem w a)"
  using unat_u32_less[of "buf_size (bufs w i)"]
  by (simp add: fill_source_buffer_def fill_loop_spec)

section \<open>Updates of one transfer\<close>

lemma tr_upd_simps [simp]:
  "transfers (tr_upd i f w) = (transfers w)[i := f (transfers w ! i)]"
  "trace (tr_upd i f w) = trace w"
  "mem (tr_upd i f w) = mem w"
  "test_passed (tr_upd i f w) = test_passed w"
  by (simp_all add: tr_upd_def)

lemma buf_upd_simps [simp]:
  "transfers (buf_upd i f w) =
     (transfers w)[i := (transfers w ! i)\<lparr>buffers := f (bufs w i)\<rparr>]"
  "trace (buf_upd i f w) = trace w"
  "mem (buf_upd i f w) = mem w"
  "test_passed (buf_upd i f w) = test_passed w"
  by (simp_all add: buf_upd_def)

lemma kcall_irq_transfers [simp]: "transfers (kcall_irq K c w) = transfers w"
  by (simp add: kcall_irq_def log_ev_def)

lemma log_ev_transfers [simp]: "transfers (log_ev e w) = transfers w"
  by (simp add: log_ev_def)

lemma set_test_passed_simps [simp]:
  "transfers (set_test_passed p w) = transfers w"
  "trace (set_test_passed p w) = trace w"
  "mem (set_test_passed p w) = mem w"
  "test_passed (set_test_passed p w) = p"
  by (simp_all add: set_test_passed_def)

lemma fill_source_buffer_simps [simp]:
  "transfers (fill_source_buffer i w) = transfers w"
  "trace (fill_source_buffer i w) = trace w"
  "test_passed (fill_source_buffer i w) = test_passed w"
  by (simp_all add: fill_source_buffer_def)

lemma unmap_irq_simps [simp]:
  "transfers (unmap_phys_buffers (kcall_irq K) i w) = transfers w"
  "mem (unmap_phys_buffers (kcall_irq K) i w) = mem w"
  "test_passed (unmap_phys_buffers (kcall_irq K) i w) = test_passed w"
  by (simp_all add: unmap_phys_buffers_def Let_def)

section \<open>Resources: channels and buffers a history has taken and not given back\<close>

definition chan_ev :: "int \<Rightarrow> tev \<Rightarrow> int" where
  "chan_ev ch e = (case e of
     Called (Omap_request_dma dev i) r out \<Rightarrow> if r = 0 \<and> out = Some ch then 1 else 0
   | Called (Omap_free_dma c) r out \<Rightarrow> if c = ch then - 1 else 0
   | _ \<Rightarrow> 0)"

definition alloc_ev :: "u32 \<Rightarrow> tev \<Rightarrow> int" where
  "alloc_ev a e = (case e of
     Called (Kmalloc n) r out \<Rightarrow> if word_of_int r = a then 1 else 0
   | Called (Kfree b) r out \<Rightarrow> if b = a then - 1 else 0
   | _ \<Rightarrow> 0)"

text \<open>Requests of channel \<open>ch\<close> that succeeded, less the times it was freed.\<close>

definition chan_balance :: "history \<Rightarrow> int \<Rightarrow> int" where
  "chan_balance h ch = sum_list (map (chan_ev ch) h)"

text \<open>Allocations that returned address \<open>a\<close>, less the times it was freed.\<close>

definition alloc_balance :: "history \<Rightarrow> u32 \<Rightarrow> int" where
  "alloc_balance h a = sum_list (map (alloc_ev a) h)"

text \<open>The buffers a history allocated, oldest first: address and size.\<close>

fun allocs :: "history \<Rightarrow> (u32 \<times> u32) list" where
  "allocs [] = []"
| "allocs (Called (Kmalloc n) r out # h) = allocs h @ [(word_of_int r, n)]"
| "allocs (e # h) = allocs h"

lemma balance_Nil [simp]: "chan_balance [] ch = 0" "alloc_balance [] a = 0"
  by (simp_all add: chan_balance_def alloc_balance_def)

lemma balance_Cons [simp]:
  "chan_balance (e # h) ch = chan_ev ch e + chan_balance h ch"
  "alloc_balance (e # h) a = alloc_ev a e + alloc_balance h a"
  by (simp_all add: chan_balance_def alloc_balance_def)

text \<open>What the transfer array says the module owns.\<close>

definition own_chan :: "dma_transfer list \<Rightarrow> int \<Rightarrow> int" where
  "own_chan ts ch =
     int (length (filter (\<lambda>t. request_success t \<noteq> 0 \<and> transfer_id t = ch) ts))"

definition own_buf :: "dma_transfer list \<Rightarrow> u32 \<Rightarrow> int" where
  "own_buf ts a =
     int (length (filter (\<lambda>t. request_success t \<noteq> 0 \<and> src_buf (buffers t) = a) ts))
     + int (length (filter (\<lambda>t. request_success t \<noteq> 0 \<and> dest_buf (buffers t) = a) ts))"

text \<open>The array and the history agree: nothing is leaked and nothing is freed twice.\<close>

definition owned :: "'a sc_world_scheme \<Rightarrow> bool" where
  "owned w \<longleftrightarrow>
     (\<forall>ch. chan_balance (trace w) ch = own_chan (transfers w) ch) \<and>
     (\<forall>a. a \<noteq> 0 \<longrightarrow> alloc_balance (trace w) a = own_buf (transfers w) a)"

text \<open>The part of a transfer that callbacks never write.\<close>

definition strip :: "dma_transfer \<Rightarrow> dma_transfer" where
  "strip t = t\<lparr>finished := 0, data_correct := 0\<rparr>"

lemma strip_simps [simp]:
  "request_success (strip t) = request_success t"
  "transfer_id (strip t) = transfer_id t"
  "device_id (strip t) = device_id t"
  "buffers (strip t) = buffers t"
  by (simp_all add: strip_def)

definition sc_view :: "'a sc_world_scheme
    \<Rightarrow> dma_transfer list \<times> (int \<Rightarrow> int) \<times> (u32 \<Rightarrow> int) \<times> (u32 \<times> u32) list \<times> int" where
  "sc_view w = (map strip (transfers w), chan_balance (trace w), alloc_balance (trace w),
     allocs (trace w), test_passed w)"

lemma own_strip [simp]:
  "own_chan (map strip ts) = own_chan ts" "own_buf (map strip ts) = own_buf ts"
  by (simp_all add: own_chan_def own_buf_def filter_map comp_def fun_eq_iff)

lemma strip_upd:
  assumes "strip (f (transfers w ! i)) = strip (transfers w ! i)"
  shows "map strip (transfers (tr_upd i f w)) = map strip (transfers w)"
proof -
  have "map strip (transfers (tr_upd i f w))
      = (map strip (transfers w))[i := strip (transfers w ! i)]"
    using assms by (simp add: map_update)
  also have "\<dots> = map strip (transfers w)"
    by (cases "i < length (transfers w)")
      (simp_all add: map_update [symmetric] list_update_beyond)
  finally show ?thesis .
qed

lemma view_upd:
  assumes "strip (f (transfers w ! i)) = strip (transfers w ! i)"
  shows "sc_view (tr_upd i f w) = sc_view w"
  using strip_upd [of f w i, OF assms] by (simp add: sc_view_def)

lemma view_log_neutral:
  assumes "\<And>ch. chan_ev ch e = 0" and "\<And>a. alloc_ev a e = 0"
    and "\<And>h. allocs (e # h) = allocs h"
  shows "sc_view (log_ev e w) = sc_view w"
  using assms by (simp add: sc_view_def fun_eq_iff)

text \<open>Calls that neither take nor return a channel or a buffer.\<close>

fun neutral :: "kcall \<Rightarrow> bool" where
  "neutral (Omap_request_dma dev i) = False"
| "neutral (Omap_free_dma ch) = False"
| "neutral (Kmalloc n) = False"
| "neutral (Kfree a) = False"
| "neutral c = True"

lemma neutral_ev [simp]:
  "neutral c \<Longrightarrow> chan_ev ch (Called c r out) = 0"
  "neutral c \<Longrightarrow> alloc_ev a (Called c r out) = 0"
  "chan_ev ch (Interrupt lch st d m) = 0"
  "alloc_ev a (Interrupt lch st d m) = 0"
  "neutral c \<Longrightarrow> allocs (Called c r out # h) = allocs h"
  by (cases c; simp add: chan_ev_def alloc_ev_def)+

lemma resource_ev [simp]:
  "chan_ev ch (Called (Omap_request_dma dev i) r out) = (if r = 0 \<and> out = Some ch then 1 else 0)"
  "chan_ev ch (Called (Omap_free_dma c) r out) = (if c = ch then - 1 else 0)"
  "chan_ev ch (Called (Kmalloc n) r out) = 0"
  "chan_ev ch (Called (Kfree b) r out) = 0"
  "alloc_ev a (Called (Omap_request_dma dev i) r out) = 0"
  "alloc_ev a (Called (Omap_free_dma c) r out) = 0"
  "alloc_ev a (Called (Kmalloc n) r out) = (if word_of_int r = a then 1 else 0)"
  "alloc_ev a (Called (Kfree b) r out) = (if b = a then - 1 else 0)"
  by (simp_all add: chan_ev_def alloc_ev_def)

lemma view_kcall_irq: "neutral c \<Longrightarrow> sc_view (kcall_irq K c w) = sc_view w"
  by (simp add: kcall_irq_def view_log_neutral)

lemma view_unmap_irq: "sc_view (unmap_phys_buffers (kcall_irq K) i w) = sc_view w"
  by (simp add: unmap_phys_buffers_def Let_def view_kcall_irq)

lemma view_mem [simp]: "sc_view (w\<lparr>mem := m\<rparr>) = sc_view w"
  by (simp add: sc_view_def)

section \<open>The frame contract of the callbacks\<close>

text \<open>
  A callback that leaves a view of the state alone: then a call of the module's thread changes
  that view only by what the call itself adds to the history.
\<close>

locale irq_frame =
  fixes h :: "'a base_world_scheme handler"
    and view :: "'a base_world_scheme \<Rightarrow> 'v"
  assumes handler_view: "view (h lch st d (log_ev (Interrupt lch st d (mem w)) w)) = view w"
    and device_view: "view (w\<lparr>mem := m\<rparr>) = view w"
begin

lemma deliver1_view: "view (deliver1 h e w) = view w"
  by (cases e) (simp_all add: handler_view device_view)

lemma deliver_view: "view (deliver h es w) = view w"
  by (induction es arbitrary: w) (simp_all add: deliver1_view)

lemma kcall_thread_view: "view (kcall_thread K h c w) = view (kcall_irq K c w)"
  by (simp add: kcall_thread_def Let_def deliver_view)

end

lemma dma_callback_view: "sc_view (dma_callback K lch st i w) = sc_view w"
proof -
  have upd: "sc_view (tr_upd i (\<lambda>t. t\<lparr>data_correct := x, finished := 1\<rparr>) w) = sc_view w"
    "sc_view (tr_upd i (\<lambda>t. t\<lparr>data_correct := x\<rparr>) w') = sc_view w'" for x and w' :: "'a sc_world_scheme"
    by (simp_all add: view_upd strip_def)
  show ?thesis
    by (simp add: dma_callback_def Let_def upd view_unmap_irq)
qed

interpretation cb: irq_frame "dma_callback K :: 'a sc_world_scheme handler" sc_view for K
  by unfold_locales (simp_all add: dma_callback_view view_log_neutral)

section \<open>What the operations do to the resources\<close>

lemma own_chan_upd [simp]: "i < length ts \<Longrightarrow> own_chan (ts[i := t]) ch =
    own_chan ts ch - (if request_success (ts ! i) \<noteq> 0 \<and> transfer_id (ts ! i) = ch then 1 else 0)
    + (if request_success t \<noteq> 0 \<and> transfer_id t = ch then 1 else 0)"
  by (simp add: own_chan_def length_filter_list_update)

lemma own_buf_upd [simp]: "i < length ts \<Longrightarrow> own_buf (ts[i := t]) a =
    own_buf ts a
    - (if request_success (ts ! i) \<noteq> 0 \<and> src_buf (buffers (ts ! i)) = a then 1 else 0)
    - (if request_success (ts ! i) \<noteq> 0 \<and> dest_buf (buffers (ts ! i)) = a then 1 else 0)
    + (if request_success t \<noteq> 0 \<and> src_buf (buffers t) = a then 1 else 0)
    + (if request_success t \<noteq> 0 \<and> dest_buf (buffers t) = a then 1 else 0)"
  by (simp add: own_buf_def length_filter_list_update)

text \<open>A transfer that owns nothing and whose buffer pointers are still null.\<close>

definition unused :: "dma_transfer \<Rightarrow> bool" where
  "unused t \<longleftrightarrow> request_success t = 0 \<and> src_buf (buffers t) = 0 \<and> dest_buf (buffers t) = 0"

lemma unused_strip [simp]: "unused (strip t) = unused t"
  by (simp add: unused_def)

text \<open>
  A documented law of \<^verbatim>\<open>omap_request_dma\<close>: when it succeeds it stores the channel it granted.
\<close>

definition grants_channel :: "kernel \<Rightarrow> bool" where
  "grants_channel K \<longleftrightarrow>
     (\<forall>h dev i. k_ret K h (Omap_request_dma dev i) = 0 \<longrightarrow> k_out K h (Omap_request_dma dev i) \<noteq> None)"

text \<open>
  The two calling conventions agree on the view: every operation of the common module is
  analysed once, for any convention that does.
\<close>

locale sc_caller =
  fixes K :: kernel
    and call :: "kcall \<Rightarrow> 'a sc_world_scheme \<Rightarrow> 'a sc_world_scheme"
  assumes call_view: "sc_view (call c w) = sc_view (kcall_irq K c w)"
begin

lemma call_strip: "map strip (transfers (call c w)) = map strip (transfers w)"
  using call_view[of c w] by (simp add: sc_view_def)

lemma call_length [simp]: "length (transfers (call c w)) = length (transfers w)"
  using call_strip[of c w] by (metis length_map)

lemma call_nth: "i < length (transfers w) \<Longrightarrow>
    strip (transfers (call c w) ! i) = strip (transfers w ! i)"
  using call_strip[of c w] by (metis call_length nth_map)

lemma call_fields [simp]:
  assumes "i < length (transfers w)"
  shows "request_success (transfers (call c w) ! i) = request_success (transfers w ! i)"
    "transfer_id (transfers (call c w) ! i) = transfer_id (transfers w ! i)"
    "bufs (call c w) i = bufs w i"
  using call_nth [OF assms, of c] by (metis strip_simps)+

lemma call_own [simp]:
  "own_chan (transfers (call c w)) = own_chan (transfers w)"
  "own_buf (transfers (call c w)) = own_buf (transfers w)"
  using call_strip[of c w] by (metis own_strip)+

lemma call_balance [simp]:
  "chan_balance (trace (call c w)) ch =
     chan_ev ch (Called c (kcall_ret K c w) (kcall_out K c w)) + chan_balance (trace w) ch"
  "alloc_balance (trace (call c w)) a =
     alloc_ev a (Called c (kcall_ret K c w) (kcall_out K c w)) + alloc_balance (trace w) a"
  using call_view[of c w] by (simp_all add: sc_view_def fun_eq_iff)

lemma call_allocs [simp]:
  "allocs (trace (call c w)) = allocs (Called c (kcall_ret K c w) (kcall_out K c w) # trace w)"
  using call_view[of c w] by (simp add: sc_view_def)

lemma call_passed [simp]: "test_passed (call c w) = test_passed w"
  using call_view[of c w] by (simp add: sc_view_def)

lemma call_unused [simp]: "i < length (transfers w) \<Longrightarrow>
    unused (transfers (call c w) ! i) = unused (transfers w ! i)"
  by (simp add: unused_def)

lemma request_dma_length [simp]:
  "length (transfers (snd (request_dma K call i w))) = length (transfers w)"
  by (simp add: request_dma_def Let_def split: option.splits)

lemma request_dma_owned:
  assumes "grants_channel K" and "i < length (transfers w)" and "unused (transfers w ! i)"
    and "owned w"
  shows "owned (snd (request_dma K call i w))"
proof -
  let ?c = "Omap_request_dma (device_id (transfers w ! i)) i"
  have "k_ret K (trace w) ?c = 0 \<Longrightarrow> k_out K (trace w) ?c \<noteq> None"
    using assms(1) by (simp add: grants_channel_def)
  with assms(2-) show ?thesis
    by (auto simp: request_dma_def Let_def owned_def unused_def kcall_ret_def
        kcall_out_def split: option.splits)
qed

lemma request_dma_other:
  assumes "i < length (transfers w)" and "j < length (transfers w)" and "j \<noteq> i"
    and "unused (transfers w ! j)"
  shows "unused (transfers (snd (request_dma K call i w)) ! j)"
  using assms by (simp add: request_dma_def Let_def split: option.splits)

lemma request_dma_self:
  assumes "i < length (transfers w)" and "unused (transfers w ! i)"
    and "fst (request_dma K call i w) = 0"
  shows "request_success (transfers (snd (request_dma K call i w)) ! i) = 1"
    "src_buf (bufs (snd (request_dma K call i w)) i) = 0"
    "dest_buf (bufs (snd (request_dma K call i w)) i) = 0"
  using assms by (auto simp: request_dma_def Let_def unused_def split: option.splits if_splits)

lemma create_transfer_buffers_length [simp]:
  "length (transfers (snd (create_transfer_buffers K call i w))) = length (transfers w)"
  by (simp add: create_transfer_buffers_def Let_def)

lemma create_transfer_buffers_owned:
  assumes "i < length (transfers w)" and "request_success (transfers w ! i) \<noteq> 0"
    and "src_buf (bufs w i) = 0" and "dest_buf (bufs w i) = 0" and "owned w"
  shows "owned (snd (create_transfer_buffers K call i w))"
  using assms by (auto simp: create_transfer_buffers_def Let_def owned_def)

lemma create_transfer_buffers_other:
  assumes "i < length (transfers w)" and "j < length (transfers w)" and "j \<noteq> i"
    and "unused (transfers w ! j)"
  shows "unused (transfers (snd (create_transfer_buffers K call i w)) ! j)"
  using assms by (simp add: create_transfer_buffers_def Let_def)

lemma map_to_phys_buffers_owned:
  assumes "i < length (transfers w)"
  shows "owned (map_to_phys_buffers K call i w) = owned w"
  using assms by (auto simp: map_to_phys_buffers_def Let_def owned_def)

lemma map_to_phys_buffers_unused:
  assumes "j < length (transfers w)" and "i < length (transfers w)"
  shows "unused (transfers (map_to_phys_buffers K call i w) ! j) = unused (transfers w ! j)"
  using assms by (cases "j = i") (simp_all add: map_to_phys_buffers_def Let_def unused_def)

lemma map_to_phys_buffers_length [simp]:
  "length (transfers (map_to_phys_buffers K call i w)) = length (transfers w)"
  by (simp add: map_to_phys_buffers_def Let_def)

lemma call_owned: "neutral c \<Longrightarrow> owned (call c w) = owned w"
  by (simp add: owned_def)

lemma setup_dma_transfer_length [simp]:
  "length (transfers (setup_dma_transfer K call i w)) = length (transfers w)"
  by (simp add: setup_dma_transfer_def Let_def)

lemma setup_dma_transfer_owned:
  assumes "i < length (transfers w)"
  shows "owned (setup_dma_transfer K call i w) = owned w"
proof -
  let ?w1 = "tr_upd i (\<lambda>t. t\<lparr>elements_in_frame :=
                frame_elements K (data_type t) (buf_size (buffers t)) (elements_in_frame t)\<rparr>)
          (tr_upd i (\<lambda>t. t\<lparr>frame_count := 1\<rparr>) w)"
  have "owned ?w1 = owned w" using assms by (simp add: owned_def)
  then show ?thesis using assms
    by (simp add: setup_dma_transfer_def Let_def call_owned map_to_phys_buffers_owned)
qed

lemma setup_dma_transfer_unused:
  assumes "j < length (transfers w)" and "i < length (transfers w)"
  shows "unused (transfers (setup_dma_transfer K call i w) ! j) = unused (transfers w ! j)"
proof -
  let ?w1 = "tr_upd i (\<lambda>t. t\<lparr>elements_in_frame :=
                frame_elements K (data_type t) (buf_size (buffers t)) (elements_in_frame t)\<rparr>)
          (tr_upd i (\<lambda>t. t\<lparr>frame_count := 1\<rparr>) w)"
  have "unused (transfers ?w1 ! j) = unused (transfers w ! j)"
    using assms by (cases "j = i") (simp_all add: unused_def)
  then show ?thesis using assms
    by (simp add: setup_dma_transfer_def Let_def map_to_phys_buffers_unused)
qed

lemma stop_dma_transfer_length [simp]:
  "length (transfers (snd (stop_dma_transfer call i w))) = length (transfers w)"
  by (simp add: stop_dma_transfer_def Let_def)

lemma stop_dma_transfer_owned:
  assumes "i < length (transfers w)" and "owned w"
  shows "owned (snd (stop_dma_transfer call i w))"
  using assms by (auto simp: stop_dma_transfer_def Let_def owned_def)

lemma stop_dma_transfer_released:
  assumes "i < length (transfers w)"
  shows "request_success (transfers (snd (stop_dma_transfer call i w)) ! i) = 0"
  using assms by (simp add: stop_dma_transfer_def Let_def)

lemma stop_dma_transfer_other:
  assumes "i < length (transfers w)" and "j < length (transfers w)" and "j \<noteq> i"
  shows "request_success (transfers (snd (stop_dma_transfer call i w)) ! j)
    = request_success (transfers w ! j)"
  using assms by (simp add: stop_dma_transfer_def Let_def)

end

interpretation irq_call: sc_caller K "kcall_irq K" for K
  by unfold_locales simp

interpretation cb_call: sc_caller K "kcall_thread K (dma_callback K)" for K
  by unfold_locales (rule cb.kcall_thread_view)

section \<open>What a positive verdict rests on\<close>

text \<open>The last interrupt for data pointer \<open>i\<close>: its status and the memory it saw.\<close>

fun last_irq :: "nat \<Rightarrow> history \<Rightarrow> (u16 \<times> memory) option" where
  "last_irq i [] = None"
| "last_irq i (Called c r out # h) = last_irq i h"
| "last_irq i (Interrupt lch st d m # h) = (if d = i then Some (st, m) else last_irq i h)"

text \<open>The data pointers of the interrupts of a history, oldest first.\<close>

fun irq_ids :: "history \<Rightarrow> nat list" where
  "irq_ids [] = []"
| "irq_ids (Called c r out # h) = irq_ids h"
| "irq_ids (Interrupt lch st d m # h) = irq_ids h @ [d]"

lemma last_irq_None: "last_irq i h = None \<longleftrightarrow> i \<notin> set (irq_ids h)"
  by (induction h rule: irq_ids.induct) auto

text \<open>
  The last completion interrupt of transfer \<open>i\<close> had an acceptable status and found the
  destination buffer equal to the source buffer.
\<close>

definition irq_good :: "kernel \<Rightarrow> dma_buffers_info \<Rightarrow> (u16 \<times> memory) option \<Rightarrow> bool" where
  "irq_good K b x = (case x of None \<Rightarrow> False
     | Some (st, m) \<Rightarrow> status_ok K st \<and>
         bytes_equal m (src_buf b) (dest_buf b) (unat (buf_size b)))"

definition verified :: "kernel \<Rightarrow> 'a sc_world_scheme \<Rightarrow> nat \<Rightarrow> bool" where
  "verified K w i \<longleftrightarrow> irq_good K (bufs w i) (last_irq i (trace w))"

definition verdicts_backed :: "kernel \<Rightarrow> 'a sc_world_scheme \<Rightarrow> bool" where
  "verdicts_backed K w \<longleftrightarrow>
     (\<forall>i < length (transfers w). data_correct (transfers w ! i) \<noteq> 0 \<longrightarrow> verified K w i)"

lemma last_irq_unmap [simp]:
  "last_irq j (trace (unmap_phys_buffers (kcall_irq K) i w)) = last_irq j (trace w)"
  by (simp add: unmap_phys_buffers_def Let_def)

lemma flags_commute: "t\<lparr>data_correct := x, finished := y\<rparr> = t\<lparr>finished := y, data_correct := x\<rparr>"
  by (cases t) simp

lemma dma_callback_transfers:
  assumes "i < length (transfers w)"
  shows "transfers (dma_callback K lch st i w) = (transfers w)[i := (transfers w ! i)
    \<lparr>data_correct := (if status_ok K st \<and> bytes_equal (mem w) (src_buf (bufs w i))
        (dest_buf (bufs w i)) (unat (buf_size (bufs w i))) then 1 else 0), finished := 1\<rparr>]"
  using assms by (simp add: dma_callback_def Let_def verify_buffers_spec flags_commute)

lemma dma_callback_outside [simp]:
  "\<not> i < length (transfers w) \<Longrightarrow> dma_callback K lch st i w = w"
  by (simp add: dma_callback_def)

lemma dma_callback_last_irq [simp]:
  "last_irq j (trace (dma_callback K lch st i w)) = last_irq j (trace w)"
  by (simp add: dma_callback_def Let_def)

lemma dma_callback_backed:
  assumes "verdicts_backed K w"
  shows "verdicts_backed K (dma_callback K lch st d (log_ev (Interrupt lch st d (mem w)) w))"
proof (cases "d < length (transfers w)")
  case True
  let ?w0 = "log_ev (Interrupt lch st d (mem w)) w"
  let ?w = "dma_callback K lch st d ?w0"
  let ?ok = "status_ok K st \<and> bytes_equal (mem w) (src_buf (bufs w d))
    (dest_buf (bufs w d)) (unat (buf_size (bufs w d)))"
  have ts: "transfers ?w = (transfers w)[d := (transfers w ! d)
      \<lparr>data_correct := (if ?ok then 1 else 0), finished := 1\<rparr>]"
    using True by (simp add: dma_callback_transfers)
  have "verified K ?w i" if "i < length (transfers w)" "data_correct (transfers ?w ! i) \<noteq> 0" for i
  proof (cases "i = d")
    case True
    with that have "?ok" by (simp add: ts split: if_splits)
    with True \<open>d < length (transfers w)\<close> show ?thesis by (simp add: verified_def irq_good_def ts)
  next
    case False
    with that assms have "verified K w i" by (simp add: ts verdicts_backed_def)
    with False show ?thesis by (simp add: verified_def ts)
  qed
  then show ?thesis by (simp add: verdicts_backed_def ts)
next
  case False
  with assms show ?thesis
    by (simp add: verdicts_backed_def verified_def)
qed

interpretation cb_backed: irq_invariant "dma_callback K :: 'a sc_world_scheme handler"
  "verdicts_backed K" for K
proof unfold_locales
  fix w :: "'a sc_world_scheme" and m
  assume "verdicts_backed K w"
  then show "verdicts_backed K (w\<lparr>mem := m\<rparr>)"
    by (simp add: verdicts_backed_def verified_def)
qed (rule dma_callback_backed)

section \<open>Before the first transfer is started\<close>

fun is_start_call :: "kcall \<Rightarrow> bool" where
  "is_start_call (Omap_start_dma ch) = True"
| "is_start_call c = False"

fun is_start :: "tev \<Rightarrow> bool" where
  "is_start (Called c r out) = is_start_call c"
| "is_start (Interrupt lch st d m) = False"

text \<open>
  A documented law of the DMA driver: a channel's callback is not run before some channel has
  been started.
\<close>

definition irq_after_start :: "kernel \<Rightarrow> bool" where
  "irq_after_start K \<longleftrightarrow> (\<forall>h. (\<forall>e \<in> set h. \<not> is_start e) \<longrightarrow> no_irq (k_events K h))"

definition not_started :: "'a base_world_scheme \<Rightarrow> bool" where
  "not_started w \<longleftrightarrow> (\<forall>e \<in> set (trace w). \<not> is_start e)"

definition idle :: "dma_transfer \<Rightarrow> bool" where
  "idle t \<longleftrightarrow> data_correct t = 0 \<and> finished t = 0"

definition quiet :: "'a sc_world_scheme \<Rightarrow> bool" where
  "quiet w \<longleftrightarrow> not_started w \<and> irq_ids (trace w) = [] \<and> (\<forall>t \<in> set (transfers w). idle t)"

lemma quiet_backed: "quiet w \<Longrightarrow> verdicts_backed K w"
  by (simp add: quiet_def verdicts_backed_def idle_def)

text \<open>An assignment that sets neither of the two flags of a transfer.\<close>

definition flag_frame :: "(dma_transfer \<Rightarrow> dma_transfer) \<Rightarrow> bool" where
  "flag_frame f \<longleftrightarrow> (\<forall>t. data_correct (f t) = data_correct t \<and>
     (finished (f t) = finished t \<or> finished (f t) = 0))"

lemma flag_frame_idle: "flag_frame f \<Longrightarrow> idle t \<Longrightarrow> idle (f t)"
  unfolding flag_frame_def idle_def by metis

text \<open>Calls that give a channel or a buffer back; the set-up phase makes none.\<close>

fun gives_back :: "kcall \<Rightarrow> bool" where
  "gives_back (Omap_free_dma ch) = True"
| "gives_back (Kfree a) = True"
| "gives_back c = False"

text \<open>
  An invariant of the set-up phase: every call but a start or a give-back keeps it, and so does
  an assignment that sets neither flag.
\<close>

locale setup_invariant =
  fixes K :: kernel
    and call :: "kcall \<Rightarrow> 'a sc_world_scheme \<Rightarrow> 'a sc_world_scheme"
    and I :: "'a sc_world_scheme \<Rightarrow> bool"
  assumes call_I: "\<not> is_start_call c \<Longrightarrow> \<not> gives_back c \<Longrightarrow> I w \<Longrightarrow> I (call c w)"
    and upd_I: "I w \<Longrightarrow> flag_frame f \<Longrightarrow> I (tr_upd i f w)"
    and mem_I: "I w \<Longrightarrow> I (w\<lparr>mem := m\<rparr>)"
    and passed_I: "I w \<Longrightarrow> I (set_test_passed p w)"
begin

lemma buf_upd_I: "I w \<Longrightarrow> I (buf_upd i f w)"
  by (simp add: buf_upd_def upd_I flag_frame_def)

lemma request_dma_I: "I w \<Longrightarrow> I (snd (request_dma K call i w))"
  by (simp add: request_dma_def Let_def upd_I flag_frame_def call_I split: option.splits)

lemma create_transfer_buffers_I: "I w \<Longrightarrow> I (snd (create_transfer_buffers K call i w))"
  by (simp add: create_transfer_buffers_def Let_def buf_upd_I call_I)

lemma fill_source_buffer_I: "I w \<Longrightarrow> I (fill_source_buffer i w)"
  by (simp add: fill_source_buffer_def mem_I)

lemma map_to_phys_buffers_I: "I w \<Longrightarrow> I (map_to_phys_buffers K call i w)"
  by (simp add: map_to_phys_buffers_def Let_def buf_upd_I call_I)

lemma setup_dma_transfer_I: "I w \<Longrightarrow> I (setup_dma_transfer K call i w)"
  by (simp add: setup_dma_transfer_def Let_def upd_I flag_frame_def map_to_phys_buffers_I call_I)

lemma dma_link_lch_I: "I w \<Longrightarrow> I (dma_link_lch call i w)"
  by (simp add: dma_link_lch_def Let_def call_I)

end

lemma tr_upd_quiet:
  assumes "quiet w" and "flag_frame f"
  shows "quiet (tr_upd i f w)"
proof -
  have "idle t" if "t \<in> set (transfers (tr_upd i f w))" for t
  proof (cases "i < length (transfers w)")
    case True
    with that assms flag_frame_idle [OF assms(2)] show ?thesis
      by (auto simp: quiet_def dest: set_update_subset_insert [THEN subsetD] nth_mem)
  next
    case False
    with that assms(1) show ?thesis by (simp add: quiet_def list_update_beyond)
  qed
  with assms(1) show ?thesis by (simp add: quiet_def not_started_def)
qed

lemma quiet_mem: "quiet w \<Longrightarrow> quiet (w\<lparr>mem := m\<rparr>)"
  by (simp add: quiet_def not_started_def)

lemma quiet_passed: "quiet w \<Longrightarrow> quiet (set_test_passed p w)"
  by (simp add: quiet_def not_started_def)

lemma kcall_irq_quiet: "\<not> is_start_call c \<Longrightarrow> quiet w \<Longrightarrow> quiet (kcall_irq K c w)"
  by (simp add: quiet_def not_started_def)

interpretation irq_quiet: setup_invariant K "kcall_irq K" quiet for K
  by unfold_locales (simp_all add: kcall_irq_quiet tr_upd_quiet quiet_mem quiet_passed)

lemma before_start_call:
  assumes "irq_after_start K" and "not_started w" and "\<not> is_start_call c"
  obtains m where "kcall_thread K h c w = (kcall_irq K c w)\<lparr>mem := m\<rparr>"
proof -
  have "not_started (kcall_irq K c w)" using assms(2,3) by (simp add: not_started_def)
  with assms(1) have "no_irq (k_events K (trace (kcall_irq K c w)))"
    unfolding irq_after_start_def not_started_def by blast
  then show thesis
    using deliver_no_irq[of _ h "kcall_irq K c w"] that by (auto simp: kcall_thread_def Let_def)
qed

text \<open>The set-up phase is quiet, whatever the callback; the array keeps its length.\<close>

lemma quiet_length_thread:
  assumes "irq_after_start K"
  shows "setup_invariant (kcall_thread K (h :: 'a sc_world_scheme handler))
    (\<lambda>w. quiet w \<and> length (transfers w) = n)"
proof unfold_locales
  fix c and w :: "'a sc_world_scheme"
  assume c: "\<not> is_start_call c" and w: "quiet w \<and> length (transfers w) = n"
  then have q: "quiet (kcall_irq K c w)" by (simp add: kcall_irq_quiet)
  obtain m where "kcall_thread K h c w = (kcall_irq K c w)\<lparr>mem := m\<rparr>"
    using before_start_call [OF assms _ c] w by (auto simp: quiet_def)
  with q w show "quiet (kcall_thread K h c w) \<and> length (transfers (kcall_thread K h c w)) = n"
    by (simp add: quiet_mem)
qed (simp_all add: tr_upd_quiet quiet_mem quiet_passed)

lemma quiet_thread:
  assumes "irq_after_start K"
  shows "setup_invariant (kcall_thread K (h :: 'a sc_world_scheme handler)) quiet"
proof unfold_locales
  fix c and w :: "'a sc_world_scheme"
  assume "\<not> is_start_call c" and "\<not> gives_back c" and "quiet w"
  then show "quiet (kcall_thread K h c w)"
    using setup_invariant.call_I [OF quiet_length_thread [OF assms]] by blast
qed (simp_all add: tr_upd_quiet quiet_mem quiet_passed)

section \<open>Histories that the kernel really produced\<close>

fun consistent :: "kernel \<Rightarrow> history \<Rightarrow> bool" where
  "consistent K [] = True"
| "consistent K (Called c r out # h) = (r = k_ret K h c \<and> out = k_out K h c \<and> consistent K h)"
| "consistent K (Interrupt lch st d m # h) = consistent K h"

lemma consistent_kcall_irq [simp]: "consistent K (trace (kcall_irq K c w)) = consistent K (trace w)"
  by (simp add: kcall_ret_def kcall_out_def)

interpretation cb_consistent: irq_invariant "dma_callback K :: 'a sc_world_scheme handler"
  "\<lambda>w. consistent K (trace w)" for K
  by unfold_locales (simp_all add: dma_callback_def unmap_phys_buffers_def Let_def
      kcall_ret_def kcall_out_def)

interpretation consistent_setup: setup_invariant K "kcall_thread K (dma_callback K)"
  "\<lambda>w :: 'a sc_world_scheme. consistent K (trace w)" for K
  by unfold_locales (simp_all add: cb_consistent.kcall_thread_inv del: kcall_irq_simps)

end
