(* ===== verification/Dma_Single_Modules.thy ===== *)
theory Dma_Single_Modules
  imports Dma_Single
begin

text \<open>
  The single-channel test modules that only configure transfers, run them and look at the
  verdict: the four burst-mode and the four addressing-mode modules. Each module has its
  configuration, its copies of \<^verbatim>\<open>check_test_passed\<close> and \<^verbatim>\<open>get_transfers_finished\<close>, its
  \<^verbatim>\<open>dma_module_init\<close> and \<^verbatim>\<open>dma_module_exit\<close>; what their sources have in common, line for line, is
  one definition with the module's constants as arguments.
\<close>

section \<open>The common shape of the modules\<close>

definition TRANSFER_POLL_COUNT :: nat where
  "TRANSFER_POLL_COUNT = 60"

definition TRANSFER_POLL_TIME :: nat where
  "TRANSFER_POLL_TIME = 1500"

text \<open>\<^verbatim>\<open>error = 0; for (...) if (!transfers[i].data_correct) error = 1;\<close>\<close>

definition data_error :: "dma_transfer list \<Rightarrow> int" where
  "data_error ts = fold (\<lambda>t error. if data_correct t = 0 then 1 else error) ts 0"

definition check_test_passed :: "nat \<Rightarrow> 'a sc_world_scheme \<Rightarrow> 'a sc_world_scheme" where
  "check_test_passed n w =
     (let error = data_error (take n (transfers w))
      in if error = 0 then set_test_passed 1 w else set_test_passed 0 w)"

fun finished_loop :: "dma_transfer list \<Rightarrow> int" where
  "finished_loop [] = 1"
| "finished_loop (t # ts) = (if finished t = 0 then 0 else finished_loop ts)"

definition get_transfers_finished :: "nat \<Rightarrow> 'a sc_world_scheme \<Rightarrow> int" where
  "get_transfers_finished n w = finished_loop (take n (transfers w))"

text \<open>
  The body of the set-up loop after the fields have been assigned: request a channel, allocate
  and fill the buffers, program the channel. The request function is an argument because some
  modules have their own copy.
\<close>

definition prepare_transfer :: "(nat \<Rightarrow> 'a sc_world_scheme \<Rightarrow> int \<times> 'a sc_world_scheme) \<Rightarrow> kernel
    \<Rightarrow> (kcall \<Rightarrow> 'a sc_world_scheme \<Rightarrow> 'a sc_world_scheme)
    \<Rightarrow> nat \<Rightarrow> 'a sc_world_scheme \<Rightarrow> int \<times> 'a sc_world_scheme" where
  "prepare_transfer request K call i w =
     (case request i w of (error, w) \<Rightarrow>
        if error \<noteq> 0 then (1, set_test_passed 0 w)
        else case create_transfer_buffers K call i w of (error, w) \<Rightarrow>
          if error \<noteq> 0 then (1, set_test_passed 0 w)
          else (0, setup_dma_transfer K call i (fill_source_buffer i w)))"

text \<open>Start all transfers, then poll until they have finished and check the data.\<close>

definition start_and_poll :: "(kcall \<Rightarrow> 'a sc_world_scheme \<Rightarrow> 'a sc_world_scheme) \<Rightarrow> nat
    \<Rightarrow> ('a sc_world_scheme \<Rightarrow> int) \<Rightarrow> ('a sc_world_scheme \<Rightarrow> 'a sc_world_scheme)
    \<Rightarrow> 'a sc_world_scheme \<Rightarrow> int \<times> 'a sc_world_scheme" where
  "start_and_poll call n finished_test check w =
     (case poll_loop (\<lambda>w. finished_test w \<noteq> 0) (call (Mdelay TRANSFER_POLL_TIME)) check
             TRANSFER_POLL_COUNT (for_each (start_dma_transfer call) 0 n w) of
        (left_by_break, w) \<Rightarrow>
          if \<not> left_by_break then (1, set_test_passed 0 w) else (0, w))"

definition run_transfers :: "(nat \<Rightarrow> 'a sc_world_scheme \<Rightarrow> int \<times> 'a sc_world_scheme) \<Rightarrow> kernel
    \<Rightarrow> (kcall \<Rightarrow> 'a sc_world_scheme \<Rightarrow> 'a sc_world_scheme) \<Rightarrow> nat
    \<Rightarrow> (nat \<Rightarrow> dma_transfer \<Rightarrow> dma_transfer)
    \<Rightarrow> ('a sc_world_scheme \<Rightarrow> int) \<Rightarrow> ('a sc_world_scheme \<Rightarrow> 'a sc_world_scheme)
    \<Rightarrow> 'a sc_world_scheme \<Rightarrow> int \<times> 'a sc_world_scheme" where
  "run_transfers request K call n config finished_test check w =
     (case for_or_fail (\<lambda>i w. prepare_transfer request K call i (tr_upd i (config i) w)) 0 n w of
        (error, w) \<Rightarrow>
          if error \<noteq> 0 then (1, w) else start_and_poll call n finished_test check w)"

definition stop_all :: "(kcall \<Rightarrow> 'a sc_world_scheme \<Rightarrow> 'a sc_world_scheme) \<Rightarrow> nat
    \<Rightarrow> 'a sc_world_scheme \<Rightarrow> 'a sc_world_scheme" where
  "stop_all call n w = for_each (\<lambda>i w. snd (stop_dma_transfer call i w)) 0 n w"

section \<open>Burst-mode modules\<close>

text \<open>
  The fields the burst-mode modules assign; only the data type of transfer 0 is assigned (before
  the loop), the other two assignments are commented out in the source.
\<close>

definition burst_config :: "kernel \<Rightarrow> omap_const \<Rightarrow> u32 \<Rightarrow> nat \<Rightarrow> dma_transfer \<Rightarrow> dma_transfer" where
  "burst_config K burst sz i t = t\<lparr>
     device_id := k_const K OMAP_DMA_NO_DEVICE,
     sync_mode := k_const K OMAP_DMA_SYNC_ELEMENT,
     data_burst := k_const K burst,
     endian_type := k_const K DMA_TEST_LITTLE_ENDIAN,
     addressing_mode := k_const K OMAP_DMA_AMODE_POST_INC,
     dst_addressing_mode := k_const K OMAP_DMA_AMODE_POST_INC,
     priority := k_const K DMA_CH_PRIO_HIGH,
     buffers := (buffers t)\<lparr>buf_size := sz\<rparr>\<rparr>"

definition set_first_type :: "kernel \<Rightarrow> 'a sc_world_scheme \<Rightarrow> 'a sc_world_scheme" where
  "set_first_type K w = tr_upd 0 (\<lambda>t. t\<lparr>data_type := k_const K OMAP_DMA_DATA_TYPE_S8\<rparr>) w"

abbreviation sc_call :: "kernel \<Rightarrow> kcall \<Rightarrow> 'a sc_world_scheme \<Rightarrow> 'a sc_world_scheme" where
  "sc_call K \<equiv> kcall_thread K (dma_callback K)"

definition burst4_check_test_passed :: "sc_world \<Rightarrow> sc_world" where
  "burst4_check_test_passed = check_test_passed 3"

definition burst4_get_transfers_finished :: "sc_world \<Rightarrow> int" where
  "burst4_get_transfers_finished = get_transfers_finished 3"

definition burst4_module_init :: "kernel \<Rightarrow> sc_world \<Rightarrow> int \<times> sc_world" where
  "burst4_module_init K w =
     run_transfers (request_dma K (sc_call K)) K (sc_call K) 3
       (burst_config K OMAP_DMA_DATA_BURST_4 (1024 * 1024))
       burst4_get_transfers_finished burst4_check_test_passed (set_first_type K w)"

definition burst4_module_exit :: "kernel \<Rightarrow> sc_world \<Rightarrow> sc_world" where
  "burst4_module_exit K = stop_all (sc_call K) 3"

definition burst8_check_test_passed :: "sc_world \<Rightarrow> sc_world" where
  "burst8_check_test_passed = check_test_passed 3"

definition burst8_get_transfers_finished :: "sc_world \<Rightarrow> int" where
  "burst8_get_transfers_finished = get_transfers_finished 3"

definition burst8_module_init :: "kernel \<Rightarrow> sc_world \<Rightarrow> int \<times> sc_world" where
  "burst8_module_init K w =
     run_transfers (request_dma K (sc_call K)) K (sc_call K) 3
       (burst_config K OMAP_DMA_DATA_BURST_8 (1024 * 1))
       burst8_get_transfers_finished burst8_check_test_passed (set_first_type K w)"

definition burst8_module_exit :: "kernel \<Rightarrow> sc_world \<Rightarrow> sc_world" where
  "burst8_module_exit K = stop_all (sc_call K) 3"

definition burst16_check_test_passed :: "sc_world \<Rightarrow> sc_world" where
  "burst16_check_test_passed = check_test_passed 3"

definition burst16_get_transfers_finished :: "sc_world \<Rightarrow> int" where
  "burst16_get_transfers_finished = get_transfers_finished 3"

definition burst16_module_init :: "kernel \<Rightarrow> sc_world \<Rightarrow> int \<times> sc_world" where
  "burst16_module_init K w =
     run_transfers (request_dma K (sc_call K)) K (sc_call K) 3
       (burst_config K OMAP_DMA_DATA_BURST_16 (1024 * 1))
       burst16_get_transfers_finished burst16_check_test_passed (set_first_type K w)"

definition burst16_module_exit :: "kernel \<Rightarrow> sc_world \<Rightarrow> sc_world" where
  "burst16_module_exit K = stop_all (sc_call K) 3"

definition burstdis_check_test_passed :: "sc_world \<Rightarrow> sc_world" where
  "burstdis_check_test_passed = check_test_passed 3"

definition burstdis_get_transfers_finished :: "sc_world \<Rightarrow> int" where
  "burstdis_get_transfers_finished = get_transfers_finished 3"

definition burstdis_module_init :: "kernel \<Rightarrow> sc_world \<Rightarrow> int \<times> sc_world" where
  "burstdis_module_init K w =
     run_transfers (request_dma K (sc_call K)) K (sc_call K) 3
       (burst_config K OMAP_DMA_DATA_BURST_DIS (1024 * 1024))
       burstdis_get_transfers_finished burstdis_check_test_passed (set_first_type K w)"

definition burstdis_module_exit :: "kernel \<Rightarrow> sc_world \<Rightarrow> sc_world" where
  "burstdis_module_exit K = stop_all (sc_call K) 3"

section \<open>Addressing-mode modules\<close>

text \<open>
  The fields the addressing-mode modules assign; the buffer size is
  \<^verbatim>\<open>(unit * (i+1)*(i+1)) + i % 2\<close>.
\<close>

definition amode_config :: "kernel \<Rightarrow> omap_const \<Rightarrow> nat \<Rightarrow> int \<Rightarrow> int \<Rightarrow> nat \<Rightarrow> dma_transfer
    \<Rightarrow> dma_transfer" where
  "amode_config K amode unit sei sfi i t = t\<lparr>
     device_id := k_const K OMAP_DMA_NO_DEVICE,
     sync_mode := k_const K OMAP_DMA_SYNC_ELEMENT,
     data_burst := k_const K OMAP_DMA_DATA_BURST_DIS,
     data_type := k_const K OMAP_DMA_DATA_TYPE_S8,
     endian_type := k_const K DMA_TEST_LITTLE_ENDIAN,
     addressing_mode := k_const K amode,
     dst_addressing_mode := k_const K OMAP_DMA_AMODE_POST_INC,
     priority := k_const K DMA_CH_PRIO_HIGH,
     buffers := (buffers t)\<lparr>buf_size := of_nat (unit * (i + 1) * (i + 1) + i mod 2)\<rparr>,
     dest_ei := 0, dest_fi := 0, src_ei := sei, src_fi := sfi\<rparr>"

definition postinc_check_test_passed :: "sc_world \<Rightarrow> sc_world" where
  "postinc_check_test_passed = check_test_passed 13"

definition postinc_get_transfers_finished :: "sc_world \<Rightarrow> int" where
  "postinc_get_transfers_finished = get_transfers_finished 13"

definition postinc_module_init :: "kernel \<Rightarrow> sc_world \<Rightarrow> int \<times> sc_world" where
  "postinc_module_init K w =
     run_transfers (request_dma K (sc_call K)) K (sc_call K) 13
       (amode_config K OMAP_DMA_AMODE_POST_INC 512 0 0)
       postinc_get_transfers_finished postinc_check_test_passed w"

definition postinc_module_exit :: "kernel \<Rightarrow> sc_world \<Rightarrow> sc_world" where
  "postinc_module_exit K = stop_all (sc_call K) 13"

definition singleidx_check_test_passed :: "sc_world \<Rightarrow> sc_world" where
  "singleidx_check_test_passed = check_test_passed 13"

definition singleidx_get_transfers_finished :: "sc_world \<Rightarrow> int" where
  "singleidx_get_transfers_finished = get_transfers_finished 13"

definition singleidx_module_init :: "kernel \<Rightarrow> sc_world \<Rightarrow> int \<times> sc_world" where
  "singleidx_module_init K w =
     run_transfers (request_dma K (sc_call K)) K (sc_call K) 13
       (amode_config K OMAP_DMA_AMODE_SINGLE_IDX 1024 1 0)
       singleidx_get_transfers_finished singleidx_check_test_passed w"

definition singleidx_module_exit :: "kernel \<Rightarrow> sc_world \<Rightarrow> sc_world" where
  "singleidx_module_exit K = stop_all (sc_call K) 13"

definition doubleidx_check_test_passed :: "sc_world \<Rightarrow> sc_world" where
  "doubleidx_check_test_passed = check_test_passed 13"

definition doubleidx_get_transfers_finished :: "sc_world \<Rightarrow> int" where
  "doubleidx_get_transfers_finished = get_transfers_finished 13"

definition doubleidx_module_init :: "kernel \<Rightarrow> sc_world \<Rightarrow> int \<times> sc_world" where
  "doubleidx_module_init K w =
     run_transfers (request_dma K (sc_call K)) K (sc_call K) 13
       (amode_config K OMAP_DMA_AMODE_DOUBLE_IDX 10240 1 1)
       doubleidx_get_transfers_finished doubleidx_check_test_passed w"

definition doubleidx_module_exit :: "kernel \<Rightarrow> sc_world \<Rightarrow> sc_world" where
  "doubleidx_module_exit K = stop_all (sc_call K) 13"

text \<open>
  \<^verbatim>\<open>dma_addrmode_constant.c\<close> brings its own comparison (by index), callback and request function.
\<close>

fun constant_verify_loop :: "memory \<Rightarrow> u32 \<Rightarrow> u32 \<Rightarrow> nat \<Rightarrow> nat \<Rightarrow> int" where
  "constant_verify_loop m src_address dest_address i 0 = 0"
| "constant_verify_loop m src_address dest_address i (Suc n) =
     (if m (src_address + of_nat i) \<noteq> m (dest_address + of_nat i) then 1
      else constant_verify_loop m src_address dest_address (Suc i) n)"

definition constant_verify_buffers :: "memory \<Rightarrow> dma_buffers_info \<Rightarrow> int" where
  "constant_verify_buffers m b =
     constant_verify_loop m (src_buf b) (dest_buf b) 0 (unat (buf_size b))"

definition constant_dma_callback :: "kernel \<Rightarrow> 'a sc_world_scheme handler" where
  "constant_dma_callback K lch st i w =
     (if i < length (transfers w) then
        let w1 = tr_upd i (\<lambda>t. t\<lparr>data_correct := 0, finished := 1\<rparr>) w;
            w2 = unmap_phys_buffers (kcall_irq K) i w1
        in if status_ok K st
           then let error = constant_verify_buffers (mem w2) (bufs w2 i)
                in if error \<noteq> 0 then w2 else tr_upd i (\<lambda>t. t\<lparr>data_correct := 1\<rparr>) w2
           else w2
      else w)"

definition constant_request_dma :: "kernel \<Rightarrow> (kcall \<Rightarrow> 'a sc_world_scheme \<Rightarrow> 'a sc_world_scheme)
    \<Rightarrow> nat \<Rightarrow> 'a sc_world_scheme \<Rightarrow> int \<times> 'a sc_world_scheme" where
  "constant_request_dma K call i w =
     (let w = tr_upd i (\<lambda>t. t\<lparr>finished := 0\<rparr>) w;
          c = Omap_request_dma (device_id (transfers w ! i)) i;
          success = kcall_ret K c w;
          out = kcall_out K c w;
          w = call c w;
          w = (case out of None \<Rightarrow> w | Some ch \<Rightarrow> tr_upd i (\<lambda>t. t\<lparr>transfer_id := ch\<rparr>) w)
      in if success \<noteq> 0 then (1, tr_upd i (\<lambda>t. t\<lparr>request_success := 0\<rparr>) w)
         else (0, tr_upd i (\<lambda>t. t\<lparr>request_success := 1\<rparr>) w))"

abbreviation constant_call :: "kernel \<Rightarrow> kcall \<Rightarrow> 'a sc_world_scheme \<Rightarrow> 'a sc_world_scheme" where
  "constant_call K \<equiv> kcall_thread K (constant_dma_callback K)"

definition constant_check_test_passed :: "sc_world \<Rightarrow> sc_world" where
  "constant_check_test_passed = check_test_passed 13"

definition constant_get_transfers_finished :: "sc_world \<Rightarrow> int" where
  "constant_get_transfers_finished = get_transfers_finished 13"

definition constant_module_init :: "kernel \<Rightarrow> sc_world \<Rightarrow> int \<times> sc_world" where
  "constant_module_init K w =
     run_transfers (constant_request_dma K (constant_call K)) K (constant_call K) 13
       (amode_config K OMAP_DMA_AMODE_POST_INC 128 0 0)
       constant_get_transfers_finished constant_check_test_passed w"

definition constant_module_exit :: "kernel \<Rightarrow> sc_world \<Rightarrow> sc_world" where
  "constant_module_exit K = stop_all (constant_call K) 13"

text \<open>The eight modules: file name, number of transfers, initialisation and exit functions.\<close>

definition standard_modules :: "kernel \<Rightarrow>
    (string \<times> nat \<times> (sc_world \<Rightarrow> int \<times> sc_world) \<times> (sc_world \<Rightarrow> sc_world)) list" where
  "standard_modules K =
     [(''dma_burst_mode4'', 3, burst4_module_init K, burst4_module_exit K),
      (''dma_burst_mode8'', 3, burst8_module_init K, burst8_module_exit K),
      (''dma_burst_mode16'', 3, burst16_module_init K, burst16_module_exit K),
      (''dma_burst_disabled'', 3, burstdis_module_init K, burstdis_module_exit K),
      (''dma_addrmode_postinc'', 13, postinc_module_init K, postinc_module_exit K),
      (''dma_addrmode_singleidx'', 13, singleidx_module_init K, singleidx_module_exit K),
      (''dma_addrmode_doubleidx'', 13, doubleidx_module_init K, doubleidx_module_exit K),
      (''dma_addrmode_constant'', 13, constant_module_init K, constant_module_exit K)]"

section \<open>The copies in dma_addrmode_constant.c agree with the common module\<close>

lemma constant_verify_loop_spec:
  "constant_verify_loop m s d i n = verify_loop m (s + of_nat i) (d + of_nat i) n"
  by (induction n arbitrary: i) (simp_all add: ac_simps)

lemma constant_verify_buffers_eq: "constant_verify_buffers = verify_buffers"
  by (simp add: fun_eq_iff constant_verify_buffers_def verify_buffers_def constant_verify_loop_spec)

lemma constant_dma_callback_eq: "constant_dma_callback = dma_callback"
  by (simp add: fun_eq_iff constant_dma_callback_def dma_callback_def Let_def
      constant_verify_buffers_eq)

lemma constant_request_dma_eq: "constant_request_dma = request_dma"
  by (simp add: fun_eq_iff constant_request_dma_def request_dma_def)

section \<open>Checks\<close>

lemma fold_data_error:
  "fold (\<lambda>t error. if data_correct t = 0 then 1 else error) ts (e :: int) =
     (if \<exists>t \<in> set ts. data_correct t = 0 then 1 else e)"
  by (induction ts arbitrary: e) auto

lemma data_error_spec: "data_error ts = (if \<exists>t \<in> set ts. data_correct t = 0 then 1 else 0)"
  by (simp add: data_error_def fold_data_error)

lemma check_test_passed_spec:
  "check_test_passed n w =
     set_test_passed (if \<forall>t \<in> set (take n (transfers w)). data_correct t \<noteq> 0 then 1 else 0) w"
  by (simp add: check_test_passed_def data_error_spec)

lemma finished_loop_spec: "finished_loop ts = (if \<forall>t \<in> set ts. finished t \<noteq> 0 then 1 else 0)"
  by (induction ts) auto

lemma get_transfers_finished_spec:
  "get_transfers_finished n w \<noteq> 0 \<longleftrightarrow> (\<forall>t \<in> set (take n (transfers w)). finished t \<noteq> 0)"
  by (simp add: get_transfers_finished_def finished_loop_spec)

lemmas module_defs =
  burst4_module_init_def burst4_module_exit_def burst4_check_test_passed_def
  burst4_get_transfers_finished_def
  burst8_module_init_def burst8_module_exit_def burst8_check_test_passed_def
  burst8_get_transfers_finished_def
  burst16_module_init_def burst16_module_exit_def burst16_check_test_passed_def
  burst16_get_transfers_finished_def
  burstdis_module_init_def burstdis_module_exit_def burstdis_check_test_passed_def
  burstdis_get_transfers_finished_def
  postinc_module_init_def postinc_module_exit_def postinc_check_test_passed_def
  postinc_get_transfers_finished_def
  singleidx_module_init_def singleidx_module_exit_def singleidx_check_test_passed_def
  singleidx_get_transfers_finished_def
  doubleidx_module_init_def doubleidx_module_exit_def doubleidx_check_test_passed_def
  doubleidx_get_transfers_finished_def
  constant_module_init_def constant_module_exit_def constant_check_test_passed_def
  constant_get_transfers_finished_def
  constant_request_dma_eq constant_dma_callback_eq

section \<open>Ownership through initialisation and exit\<close>

text \<open>A configuration step does not touch what the ownership of a transfer depends on.\<close>

definition config_frame :: "(nat \<Rightarrow> dma_transfer \<Rightarrow> dma_transfer) \<Rightarrow> bool" where
  "config_frame config \<longleftrightarrow> (\<forall>i t. request_success (config i t) = request_success t \<and>
     transfer_id (config i t) = transfer_id t \<and>
     src_buf (buffers (config i t)) = src_buf (buffers t) \<and>
     dest_buf (buffers (config i t)) = dest_buf (buffers t) \<and>
     data_correct (config i t) = data_correct t \<and> finished (config i t) = finished t)"

text \<open>Transfers below \<open>i\<close> may own things, the others are untouched.\<close>

definition staged :: "nat \<Rightarrow> nat \<Rightarrow> 'a sc_world_scheme \<Rightarrow> bool" where
  "staged n i w \<longleftrightarrow> length (transfers w) = n \<and> owned w \<and>
     (\<forall>j. i \<le> j \<longrightarrow> j < n \<longrightarrow> unused (transfers w ! j))"

lemma staged_config:
  assumes "config_frame config" and "staged n i w"
  shows "staged n i (tr_upd j (config j) w)"
proof (cases "j < n")
  case True
  with assms show ?thesis
    by (auto simp: staged_def owned_def config_frame_def unused_def nth_list_update)
next
  case False
  with assms(2) show ?thesis by (simp add: staged_def owned_def list_update_beyond)
qed

lemma owned_set_test_passed [simp]: "owned (set_test_passed p w) = owned w"
  by (simp add: owned_def)

lemma owned_fill [simp]: "owned (fill_source_buffer i w) = owned w"
  by (simp add: owned_def)

text \<open>The ownership invariant of a module with \<open>n\<close> transfers.\<close>

definition kept :: "nat \<Rightarrow> 'a sc_world_scheme \<Rightarrow> bool" where
  "kept n w \<longleftrightarrow> owned w \<and> length (transfers w) = n"

context sc_caller
begin

lemma prepare_owned:
  assumes "grants_channel K" and "i < length (transfers w)" and "unused (transfers w ! i)" and "owned w"
  defines "p \<equiv> prepare_transfer (request_dma K call) K call i w"
  shows "owned (snd p)" and "length (transfers (snd p)) = length (transfers w)"
    and "j < length (transfers w) \<Longrightarrow> j \<noteq> i \<Longrightarrow> unused (transfers w ! j) \<Longrightarrow>
      unused (transfers (snd p) ! j)"
proof -
  obtain e1 w1 where r: "request_dma K call i w = (e1, w1)" by fastforce
  obtain e2 w2 where c: "create_transfer_buffers K call i w1 = (e2, w2)" by fastforce
  have l1: "length (transfers w1) = length (transfers w)" using request_dma_length[of i w] r by simp
  have l2: "length (transfers w2) = length (transfers w)"
    using create_transfer_buffers_length[of i w1] l1 c by simp
  have o1: "owned w1" using request_dma_owned[OF assms(1-4)] r by simp
  have o2: "owned w2" if "e1 = 0"
    using create_transfer_buffers_owned[of i w1] request_dma_self[OF assms(2,3)] that r c o1 l1 assms(2)
    by simp
  show "owned (snd p)"
    using r c o1 o2 l2 assms(2) by (simp add: p_def prepare_transfer_def setup_dma_transfer_owned)
  show "length (transfers (snd p)) = length (transfers w)"
    using r c l1 l2 by (simp add: p_def prepare_transfer_def)
  assume j: "j < length (transfers w)" "j \<noteq> i" "unused (transfers w ! j)"
  have u1: "unused (transfers w1 ! j)" using request_dma_other[of i w j] assms(2) j r by simp
  then have "unused (transfers w2 ! j)"
    using create_transfer_buffers_other[of i w1 j] l1 c j assms(2) by simp
  with u1 r c l2 j assms(2) show "unused (transfers (snd p) ! j)"
    by (simp add: p_def prepare_transfer_def setup_dma_transfer_unused)
qed

lemma prepare_staged:
  assumes "grants_channel K" and "staged n i w" and "i < n"
  shows "owned (snd (prepare_transfer (request_dma K call) K call i w))"
    and "length (transfers (snd (prepare_transfer (request_dma K call) K call i w))) = n"
    and "staged n (Suc i) (snd (prepare_transfer (request_dma K call) K call i w))"
proof -
  from assms have "i < length (transfers w)" "unused (transfers w ! i)" "owned w"
    and l: "length (transfers w) = n" by (auto simp: staged_def)
  note p = prepare_owned [OF assms(1) this(1-3)]
  show "owned (snd (prepare_transfer (request_dma K call) K call i w))"
    and "length (transfers (snd (prepare_transfer (request_dma K call) K call i w))) = n"
    using p(1,2) l by simp_all
  then show "staged n (Suc i) (snd (prepare_transfer (request_dma K call) K call i w))"
    using p(3) assms(2) l by (simp add: staged_def)
qed

lemma prepare_loop_kept:
  assumes "grants_channel K" and "config_frame config" and "staged n 0 w"
  shows "kept n (snd (for_or_fail
    (\<lambda>i w. prepare_transfer (request_dma K call) K call i (tr_upd i (config i) w)) 0 n w))"
    (is "kept n (snd (for_or_fail ?step 0 n w))")
proof -
  have "if fst (for_or_fail ?step 0 n w) = 0
      then staged n (0 + n) (snd (for_or_fail ?step 0 n w))
      else kept n (snd (for_or_fail ?step 0 n w))"
  proof (rule for_or_fail_inv)
    fix j and w :: "'a sc_world_scheme"
    assume j: "j < 0 + n" and s: "staged n j w"
    note p = prepare_staged[OF assms(1) staged_config[OF assms(2) s, of j]]
    show "fst (?step j w) = 0 \<Longrightarrow> staged n (Suc j) (snd (?step j w))"
      and "kept n (snd (?step j w))"
      using p j by (simp_all add: kept_def)
  qed (rule assms(3))
  then show ?thesis by (auto simp: staged_def kept_def split: if_splits)
qed

lemma call_kept: "neutral c \<Longrightarrow> kept n w \<Longrightarrow> kept n (call c w)"
  by (simp add: kept_def call_owned)

lemma check_kept: "kept n w \<Longrightarrow> kept n (check_test_passed m w)"
  by (simp add: check_test_passed_spec kept_def)

lemma start_and_poll_kept:
  assumes "\<And>w. kept n w \<Longrightarrow> kept n (check w)" and "kept n w"
  shows "kept n (snd (start_and_poll call n fin check w))"
proof -
  let ?w = "for_each (start_dma_transfer call) 0 n w"
  have "kept n ?w"
    by (rule for_each_keeps) (use assms(2) in \<open>simp_all add: start_dma_transfer_def call_kept\<close>)
  then have "kept n (snd (poll_loop (\<lambda>w. fin w \<noteq> 0) (call (Mdelay TRANSFER_POLL_TIME)) check
      TRANSFER_POLL_COUNT ?w))"
    by (rule poll_loop_keeps [rotated 2]) (simp_all add: call_kept assms(1))
  then show ?thesis
    by (auto simp: start_and_poll_def kept_def split: prod.splits)
qed

lemma run_transfers_kept:
  assumes "grants_channel K" and "config_frame config" and "staged n 0 w"
    and "\<And>w. kept n w \<Longrightarrow> kept n (check w)"
  shows "kept n (snd (run_transfers (request_dma K call) K call n config fin check w))"
  using prepare_loop_kept[OF assms(1-3)] start_and_poll_kept[OF assms(4)]
  by (auto simp: run_transfers_def split: prod.splits)

lemma stop_all_released:
  assumes "kept n w"
  shows "chan_balance (trace (stop_all call n w)) ch = 0"
    and "a \<noteq> 0 \<Longrightarrow> alloc_balance (trace (stop_all call n w)) a = 0"
proof -
  let ?P = "\<lambda>i w. kept n w \<and> (\<forall>j<i. request_success (transfers w ! j) = 0)"
  have "?P (0 + n) (for_each (\<lambda>i w. snd (stop_dma_transfer call i w)) 0 n w)"
  proof (rule for_each_inv)
    fix i and w :: "'a sc_world_scheme"
    assume i: "i < 0 + n" and P: "?P i w"
    then have l: "length (transfers w) = n" by (simp add: kept_def)
    let ?w = "snd (stop_dma_transfer call i w)"
    have "kept n ?w" using i P by (simp add: kept_def stop_dma_transfer_owned)
    moreover have "request_success (transfers ?w ! j) = 0" if "j < Suc i" for j
      using that i l P stop_dma_transfer_released[of i w] stop_dma_transfer_other[of i w j]
      by (cases "j = i") (auto simp: less_Suc_eq)
    ultimately show "?P (Suc i) ?w" by simp
  qed (use assms in simp)
  then have o: "owned (stop_all call n w)"
    and z: "\<forall>t \<in> set (transfers (stop_all call n w)). request_success t = 0"
    by (auto simp: stop_all_def kept_def in_set_conv_nth)
  from z have "own_chan (transfers (stop_all call n w)) ch = 0"
    and "own_buf (transfers (stop_all call n w)) a = 0"
    by (auto simp: own_chan_def own_buf_def filter_empty_conv)
  with o show "chan_balance (trace (stop_all call n w)) ch = 0"
    and "a \<noteq> 0 \<Longrightarrow> alloc_balance (trace (stop_all call n w)) a = 0"
    by (simp_all add: owned_def)
qed

end

section \<open>What a positive verdict of a module means\<close>

context setup_invariant
begin

lemma prepare_transfer_I:
  "I w \<Longrightarrow> I (snd (prepare_transfer (request_dma K call) K call i w))"
  using request_dma_I[of w i] create_transfer_buffers_I[of "snd (request_dma K call i w)" i]
  by (auto simp: prepare_transfer_def passed_I setup_dma_transfer_I fill_source_buffer_I
      split: prod.splits)

end

lemma prepare_transfer_fail:
  "fst (prepare_transfer request K call i w) \<noteq> 0 \<Longrightarrow>
     fst (prepare_transfer request K call i w) = 1 \<and>
     test_passed (snd (prepare_transfer request K call i w)) = 0"
  by (auto simp: prepare_transfer_def split: prod.splits if_splits)

lemma start_and_poll_inv:
  assumes "J w" and calls: "\<And>c w. J w \<Longrightarrow> neutral c \<Longrightarrow> J (call c w)"
    and check: "\<And>w. J w \<Longrightarrow> Q (check w)"
  shows "fst (start_and_poll call n fin check w) = 0 \<and> Q (snd (start_and_poll call n fin check w)) \<or>
    test_passed (snd (start_and_poll call n fin check w)) = 0"
proof -
  let ?w = "for_each (start_dma_transfer call) 0 n w"
  let ?p = "poll_loop (\<lambda>w. fin w \<noteq> 0) (call (Mdelay TRANSFER_POLL_TIME)) check TRANSFER_POLL_COUNT ?w"
  have "J ?w"
    by (rule for_each_keeps) (use assms in \<open>simp_all add: start_dma_transfer_def\<close>)
  then have "if fst ?p then Q (snd ?p) else J (snd ?p)"
    by (rule poll_loop_inv [rotated 2]) (simp_all add: calls check)
  then show ?thesis
    by (auto simp: start_and_poll_def split: prod.splits if_splits)
qed

context sc_caller
begin

lemma prepare_transfer_length:
  "length (transfers (snd (prepare_transfer (request_dma K call) K call i w)))
    = length (transfers w)"
  by (simp add: prepare_transfer_def case_prod_beta)

lemma prepare_loop_verdict:
  assumes "setup_invariant call I"
    and "config_frame config" and "I w" and "length (transfers w) = n"
  defines "step \<equiv> \<lambda>i w. prepare_transfer (request_dma K call) K call i (tr_upd i (config i) w)"
  shows "if fst (for_or_fail step 0 n w) = 0
    then I (snd (for_or_fail step 0 n w)) \<and> length (transfers (snd (for_or_fail step 0 n w))) = n
    else test_passed (snd (for_or_fail step 0 n w)) = 0"
proof (rule for_or_fail_inv [where P = "\<lambda>_ w. I w \<and> length (transfers w) = n"])
  fix j and w :: "'a sc_world_scheme"
  assume w: "I w \<and> length (transfers w) = n"
  then have "I (tr_upd j (config j) w)"
    using assms(2) by (intro setup_invariant.upd_I [OF assms(1)]) (auto simp: config_frame_def flag_frame_def)
  then show "I (snd (step j w)) \<and> length (transfers (snd (step j w))) = n"
    using setup_invariant.prepare_transfer_I [OF assms(1)] w
    by (simp add: step_def prepare_transfer_length)
next
  fix j and w :: "'a sc_world_scheme"
  assume "fst (step j w) \<noteq> 0"
  then show "test_passed (snd (step j w)) = 0" by (simp add: step_def prepare_transfer_fail)
qed (use assms in simp)

text \<open>
  The verdict of a whole run: the set-up phase keeps \<open>I\<close>, the started phase keeps \<open>J\<close>, and the
  final check turns \<open>J\<close> into \<open>Q\<close>; on every other way out the verdict is FAILED.
\<close>

lemma run_transfers_inv:
  assumes "setup_invariant call I" and "config_frame config" and "I w" and "length (transfers w) = n"
    and start: "\<And>w. I w \<Longrightarrow> length (transfers w) = n \<Longrightarrow> J w"
    and calls: "\<And>c w. J w \<Longrightarrow> neutral c \<Longrightarrow> J (call c w)"
    and check: "\<And>w. J w \<Longrightarrow> Q (check w)"
    and run: "run_transfers (request_dma K call) K call n config fin check w = (r, w')"
  shows "r = 0 \<and> Q w' \<or> test_passed w' = 0"
proof -
  obtain e w1 where f: "for_or_fail (\<lambda>i w. prepare_transfer (request_dma K call) K call i
      (tr_upd i (config i) w)) 0 n w = (e, w1)" by fastforce
  have l: "if e = 0 then I w1 \<and> length (transfers w1) = n else test_passed w1 = 0"
    using prepare_loop_verdict [OF assms(1-4)] f by (simp split: if_splits)
  show ?thesis
  proof (cases "e = 0")
    case True
    with l start have "J w1" by simp
    from start_and_poll_inv [where call = call and J = J and Q = Q and check = check, OF this calls check, where n = n and fin = fin] True f run show ?thesis
      by (auto simp: run_transfers_def)
  next
    case False
    with l f run show ?thesis by (auto simp: run_transfers_def)
  qed
qed

end

text \<open>The verdict, if positive, is backed by an interrupt for each transfer.\<close>

definition sound_verdict :: "kernel \<Rightarrow> nat \<Rightarrow> 'a sc_world_scheme \<Rightarrow> bool" where
  "sound_verdict K n w \<longleftrightarrow>
     test_passed w = 0 \<or> test_passed w = 1 \<and> (\<forall>i<n. verified K w i)"

lemma verified_set_test_passed [simp]: "verified K (set_test_passed p w) = verified K w"
  by (simp add: fun_eq_iff verified_def)

lemma check_test_passed_sound:
  assumes "verdicts_backed K w" and "length (transfers w) = n"
  shows "sound_verdict K n (check_test_passed n w)"
  using assms by (auto simp: check_test_passed_spec sound_verdict_def verdicts_backed_def)

lemma backed_kcall_irq: "verdicts_backed K w \<Longrightarrow> verdicts_backed K (kcall_irq K c w)"
  by (simp add: verdicts_backed_def verified_def)

text \<open>
  A callback that keeps the transfers apart from their flags, and under which every positive flag
  is backed by an interrupt.
\<close>

locale sc_handler = irq_frame h sc_view + irq_invariant h "verdicts_backed K"
  for K :: kernel and h :: "'a sc_world_scheme handler"

sublocale sc_handler \<subseteq> thread: sc_caller K "kcall_thread K h"
  by unfold_locales (rule kcall_thread_view)

context sc_handler
begin

lemma backed_thread: "verdicts_backed K w \<Longrightarrow> verdicts_backed K (kcall_thread K h c w)"
  by (intro kcall_thread_inv backed_kcall_irq)

lemma run_transfers_sound:
  assumes "irq_after_start K" and "config_frame config" and "quiet w"
    and "length (transfers w) = n"
    and check: "\<And>w. verdicts_backed K w \<Longrightarrow> length (transfers w) = n \<Longrightarrow> sound_verdict K n (check w)"
    and run: "run_transfers (request_dma K (kcall_thread K h)) K (kcall_thread K h) n config fin
      check w = (r, w')"
  shows "sound_verdict K n w' \<and> (test_passed w' \<noteq> 0 \<longrightarrow> r = 0)"
proof -
  have "r = 0 \<and> sound_verdict K n w' \<or> test_passed w' = 0"
    by (rule thread.run_transfers_inv [where J = "\<lambda>w. verdicts_backed K w \<and> length (transfers w) = n",
          OF quiet_thread [OF assms(1)] assms(2-4) _ _ _ run])
      (simp_all add: quiet_backed backed_thread check)
  then show ?thesis by (auto simp: sound_verdict_def)
qed

end

interpretation sc_cb: sc_handler K "dma_callback K :: 'a sc_world_scheme handler" for K
  by unfold_locales

text \<open>An invariant of the whole run: starting a channel keeps it too.\<close>

locale run_invariant = setup_invariant K call I
  for K :: kernel and call :: "kcall \<Rightarrow> 'a sc_world_scheme \<Rightarrow> 'a sc_world_scheme"
    and I :: "'a sc_world_scheme \<Rightarrow> bool" +
  assumes start_I: "I w \<Longrightarrow> I (call (Omap_start_dma ch) w)"
begin

lemma run_call_I: "I w \<Longrightarrow> \<not> gives_back c \<Longrightarrow> I (call c w)"
  using call_I start_I by (cases c) simp_all

lemma start_and_poll_I:
  assumes "\<And>w. I w \<Longrightarrow> I (check w)" and "I w"
  shows "I (snd (start_and_poll call n fin check w))"
proof -
  have "I (for_each (start_dma_transfer call) 0 n w)"
    by (rule for_each_keeps) (simp_all add: assms(2) start_dma_transfer_def run_call_I)
  then have "I (snd (poll_loop (\<lambda>w. fin w \<noteq> 0) (call (Mdelay TRANSFER_POLL_TIME)) check
      TRANSFER_POLL_COUNT (for_each (start_dma_transfer call) 0 n w)))"
    by (rule poll_loop_keeps [rotated 2]) (simp_all add: run_call_I assms(1))
  then show ?thesis by (simp add: start_and_poll_def passed_I case_prod_beta)
qed

lemma run_transfers_I:
  assumes "config_frame config" and "\<And>w. I w \<Longrightarrow> I (check w)" and "I w"
  shows "I (snd (run_transfers (request_dma K call) K call n config fin check w))"
proof -
  let ?step = "\<lambda>i w. prepare_transfer (request_dma K call) K call i (tr_upd i (config i) w)"
  have step: "I (snd (?step j w))" if "I w" for j w
    using that assms(1)
    by (intro prepare_transfer_I upd_I) (auto simp: config_frame_def flag_frame_def)
  have "if fst (for_or_fail ?step 0 n w) = 0 then I (snd (for_or_fail ?step 0 n w))
      else I (snd (for_or_fail ?step 0 n w))"
    by (rule for_or_fail_inv [where P = "\<lambda>_. I"]) (simp_all add: step assms(3))
  then have "I (snd (for_or_fail ?step 0 n w))" by simp
  then show ?thesis
    by (auto simp: run_transfers_def start_and_poll_I assms(2) split: prod.splits)
qed

end

text \<open>An invariant that giving channels and buffers back keeps as well.\<close>

locale exit_invariant = run_invariant K call I
  for K :: kernel and call :: "kcall \<Rightarrow> 'a sc_world_scheme \<Rightarrow> 'a sc_world_scheme"
    and I :: "'a sc_world_scheme \<Rightarrow> bool" +
  assumes give_I: "gives_back c \<Longrightarrow> I w \<Longrightarrow> I (call c w)"
begin

lemma any_call_I: "I w \<Longrightarrow> I (call c w)"
  using run_call_I give_I by blast

lemma stop_dma_transfer_I: "I w \<Longrightarrow> I (snd (stop_dma_transfer call i w))"
  by (simp add: stop_dma_transfer_def Let_def any_call_I upd_I flag_frame_def)

lemma stop_all_I: "I w \<Longrightarrow> I (stop_all call n w)"
  unfolding stop_all_def by (rule for_each_keeps) (simp_all add: stop_dma_transfer_I)

end

section \<open>The modules on a conforming DMA engine\<close>

text \<open>
  A kernel on which every request and every allocation succeeds, and whose engine, while the
  module waits, completes all \<open>n\<close> transfers: it makes each destination buffer equal to its
  source buffer and then runs the callback of each transfer with status 0. The buffers are those
  the history allocated, source and destination alternating.
\<close>

definition grants_all :: "kernel \<Rightarrow> bool" where
  "grants_all K \<longleftrightarrow>
     (\<forall>h dev i. k_ret K h (Omap_request_dma dev i) = 0) \<and>
     (\<forall>h sz. (word_of_int (k_ret K h (Kmalloc sz)) :: u32) \<noteq> 0)"

text \<open>The largest block \<^verbatim>\<open>kmalloc\<close> hands out on the platform: 4 MB.\<close>

definition max_alloc :: nat where
  "max_alloc = 2 ^ 22"

definition started :: "history \<Rightarrow> bool" where
  "started h \<longleftrightarrow> (\<exists>e \<in> set h. is_start e)"

definition engine_copies :: "kernel \<Rightarrow> nat \<Rightarrow> bool" where
  "engine_copies K n \<longleftrightarrow>
     (\<forall>h t r out. consistent K h \<longrightarrow> started h \<longrightarrow> length (allocs h) = 2 * n \<longrightarrow>
        (\<forall>x \<in> set (allocs h). unat (snd x) \<le> max_alloc) \<longrightarrow>
        (\<exists>f. k_events K (Called (Mdelay t) r out # h) = Device f # map (\<lambda>i. Irq (int i) 0 i) [0..<n] \<and>
          (\<forall>m i. i < n \<longrightarrow> bytes_equal (f m) (fst (allocs h ! (2 * i))) (fst (allocs h ! (2 * i + 1)))
             (unat (snd (allocs h ! (2 * i)))))))"

text \<open>The first \<open>i\<close> transfers use the buffers the history allocated.\<close>

definition built :: "nat \<Rightarrow> nat \<Rightarrow> 'a sc_world_scheme \<Rightarrow> bool" where
  "built n i w \<longleftrightarrow> length (transfers w) = n \<and>
     length (allocs (trace w)) = 2 * i \<and>
     (\<forall>j<i. allocs (trace w) ! (2 * j) = (src_buf (bufs w j), buf_size (bufs w j)) \<and>
        allocs (trace w) ! (2 * j + 1) = (dest_buf (bufs w j), buf_size (bufs w j)) \<and>
        unat (buf_size (bufs w j)) \<le> max_alloc)"

lemma built_alloc_sizes:
  assumes "built n n w" and "x \<in> set (allocs (trace w))"
  shows "unat (snd x) \<le> max_alloc"
proof -
  from assms obtain k where k: "k < 2 * n" and x: "x = allocs (trace w) ! k"
    by (auto simp: built_def in_set_conv_nth)
  have j: "k div 2 < n" using k by simp
  show ?thesis
  proof (cases "even k")
    case True
    then have "k = 2 * (k div 2)" by simp
    with assms(1) j x show ?thesis unfolding built_def by (metis snd_conv)
  next
    case False
    then have "k = 2 * (k div 2) + 1" by simp
    with assms(1) j x show ?thesis unfolding built_def by (metis snd_conv)
  qed
qed


text \<open>The configured buffers are small enough to be allocated.\<close>

definition config_size :: "(nat \<Rightarrow> dma_transfer \<Rightarrow> dma_transfer) \<Rightarrow> nat \<Rightarrow> bool" where
  "config_size config n \<longleftrightarrow> (\<forall>i<n. \<forall>t. unat (buf_size (buffers (config i t))) \<le> max_alloc)"

lemma built_fill [simp]: "built n i (fill_source_buffer j w) = built n i w"
  by (simp add: built_def)

lemma built_config:
  assumes "built n i w" and "i < n"
  shows "built n i (tr_upd i f w)"
  using assms by (simp add: built_def)

context sc_caller
begin

lemma call_built: "neutral c \<Longrightarrow> built n i w \<Longrightarrow> i \<le> n \<Longrightarrow> built n i (call c w)"
  by (auto simp: built_def)

lemma request_dma_built:
  assumes "built n i w" and "i < n"
  shows "built n i (snd (request_dma K call i w))"
  using assms by (simp add: request_dma_def Let_def built_def split: option.splits)

lemma create_transfer_buffers_built:
  assumes "built n i w" and "i < n" and "unat (buf_size (bufs w i)) \<le> max_alloc"
  shows "built n (Suc i) (snd (create_transfer_buffers K call i w))"
  using assms by (auto simp: create_transfer_buffers_def Let_def built_def less_Suc_eq nth_append)

lemma request_dma_size:
  "i < length (transfers w) \<Longrightarrow> buf_size (bufs (snd (request_dma K call i w)) i) = buf_size (bufs w i)"
  by (simp add: request_dma_def Let_def split: option.splits)

lemma create_transfer_buffers_ok:
  assumes "grants_all K" and "i < length (transfers w)"
  shows "fst (create_transfer_buffers K call i w) = 0"
  using assms by (simp add: create_transfer_buffers_def Let_def grants_all_def kcall_ret_def)

lemma request_dma_ok: "grants_all K \<Longrightarrow> fst (request_dma K call i w) = 0"
  by (simp add: request_dma_def Let_def grants_all_def kcall_ret_def)

lemma map_to_phys_buffers_bufs:
  assumes "i < length (transfers w)" and "j < length (transfers w)"
  shows "src_buf (bufs (map_to_phys_buffers K call i w) j) = src_buf (bufs w j)"
    "dest_buf (bufs (map_to_phys_buffers K call i w) j) = dest_buf (bufs w j)"
    "buf_size (bufs (map_to_phys_buffers K call i w) j) = buf_size (bufs w j)"
  using assms by (cases "j = i"; simp add: map_to_phys_buffers_def Let_def)+

lemma setup_dma_transfer_built:
  assumes "built n k w" and "i < n" and "k \<le> n"
  shows "built n k (setup_dma_transfer K call i w)"
proof -
  let ?w1 = "tr_upd i (\<lambda>t. t\<lparr>elements_in_frame :=
                frame_elements K (data_type t) (buf_size (buffers t)) (elements_in_frame t)\<rparr>)
          (tr_upd i (\<lambda>t. t\<lparr>frame_count := 1\<rparr>) w)"
  have "built n k ?w1"
    using assms by (auto simp: built_def nth_list_update)
  moreover have "allocs (trace (map_to_phys_buffers K call i ?w1)) = allocs (trace ?w1)"
    by (simp add: map_to_phys_buffers_def Let_def)
  ultimately have "built n k (map_to_phys_buffers K call i ?w1)"
    using assms by (simp add: built_def map_to_phys_buffers_bufs)
  then show ?thesis using assms(3) by (simp add: setup_dma_transfer_def Let_def call_built)
qed

lemma prepare_transfer_built:
  assumes "grants_all K" and "built n i w" and "i < n" and "unat (buf_size (bufs w i)) \<le> max_alloc"
  shows "fst (prepare_transfer (request_dma K call) K call i w) = 0"
    and "built n (Suc i) (snd (prepare_transfer (request_dma K call) K call i w))"
proof -
  let ?w1 = "snd (request_dma K call i w)"
  have b: "built n i ?w1" by (rule request_dma_built [OF assms(2,3)])
  have sz: "unat (buf_size (bufs ?w1 i)) \<le> max_alloc"
    using assms(2-4) request_dma_size[of i w] by (simp add: built_def)
  from b have "i < length (transfers ?w1)" using assms(3) by (simp add: built_def)
  with assms(1) have "fst (create_transfer_buffers K call i ?w1) = 0"
    by (rule create_transfer_buffers_ok)
  with assms b sz show "fst (prepare_transfer (request_dma K call) K call i w) = 0"
    and "built n (Suc i) (snd (prepare_transfer (request_dma K call) K call i w))"
    by (simp_all add: prepare_transfer_def case_prod_beta request_dma_ok
        create_transfer_buffers_built setup_dma_transfer_built)
qed

lemma prepare_loop_built:
  fixes config :: "nat \<Rightarrow> dma_transfer \<Rightarrow> dma_transfer"
  assumes "grants_all K" and "built n 0 w" and "config_size config n"
  defines "step \<equiv> \<lambda>i w. prepare_transfer (request_dma K call) K call i (tr_upd i (config i) w)"
  shows "fst (for_or_fail step 0 n w) = 0" and "built n n (snd (for_or_fail step 0 n w))"
proof -
  have "if fst (for_or_fail step 0 n w) = 0 then built n (0 + n) (snd (for_or_fail step 0 n w))
    else False"
  proof (rule for_or_fail_inv)
    fix j and w :: "'a sc_world_scheme"
    assume j: "j < 0 + n" and b: "built n j w"
    then have c: "built n j (tr_upd j (config j) w)" by (simp add: built_config)
    have sz: "unat (buf_size (bufs (tr_upd j (config j) w) j)) \<le> max_alloc"
      using assms(3) j b by (simp add: config_size_def built_def)
    note p = prepare_transfer_built[OF assms(1) c _ sz]
    show "built n (Suc j) (snd (step j w))" and "fst (step j w) \<noteq> 0 \<Longrightarrow> False"
      using p j by (simp_all add: step_def)
  qed (rule assms(2))
  then show "fst (for_or_fail step 0 n w) = 0" and "built n n (snd (for_or_fail step 0 n w))"
    by (simp_all split: if_splits)
qed

end

text \<open>All \<open>n\<close> transfers have finished with correct data.\<close>

definition all_good :: "nat \<Rightarrow> 'a sc_world_scheme \<Rightarrow> bool" where
  "all_good n w \<longleftrightarrow> length (transfers w) = n \<and>
     (\<forall>i<n. finished (transfers w ! i) \<noteq> 0 \<and> data_correct (transfers w ! i) \<noteq> 0)"

lemma dma_callback_mem [simp]: "mem (dma_callback K lch st i w) = mem w"
  by (simp add: dma_callback_def Let_def)

lemma deliver_irqs_good:
  assumes "length (transfers w) = n" and "set is \<subseteq> {..<n}"
    and "\<And>i. i < n \<Longrightarrow> bytes_equal (mem w) (src_buf (bufs w i)) (dest_buf (bufs w i))
          (unat (buf_size (bufs w i)))"
    and "\<And>i. i < n \<Longrightarrow> i \<notin> set is \<Longrightarrow>
          finished (transfers w ! i) \<noteq> 0 \<and> data_correct (transfers w ! i) \<noteq> 0"
  shows "all_good n (deliver (dma_callback K) (map (\<lambda>i. Irq (int i) 0 i) is) w)"
  using assms
proof (induction "is" arbitrary: w)
  case Nil
  then show ?case by (simp add: all_good_def)
next
  case (Cons i js)
  let ?w = "dma_callback K (int i) 0 i (log_ev (Interrupt (int i) 0 i (mem w)) w)"
  have i: "i < length (transfers w)" using Cons.prems(1,2) by simp
  have ts: "transfers ?w = (transfers w)[i := (transfers w ! i)\<lparr>data_correct := 1, finished := 1\<rparr>]"
    using i Cons.prems(1,3) by (simp add: dma_callback_transfers status_ok_def)
  have m: "mem ?w = mem w" by simp
  have "all_good n (deliver (dma_callback K) (map (\<lambda>i. Irq (int i) 0 i) js) ?w)"
  proof (rule Cons.IH)
    show "length (transfers ?w) = n" using Cons.prems(1) ts by simp
    show "set js \<subseteq> {..<n}" using Cons.prems(2) by simp
    show "bytes_equal (mem ?w) (src_buf (bufs ?w j)) (dest_buf (bufs ?w j))
        (unat (buf_size (bufs ?w j)))" if "j < n" for j
      using Cons.prems(1) Cons.prems(3)[OF that] i m unfolding ts
      by (cases "j = i") simp_all
    show "finished (transfers ?w ! j) \<noteq> 0 \<and> data_correct (transfers ?w ! j) \<noteq> 0"
      if "j < n" "j \<notin> set js" for j
      using Cons.prems(1) Cons.prems(4)[OF that(1)] that i unfolding ts
      by (cases "j = i") simp_all
  qed
  then show ?case by simp
qed

lemma wait_good:
  assumes "engine_copies K n" and "built n n w" and "consistent K (trace w)" and "started (trace w)"
  shows "all_good n (sc_call K (Mdelay t) w)"
proof -
  let ?w = "kcall_irq K (Mdelay t) w"
  have "length (allocs (trace w)) = 2 * n" using assms(2) by (simp add: built_def)
  with assms(1,3,4) built_alloc_sizes[OF assms(2)] obtain f where ev: "k_events K (trace ?w) = Device f # map (\<lambda>i. Irq (int i) 0 i) [0..<n]"
    and eq: "\<And>m i. i < n \<Longrightarrow> bytes_equal (f m) (fst (allocs (trace w) ! (2 * i)))
      (fst (allocs (trace w) ! (2 * i + 1))) (unat (snd (allocs (trace w) ! (2 * i))))"
    unfolding engine_copies_def kcall_irq_simps(1) by blast
  have "all_good n (deliver (dma_callback K) (map (\<lambda>i. Irq (int i) 0 i) [0..<n])
      (?w\<lparr>mem := f (mem ?w)\<rparr>))"
    by (rule deliver_irqs_good) (use assms(2) eq in \<open>auto simp: built_def\<close>)
  then show ?thesis by (simp add: kcall_thread_def Let_def ev del: kcall_irq_simps)
qed

interpretation cb_started: irq_invariant "dma_callback K :: 'a sc_world_scheme handler"
  "\<lambda>w. started (trace w)" for K
  by unfold_locales (simp_all add: dma_callback_def unmap_phys_buffers_def Let_def started_def)

lemma started_thread: "started (trace w) \<Longrightarrow> started (trace (sc_call K c w))"
  by (rule cb_started.kcall_thread_inv) (simp add: started_def)

lemma start_starts: "started (trace (start_dma_transfer (sc_call K) i w))"
  unfolding start_dma_transfer_def
  by (rule cb_started.kcall_thread_inv) (simp add: started_def)

lemma good_finished: "all_good n w \<Longrightarrow> get_transfers_finished n w \<noteq> 0"
  by (auto simp: all_good_def get_transfers_finished_spec in_set_conv_nth)

lemma good_passed: "all_good n w \<Longrightarrow> test_passed (check_test_passed n w) = 1"
  by (auto simp: all_good_def check_test_passed_spec in_set_conv_nth)

lemma start_and_poll_passes:
  fixes w :: "'a sc_world_scheme"
  assumes "engine_copies K n" and "built n n w" and "consistent K (trace w)" and "0 < n"
  shows "fst (start_and_poll (sc_call K) n (get_transfers_finished n) (check_test_passed n) w) = 0
    \<and> test_passed (snd (start_and_poll (sc_call K) n (get_transfers_finished n)
        (check_test_passed n) w)) = 1"
proof -
  let ?wait = "sc_call K (Mdelay TRANSFER_POLL_TIME)"
  let ?J = "\<lambda>w :: 'a sc_world_scheme. built n n w \<and> consistent K (trace w)"
  have call: "?J (sc_call K c w)" if "?J w" "neutral c" for c and w :: "'a sc_world_scheme"
    using that by (simp add: cb_call.call_built cb_consistent.kcall_thread_inv del: kcall_irq_simps)
  define w1 where "w1 = for_each (start_dma_transfer (sc_call K)) 0 n w"
  have J: "?J w1" unfolding w1_def
    by (rule for_each_keeps) (use assms(2,3) call in \<open>simp_all add: start_dma_transfer_def\<close>)
  have s: "started (trace w1)"
    using for_each_inv [where P = "\<lambda>j w. 0 < j \<longrightarrow> started (trace w)" and i = 0 and k = n
        and step = "start_dma_transfer (sc_call K)" and w = w] assms(4)
    by (simp add: w1_def start_starts)
  have good: "all_good n (?wait w)" if "?J w" "started (trace w)" for w :: "'a sc_world_scheme"
    using wait_good[OF assms(1)] that by blast
  have J2: "?J (?wait w1)" by (rule call [OF J]) simp
  note good1 = good [OF J s] and good2 = good [OF J2 started_thread [OF s]]
  obtain k where k: "TRANSFER_POLL_COUNT = Suc (Suc k)"
    by (rule that [of 58]) (simp add: TRANSFER_POLL_COUNT_def)
  show ?thesis
    using good1 good2 good_finished[OF good1]
    by (simp add: start_and_poll_def w1_def[symmetric] k good_passed)
qed

lemma run_transfers_passes:
  fixes w :: "'a sc_world_scheme"
  assumes "grants_all K" and "engine_copies K n" and "config_frame config"
    and "built n 0 w" and "consistent K (trace w)" and "config_size config n" and "0 < n"
  shows "fst (run_transfers (request_dma K (sc_call K)) K (sc_call K) n config
      (get_transfers_finished n) (check_test_passed n) w) = 0
    \<and> test_passed (snd (run_transfers (request_dma K (sc_call K)) K (sc_call K) n config
      (get_transfers_finished n) (check_test_passed n) w)) = 1"
proof -
  let ?f = "for_or_fail (\<lambda>i w. prepare_transfer (request_dma K (sc_call K)) K (sc_call K) i
      (tr_upd i (config i) w)) 0 n w"
  note p = cb_call.prepare_loop_built[OF assms(1,4,6)]
  have "length (transfers w) = n" using assms(4) by (simp add: built_def)
  then have "consistent K (trace (snd ?f))"
    using cb_call.prepare_loop_verdict[OF consistent_setup.setup_invariant_axioms assms(3,5)] p(1) by simp
  with start_and_poll_passes[OF assms(2) p(2) _ assms(7)] p(1) show ?thesis
    by (simp add: run_transfers_def case_prod_beta)
qed

end
