(* ===== verification/Dma_Standard.thy ===== *)
theory Dma_Standard
  imports Dma_Single_Modules
begin

text \<open>
  The eight standard single-channel modules (burst modes and addressing modes): a concrete kernel
  that satisfies the laws the theorems name, and the properties of the modules from loading to
  removal.
\<close>

section \<open>A concrete kernel\<close>

text \<open>
  A kernel that satisfies the laws named above: requests succeed, the \<open>k\<close>-th allocation is at
  \<open>2^22 * (k + 1)\<close>, and while the module waits after a start the engine copies each odd 4 MB
  region to the region after it and reports the \<open>n\<close> transfers.
\<close>

definition demo_copy :: "memory \<Rightarrow> memory" where
  "demo_copy m = (\<lambda>a. if odd (unat a div 2 ^ 22) then m a else m (a - 2 ^ 22))"

definition demo_kernel :: "nat \<Rightarrow> kernel" where
  "demo_kernel n = \<lparr>
     k_ret = (\<lambda>h c. case c of Kmalloc sz \<Rightarrow> 2 ^ 22 * (1 + int (min 30 (length (allocs h)))) | _ \<Rightarrow> 0),
     k_out = (\<lambda>h c. case c of Omap_request_dma dev i \<Rightarrow> Some (int i) | _ \<Rightarrow> None),
     k_events = (\<lambda>h. case h of Called (Mdelay t) r out # h' \<Rightarrow>
         (if list_ex is_start h' then Device demo_copy # map (\<lambda>i. Irq (int i) 0 i) [0..<n] else [])
       | _ \<Rightarrow> []),
     k_const = (\<lambda>_. 0), OMAP_DMA_BLOCK_IRQ = 32\<rparr>"

lemma demo_grants_channel: "grants_channel (demo_kernel n)"
  by (simp add: grants_channel_def demo_kernel_def)

lemma demo_grants_all: "grants_all (demo_kernel n)"
proof -
  have "(word_of_int (2 ^ 22 * (1 + int (min 30 k))) :: u32) \<noteq> 0" for k
    by (rule word_of_int_nonzero) simp_all
  then show ?thesis
    unfolding grants_all_def demo_kernel_def kernel.simps kcall.case by blast
qed

lemma demo_irq_after_start: "irq_after_start (demo_kernel n)"
  unfolding irq_after_start_def
proof (intro allI impI)
  fix h
  assume "\<forall>e \<in> set h. \<not> is_start e"
  then show "no_irq (k_events (demo_kernel n) h)"
    by (auto simp: demo_kernel_def no_irq_def list_ex_iff split: list.splits tev.splits kcall.splits)
qed

lemma demo_allocs:
  assumes "consistent (demo_kernel n) h" and "length (allocs h) \<le> 30" and "k < length (allocs h)"
  shows "fst (allocs h ! k) = of_nat (2 ^ 22 * (k + 1))"
  using assms
proof (induction h arbitrary: k rule: allocs.induct)
  case (2 sz r out h)
  then have "length (allocs h) < 30" by simp
  with 2 show ?case
    by (cases "k < length (allocs h)")
      (auto simp: nth_append demo_kernel_def less_Suc_eq algebra_simps)
qed simp_all

lemma demo_copy_equal:
  assumes "i < 15" and "n \<le> 2 ^ 22"
  shows "bytes_equal (demo_copy m) (of_nat (2 ^ 22 * (2 * i + 1))) (of_nat (2 ^ 22 * (2 * i + 2))) n"
  unfolding bytes_equal_def
proof (intro allI impI)
  fix j
  assume j: "j < n"
  let ?s = "2 ^ 22 * (2 * i + 1) + j" and ?d = "2 ^ 22 * (2 * i + 2) + j"
  have u: "unat (of_nat ?s :: u32) = ?s" "unat (of_nat ?d :: u32) = ?d"
    by (rule unat_of_nat_small, use assms j in simp)+
  have "?s div 2 ^ 22 = 2 * i + 1" "?d div 2 ^ 22 = 2 * i + 2"
    using assms j by (simp_all add: div_nat_eqI)
  then have "odd (?s div 2 ^ 22)" "even (?d div 2 ^ 22)" by simp_all
  moreover have "of_nat ?d - 2 ^ 22 = (of_nat ?s :: u32)" by simp
  ultimately have "demo_copy m (of_nat ?s) = demo_copy m (of_nat ?d)"
    unfolding demo_copy_def u by (simp only: if_True if_False not_True_eq_False not_False_eq_True)
  then show "demo_copy m (of_nat (2 ^ 22 * (2 * i + 1)) + of_nat j) =
      demo_copy m (of_nat (2 ^ 22 * (2 * i + 2)) + of_nat j)"
    by (simp only: of_nat_add)
qed

lemma demo_engine_copies:
  assumes "n \<le> 15"
  shows "engine_copies (demo_kernel n) n"
  unfolding engine_copies_def
proof (intro allI impI)
  fix h t r out
  assume c: "consistent (demo_kernel n) h" and s: "started h" and l: "length (allocs h) = 2 * n"
    and z: "\<forall>x \<in> set (allocs h). unat (snd x) \<le> max_alloc"
  have "bytes_equal (demo_copy m) (fst (allocs h ! (2 * i))) (fst (allocs h ! (2 * i + 1)))
      (unat (snd (allocs h ! (2 * i))))" if "i < n" for m i
  proof -
    have "unat (snd (allocs h ! (2 * i))) \<le> 2 ^ 22"
      using z l that by (simp add: max_alloc_def)
    then show ?thesis
      using demo_copy_equal[of i "unat (snd (allocs h ! (2 * i)))" m] demo_allocs[OF c] l that assms
      by simp
  qed
  then show "\<exists>f. k_events (demo_kernel n) (Called (Mdelay t) r out # h) =
        Device f # map (\<lambda>i. Irq (int i) 0 i) [0..<n] \<and>
      (\<forall>m i. i < n \<longrightarrow> bytes_equal (f m) (fst (allocs h ! (2 * i))) (fst (allocs h ! (2 * i + 1)))
        (unat (snd (allocs h ! (2 * i)))))"
    using s by (intro exI [of _ demo_copy]) (simp add: demo_kernel_def list_ex_iff started_def)
qed

section \<open>The standard modules as instances of the common shape\<close>

lemma burst_config_frame: "config_frame (burst_config K b sz)"
  by (simp add: config_frame_def burst_config_def)

lemma amode_config_frame: "config_frame (amode_config K a u sei sfi)"
  by (simp add: config_frame_def amode_config_def)

lemma burst_config_size: "unat sz \<le> max_alloc \<Longrightarrow> config_size (burst_config K b sz) n"
  by (simp add: config_size_def burst_config_def)

lemma amode_config_size:
  assumes "u \<le> 10240"
  shows "config_size (amode_config K a u sei sfi) 13"
proof -
  have "u * (i + 1) * (i + 1) + i mod 2 \<le> 2 ^ 22" if "i < 13" for i
  proof -
    have "u * (i + 1) * (i + 1) \<le> 10240 * 13 * 13"
      using assms that by (intro mult_le_mono) simp_all
    then show ?thesis using mod_less_divisor[of 2 i] by simp
  qed
  then have "unat (of_nat (u * (i + 1) * (i + 1) + i mod 2) :: u32) \<le> 2 ^ 22" if "i < 13" for i
    using that le_trans [OF unat_of_nat_le] by blast
  then show ?thesis by (simp add: config_size_def amode_config_def max_alloc_def)
qed

text \<open>Each standard module is the common shape with its own configuration.\<close>

definition standard_run :: "kernel \<Rightarrow> nat \<Rightarrow> (nat \<Rightarrow> dma_transfer \<Rightarrow> dma_transfer) \<Rightarrow> sc_world
    \<Rightarrow> int \<times> sc_world" where
  "standard_run K n config = run_transfers (request_dma K (sc_call K)) K (sc_call K) n config
     (get_transfers_finished n) (check_test_passed n)"

lemma standard_shapes:
  "burst4_module_init K = (\<lambda>w. standard_run K 3 (burst_config K OMAP_DMA_DATA_BURST_4 1048576) (set_first_type K w))"
  "burst8_module_init K = (\<lambda>w. standard_run K 3 (burst_config K OMAP_DMA_DATA_BURST_8 1024) (set_first_type K w))"
  "burst16_module_init K = (\<lambda>w. standard_run K 3 (burst_config K OMAP_DMA_DATA_BURST_16 1024) (set_first_type K w))"
  "burstdis_module_init K = (\<lambda>w. standard_run K 3 (burst_config K OMAP_DMA_DATA_BURST_DIS 1048576) (set_first_type K w))"
  "postinc_module_init K = (\<lambda>w. standard_run K 13 (amode_config K OMAP_DMA_AMODE_POST_INC 512 0 0) (id w))"
  "singleidx_module_init K = (\<lambda>w. standard_run K 13 (amode_config K OMAP_DMA_AMODE_SINGLE_IDX 1024 1 0) (id w))"
  "doubleidx_module_init K = (\<lambda>w. standard_run K 13 (amode_config K OMAP_DMA_AMODE_DOUBLE_IDX 10240 1 1) (id w))"
  "constant_module_init K = (\<lambda>w. standard_run K 13 (amode_config K OMAP_DMA_AMODE_POST_INC 128 0 0) (id w))"
  by (simp_all add: module_defs standard_run_def fun_eq_iff)

lemma standard_module_cases:
  assumes "(nm, n, ini, ext) \<in> set (standard_modules K)"
  obtains (shape) config pre where "ini = (\<lambda>w. standard_run K n config (pre w))"
    and "ext = stop_all (sc_call K) n"
    and "config_frame config" and "config_size config n" and "0 < n" and "n \<le> 13"
    and "pre = id \<or> pre = set_first_type K"
proof -
  have b: thesis if "ini = (\<lambda>w. standard_run K 3 (burst_config K b sz) (set_first_type K w))"
    "ext = stop_all (sc_call K) 3" "n = 3" "unat sz \<le> max_alloc" for b sz
  proof (rule shape [of "burst_config K b sz" "set_first_type K"])
    show "config_size (burst_config K b sz) n" using that(4) by (rule burst_config_size)
  qed (simp_all add: that burst_config_frame)
  have a: thesis if "ini = (\<lambda>w. standard_run K 13 (amode_config K a u sei sfi) (id w))"
    "ext = stop_all (sc_call K) 13" "n = 13" "u \<le> 10240" for a u sei sfi
  proof (rule shape [of "amode_config K a u sei sfi" id])
    show "config_size (amode_config K a u sei sfi) n"
      using that(3,4) by (simp add: amode_config_size)
  qed (simp_all add: that amode_config_frame)
  from assms show thesis
    unfolding standard_modules_def set_simps insert_iff prod.inject empty_iff standard_shapes
  proof (elim disjE conjE FalseE)
  qed (erule b a, simp add: module_defs, assumption, simp add: max_alloc_def; fail)+
qed


lemma fresh_simps [simp]:
  "trace (sc_fresh n m) = []" "transfers (sc_fresh n m) = replicate n zero_transfer"
  "test_passed (sc_fresh n m) = - 1" "mem (sc_fresh n m) = m"
  by (simp_all add: sc_fresh_def)

lemma zero_simps [simp]:
  "request_success zero_transfer = 0" "data_correct zero_transfer = 0" "finished zero_transfer = 0"
  "src_buf (buffers zero_transfer) = 0" "dest_buf (buffers zero_transfer) = 0"
  by (simp_all add: zero_transfer_def zero_buffers_def)

lemma fresh_ready:
  assumes "pre = id \<or> pre = set_first_type K"
  shows "staged n 0 (pre (sc_fresh n m))" and "quiet (pre (sc_fresh n m))"
    and "built n 0 (pre (sc_fresh n m))" and "consistent K (trace (pre (sc_fresh n m)))"
    and "length (transfers (pre (sc_fresh n m))) = n"
proof -
  have q: "quiet (sc_fresh n m)" by (simp add: quiet_def not_started_def idle_def)
  then show "quiet (pre (sc_fresh n m))"
    using assms by (auto simp: set_first_type_def tr_upd_quiet flag_frame_def)
  have s: "staged n 0 (sc_fresh n m)"
    by (simp add: staged_def owned_def own_chan_def own_buf_def unused_def)
  have "staged n 0 (tr_upd 0 (\<lambda>t. t\<lparr>data_type := x\<rparr>) (sc_fresh n m))" for x
    using staged_config[of "\<lambda>_ t. t\<lparr>data_type := x\<rparr>", OF _ s, of 0]
    by (simp add: config_frame_def)
  with s show "staged n 0 (pre (sc_fresh n m))"
    using assms by (auto simp: set_first_type_def)
  show "built n 0 (pre (sc_fresh n m))" "consistent K (trace (pre (sc_fresh n m)))"
    "length (transfers (pre (sc_fresh n m))) = n"
    using assms by (auto simp: set_first_type_def built_def)
qed

section \<open>Properties of the standard modules\<close>

text \<open>
  C1. Soundness of the verdict of the burst-mode and addressing-mode modules: initialisation
  always stores a verdict; if it is PASSED, then initialisation returned 0 and, for every
  transfer, the last completion interrupt had an acceptable status and found the destination
  buffer equal to the source buffer. This holds for every kernel behaviour and interrupt timing
  in which callbacks do not run before a channel is started.
\<close>

theorem standard_verdict_sound:
  assumes "(nm, n, ini, ext) \<in> set (standard_modules K)" and "irq_after_start K"
    and "ini (sc_fresh n m) = (r, w)"
  shows "test_passed w \<in> {0, 1} \<and>
    (test_passed w = 1 \<longrightarrow> r = 0 \<and> (\<forall>i<n. verified K w i))"
proof (rule standard_module_cases [OF assms(1)])
  fix config pre
  assume ini: "ini = (\<lambda>w. standard_run K n config (pre w))" and c: "config_frame config"
    and pre: "pre = id \<or> pre = set_first_type K"
  note ready = fresh_ready [OF pre, of n m]
  have "sound_verdict K n w \<and> (test_passed w \<noteq> 0 \<longrightarrow> r = 0)"
    using assms(3) sc_cb.run_transfers_sound [OF assms(2) c ready(2,5) check_test_passed_sound]
    by (simp add: ini standard_run_def)
  then show ?thesis by (auto simp: sound_verdict_def)
qed


text \<open>
  C3. No leak and no double free: whatever the kernel answers and however initialisation ends,
  after the exit function has run every channel the module was granted has been freed exactly as
  often as it was granted, and every buffer as often as it was allocated.
\<close>

theorem standard_modules_release:
  assumes "(nm, n, ini, ext) \<in> set (standard_modules K)" and "grants_channel K"
  shows "chan_balance (trace (ext (snd (ini (sc_fresh n m))))) ch = 0 \<and>
    (a \<noteq> 0 \<longrightarrow> alloc_balance (trace (ext (snd (ini (sc_fresh n m))))) a = 0)"
proof (rule standard_module_cases [OF assms(1)])
  fix config pre
  assume ini: "ini = (\<lambda>w. standard_run K n config (pre w))" and ext: "ext = stop_all (sc_call K) n"
    and c: "config_frame config" and pre: "pre = id \<or> pre = set_first_type K"
  have "kept n (snd (ini (sc_fresh n m)))"
    unfolding ini standard_run_def
    by (rule cb_call.run_transfers_kept [OF assms(2) c fresh_ready(1) [OF pre]])
      (rule cb_call.check_kept)
  then show ?thesis
    using cb_call.stop_all_released[where K = K and n = n and w = "snd (ini (sc_fresh n m))"] by (simp add: ext)
qed

text \<open>Witnesses: the module for bursts of 8 on the concrete kernel.\<close>

lemma burst8_in_standard:
  "(''dma_burst_mode8'', 3, burst8_module_init K, burst8_module_exit K) \<in> set (standard_modules K)"
  by (simp add: standard_modules_def)

lemma demo_burst8_passes:
  "fst (burst8_module_init (demo_kernel 3) (sc_fresh 3 m)) = 0"
  "test_passed (snd (burst8_module_init (demo_kernel 3) (sc_fresh 3 m))) = 1"
proof -
  have "fst (burst8_module_init (demo_kernel 3) (sc_fresh 3 m)) = 0 \<and>
      test_passed (snd (burst8_module_init (demo_kernel 3) (sc_fresh 3 m))) = 1"
    unfolding standard_shapes standard_run_def
    by (rule run_transfers_passes)
      (simp_all add: demo_grants_all demo_engine_copies burst_config_frame burst_config_size
        fresh_ready [OF disjI2 [OF refl]] max_alloc_def)
  then show "fst (burst8_module_init (demo_kernel 3) (sc_fresh 3 m)) = 0"
    and "test_passed (snd (burst8_module_init (demo_kernel 3) (sc_fresh 3 m))) = 1" by simp_all
qed

theorem standard_verdict_sound_witness:
  "irq_after_start (demo_kernel 3) \<and>
   test_passed (snd (burst8_module_init (demo_kernel 3) (sc_fresh 3 (\<lambda>_. 0)))) = 1 \<and>
   verified (demo_kernel 3) (snd (burst8_module_init (demo_kernel 3) (sc_fresh 3 (\<lambda>_. 0)))) 2"
  using standard_verdict_sound [where m = "\<lambda>_. 0" and K = "demo_kernel 3",
      OF burst8_in_standard demo_irq_after_start prod.collapse [symmetric]]
    demo_burst8_passes[of "\<lambda>_. 0"] demo_irq_after_start[of 3] by simp


theorem standard_modules_release_witness:
  "grants_channel (demo_kernel 3) \<and>
   chan_balance (trace (burst8_module_exit (demo_kernel 3)
     (snd (burst8_module_init (demo_kernel 3) (sc_fresh 3 (\<lambda>_. 0)))))) 0 = 0 \<and>
   alloc_balance (trace (burst8_module_exit (demo_kernel 3)
     (snd (burst8_module_init (demo_kernel 3) (sc_fresh 3 (\<lambda>_. 0)))))) 4194304 = 0"
  using standard_modules_release [where m = "\<lambda>_. 0" and ch = 0 and a = 4194304,
      OF burst8_in_standard demo_grants_channel]
    demo_grants_channel by simp

end
