(* ===== verification/Dma_Single_Correct.thy ===== *)
theory Dma_Single_Correct
  imports Dma_Standard
begin

text \<open>
  Properties of the operations of the common single-channel module, each on every branch.
\<close>

section \<open>Properties of the common module\<close>

text \<open>The bytes of a buffer.\<close>

definition buffer_bytes :: "memory \<Rightarrow> u32 \<Rightarrow> nat \<Rightarrow> u8 list" where
  "buffer_bytes m a n = map (\<lambda>j. m (a + of_nat j)) [0..<n]"

text \<open>
  C31. \<^verbatim>\<open>verify_buffers\<close> returns 0 exactly when the source and the destination buffer hold the
  same bytes over their whole length, and 1 otherwise.
\<close>

theorem verify_buffers_correct:
  "verify_buffers m b =
     (if buffer_bytes m (src_buf b) (unat (buf_size b)) = buffer_bytes m (dest_buf b) (unat (buf_size b))
      then 0 else 1)"
proof -
  have "buffer_bytes m s n = buffer_bytes m d n \<longleftrightarrow> bytes_equal m s d n" for s d n
    by (auto simp: buffer_bytes_def bytes_equal_def)
  then show ?thesis by (simp add: verify_buffers_spec)
qed

text \<open>
  \<^verbatim>\<open>fill_source_buffer\<close> writes the pattern byte of every index into the source buffer, touches
  no byte outside it (addresses wrap at 32 bits) and changes nothing else of the state.
\<close>

theorem fill_source_buffer_correct:
  "fill_source_buffer i w = w\<lparr>mem := (\<lambda>a.
     if unat (a - src_buf (bufs w i)) < unat (buf_size (bufs w i))
     then fill_byte (buf_size (bufs w i)) (unat (a - src_buf (bufs w i))) else mem w a)\<rparr>"
proof -
  have "mem (fill_source_buffer i w) = (\<lambda>a.
     if unat (a - src_buf (bufs w i)) < unat (buf_size (bufs w i))
     then fill_byte (buf_size (bufs w i)) (unat (a - src_buf (bufs w i))) else mem w a)"
    by (simp add: fun_eq_iff fill_source_buffer_mem)
  then show ?thesis by (simp add: fill_source_buffer_def)
qed

text \<open>
  C25. The completion callback on every branch: it marks the transfer finished and its data
  correct exactly when the status is acceptable (no error bit alone: the block bit is set or the
  status is 0) and the buffers agree; memory, the verdict and the other transfers are untouched,
  and the two buffers are unmapped, source first.
\<close>

theorem dma_callback_correct:
  assumes "i < length (transfers w)"
  defines "b \<equiv> bufs w i"
  shows "transfers (dma_callback K lch st i w) = (transfers w)[i := (transfers w ! i)
      \<lparr>data_correct := (if status_ok K st \<and> verify_buffers (mem w) b = 0 then 1 else 0), finished := 1\<rparr>]
    \<and> mem (dma_callback K lch st i w) = mem w
    \<and> test_passed (dma_callback K lch st i w) = test_passed w
    \<and> (\<exists>r1 o1 r2 o2. trace (dma_callback K lch st i w) =
        Called (Dma_unmap_single (dest_buf_phys b) (buf_size b)) r2 o2 #
        Called (Dma_unmap_single (src_buf_phys b) (buf_size b)) r1 o1 # trace w)"
proof (intro conjI)
  show "transfers (dma_callback K lch st i w) = (transfers w)[i := (transfers w ! i)
      \<lparr>data_correct := (if status_ok K st \<and> verify_buffers (mem w) b = 0 then 1 else 0), finished := 1\<rparr>]"
    using assms by (simp add: dma_callback_transfers verify_buffers_spec)
qed (use assms in \<open>auto simp: dma_callback_def unmap_phys_buffers_def Let_def\<close>)

theorem dma_callback_correct_witness:
  "0 < length (transfers (sc_fresh 1 (\<lambda>_. 7))) \<and>
   data_correct (transfers (dma_callback (demo_kernel 1) 5 0 0 (sc_fresh 1 (\<lambda>_. 7))) ! 0) = 1"
proof -
  have h: "0 < length (transfers (sc_fresh 1 (\<lambda>_. 7)))" by (simp add: sc_fresh_def)
  have v: "verify_buffers (mem (sc_fresh 1 (\<lambda>_. 7))) (bufs (sc_fresh 1 (\<lambda>_. 7)) 0) = 0"
    by (simp add: sc_fresh_def verify_buffers_spec bytes_equal_def)
  from conjunct1 [OF dma_callback_correct [OF h, of "demo_kernel 1" 5 0]] h v show ?thesis
    by (simp add: status_ok_def)
qed

lemma check_dma_loop_zero:
  "check_dma_loop i ts = 0 \<longleftrightarrow>
     (\<forall>t \<in> set ts. data_correct t \<noteq> 0) \<or> (i = 0 \<and> ts \<noteq> [] \<and> data_correct (hd ts) = 0)"
  by (induction i ts rule: check_dma_loop.induct) auto

text \<open>
  \<^verbatim>\<open>check_dma_transfer_complete\<close> reports a failure as minus the index of the first bad
  transfer. Its result is 0 not only when all transfers are correct but also when the very first
  one failed, because \<^verbatim>\<open>-(0)\<close> is 0.
\<close>

theorem check_dma_transfer_complete_zero:
  "check_dma_transfer_complete ts n = 0 \<longleftrightarrow>
     list_all (\<lambda>t. data_correct t \<noteq> 0) (take n ts) \<or>
     (0 < n \<and> ts \<noteq> [] \<and> data_correct (hd ts) = 0)"
  by (auto simp: check_dma_transfer_complete_def check_dma_loop_zero hd_take list_all_iff)

text \<open>
  C30. Stopping twice: the first stop of a granted transfer returns 0; a second one returns 1 and
  makes no call and no change at all, whatever interrupts came in between the calls of the first.
\<close>

theorem stop_dma_transfer_twice:
  assumes "i < length (transfers w)" and "request_success (transfers w ! i) \<noteq> 0"
    and "stop_dma_transfer (kcall_thread K (dma_callback K)) i w = (r, w')"
  shows "r = 0 \<and> stop_dma_transfer (kcall_thread K (dma_callback K)) i w' = (1, w')"
proof -
  have "r = 0" using assms(2,3) by (simp add: stop_dma_transfer_def Let_def split: if_splits)
  moreover have "request_success (transfers w' ! i) = 0"
    using cb_call.stop_dma_transfer_released [OF assms(1), of K] assms(3) by simp
  ultimately show ?thesis by (simp add: stop_dma_transfer_def)
qed

theorem stop_dma_transfer_twice_witness:
  "fst (stop_dma_transfer (kcall_thread (demo_kernel 1) (dma_callback (demo_kernel 1))) 0
      (tr_upd 0 (\<lambda>t. t\<lparr>request_success := 1\<rparr>) (sc_fresh 1 (\<lambda>_. 0)))) = 0"
proof -
  let ?w = "tr_upd 0 (\<lambda>t. t\<lparr>request_success := 1\<rparr>) (sc_fresh 1 (\<lambda>_. 0))"
  have "0 < length (transfers ?w)" and "request_success (transfers ?w ! 0) \<noteq> 0" by simp_all
  from stop_dma_transfer_twice [OF this prod.collapse [symmetric]] show ?thesis by simp
qed

text \<open>The bytes of an element of a data type; an unknown type has none.\<close>

definition element_bytes :: "kernel \<Rightarrow> int \<Rightarrow> nat option" where
  "element_bytes K dt = map_of [(k_const K OMAP_DMA_DATA_TYPE_S8, 1), (k_const K OMAP_DMA_DATA_TYPE_S16, 2),
     (k_const K OMAP_DMA_DATA_TYPE_S32, 4)] dt"

text \<open>The calls that program a transfer of \<open>n\<close> elements from the bus address \<open>ps\<close> to \<open>pd\<close>.\<close>

definition programmed :: "kernel \<Rightarrow> dma_transfer \<Rightarrow> int \<Rightarrow> u32 \<Rightarrow> u32 \<Rightarrow> kcall list" where
  "programmed K t n ps pd =
     [Dma_map_single (src_buf (buffers t)) (buf_size (buffers t)),
      Dma_map_single (dest_buf (buffers t)) (buf_size (buffers t)),
      Omap_set_dma_transfer_params (transfer_id t) (data_type t) n 1 (sync_mode t) (device_id t) 0,
      Omap_set_dma_src_params (transfer_id t) 0 (addressing_mode t) ps (src_ei t) (src_fi t),
      Omap_set_dma_src_burst_mode (transfer_id t) (data_burst t),
      Omap_set_dma_dest_params (transfer_id t) 0 (dst_addressing_mode t) pd (dest_ei t) (dest_fi t),
      Omap_set_dma_dest_burst_mode (transfer_id t) (data_burst t),
      Omap_dma_set_global_params 3 (k_const K DMA_DEFAULT_FIFO_DEPTH) 0,
      Omap_dma_set_prio_lch (transfer_id t) (priority t) (priority t)]"

fun calls_of :: "history \<Rightarrow> kcall list" where
  "calls_of [] = []"
| "calls_of (Called c r out # h) = calls_of h @ [c]"
| "calls_of (Interrupt lch st d m # h) = calls_of h"

text \<open>
  Two states that differ at most in memory, before any channel has been started; there a call of
  the thread and a call with interrupts off keep them related.
\<close>

definition same_setup :: "'a sc_world_scheme \<Rightarrow> 'a sc_world_scheme \<Rightarrow> bool" where
  "same_setup v w \<longleftrightarrow> not_started v \<and> transfers v = transfers w \<and> trace v = trace w"

lemma same_setup_call:
  assumes "irq_after_start K" and "same_setup v w" and "\<not> is_start_call c"
  shows "same_setup (kcall_thread K h c v) (kcall_irq K c w)"
proof -
  have n: "not_started (kcall_irq K c v)"
    using assms(2,3) by (simp add: same_setup_def not_started_def)
  obtain m where "kcall_thread K h c v = (kcall_irq K c v)\<lparr>mem := m\<rparr>"
    using before_start_call [OF assms(1) _ assms(3)] assms(2) by (auto simp: same_setup_def)
  with n assms(2) show ?thesis
    by (simp add: same_setup_def not_started_def kcall_ret_def kcall_out_def)
qed

lemma same_setup_upd:
  "same_setup v w \<Longrightarrow> same_setup (tr_upd i f v) (tr_upd i f w)"
  "same_setup v w \<Longrightarrow> same_setup (buf_upd i g v) (buf_upd i g w)"
  by (simp_all add: same_setup_def not_started_def)

lemma same_setup_eq:
  "same_setup v w \<Longrightarrow> transfers v ! i = transfers w ! i"
  "same_setup v w \<Longrightarrow> kcall_ret K c v = kcall_ret K c w"
  by (simp_all add: same_setup_def kcall_ret_def)

lemma same_setup_Let:
  "same_setup v w \<Longrightarrow> (\<And>v w. same_setup v w \<Longrightarrow> same_setup (f v) (g w)) \<Longrightarrow>
     same_setup (Let v f) (Let w g)"
  "x = y \<Longrightarrow> (\<And>z. z = y \<Longrightarrow> same_setup (p z) (q z)) \<Longrightarrow> same_setup (Let x p) (Let y q)"
  by simp_all

lemma same_setup_map:
  assumes "irq_after_start K" and "same_setup v w"
  shows "same_setup (map_to_phys_buffers K (kcall_thread K h) i v)
    (map_to_phys_buffers K (kcall_irq K) i w)"
  unfolding map_to_phys_buffers_def
  by (intro same_setup_Let same_setup_upd same_setup_call)
    (simp_all add: same_setup_eq same_setup_eq [OF assms(2)] assms)

lemma same_setup_setup:
  assumes "irq_after_start K" and "same_setup v w"
  shows "same_setup (setup_dma_transfer K (kcall_thread K h) i v)
    (setup_dma_transfer K (kcall_irq K) i w)"
  unfolding setup_dma_transfer_def
  by (intro same_setup_Let same_setup_upd same_setup_call same_setup_map)
    (simp_all add: same_setup_eq same_setup_eq [OF assms(2)] assms)

lemma frame_elements_bytes:
  assumes "unat sz < 2 ^ 31"
  shows "frame_elements K dt sz old = (case element_bytes K dt of Some k \<Rightarrow> int (unat sz div k) | None \<Rightarrow> old)"
proof -
  have s: "sint v = int (unat v)" if "unat v < 2 ^ 31" for v :: u32
  proof -
    have "int (unat v) < int (2 ^ 31)" using that by (simp only: of_nat_less_iff)
    then have "uint v < 2 ^ 31" unfolding uint_nat by (simp only: of_nat_power of_nat_numeral)
    then have "signed_take_bit 31 (uint v) = uint v" by (intro signed_take_bit_int_eq_self) (use uint_ge_0 [of v] in linarith)+
    then show ?thesis by (simp add: sint_uint)
  qed
  have d: "unat (sz div 2) = unat sz div 2" "unat (sz div 4) = unat sz div 4" by (simp_all add: unat_div)
  then have "unat (sz div 2) < 2 ^ 31" "unat (sz div 4) < 2 ^ 31" using assms by linarith+
  moreover have "uint (sz div 2) = int (unat sz div 2)" "uint (sz div 4) = int (unat sz div 4)" by (simp_all only: uint_nat d)
  ultimately show ?thesis using s assms d by (simp add: frame_elements_def element_bytes_def)
qed

text \<open>
  C26. \<^verbatim>\<open>setup_dma_transfer\<close> programs the channel completely and in order: the source and then the
  destination are mapped, and the transfer, source, source burst, destination, destination burst,
  global and priority parameters are set for the granted channel, with one frame of as many elements
  of the data type as the buffers hold. The source address it programs and stores is the one that the
  first mapping returned, the destination address that of the second. It is run by the module's
  thread before any channel has been started, for buffers below 2 GiB.
\<close>

theorem setup_dma_transfer_correct:
  fixes K h i w
  defines "w' \<equiv> setup_dma_transfer K (kcall_thread K h) i w"
    and "t \<equiv> transfers w ! i"
    and "map_src \<equiv> Dma_map_single (src_buf (bufs w i)) (buf_size (bufs w i))"
    and "map_dst \<equiv> Dma_map_single (dest_buf (bufs w i)) (buf_size (bufs w i))"
  defines "ps \<equiv> k_ret K (trace w) map_src"
  defines "pd \<equiv> k_ret K (Called map_src ps (k_out K (trace w) map_src) # trace w) map_dst"
  assumes "irq_after_start K" and "not_started w" and "i < length (transfers w)" and "unat (buf_size (bufs w i)) < 2 ^ 31"
  shows "calls_of (trace w') = calls_of (trace w) @
      programmed K t (case element_bytes K (data_type t) of Some k \<Rightarrow> int (unat (buf_size (buffers t)) div k) | None \<Rightarrow> elements_in_frame t)
        (word_of_int ps) (word_of_int pd)
    \<and> src_buf_phys (bufs w' i) = word_of_int ps \<and> dest_buf_phys (bufs w' i) = word_of_int pd"
proof -
  let ?n = "frame_elements K (data_type t) (buf_size (buffers t)) (elements_in_frame t)"
  have "same_setup w w" using assms(8) by (simp add: same_setup_def)
  from same_setup_setup [OF assms(7) this, of h i]
  have "transfers w' = transfers (setup_dma_transfer K (kcall_irq K) i w)"
    and "trace w' = trace (setup_dma_transfer K (kcall_irq K) i w)"
    by (simp_all add: same_setup_def w'_def)
  then have "calls_of (trace w') = calls_of (trace w) @ programmed K t ?n (word_of_int ps) (word_of_int pd)
      \<and> src_buf_phys (bufs w' i) = word_of_int ps \<and> dest_buf_phys (bufs w' i) = word_of_int pd"
    unfolding t_def pd_def ps_def map_src_def map_dst_def using assms(9)
    by (simp add: setup_dma_transfer_def map_to_phys_buffers_def Let_def programmed_def kcall_ret_def kcall_out_def)
  moreover have "?n = (case element_bytes K (data_type t) of Some k \<Rightarrow> int (unat (buf_size (buffers t)) div k) | None \<Rightarrow> elements_in_frame t)"
    using assms(10) unfolding t_def by (rule frame_elements_bytes)
  ultimately show ?thesis by (rule subst [rotated])
qed

text \<open>A kernel whose bus addresses lie 2 GiB above the processor's: 64 bytes of type S32 are 16 elements.\<close>

definition map_kernel :: kernel where
  "map_kernel = (demo_kernel 1)\<lparr>k_ret := (\<lambda>h c. case c of Dma_map_single a n \<Rightarrow> uint a + 0x80000000 | _ \<Rightarrow> 0),
     k_const := (\<lambda>c. case c of OMAP_DMA_DATA_TYPE_S16 \<Rightarrow> 1 | OMAP_DMA_DATA_TYPE_S32 \<Rightarrow> 2 | _ \<Rightarrow> 0)\<rparr>"

definition map_example :: sc_world where
  "map_example = tr_upd 0 (\<lambda>t. t\<lparr>data_type := 2, transfer_id := 5,
     buffers := zero_buffers\<lparr>src_buf := 0x1000, dest_buf := 0x2000, buf_size := 64\<rparr>\<rparr>) (sc_fresh 1 (\<lambda>_. 0))"

theorem setup_dma_transfer_correct_witness:
  "calls_of (trace (setup_dma_transfer map_kernel (kcall_thread map_kernel (dma_callback map_kernel)) 0 map_example)) =
     [Dma_map_single 0x1000 64, Dma_map_single 0x2000 64, Omap_set_dma_transfer_params 5 2 16 1 0 0 0,
      Omap_set_dma_src_params 5 0 0 0x80001000 0 0, Omap_set_dma_src_burst_mode 5 0,
      Omap_set_dma_dest_params 5 0 0 0x80002000 0 0, Omap_set_dma_dest_burst_mode 5 0,
      Omap_dma_set_global_params 3 0 0, Omap_dma_set_prio_lch 5 0 0]"
proof -
  have l: "irq_after_start map_kernel" using demo_irq_after_start [of 1] by (simp add: irq_after_start_def map_kernel_def)
  have w: "not_started map_example" "0 < length (transfers map_example)" "unat (buf_size (bufs map_example 0)) < 2 ^ 31"
    by (simp_all add: map_example_def not_started_def sc_fresh_def)
  show ?thesis
    using setup_dma_transfer_correct [where h = "dma_callback map_kernel", OF l w]
    by (simp add: programmed_def element_bytes_def map_kernel_def map_example_def sc_fresh_def zero_transfer_def zero_buffers_def)
qed

lemma dma_read_proc_find:
  "dma_read_proc call fuel w =
     map_option (\<lambda>w'. ((if test_passed w' \<noteq> 0 then ''Test PASSED'' else ''Test FAILED'') @ [CHR 0x0A], 12, w'))
       (find (\<lambda>w. test_passed w \<noteq> - 1) (map (\<lambda>k. (call (Mdelay 1000) ^^ k) w) [0..<fuel]))"
proof (induction fuel arbitrary: w)
  case 0
  then show ?case by simp
next
  case (Suc fuel)
  have "map (\<lambda>k. (call (Mdelay 1000) ^^ k) w) [0..<Suc fuel] =
      w # map (\<lambda>k. (call (Mdelay 1000) ^^ k) (call (Mdelay 1000) w)) [0..<fuel]"
    by (simp add: map_upt_Suc funpow_swap1 del: upt_Suc)
  with Suc show ?case by (simp add: TEST_FINISHED_POLL_TIME_def)
qed

text \<open>
  C32. Reading the proc entry blocks exactly until a verdict is stored: the read ends if and only
  if waiting ever makes the verdict different from -1, and then the text is that of the first
  verdict that appears, 12 characters long.
\<close>

theorem dma_read_proc_correct:
  "((\<exists>fuel r. dma_read_proc call fuel w = Some r) \<longleftrightarrow>
      (\<exists>k. test_passed ((call (Mdelay 1000) ^^ k) w) \<noteq> - 1)) \<and>
   dma_read_proc call fuel w =
     map_option (\<lambda>w'. ((if test_passed w' \<noteq> 0 then ''Test PASSED'' else ''Test FAILED'') @ [CHR 0x0A], 12, w'))
       (find (\<lambda>w. test_passed w \<noteq> - 1) (map (\<lambda>k. (call (Mdelay 1000) ^^ k) w) [0..<fuel]))"
proof (rule conjI [OF _ dma_read_proc_find])
  have "(\<exists>r. dma_read_proc call fuel w = Some r) \<longleftrightarrow>
      (\<exists>k<fuel. test_passed ((call (Mdelay 1000) ^^ k) w) \<noteq> - 1)" for fuel
    by (auto simp: dma_read_proc_find find_None_iff not_None_eq [symmetric] simp del: not_None_eq)
  then show "(\<exists>fuel r. dma_read_proc call fuel w = Some r) \<longleftrightarrow>
      (\<exists>k. test_passed ((call (Mdelay 1000) ^^ k) w) \<noteq> - 1)"
    by (metis lessI)
qed

end
