(* ===== verification/Dma_Priority.thy ===== *)
theory Dma_Priority
  imports Dma_Standard
begin

text \<open>
  The priority tests \<^verbatim>\<open>dma_priority_high.c\<close> and \<^verbatim>\<open>dma_priority_low.c\<close>: four transfers whose
  callback also records the order in which the transfers finish, and whose check looks at the
  first entry of that record.
\<close>

section \<open>State and callback\<close>

text \<open>
  The static data of the two modules besides the transfers. \<open>order_overrun\<close> tells whether the
  callback has written outside \<^verbatim>\<open>transfer_finished_order\<close>, which has four entries: in C such a
  write destroys other data; here it is recorded and otherwise ignored.
\<close>

record pr_world = sc_world +
  transfer_finished_order :: "int list"
  transfer_finished_count :: nat
  order_overrun :: bool

definition pr_fresh :: "memory \<Rightarrow> pr_world" where
  "pr_fresh m = sc_world.extend (sc_fresh 4 m)
     \<lparr>transfer_finished_order = [0, 0, 0, 0], transfer_finished_count = 0, order_overrun = False\<rparr>"

text \<open>\<^verbatim>\<open>transfer_finished_order[transfer_finished_count++] = transfer->transfer_id\<close>\<close>

definition record_order :: "nat \<Rightarrow> pr_world \<Rightarrow> pr_world" where
  "record_order i w =
     (let finished_index = transfer_finished_count w;
          w = w\<lparr>transfer_finished_count := Suc finished_index\<rparr>
      in if finished_index < length (transfer_finished_order w)
         then w\<lparr>transfer_finished_order :=
                (transfer_finished_order w)[finished_index := transfer_id (transfers w ! i)]\<rparr>
         else w\<lparr>order_overrun := True\<rparr>)"

definition priohigh_dma_callback :: "kernel \<Rightarrow> pr_world handler" where
  "priohigh_dma_callback K lch st i w =
     (if i < length (transfers w) then
        let w = record_order i w;
            w = tr_upd i (\<lambda>t. t\<lparr>data_correct := 0, finished := 1\<rparr>) w;
            w = unmap_phys_buffers (kcall_irq K) i w
        in if status_ok K st
           then let error = verify_buffers (mem w) (bufs w i)
                in if error \<noteq> 0 then w else tr_upd i (\<lambda>t. t\<lparr>data_correct := 1\<rparr>) w
           else w
      else w)"

definition priolow_dma_callback :: "kernel \<Rightarrow> pr_world handler" where
  "priolow_dma_callback K lch st i w =
     (if i < length (transfers w) then
        let w = record_order i w;
            w = tr_upd i (\<lambda>t. t\<lparr>data_correct := 0, finished := 1\<rparr>) w;
            w = unmap_phys_buffers (kcall_irq K) i w
        in if status_ok K st
           then let error = verify_buffers (mem w) (bufs w i)
                in if error \<noteq> 0 then w else tr_upd i (\<lambda>t. t\<lparr>data_correct := 1\<rparr>) w
           else w
      else w)"

text \<open>The source's own copies of \<^verbatim>\<open>request_dma\<close> are those of the common module line for line.\<close>

definition priohigh_request_dma :: "kernel \<Rightarrow> (kcall \<Rightarrow> pr_world \<Rightarrow> pr_world)
    \<Rightarrow> nat \<Rightarrow> pr_world \<Rightarrow> int \<times> pr_world" where
  "priohigh_request_dma = request_dma"

definition priolow_request_dma :: "kernel \<Rightarrow> (kcall \<Rightarrow> pr_world \<Rightarrow> pr_world)
    \<Rightarrow> nat \<Rightarrow> pr_world \<Rightarrow> int \<times> pr_world" where
  "priolow_request_dma = request_dma"

section \<open>The two modules\<close>

definition priohigh_check_test_passed :: "pr_world \<Rightarrow> pr_world" where
  "priohigh_check_test_passed w =
     (let error = data_error (take 4 (transfers w));
          error = (if error = 0
                   then let first_transfer = transfer_finished_order w ! 0
                        in if first_transfer \<noteq> transfer_id (transfers w ! (4 - 1)) then 1 else error
                   else error)
      in if error = 0 then set_test_passed 1 w else set_test_passed 0 w)"

definition priolow_check_test_passed :: "pr_world \<Rightarrow> pr_world" where
  "priolow_check_test_passed w =
     (let error = data_error (take 4 (transfers w));
          error = (if error = 0
                   then let first_transfer = transfer_finished_order w ! 0
                        in if first_transfer = transfer_id (transfers w ! 0) then 1 else error
                   else error)
      in if error = 0 then set_test_passed 1 w else set_test_passed 0 w)"

definition priohigh_get_transfers_finished :: "pr_world \<Rightarrow> int" where
  "priohigh_get_transfers_finished = get_transfers_finished 4"

definition priolow_get_transfers_finished :: "pr_world \<Rightarrow> int" where
  "priolow_get_transfers_finished = get_transfers_finished 4"

definition prio_config :: "kernel \<Rightarrow> (nat \<Rightarrow> omap_const) \<Rightarrow> nat \<Rightarrow> dma_transfer \<Rightarrow> dma_transfer" where
  "prio_config K prio i t = t\<lparr>
     device_id := k_const K OMAP_DMA_NO_DEVICE,
     sync_mode := k_const K OMAP_DMA_SYNC_ELEMENT,
     data_burst := k_const K OMAP_DMA_DATA_BURST_DIS,
     data_type := k_const K OMAP_DMA_DATA_TYPE_S8,
     endian_type := k_const K DMA_TEST_LITTLE_ENDIAN,
     addressing_mode := k_const K OMAP_DMA_AMODE_POST_INC,
     dst_addressing_mode := k_const K OMAP_DMA_AMODE_POST_INC,
     priority := k_const K (prio i),
     buffers := (buffers t)\<lparr>buf_size := 1024 * 1024\<rparr>\<rparr>"

definition priohigh_module_init :: "kernel \<Rightarrow> pr_world \<Rightarrow> int \<times> pr_world" where
  "priohigh_module_init K w =
     (let call = kcall_thread K (priohigh_dma_callback K) in
      run_transfers (priohigh_request_dma K call) K call 4
        (prio_config K (\<lambda>i. if i = 4 - 1 then DMA_CH_PRIO_HIGH else DMA_CH_PRIO_LOW))
        priohigh_get_transfers_finished priohigh_check_test_passed w)"

definition priohigh_module_exit :: "kernel \<Rightarrow> pr_world \<Rightarrow> pr_world" where
  "priohigh_module_exit K = stop_all (kcall_thread K (priohigh_dma_callback K)) 4"

definition priolow_module_init :: "kernel \<Rightarrow> pr_world \<Rightarrow> int \<times> pr_world" where
  "priolow_module_init K w =
     (let call = kcall_thread K (priolow_dma_callback K) in
      run_transfers (priolow_request_dma K call) K call 4
        (prio_config K (\<lambda>i. if i \<le> 1 then DMA_CH_PRIO_LOW else DMA_CH_PRIO_HIGH))
        priolow_get_transfers_finished priolow_check_test_passed w)"

definition priolow_module_exit :: "kernel \<Rightarrow> pr_world \<Rightarrow> pr_world" where
  "priolow_module_exit K = stop_all (kcall_thread K (priolow_dma_callback K)) 4"

section \<open>The callback is the common one after the record of the order\<close>

lemma priohigh_dma_callback_eq:
  "priohigh_dma_callback K lch st i w =
     (if i < length (transfers w) then dma_callback K lch st i (record_order i w) else w)"
  by (simp add: priohigh_dma_callback_def dma_callback_def record_order_def Let_def)

lemma priolow_dma_callback_eq: "priolow_dma_callback = priohigh_dma_callback"
  by (simp add: fun_eq_iff priolow_dma_callback_def priohigh_dma_callback_def)

lemma record_order_simps [simp]:
  "transfers (record_order i w) = transfers w" "trace (record_order i w) = trace w"
  "mem (record_order i w) = mem w" "test_passed (record_order i w) = test_passed w"
  by (simp_all add: record_order_def Let_def)

lemma record_order_view: "sc_view (record_order i w) = sc_view w"
  by (simp add: sc_view_def)

lemma record_order_backed: "verdicts_backed K (record_order i w) = verdicts_backed K w"
  by (simp add: verdicts_backed_def verified_def)

lemma record_order_log: "record_order i (log_ev e w) = log_ev e (record_order i w)"
  by (simp add: record_order_def log_ev_def Let_def)

interpretation prio_cb: sc_handler K "priohigh_dma_callback K" for K
proof unfold_locales
  fix lch st d and w :: pr_world
  show "sc_view (priohigh_dma_callback K lch st d (log_ev (Interrupt lch st d (mem w)) w)) = sc_view w"
    by (simp add: priohigh_dma_callback_eq dma_callback_view record_order_view view_log_neutral)
  show "verdicts_backed K (priohigh_dma_callback K lch st d (log_ev (Interrupt lch st d (mem w)) w))"
    if "verdicts_backed K w"
    using that dma_callback_backed[of K "record_order d w" lch st d]
    by (auto simp: priohigh_dma_callback_eq record_order_log record_order_backed
        verdicts_backed_def verified_def)
qed (simp_all add: verdicts_backed_def verified_def)

section \<open>The record of the order\<close>

text \<open>The interrupts that concerned one of the four transfers, oldest first.\<close>

definition finish_order :: "history \<Rightarrow> nat list" where
  "finish_order h = filter (\<lambda>d. d < 4) (irq_ids h)"

lemma finish_order_simps [simp]:
  "finish_order [] = []"
  "finish_order (Called c r out # h) = finish_order h"
  "finish_order (Interrupt lch st d m # h) = finish_order h @ (if d < 4 then [d] else [])"
  by (simp_all add: finish_order_def)

text \<open>The part of the state the record of the order consists of.\<close>

definition order_state :: "pr_world \<Rightarrow> int list \<times> nat \<times> bool" where
  "order_state w = (transfer_finished_order w, transfer_finished_count w, order_overrun w)"

lemma order_state_frame [simp]:
  "order_state (tr_upd i f w) = order_state w"
  "order_state (kcall_irq K c w) = order_state w"
  "order_state (log_ev e w) = order_state w"
  "order_state (w\<lparr>mem := m\<rparr>) = order_state w"
  "order_state (set_test_passed p w) = order_state w"
  "order_state (unmap_phys_buffers (kcall_irq K) i w) = order_state w"
  "order_state (dma_callback K lch st i w) = order_state w"
  by (simp_all add: order_state_def tr_upd_def kcall_irq_def log_ev_def set_test_passed_def
      unmap_phys_buffers_def dma_callback_def Let_def)

lemma irq_ids_frame [simp]:
  "irq_ids (trace (unmap_phys_buffers (kcall_irq K) i w)) = irq_ids (trace w)"
  "irq_ids (trace (dma_callback K lch st i w)) = irq_ids (trace w)"
  by (simp_all add: unmap_phys_buffers_def dma_callback_def Let_def)

lemma dma_callback_length [simp]:
  "length (transfers (dma_callback K lch st i w)) = length (transfers w)"
  by (simp add: dma_callback_def Let_def)

text \<open>Every interrupt is counted, and the fifth one is the first to write outside the array.\<close>

definition order_counted :: "pr_world \<Rightarrow> bool" where
  "order_counted w \<longleftrightarrow> length (transfers w) = 4 \<and>
     (case order_state w of (order, cnt, overrun) \<Rightarrow>
        length order = 4 \<and> cnt = length (finish_order (trace w)) \<and> (overrun \<longleftrightarrow> 4 < cnt))"

lemma handler_order_state:
  assumes "d < length (transfers w)"
  shows "order_state (priohigh_dma_callback K lch st d (log_ev (Interrupt lch st d (mem w)) w)) =
    (case order_state w of (order, cnt, overrun) \<Rightarrow>
       if cnt < length order then (order[cnt := transfer_id (transfers w ! d)], Suc cnt, overrun)
       else (order, Suc cnt, True))"
proof -
  have "order_state (record_order d w) = (case order_state w of (order, cnt, overrun) \<Rightarrow>
       if cnt < length order then (order[cnt := transfer_id (transfers w ! d)], Suc cnt, overrun)
       else (order, Suc cnt, True))"
    by (simp add: order_state_def record_order_def Let_def)
  with assms show ?thesis by (simp add: priohigh_dma_callback_eq record_order_log)
qed

lemma handler_finish_order:
  assumes "length (transfers w) = 4"
  shows "finish_order (trace (priohigh_dma_callback K lch st d (log_ev (Interrupt lch st d (mem w)) w))) =
    finish_order (trace w) @ (if d < 4 then [d] else [])"
  using assms by (simp add: priohigh_dma_callback_eq finish_order_def)

lemma handler_outside:
  assumes "length (transfers w) = 4" and "\<not> d < 4"
  shows "priohigh_dma_callback K lch st d (log_ev e w) = log_ev e w"
  using assms by (simp add: priohigh_dma_callback_eq)

lemma order_counted_handler:
  assumes "order_counted w"
  shows "order_counted (priohigh_dma_callback K lch st d (log_ev (Interrupt lch st d (mem w)) w))"
    (is "order_counted ?w")
proof (cases "d < 4")
  case True
  have l: "length (transfers w) = 4" using assms by (simp add: order_counted_def)
  then have "length (transfers ?w) = 4" by (simp add: priohigh_dma_callback_eq)
  with True l assms handler_order_state[of d w K lch st] handler_finish_order[OF l, of K lch st d]
  show ?thesis by (auto simp: order_counted_def split: prod.splits if_splits)
next
  case False
  with assms show ?thesis by (simp add: order_counted_def handler_outside)
qed

lemma order_counted_frame:
  "order_counted (tr_upd i f w) = order_counted w"
  "order_counted (kcall_irq K c w) = order_counted w"
  "order_counted (w\<lparr>mem := m\<rparr>) = order_counted w"
  "order_counted (set_test_passed p w) = order_counted w"
  by (simp_all add: order_counted_def)

interpretation prio_counted: irq_invariant "priohigh_dma_callback K" order_counted for K
  by unfold_locales (simp_all add: order_counted_handler order_counted_frame)

interpretation prio_counted_run: exit_invariant K "kcall_thread K (priohigh_dma_callback K)"
  order_counted for K
  by unfold_locales (simp_all add: prio_counted.kcall_thread_inv order_counted_frame)

text \<open>
  After the transfers have been started their channel numbers no longer change, and the first
  entry of the record is the channel of the transfer that finished first.
\<close>

definition order_true :: "pr_world \<Rightarrow> bool" where
  "order_true w \<longleftrightarrow> order_counted w \<and> (finish_order (trace w) \<noteq> [] \<longrightarrow>
     transfer_finished_order w ! 0 = transfer_id (transfers w ! hd (finish_order (trace w))))"

lemma transfer_id_view:
  assumes "sc_view v = sc_view w" and "i < length (transfers w)"
  shows "transfer_id (transfers v ! i) = transfer_id (transfers w ! i)"
proof -
  have "map strip (transfers v) = map strip (transfers w)" using assms(1) by (simp add: sc_view_def)
  then have "strip (transfers v ! i) = strip (transfers w ! i)"
    using assms(2) by (metis length_map nth_map)
  then show ?thesis by (metis strip_simps(2))
qed

lemma order_true_handler:
  assumes "order_true w"
  shows "order_true (priohigh_dma_callback K lch st d (log_ev (Interrupt lch st d (mem w)) w))"
    (is "order_true ?w")
proof (cases "d < 4")
  case True
  have l: "length (transfers w) = 4" and c: "order_counted w"
    using assms by (simp_all add: order_true_def order_counted_def)
  have f: "finish_order (trace ?w) = finish_order (trace w) @ [d]"
    using True l by (simp add: priohigh_dma_callback_eq finish_order_def)
  have lt: "hd (finish_order (trace w) @ [d]) < 4"
    using True hd_in_set[of "finish_order (trace w) @ [d]"] by (auto simp: finish_order_def)
  have id: "transfer_id (transfers ?w ! j) = transfer_id (transfers w ! j)" if "j < 4" for j
    using transfer_id_view [OF prio_cb.handler_view] that l by simp
  have "transfer_finished_order ?w ! 0 =
      (if finish_order (trace w) = [] then transfer_id (transfers w ! d) else transfer_finished_order w ! 0)"
    using c True l handler_order_state[of d w K lch st]
    by (auto simp: order_state_def order_counted_def split: if_splits)
  with assms order_counted_handler [OF c] f id [OF lt] show ?thesis
    by (auto simp: order_true_def)
next
  case False
  moreover have "length (transfers w) = 4" using assms by (simp add: order_true_def order_counted_def)
  ultimately have w: "?w = log_ev (Interrupt lch st d (mem w)) w" by (simp add: handler_outside)
  have "transfer_finished_order (log_ev e w) = transfer_finished_order w" for e
    by (simp add: log_ev_def)
  with False assms show ?thesis unfolding w by (simp add: order_true_def order_counted_def)
qed

lemma order_true_frame:
  "order_true (kcall_irq K c w) = order_true w" "order_true (w\<lparr>mem := m\<rparr>) = order_true w"
  by (simp_all add: order_true_def order_counted_frame) (simp add: kcall_irq_def log_ev_def)

interpretation prio_true: irq_invariant "priohigh_dma_callback K" order_true for K
  by unfold_locales (simp_all add: order_true_handler order_true_frame)

lemma setup_invariant_conj:
  assumes "setup_invariant call I" and "setup_invariant call J"
  shows "setup_invariant call (\<lambda>w. I w \<and> J w)"
  using assms by (auto simp: setup_invariant_def)

lemma quiet_order_true: "quiet w \<Longrightarrow> order_counted w \<Longrightarrow> order_true w"
  by (simp add: order_true_def quiet_def finish_order_def)

text \<open>
  The verdict of a run of the common shape under this callback, for a check that turns a state
  with a true record into \<open>Q\<close>.
\<close>

lemma prio_run:
  assumes "irq_after_start K" and "config_frame config"
    and "quiet w" and "order_counted w"
    and check: "\<And>w. verdicts_backed K w \<Longrightarrow> order_true w \<Longrightarrow> Q (check w)"
    and run: "run_transfers (request_dma K (kcall_thread K (priohigh_dma_callback K))) K
      (kcall_thread K (priohigh_dma_callback K)) 4 config fin check w = (r, w')"
  shows "r = 0 \<and> Q w' \<or> test_passed w' = 0"
proof (rule prio_cb.thread.run_transfers_inv
    [where J = "\<lambda>w. verdicts_backed K w \<and> order_true w",
      OF setup_invariant_conj [OF quiet_thread [OF assms(1)] prio_counted_run.setup_invariant_axioms]
        assms(2) _ _ _ _ _ run])
  show "quiet w \<and> order_counted w" using assms(3,4) by simp
  show "length (transfers w) = 4" using assms(4) by (simp add: order_counted_def)
qed (auto simp: quiet_backed quiet_order_true prio_cb.backed_thread check order_true_frame
    intro!: prio_true.kcall_thread_inv)

lemma prio_config_frame: "config_frame (prio_config K prio)"
  by (simp add: config_frame_def prio_config_def)

lemma pr_fresh_simps [simp]:
  "trace (pr_fresh m) = []" "transfers (pr_fresh m) = replicate 4 zero_transfer"
  "test_passed (pr_fresh m) = - 1" "mem (pr_fresh m) = m"
  by (simp_all add: pr_fresh_def sc_world.defs sc_fresh_def)

lemma pr_fresh_ready: "quiet (pr_fresh m)" "order_counted (pr_fresh m)" "staged 4 0 (pr_fresh m)"
proof -
  show "quiet (pr_fresh m)" by (simp add: quiet_def not_started_def idle_def)
  show "order_counted (pr_fresh m)"
    by (simp add: order_counted_def) (simp add: order_state_def pr_fresh_def sc_world.defs)
  show "staged 4 0 (pr_fresh m)"
    by (simp add: staged_def owned_def own_chan_def own_buf_def unused_def)
qed

lemmas prio_defs = priohigh_request_dma_def priolow_request_dma_def priolow_dma_callback_eq
  priohigh_module_init_def priolow_module_init_def priohigh_module_exit_def priolow_module_exit_def

text \<open>The verdict of a check that accepts the record exactly when \<open>P\<close> holds of its first entry.\<close>

definition first_verdict :: "kernel \<Rightarrow> (int \<Rightarrow> pr_world \<Rightarrow> bool) \<Rightarrow> pr_world \<Rightarrow> bool" where
  "first_verdict K P w \<longleftrightarrow> test_passed w \<in> {0, 1} \<and> (test_passed w = 1 \<longrightarrow>
     (\<forall>i<4. verified K w i) \<and> finish_order (trace w) \<noteq> [] \<and>
     P (transfer_id (transfers w ! hd (finish_order (trace w)))) w)"

lemma check_first:
  assumes "verdicts_backed K w" and "order_true w"
    and "check w = set_test_passed (if (\<forall>t \<in> set (take 4 (transfers w)). data_correct t \<noteq> 0) \<and>
      P (transfer_finished_order w ! 0) w then 1 else 0) w"
    and "\<And>c p. P c (set_test_passed p w) = P c w"
  shows "first_verdict K P (check w)"
proof (cases "(\<forall>t \<in> set (take 4 (transfers w)). data_correct t \<noteq> 0) \<and> P (transfer_finished_order w ! 0) w")
  case True
  have l: "length (transfers w) = 4" using assms(2) by (simp add: order_true_def order_counted_def)
  then have v: "\<forall>i<4. verified K w i" using True assms(1) by (simp add: verdicts_backed_def)
  then have "verified K w 0" by simp
  then have "last_irq 0 (trace w) \<noteq> None" by (auto simp: verified_def irq_good_def split: option.splits)
  then have "0 \<in> set (finish_order (trace w))" by (simp add: last_irq_None finish_order_def)
  then have ne: "finish_order (trace w) \<noteq> []" by auto
  with assms(2) have "transfer_finished_order w ! 0 =
      transfer_id (transfers w ! hd (finish_order (trace w)))" by (simp add: order_true_def)
  with True v ne show ?thesis by (simp add: assms(3,4) first_verdict_def)
next
  case False
  then show ?thesis unfolding assms(3) by (simp only: if_False) (simp add: first_verdict_def)
qed

section \<open>Properties of the priority modules\<close>

lemma priohigh_check_first:
  assumes "verdicts_backed K w" and "order_true w"
  shows "first_verdict K (\<lambda>c w. c = transfer_id (transfers w ! 3)) (priohigh_check_test_passed w)"
  by (rule check_first [OF assms])
    (auto simp: priohigh_check_test_passed_def data_error_spec Let_def)

lemma priolow_check_first:
  assumes "verdicts_backed K w" and "order_true w"
  shows "first_verdict K (\<lambda>c w. c \<noteq> transfer_id (transfers w ! 0)) (priolow_check_test_passed w)"
  by (rule check_first [OF assms])
    (auto simp: priolow_check_test_passed_def data_error_spec Let_def)

text \<open>
  The verdict of \<^verbatim>\<open>dma_priority_high.c\<close>: initialisation always stores one; if it is PASSED,
  every transfer was verified by its last completion interrupt and the transfer whose completion
  interrupt came first has the channel of the last, high-priority transfer.
\<close>

theorem priority_high_verdict:
  assumes "irq_after_start K" and "priohigh_module_init K (pr_fresh m) = (r, w)"
  shows "test_passed w \<in> {0, 1} \<and> (test_passed w = 1 \<longrightarrow> r = 0 \<and> (\<forall>i<4. verified K w i) \<and>
    finish_order (trace w) \<noteq> [] \<and>
    transfer_id (transfers w ! hd (finish_order (trace w))) = transfer_id (transfers w ! 3))"
proof -
  have "r = 0 \<and> first_verdict K (\<lambda>c w. c = transfer_id (transfers w ! 3)) w \<or> test_passed w = 0"
    by (rule prio_run [where check = priohigh_check_test_passed and
          Q = "first_verdict K (\<lambda>c w. c = transfer_id (transfers w ! 3))",
          OF assms(1) prio_config_frame pr_fresh_ready(1,2) priohigh_check_first])
      (use assms(2) in \<open>simp_all add: prio_defs Let_def\<close>)
  then show ?thesis by (auto simp: first_verdict_def)
qed

text \<open>
  The verdict of \<^verbatim>\<open>dma_priority_low.c\<close>: if it is PASSED, every transfer was verified and the
  first completion interrupt was not that of a transfer on the channel of the first,
  low-priority transfer.
\<close>

theorem priority_low_verdict:
  assumes "irq_after_start K" and "priolow_module_init K (pr_fresh m) = (r, w)"
  shows "test_passed w \<in> {0, 1} \<and> (test_passed w = 1 \<longrightarrow> r = 0 \<and> (\<forall>i<4. verified K w i) \<and>
    finish_order (trace w) \<noteq> [] \<and>
    transfer_id (transfers w ! hd (finish_order (trace w))) \<noteq> transfer_id (transfers w ! 0))"
proof -
  have "r = 0 \<and> first_verdict K (\<lambda>c w. c \<noteq> transfer_id (transfers w ! 0)) w \<or> test_passed w = 0"
    by (rule prio_run [where check = priolow_check_test_passed and
          Q = "first_verdict K (\<lambda>c w. c \<noteq> transfer_id (transfers w ! 0))",
          OF assms(1) prio_config_frame pr_fresh_ready(1,2) priolow_check_first])
      (use assms(2) in \<open>simp_all add: prio_defs Let_def\<close>)
  then show ?thesis by (auto simp: first_verdict_def)
qed

lemma priority_check_counted:
  assumes "order_counted w"
  shows "order_counted (priohigh_check_test_passed w)" "order_counted (priolow_check_test_passed w)"
  using assms by (simp_all add: priohigh_check_test_passed_def priolow_check_test_passed_def
      Let_def order_counted_frame)

text \<open>
  The record of the order is written outside its array exactly when more than four completion
  interrupts arrive, in both modules and at every point up to the end of the exit function: the
  callbacks do not check the index, and nothing else keeps it in range.
\<close>

theorem priority_order_overrun:
  "let w = priohigh_module_exit K (snd (priohigh_module_init K (pr_fresh m)));
       v = priolow_module_exit K (snd (priolow_module_init K (pr_fresh m)))
   in (order_overrun w \<longleftrightarrow> 4 < length (finish_order (trace w))) \<and>
      (order_overrun v \<longleftrightarrow> 4 < length (finish_order (trace v)))"
proof -
  have "order_counted (priohigh_module_exit K (snd (priohigh_module_init K (pr_fresh m))))"
    and "order_counted (priolow_module_exit K (snd (priolow_module_init K (pr_fresh m))))"
    by (simp_all add: prio_defs Let_def prio_counted_run.stop_all_I prio_counted_run.run_transfers_I
        prio_config_frame pr_fresh_ready priority_check_counted)
  then show ?thesis by (auto simp: order_counted_def order_state_def Let_def)
qed

lemma priority_check_kept:
  "kept n w \<Longrightarrow> kept n (priohigh_check_test_passed w)" "kept n w \<Longrightarrow> kept n (priolow_check_test_passed w)"
  by (simp_all add: priohigh_check_test_passed_def priolow_check_test_passed_def Let_def kept_def)

text \<open>
  Both modules give back every channel and buffer they obtained, exactly once, whatever the
  kernel answers and however initialisation ends.
\<close>

theorem priority_modules_release:
  assumes "grants_channel K"
    and "w = priohigh_module_exit K (snd (priohigh_module_init K (pr_fresh m))) \<or>
      w = priolow_module_exit K (snd (priolow_module_init K (pr_fresh m)))"
  shows "chan_balance (trace w) ch = 0 \<and> (a \<noteq> 0 \<longrightarrow> alloc_balance (trace w) a = 0)"
proof -
  note kept = prio_cb.thread.run_transfers_kept
    [OF assms(1) prio_config_frame pr_fresh_ready(3)]
  from assms(2) show ?thesis
    by (auto simp: prio_defs Let_def prio_cb.thread.stop_all_released kept priority_check_kept)
qed

text \<open>Witnesses on the concrete kernel.\<close>

theorem priority_high_verdict_witness:
  "irq_after_start (demo_kernel 4) \<and>
   test_passed (snd (priohigh_module_init (demo_kernel 4) (pr_fresh (\<lambda>_. 0)))) \<in> {0, 1}"
  using priority_high_verdict [where m = "\<lambda>_. 0", OF demo_irq_after_start prod.collapse [symmetric]]
    demo_irq_after_start by blast

theorem priority_low_verdict_witness:
  "irq_after_start (demo_kernel 4) \<and>
   test_passed (snd (priolow_module_init (demo_kernel 4) (pr_fresh (\<lambda>_. 0)))) \<in> {0, 1}"
  using priority_low_verdict [where m = "\<lambda>_. 0", OF demo_irq_after_start prod.collapse [symmetric]]
    demo_irq_after_start by blast

theorem priority_modules_release_witness:
  "grants_channel (demo_kernel 4) \<and>
   chan_balance (trace (priohigh_module_exit (demo_kernel 4)
     (snd (priohigh_module_init (demo_kernel 4) (pr_fresh (\<lambda>_. 0)))))) 0 = 0"
  using priority_modules_release [OF demo_grants_channel disjI1 [OF refl]] demo_grants_channel by simp

end
