(* ===== verification/Dma_Stop.thy ===== *)
theory Dma_Stop
  imports Dma_Standard
begin

text \<open>
  The modules that stop a transfer before it completes: \<^verbatim>\<open>dma_stop_transfer.c\<close>,
  \<^verbatim>\<open>dma_stop_transfer_twice.c\<close> and \<^verbatim>\<open>dma_stop_transfer_invalid.c\<close>. They use the callback of the
  common module, start one large transfer, wait, stop it, and look at its \<^verbatim>\<open>finished\<close> flag.
\<close>

section \<open>The three modules\<close>

text \<open>
  The fields the modules assign to transfer 0; \<^verbatim>\<open>dma_stop_transfer_invalid.c\<close> leaves the
  destination addressing mode alone.
\<close>

definition stop_config :: "kernel \<Rightarrow> dma_transfer \<Rightarrow> dma_transfer" where
  "stop_config K t = t\<lparr>
     device_id := k_const K OMAP_DMA_NO_DEVICE,
     sync_mode := k_const K OMAP_DMA_SYNC_ELEMENT,
     data_burst := k_const K OMAP_DMA_DATA_BURST_DIS,
     data_type := k_const K OMAP_DMA_DATA_TYPE_S8,
     endian_type := k_const K DMA_TEST_LITTLE_ENDIAN,
     addressing_mode := k_const K OMAP_DMA_AMODE_POST_INC,
     dst_addressing_mode := k_const K OMAP_DMA_AMODE_POST_INC,
     priority := k_const K DMA_CH_PRIO_LOW,
     buffers := (buffers t)\<lparr>buf_size := 1024 * 1024 * 2\<rparr>\<rparr>"

definition stop_invalid_config :: "kernel \<Rightarrow> dma_transfer \<Rightarrow> dma_transfer" where
  "stop_invalid_config K t = t\<lparr>
     device_id := k_const K OMAP_DMA_NO_DEVICE,
     sync_mode := k_const K OMAP_DMA_SYNC_ELEMENT,
     data_burst := k_const K OMAP_DMA_DATA_BURST_DIS,
     data_type := k_const K OMAP_DMA_DATA_TYPE_S8,
     endian_type := k_const K DMA_TEST_LITTLE_ENDIAN,
     addressing_mode := k_const K OMAP_DMA_AMODE_POST_INC,
     priority := k_const K DMA_CH_PRIO_LOW,
     buffers := (buffers t)\<lparr>buf_size := 1024 * 1024 * 2\<rparr>\<rparr>"

text \<open>Checks that transfer \<open>i\<close> did not complete.\<close>

definition stop_check_test_passed :: "nat \<Rightarrow> sc_world \<Rightarrow> sc_world" where
  "stop_check_test_passed i w =
     (let error = (if finished (transfers w ! i) \<noteq> 0 then 1 else 0 :: int)
      in if error = 0 then set_test_passed 1 w else set_test_passed 0 w)"

text \<open>The common beginning: set transfer 0 up, start it and wait.\<close>

definition start_and_wait :: "kernel \<Rightarrow> (dma_transfer \<Rightarrow> dma_transfer) \<Rightarrow> nat \<Rightarrow> sc_world
    \<Rightarrow> int \<times> sc_world" where
  "start_and_wait K config time_before_stop w =
     (case prepare_transfer (request_dma K (sc_call K)) K (sc_call K) 0 (tr_upd 0 config w) of
        (error, w) \<Rightarrow>
          if error \<noteq> 0 then (1, w)
          else (0, sc_call K (Mdelay time_before_stop) (start_dma_transfer (sc_call K) 0 w)))"

definition stop_transfer_check :: "sc_world \<Rightarrow> sc_world" where
  "stop_transfer_check = stop_check_test_passed 0"

definition stop_transfer_init :: "kernel \<Rightarrow> sc_world \<Rightarrow> int \<times> sc_world" where
  "stop_transfer_init K w =
     (case start_and_wait K (stop_config K) 50 w of (error, w) \<Rightarrow>
        if error \<noteq> 0 then (1, w)
        else let w = snd (stop_dma_transfer (sc_call K) 0 w)
             in (0, stop_transfer_check w))"

definition stop_transfer_exit :: "sc_world \<Rightarrow> sc_world" where
  "stop_transfer_exit w = w"

definition stop_twice_check :: "sc_world \<Rightarrow> sc_world" where
  "stop_twice_check = stop_check_test_passed 0"

definition stop_twice_init :: "kernel \<Rightarrow> sc_world \<Rightarrow> int \<times> sc_world" where
  "stop_twice_init K w =
     (case start_and_wait K (stop_config K) 10 w of (error, w) \<Rightarrow>
        if error \<noteq> 0 then (1, w)
        else case stop_dma_transfer (sc_call K) 0 w of (error, w) \<Rightarrow>
          let w = (if error = 0 then set_test_passed 1 w else set_test_passed 0 w)
          in case stop_dma_transfer (sc_call K) 0 w of (error, w) \<Rightarrow>
            let w = (if error \<noteq> 0 then set_test_passed 1 w else set_test_passed 0 w)
            in (0, stop_twice_check w))"

definition stop_twice_exit :: "sc_world \<Rightarrow> sc_world" where
  "stop_twice_exit w = w"

definition stop_invalid_check :: "sc_world \<Rightarrow> sc_world" where
  "stop_invalid_check = stop_check_test_passed 1"

definition stop_invalid_init :: "kernel \<Rightarrow> sc_world \<Rightarrow> int \<times> sc_world" where
  "stop_invalid_init K w =
     (case start_and_wait K (stop_invalid_config K) 50 w of (error, w) \<Rightarrow>
        if error \<noteq> 0 then (1, w)
        else let w = snd (stop_dma_transfer (sc_call K) 0 w);
                 w = stop_dma_transfer_invalid (sc_call K) 1 w
             in (0, stop_invalid_check w))"

definition stop_invalid_exit :: "sc_world \<Rightarrow> sc_world" where
  "stop_invalid_exit w = w"

section \<open>The finished flag and the interrupts\<close>

text \<open>A transfer is marked finished exactly when a completion interrupt for it has arrived.\<close>

definition flags_true :: "'a sc_world_scheme \<Rightarrow> bool" where
  "flags_true w \<longleftrightarrow> (\<forall>i < length (transfers w).
     finished (transfers w ! i) \<noteq> 0 \<longleftrightarrow> i \<in> set (irq_ids (trace w)))"

lemma quiet_flags_true: "quiet w \<Longrightarrow> flags_true w"
  by (simp add: quiet_def flags_true_def idle_def)

lemma dma_callback_irq_ids [simp]: "irq_ids (trace (dma_callback K lch st i w)) = irq_ids (trace w)"
  by (simp add: dma_callback_def unmap_phys_buffers_def Let_def)

lemma flags_true_handler:
  "flags_true w \<Longrightarrow> flags_true (dma_callback K lch st d (log_ev (Interrupt lch st d (mem w)) w))"
proof (cases "d < length (transfers w)")
  case True
  then show "flags_true w \<Longrightarrow> ?thesis"
    by (auto simp: flags_true_def dma_callback_transfers nth_list_update)
next
  case False
  then show "flags_true w \<Longrightarrow> ?thesis" by (auto simp: flags_true_def)
qed

interpretation cb_flags: irq_invariant "dma_callback K :: 'a sc_world_scheme handler" flags_true for K
  by unfold_locales (simp_all add: flags_true_handler, simp add: flags_true_def)

lemma flags_true_call: "flags_true w \<Longrightarrow> flags_true (sc_call K c w)"
  by (rule cb_flags.kcall_thread_inv) (simp add: flags_true_def)

lemma flags_true_upd:
  "flags_true w \<Longrightarrow> (\<And>t. finished (f t) = finished t) \<Longrightarrow> flags_true (tr_upd i f w)"
  by (cases "i < length (transfers w)")
    (auto simp: flags_true_def nth_list_update list_update_beyond)

lemma flags_true_passed: "flags_true (set_test_passed p w) = flags_true w"
  by (simp add: flags_true_def)

lemma flags_true_stop:
  assumes "flags_true w"
  shows "flags_true (snd (stop_dma_transfer (sc_call K) i w))"
  using assms by (simp add: stop_dma_transfer_def Let_def flags_true_call flags_true_upd)

lemma stop_config_frame: "config_frame (\<lambda>_. stop_config K)" "config_frame (\<lambda>_. stop_invalid_config K)"
  by (simp_all add: config_frame_def stop_config_def stop_invalid_config_def)

lemma start_and_wait_flags:
  assumes "irq_after_start K" and "config_frame (\<lambda>_. config)" and "quiet w"
    and "start_and_wait K config t w = (r, w')"
  shows "r = 0 \<and> flags_true w' \<or> r = 1 \<and> test_passed w' = 0"
proof -
  let ?p = "prepare_transfer (request_dma K (sc_call K)) K (sc_call K) 0 (tr_upd 0 config w)"
  have "quiet (tr_upd 0 config w)"
    using assms(2,3) by (simp add: tr_upd_quiet flag_frame_def config_frame_def)
  then have "quiet (snd ?p)"
    by (rule setup_invariant.prepare_transfer_I [OF quiet_thread [OF assms(1)]])
  then have "flags_true (snd ?p)" by (rule quiet_flags_true)
  with assms(4) prepare_transfer_fail[of "request_dma K (sc_call K)" K "sc_call K" 0 "tr_upd 0 config w"]
  show ?thesis
    by (auto simp: start_and_wait_def start_dma_transfer_def flags_true_call
        split: prod.splits if_splits)
qed

lemma stop_check_true:
  assumes "flags_true w" and "i < length (transfers w)"
  shows "test_passed (stop_check_test_passed i w) = (if i \<in> set (irq_ids (trace w)) then 0 else 1)"
    and "trace (stop_check_test_passed i w) = trace w"
  using assms by (simp_all add: stop_check_test_passed_def flags_true_def)

lemma start_and_wait_length:
  "length (transfers (snd (start_and_wait K config t w))) = length (transfers w)"
  using cb_call.prepare_transfer_length[of K 0 "tr_upd 0 config w"]
  by (auto simp: start_and_wait_def start_dma_transfer_def split: prod.splits)

section \<open>Stopping and giving back\<close>

lemma start_and_wait_kept:
  assumes "grants_channel K" and "config_frame (\<lambda>_. config)" and "staged 1 0 w"
  shows "kept 1 (snd (start_and_wait K config t w))"
proof -
  have s: "staged 1 0 (tr_upd 0 config w)" using staged_config [OF assms(2,3)] .
  let ?p = "prepare_transfer (request_dma K (sc_call K)) K (sc_call K) 0 (tr_upd 0 config w)"
  have "kept 1 (snd ?p)"
    using cb_call.prepare_staged(1,2) [OF assms(1) s] by (simp add: kept_def)
  then show ?thesis
    by (auto simp: start_and_wait_def start_dma_transfer_def cb_call.call_kept split: prod.splits)
qed

lemma stop_releases:
  assumes "kept 1 w"
  shows "chan_balance (trace (snd (stop_dma_transfer (sc_call K) 0 w))) ch = 0"
    and "a \<noteq> 0 \<Longrightarrow> alloc_balance (trace (snd (stop_dma_transfer (sc_call K) 0 w))) a = 0"
  using cb_call.stop_all_released [where K = K, OF assms] by (simp_all add: stop_all_def)

lemma stop_again:
  assumes "0 < length (transfers w)"
  shows "stop_dma_transfer call 0 (set_test_passed p (snd (stop_dma_transfer (sc_call K) 0 w))) =
    (1, set_test_passed p (snd (stop_dma_transfer (sc_call K) 0 w)))"
  using cb_call.stop_dma_transfer_released [OF assms, of K] by (simp add: stop_dma_transfer_def)

lemma stop_check_passed [simp]:
  "stop_check_test_passed i (set_test_passed p w) = stop_check_test_passed i w"
  by (simp add: stop_check_test_passed_def set_test_passed_def)

text \<open>
  Both modules end in the same way: what \<^verbatim>\<open>dma_stop_transfer_twice.c\<close> stores about the two stop
  calls is overwritten by the final check.
\<close>

definition stop_run :: "kernel \<Rightarrow> nat \<Rightarrow> sc_world \<Rightarrow> int \<times> sc_world" where
  "stop_run K t w = (case start_and_wait K (stop_config K) t w of (error, w) \<Rightarrow>
     if error \<noteq> 0 then (1, w)
     else (0, stop_check_test_passed 0 (snd (stop_dma_transfer (sc_call K) 0 w))))"

lemma stop_transfer_shape: "stop_transfer_init K w = stop_run K 50 w"
  unfolding stop_transfer_init_def stop_run_def stop_transfer_check_def Let_def ..

lemma stop_twice_shape:
  assumes "0 < length (transfers w)"
  shows "stop_twice_init K w = stop_run K 10 w"
proof -
  have "0 < length (transfers (snd (start_and_wait K (stop_config K) 10 w)))"
    using assms by (simp add: start_and_wait_length)
  note again = stop_again [OF this, of "sc_call K" _ K]
  show ?thesis
    using again by (auto simp: stop_twice_init_def stop_run_def stop_twice_check_def
        split: prod.splits)
qed

lemma stop_run_verdict:
  assumes "irq_after_start K" and "stop_run K t (sc_fresh 1 m) = (r, w)"
  shows "test_passed w = (if r = 0 \<and> 0 \<notin> set (irq_ids (trace w)) then 1 else 0)"
proof -
  obtain e w1 where s: "start_and_wait K (stop_config K) t (sc_fresh 1 m) = (e, w1)" by fastforce
  have l: "length (transfers w1) = 1"
    using start_and_wait_length[of K "stop_config K" t "sc_fresh 1 m"] s by simp
  have "quiet (sc_fresh 1 m)" by (simp add: quiet_def not_started_def idle_def)
  from start_and_wait_flags [OF assms(1) stop_config_frame(1) this s]
  have f: "e = 0 \<and> flags_true w1 \<or> e = 1 \<and> test_passed w1 = 0" .
  then show ?thesis
  proof (elim disjE conjE)
    assume e: "e = 0" and "flags_true w1"
    then have "flags_true (snd (stop_dma_transfer (sc_call K) 0 w1))" by (simp add: flags_true_stop)
    from stop_check_true [OF this, of 0] l e s assms(2) show ?thesis
      by (auto simp: stop_run_def)
  next
    assume "e = 1" and "test_passed w1 = 0"
    with s assms(2) show ?thesis by (auto simp: stop_run_def)
  qed
qed

lemma stop_run_release:
  assumes "grants_channel K" and "stop_run K t (sc_fresh 1 m) = (0, w)"
  shows "chan_balance (trace w) ch = 0" and "a \<noteq> 0 \<Longrightarrow> alloc_balance (trace w) a = 0"
proof -
  have "kept 1 (snd (start_and_wait K (stop_config K) t (sc_fresh 1 m)))"
    using fresh_ready(1) [OF disjI1 [OF refl], where n = 1 and m = m]
    by (intro start_and_wait_kept [OF assms(1) stop_config_frame(1)]) simp
  note released = stop_releases [where K = K, OF this]
  with assms(2) show "chan_balance (trace w) ch = 0" and "a \<noteq> 0 \<Longrightarrow> alloc_balance (trace w) a = 0"
    by (auto simp: stop_run_def stop_check_test_passed_def split: prod.splits if_splits)
qed

text \<open>
  The initialisation functions of the two modules that look at the transfer they stop.
\<close>

definition stop_inits :: "kernel \<Rightarrow> (sc_world \<Rightarrow> int \<times> sc_world) list" where
  "stop_inits K = [stop_transfer_init K, stop_twice_init K]"

lemma stop_inits_run:
  "ini \<in> set (stop_inits K) \<Longrightarrow> \<exists>t. ini (sc_fresh 1 m) = stop_run K t (sc_fresh 1 m)"
  by (auto simp: stop_inits_def stop_transfer_shape stop_twice_shape)

section \<open>The transfer the invalid-stop module looks at\<close>

text \<open>
  A documented law of the DMA driver: the callback is only run with data pointers that were
  passed to a channel request.
\<close>

fun requested :: "history \<Rightarrow> nat \<Rightarrow> bool" where
  "requested [] i = False"
| "requested (Called (Omap_request_dma dev j) r out # h) i = (i = j \<or> requested h i)"
| "requested (e # h) i = requested h i"

fun irq_allowed :: "history \<Rightarrow> event \<Rightarrow> bool" where
  "irq_allowed h (Device f) = True"
| "irq_allowed h (Irq lch st d) = requested h d"

definition irq_registered :: "kernel \<Rightarrow> bool" where
  "irq_registered K \<longleftrightarrow> (\<forall>h. \<forall>e \<in> set (k_events K h). irq_allowed h e)"

text \<open>Nothing has happened to transfer 1.\<close>

definition second_idle :: "sc_world \<Rightarrow> bool" where
  "second_idle w \<longleftrightarrow> length (transfers w) = 2 \<and> finished (transfers w ! 1) = 0 \<and>
     request_success (transfers w ! 1) = 0 \<and> \<not> requested (trace w) 1"

lemma requested_other: "\<not> (\<exists>dev. c = Omap_request_dma dev i) \<Longrightarrow>
    requested (Called c r out # h) i = requested h i"
  by (cases c) auto

lemma second_idle_handler:
  assumes "second_idle w" and "d \<noteq> 1"
  shows "second_idle (dma_callback K lch st d (log_ev (Interrupt lch st d (mem w)) w))"
  using assms
  by (cases "d < length (transfers w)")
    (auto simp: second_idle_def dma_callback_def unmap_phys_buffers_def Let_def requested_other)

lemma second_idle_deliver:
  assumes "second_idle w" and "\<And>e. e \<in> set es \<Longrightarrow> (case e of Device f \<Rightarrow> True | Irq lch st d \<Rightarrow> d \<noteq> 1)"
  shows "second_idle (deliver (dma_callback K) es w)"
  using assms
proof (induction es arbitrary: w)
  case Nil
  then show ?case by simp
next
  case (Cons e es)
  have "second_idle (deliver1 (dma_callback K) e w)"
    using Cons.prems(1) Cons.prems(2)[of e]
    by (cases e) (auto simp: second_idle_handler, simp add: second_idle_def)
  with Cons show ?case by simp
qed

lemma second_idle_call:
  assumes "irq_registered K" and "second_idle w" and "\<not> (\<exists>dev. c = Omap_request_dma dev 1)"
  shows "second_idle (sc_call K c w)"
proof -
  let ?w = "kcall_irq K c w"
  have w: "second_idle ?w" using assms(2,3) by (simp add: second_idle_def requested_other)
  then have "\<not> requested (trace ?w) 1" by (simp add: second_idle_def)
  then have "(case e of Device f \<Rightarrow> True | Irq lch st d \<Rightarrow> d \<noteq> 1)"
    if "e \<in> set (k_events K (trace ?w))" for e
    using assms(1) that unfolding irq_registered_def by (cases e) fastforce+
  with w show ?thesis by (simp add: kcall_thread_def Let_def second_idle_deliver del: kcall_irq_simps)
qed

lemma second_idle_upd:
  "second_idle w \<Longrightarrow> second_idle (tr_upd 0 f w)" "second_idle w \<Longrightarrow> second_idle (buf_upd 0 g w)"
  "second_idle w \<Longrightarrow> second_idle (set_test_passed p w)" "second_idle w \<Longrightarrow> second_idle (fill_source_buffer 0 w)"
  by (simp_all add: second_idle_def)

lemma second_idle_Let:
  "second_idle v \<Longrightarrow> (\<And>v. second_idle v \<Longrightarrow> second_idle (f v)) \<Longrightarrow> second_idle (Let v f)"
  "(\<And>y. y = x \<Longrightarrow> second_idle (p y)) \<Longrightarrow> second_idle (Let x p)"
  by simp_all

lemma second_idle_prepare:
  assumes "irq_registered K" and "second_idle w"
  shows "second_idle (snd (prepare_transfer (request_dma K (sc_call K)) K (sc_call K) 0 w))"
proof -
  have r: "second_idle (snd (request_dma K (sc_call K) 0 w))"
    using assms by (simp add: request_dma_def Let_def second_idle_call second_idle_upd
        split: option.splits)
  have "second_idle (snd (create_transfer_buffers K (sc_call K) 0 v))" if "second_idle v" for v
    using assms(1) that
    by (simp add: create_transfer_buffers_def Let_def second_idle_call second_idle_upd)
  moreover have "second_idle (setup_dma_transfer K (sc_call K) 0 v)" if "second_idle v" for v
    using assms(1) that
    unfolding setup_dma_transfer_def map_to_phys_buffers_def
    by (intro second_idle_Let second_idle_upd second_idle_call) simp_all
  ultimately show ?thesis using r
    by (simp add: prepare_transfer_def case_prod_beta second_idle_upd)
qed

section \<open>Properties of the stop modules\<close>

text \<open>
  C33. The verdict of \<^verbatim>\<open>dma_stop_transfer.c\<close> and of \<^verbatim>\<open>dma_stop_transfer_twice.c\<close> is PASSED exactly
  when the transfer could be set up and no completion interrupt for it arrived by the end of
  initialisation; what the second module stores about the results of its two stop calls has no
  effect on it.
\<close>

theorem stop_modules_verdict:
  assumes "irq_after_start K" and "ini \<in> set (stop_inits K)" and "ini (sc_fresh 1 m) = (r, w)"
  shows "test_passed w = (if r = 0 \<and> 0 \<notin> set (irq_ids (trace w)) then 1 else 0)"
  using stop_inits_run [OF assms(2), of m] stop_run_verdict [OF assms(1)] assms(3) by fastforce

text \<open>
  When initialisation of these modules succeeds, the channel and both buffers have been given
  back exactly once by its end, although the exit functions do nothing.
\<close>

theorem stop_modules_release:
  assumes "grants_channel K" and "ini \<in> set (stop_inits K)" and "ini (sc_fresh 1 m) = (0, w)"
  shows "chan_balance (trace w) ch = 0 \<and> (a \<noteq> 0 \<longrightarrow> alloc_balance (trace w) a = 0)"
  using stop_inits_run [OF assms(2), of m] stop_run_release [OF assms(1)] assms(3) by fastforce

text \<open>A kernel that grants channel 5 but has no memory.\<close>

definition no_memory_kernel :: kernel where
  "no_memory_kernel = \<lparr>k_ret = (\<lambda>_ _. 0), k_out = (\<lambda>_ _. Some 5), k_events = (\<lambda>_. []),
     k_const = (\<lambda>_. 0), OMAP_DMA_BLOCK_IRQ = 32\<rparr>"

text \<open>
  When the buffers cannot be allocated, the channel already granted is never freed: neither
  the error path of initialisation nor the exit function gives it back.
\<close>

theorem stop_transfer_leak:
  "fst (stop_transfer_init no_memory_kernel (sc_fresh 1 (\<lambda>_. 0))) = 1 \<and>
   chan_balance (trace (stop_transfer_exit
     (snd (stop_transfer_init no_memory_kernel (sc_fresh 1 (\<lambda>_. 0)))))) 5 = 1"
  by (simp add: stop_transfer_init_def start_and_wait_def prepare_transfer_def request_dma_def
      create_transfer_buffers_def stop_transfer_exit_def no_memory_kernel_def kcall_ret_def
      kcall_out_def kcall_thread_def Let_def)

text \<open>
  \<^verbatim>\<open>dma_stop_transfer_invalid.c\<close> reports PASSED whenever initialisation succeeds: its check
  looks at transfer 1, which is never requested or started, and not at the transfer it stopped.
\<close>

theorem stop_invalid_always_passes:
  assumes "irq_registered K" and "stop_invalid_init K (sc_fresh 2 m) = (0, w)"
  shows "test_passed w = 1"
proof -
  let ?s = "start_and_wait K (stop_invalid_config K) 50 (sc_fresh 2 m)"
  have "second_idle (sc_fresh 2 m)" by (simp add: second_idle_def)
  then have "second_idle (tr_upd 0 (stop_invalid_config K) (sc_fresh 2 m))" by (rule second_idle_upd)
  note p = second_idle_prepare [OF assms(1) this]
  have "second_idle (snd ?s)"
    using p assms(1)
    by (auto simp: start_and_wait_def start_dma_transfer_def second_idle_call split: prod.splits)
  then have "second_idle (snd (stop_dma_transfer (sc_call K) 0 (snd ?s)))"
    using assms(1) by (simp add: stop_dma_transfer_def Let_def second_idle_call second_idle_upd)
  with assms(2) show ?thesis
    by (auto simp: stop_invalid_init_def stop_invalid_check_def stop_check_test_passed_def
        stop_dma_transfer_invalid_def second_idle_def Let_def split: prod.splits if_splits)
qed

text \<open>Witnesses: a run in which the transfer is stopped in time.\<close>

definition slow_kernel :: kernel where
  "slow_kernel = \<lparr>k_ret = (\<lambda>h c. case c of Kmalloc n \<Rightarrow> 4096 | _ \<Rightarrow> 0), k_out = (\<lambda>_ _. Some 5),
     k_events = (\<lambda>_. []), k_const = (\<lambda>_. 0), OMAP_DMA_BLOCK_IRQ = 32\<rparr>"

lemma slow_laws: "irq_after_start slow_kernel" "irq_registered slow_kernel" "grants_channel slow_kernel"
  by (simp_all add: slow_kernel_def irq_after_start_def irq_registered_def grants_channel_def no_irq_def)

lemma slow_calls:
  "kcall_thread slow_kernel h c = kcall_irq slow_kernel c"
  "kcall_ret slow_kernel c w = (case c of Kmalloc n \<Rightarrow> 4096 | _ \<Rightarrow> 0)"
  "kcall_out slow_kernel c w = Some 5"
  by (simp_all add: fun_eq_iff slow_kernel_def kcall_thread_def kcall_ret_def kcall_out_def Let_def)

lemma slow_prepare:
  "0 < length (transfers w) \<Longrightarrow>
   fst (prepare_transfer (request_dma slow_kernel (sc_call slow_kernel)) slow_kernel (sc_call slow_kernel) 0 w) = 0"
  by (simp add: prepare_transfer_def request_dma_def create_transfer_buffers_def Let_def slow_calls)

lemma slow_inits:
  "fst (stop_transfer_init slow_kernel (sc_fresh 1 m)) = 0"
  "fst (stop_invalid_init slow_kernel (sc_fresh 2 m)) = 0"
  by (simp_all add: stop_transfer_init_def stop_invalid_init_def start_and_wait_def slow_prepare
      case_prod_beta Let_def)

theorem stop_modules_verdict_witness:
  "irq_after_start slow_kernel \<and> stop_transfer_init slow_kernel \<in> set (stop_inits slow_kernel) \<and>
   test_passed (snd (stop_transfer_init slow_kernel (sc_fresh 1 (\<lambda>_. 0)))) =
     (if 0 \<notin> set (irq_ids (trace (snd (stop_transfer_init slow_kernel (sc_fresh 1 (\<lambda>_. 0)))))) then 1 else 0)"
proof -
  have i: "stop_transfer_init slow_kernel \<in> set (stop_inits slow_kernel)" by (simp add: stop_inits_def)
  show ?thesis
    using stop_modules_verdict [OF slow_laws(1) i prod.collapse [symmetric], of "\<lambda>_. 0"] i
    by (simp add: slow_laws slow_inits del: One_nat_def)
qed

theorem stop_modules_release_witness:
  "grants_channel slow_kernel \<and>
   chan_balance (trace (snd (stop_transfer_init slow_kernel (sc_fresh 1 (\<lambda>_. 0))))) 5 = 0"
proof -
  have i: "stop_transfer_init slow_kernel \<in> set (stop_inits slow_kernel)" by (simp add: stop_inits_def)
  have r: "stop_transfer_init slow_kernel (sc_fresh 1 (\<lambda>_. 0)) =
      (0, snd (stop_transfer_init slow_kernel (sc_fresh 1 (\<lambda>_. 0))))"
    by (metis slow_inits(1) prod.collapse)
  show ?thesis using stop_modules_release [OF slow_laws(3) i r, of 5 0] by (simp add: slow_laws)
qed

theorem stop_invalid_always_passes_witness:
  "irq_registered slow_kernel \<and>
   test_passed (snd (stop_invalid_init slow_kernel (sc_fresh 2 (\<lambda>_. 0)))) = 1"
proof -
  have r: "stop_invalid_init slow_kernel (sc_fresh 2 (\<lambda>_. 0)) =
      (0, snd (stop_invalid_init slow_kernel (sc_fresh 2 (\<lambda>_. 0))))"
    by (metis slow_inits(2) prod.collapse)
  show ?thesis using stop_invalid_always_passes [OF slow_laws(2) r] by (simp add: slow_laws)
qed

end
