(* ===== verification/Dma_Selflink.thy ===== *)
theory Dma_Selflink
  imports Dma_Standard
begin

text \<open>
  The modules that link a channel to itself: \<^verbatim>\<open>dma_static_self_link.c\<close>,
  \<^verbatim>\<open>dma_unlink_before_stop_channels.c\<close> and \<^verbatim>\<open>dma_unlink_nonlinked_channels.c\<close>. Their callbacks
  stop, unlink and free the channel themselves, and their exit functions do nothing.
\<close>

section \<open>Comparing against a constant source\<close>

text \<open>The loop of the two unlink modules advances the destination pointer only.\<close>

fun unlink_verify_loop :: "memory \<Rightarrow> u32 \<Rightarrow> u32 \<Rightarrow> nat \<Rightarrow> int" where
  "unlink_verify_loop m src_address dest_address 0 = 0"
| "unlink_verify_loop m src_address dest_address (Suc n) =
     (if m src_address \<noteq> m dest_address then 1
      else unlink_verify_loop m src_address (dest_address + 1) n)"

definition unlink_verify_buffers :: "memory \<Rightarrow> dma_buffers_info \<Rightarrow> int" where
  "unlink_verify_buffers m b = unlink_verify_loop m (src_buf b) (dest_buf b) (unat (buf_size b))"

definition nonlinked_verify_buffers :: "memory \<Rightarrow> dma_buffers_info \<Rightarrow> int" where
  "nonlinked_verify_buffers m b = unlink_verify_loop m (src_buf b) (dest_buf b) (unat (buf_size b))"

section \<open>Callbacks\<close>

definition selflink_dma_callback :: "kernel \<Rightarrow> sc_world handler" where
  "selflink_dma_callback K lch st i w =
     (if i < length (transfers w) then
        let w = tr_upd i (\<lambda>t. t\<lparr>data_correct := 0, finished := 1\<rparr>) w;
            w = stop_dma_selflink_transfer (kcall_irq K) (transfer_id (transfers w ! i)) w
        in if status_ok K st
           then let error = verify_buffers (mem w) (bufs w i)
                in if error \<noteq> 0 then w else tr_upd i (\<lambda>t. t\<lparr>data_correct := 1\<rparr>) w
           else w
      else w)"

definition unlink_dma_callback :: "kernel \<Rightarrow> sc_world handler" where
  "unlink_dma_callback K lch st i w =
     (if i < length (transfers w) then
        let w = tr_upd i (\<lambda>t. t\<lparr>data_correct := 0, finished := 1\<rparr>) w;
            w = unlink_stop_dma_selflink_transfer (kcall_irq K) (transfer_id (transfers w ! i)) w
        in if status_ok K st
           then let error = unlink_verify_buffers (mem w) (bufs w i)
                in if error \<noteq> 0 then w else tr_upd i (\<lambda>t. t\<lparr>data_correct := 1\<rparr>) w
           else w
      else w)"

definition nonlinked_dma_callback :: "kernel \<Rightarrow> sc_world handler" where
  "nonlinked_dma_callback K lch st i w =
     (if i < length (transfers w) then
        let w = tr_upd i (\<lambda>t. t\<lparr>data_correct := 0, finished := 1\<rparr>) w;
            w = stop_dma_selflink_transfer (kcall_irq K) (transfer_id (transfers w ! i)) w
        in if status_ok K st
           then let error = nonlinked_verify_buffers (mem w) (bufs w i)
                in if error \<noteq> 0 then w else tr_upd i (\<lambda>t. t\<lparr>data_correct := 1\<rparr>) w
           else w
      else w)"

text \<open>The modules' own copies of \<^verbatim>\<open>request_dma\<close> are those of the common module line for line.\<close>

definition selflink_request_dma :: "kernel \<Rightarrow> (kcall \<Rightarrow> sc_world \<Rightarrow> sc_world)
    \<Rightarrow> nat \<Rightarrow> sc_world \<Rightarrow> int \<times> sc_world" where
  "selflink_request_dma = request_dma"

definition unlink_request_dma :: "kernel \<Rightarrow> (kcall \<Rightarrow> sc_world \<Rightarrow> sc_world)
    \<Rightarrow> nat \<Rightarrow> sc_world \<Rightarrow> int \<times> sc_world" where
  "unlink_request_dma = request_dma"

definition nonlinked_request_dma :: "kernel \<Rightarrow> (kcall \<Rightarrow> sc_world \<Rightarrow> sc_world)
    \<Rightarrow> nat \<Rightarrow> sc_world \<Rightarrow> int \<times> sc_world" where
  "nonlinked_request_dma = request_dma"

section \<open>The modules\<close>

definition selflink_config :: "kernel \<Rightarrow> nat \<Rightarrow> dma_transfer \<Rightarrow> dma_transfer" where
  "selflink_config K i t = t\<lparr>
     device_id := k_const K OMAP_DMA_NO_DEVICE,
     sync_mode := k_const K OMAP_DMA_SYNC_ELEMENT,
     data_burst := k_const K OMAP_DMA_DATA_BURST_DIS,
     data_type := k_const K OMAP_DMA_DATA_TYPE_S8,
     endian_type := k_const K DMA_TEST_LITTLE_ENDIAN,
     addressing_mode := k_const K OMAP_DMA_AMODE_POST_INC,
     dst_addressing_mode := k_const K OMAP_DMA_AMODE_POST_INC,
     priority := k_const K DMA_CH_PRIO_HIGH,
     buffers := (buffers t)\<lparr>buf_size := 1024 * 1024\<rparr>,
     dest_ei := 0, dest_fi := 0, src_ei := 1, src_fi := 1\<rparr>"

text \<open>The two unlink modules leave the destination mode and the indices alone.\<close>

definition unlink_config :: "kernel \<Rightarrow> nat \<Rightarrow> dma_transfer \<Rightarrow> dma_transfer" where
  "unlink_config K i t = t\<lparr>
     device_id := k_const K OMAP_DMA_NO_DEVICE,
     sync_mode := k_const K OMAP_DMA_SYNC_ELEMENT,
     data_burst := k_const K OMAP_DMA_DATA_BURST_DIS,
     data_type := k_const K OMAP_DMA_DATA_TYPE_S8,
     endian_type := k_const K DMA_TEST_LITTLE_ENDIAN,
     addressing_mode := k_const K OMAP_DMA_AMODE_CONSTANT,
     priority := k_const K DMA_CH_PRIO_HIGH,
     buffers := (buffers t)\<lparr>buf_size := of_nat (10240 * (i + 1) * (i + 1) + i mod 2)\<rparr>\<rparr>"

text \<open>
  The body of the set-up loop: as in the standard modules, with \<open>link\<close> run between the request
  and the allocation.
\<close>

definition link_prepare :: "(nat \<Rightarrow> 'a sc_world_scheme \<Rightarrow> int \<times> 'a sc_world_scheme) \<Rightarrow> (nat \<Rightarrow> 'a sc_world_scheme \<Rightarrow> 'a sc_world_scheme)
    \<Rightarrow> kernel \<Rightarrow> (kcall \<Rightarrow> 'a sc_world_scheme \<Rightarrow> 'a sc_world_scheme) \<Rightarrow> nat \<Rightarrow> 'a sc_world_scheme \<Rightarrow> int \<times> 'a sc_world_scheme" where
  "link_prepare request link K call i w =
     (case request i w of (error, w) \<Rightarrow>
        if error \<noteq> 0 then (1, set_test_passed 0 w)
        else case create_transfer_buffers K call i (link i w) of (error, w) \<Rightarrow>
          if error \<noteq> 0 then (1, set_test_passed 0 w)
          else (0, setup_dma_transfer K call i (fill_source_buffer i w)))"

definition link_run :: "(nat \<Rightarrow> 'a sc_world_scheme \<Rightarrow> int \<times> 'a sc_world_scheme) \<Rightarrow> (nat \<Rightarrow> 'a sc_world_scheme \<Rightarrow> 'a sc_world_scheme)
    \<Rightarrow> kernel \<Rightarrow> (kcall \<Rightarrow> 'a sc_world_scheme \<Rightarrow> 'a sc_world_scheme) \<Rightarrow> nat \<Rightarrow> (nat \<Rightarrow> dma_transfer \<Rightarrow> dma_transfer)
    \<Rightarrow> ('a sc_world_scheme \<Rightarrow> int) \<Rightarrow> ('a sc_world_scheme \<Rightarrow> 'a sc_world_scheme) \<Rightarrow> 'a sc_world_scheme \<Rightarrow> int \<times> 'a sc_world_scheme" where
  "link_run request link K call n config finished_test check w =
     (case for_or_fail (\<lambda>i w. link_prepare request link K call i (tr_upd i (config i) w)) 0 n w of
        (error, w) \<Rightarrow>
          if error \<noteq> 0 then (1, w) else start_and_poll call n finished_test check w)"

definition selflink_check_test_passed :: "sc_world \<Rightarrow> sc_world" where
  "selflink_check_test_passed = check_test_passed 2"

definition selflink_get_transfers_finished :: "sc_world \<Rightarrow> int" where
  "selflink_get_transfers_finished = get_transfers_finished 2"

definition selflink_module_init :: "kernel \<Rightarrow> sc_world \<Rightarrow> int \<times> sc_world" where
  "selflink_module_init K w =
     (let call = kcall_thread K (selflink_dma_callback K) in
      link_run (selflink_request_dma K call) (dma_link_lch call) K call 2 (selflink_config K)
        selflink_get_transfers_finished selflink_check_test_passed w)"

definition selflink_module_exit :: "sc_world \<Rightarrow> sc_world" where
  "selflink_module_exit w = w"

definition unlink_check_test_passed :: "sc_world \<Rightarrow> sc_world" where
  "unlink_check_test_passed = check_test_passed 2"

definition unlink_get_transfers_finished :: "sc_world \<Rightarrow> int" where
  "unlink_get_transfers_finished = get_transfers_finished 2"

definition unlink_module_init :: "kernel \<Rightarrow> sc_world \<Rightarrow> int \<times> sc_world" where
  "unlink_module_init K w =
     (let call = kcall_thread K (unlink_dma_callback K) in
      link_run (unlink_request_dma K call) (dma_link_lch call) K call 2 (unlink_config K)
        unlink_get_transfers_finished unlink_check_test_passed w)"

definition unlink_module_exit :: "sc_world \<Rightarrow> sc_world" where
  "unlink_module_exit w = w"

definition nonlinked_check_test_passed :: "sc_world \<Rightarrow> sc_world" where
  "nonlinked_check_test_passed = check_test_passed 2"

definition nonlinked_get_transfers_finished :: "sc_world \<Rightarrow> int" where
  "nonlinked_get_transfers_finished = get_transfers_finished 2"

text \<open>The call of \<^verbatim>\<open>dma_link_lch\<close> is commented out in this module.\<close>

definition nonlinked_module_init :: "kernel \<Rightarrow> sc_world \<Rightarrow> int \<times> sc_world" where
  "nonlinked_module_init K w =
     (let call = kcall_thread K (nonlinked_dma_callback K) in
      link_run (nonlinked_request_dma K call) (\<lambda>i w. w) K call 2 (unlink_config K)
        nonlinked_get_transfers_finished nonlinked_check_test_passed w)"

definition nonlinked_module_exit :: "sc_world \<Rightarrow> sc_world" where
  "nonlinked_module_exit w = w"

section \<open>The callbacks as instances of one shape\<close>

text \<open>The comparison of the unlink modules: every destination byte equals the first source byte.\<close>

lemma unlink_verify_loop_spec:
  "unlink_verify_loop m s d n = (if \<forall>j<n. m (d + of_nat j) = m s then 0 else 1)"
proof (induction n arbitrary: d)
  case 0
  then show ?case by simp
next
  case (Suc n)
  have "(\<forall>j<Suc n. m (d + of_nat j) = m s) \<longleftrightarrow>
      m d = m s \<and> (\<forall>j<n. m (d + 1 + of_nat j) = m s)"
    by (simp add: All_less_Suc2 ac_simps)
  with Suc show ?case by auto
qed

text \<open>A callback of this theory: what it calls to stop the channel and how it compares.\<close>

definition link_callback :: "(int \<Rightarrow> sc_world \<Rightarrow> sc_world) \<Rightarrow> (memory \<Rightarrow> dma_buffers_info \<Rightarrow> int)
    \<Rightarrow> kernel \<Rightarrow> sc_world handler" where
  "link_callback stop verify K lch st i w =
     (if i < length (transfers w) then
        let w = tr_upd i (\<lambda>t. t\<lparr>data_correct := 0, finished := 1\<rparr>) w;
            w = stop (transfer_id (transfers w ! i)) w
        in if status_ok K st \<and> verify (mem w) (bufs w i) = 0
           then tr_upd i (\<lambda>t. t\<lparr>data_correct := 1\<rparr>) w else w
      else w)"

lemma link_callback_shapes:
  "selflink_dma_callback K = link_callback (stop_dma_selflink_transfer (kcall_irq K)) verify_buffers K"
  "unlink_dma_callback K =
     link_callback (unlink_stop_dma_selflink_transfer (kcall_irq K)) unlink_verify_buffers K"
  "nonlinked_dma_callback K =
     link_callback (stop_dma_selflink_transfer (kcall_irq K)) nonlinked_verify_buffers K"
  by (simp_all add: fun_eq_iff link_callback_def selflink_dma_callback_def unlink_dma_callback_def
      nonlinked_dma_callback_def Let_def)

section \<open>Runs of the modules\<close>

context setup_invariant
begin

lemma link_prepare_I:
  assumes "\<And>w. I w \<Longrightarrow> I (link i w)" and "I w"
  shows "I (snd (link_prepare (request_dma K call) link K call i w))"
  using assms
  by (simp add: link_prepare_def case_prod_beta passed_I setup_dma_transfer_I fill_source_buffer_I
      create_transfer_buffers_I request_dma_I)

lemma link_loop_verdict:
  assumes "\<And>i w. I w \<Longrightarrow> I (link i w)" and "config_frame config" and "I w"
  defines "step \<equiv> \<lambda>i w. link_prepare (request_dma K call) link K call i (tr_upd i (config i) w)"
  shows "I (snd (for_or_fail step 0 n w)) \<and>
    (fst (for_or_fail step 0 n w) \<noteq> 0 \<longrightarrow> test_passed (snd (for_or_fail step 0 n w)) = 0)"
proof -
  have step: "I (snd (step j w))" if "I w" for j w
    using that assms(1,2) unfolding step_def
    by (intro link_prepare_I upd_I) (auto simp: config_frame_def flag_frame_def)
  have fail: "test_passed (snd (step j w)) = 0" if "fst (step j w) \<noteq> 0" for j w
    using that by (auto simp: step_def link_prepare_def split: prod.splits if_splits)
  have "if fst (for_or_fail step 0 n w) = 0 then I (snd (for_or_fail step 0 n w))
    else I (snd (for_or_fail step 0 n w)) \<and> test_passed (snd (for_or_fail step 0 n w)) = 0"
    by (rule for_or_fail_inv [where P = "\<lambda>_. I"]) (simp_all add: step fail assms(3))
  then show ?thesis by (auto split: if_splits)
qed

lemma link_run_inv:
  assumes "\<And>i w. I w \<Longrightarrow> I (link i w)" and "config_frame config" and "I w"
    and start: "\<And>w. I w \<Longrightarrow> J w"
    and calls: "\<And>c w. J w \<Longrightarrow> neutral c \<Longrightarrow> J (call c w)"
    and check: "\<And>w. J w \<Longrightarrow> Q (check w)"
    and run: "link_run (request_dma K call) link K call n config fin check w = (r, w')"
  shows "r = 0 \<and> Q w' \<or> test_passed w' = 0"
proof -
  let ?f = "for_or_fail (\<lambda>i w. link_prepare (request_dma K call) link K call i (tr_upd i (config i) w)) 0 n w"
  note loop = link_loop_verdict [of link config w n, OF assms(1-3)]
  note start_and_poll_inv [where call = call and J = J and Q = Q and check = check, OF _ calls check, of "snd ?f" n fin]
  with run loop start show ?thesis
    by (auto simp: link_run_def split: prod.splits if_splits)
qed

end

context run_invariant
begin

lemma link_run_I:
  assumes "\<And>i w. I w \<Longrightarrow> I (link i w)" and "config_frame config" and "\<And>w. I w \<Longrightarrow> I (check w)" and "I w"
  shows "I (snd (link_run (request_dma K call) link K call n config fin check w))"
  using link_loop_verdict [of link config w n, OF assms(1,2,4)]
  by (auto simp: link_run_def start_and_poll_I assms(3) split: prod.splits)

end

section \<open>What the callbacks do to the history\<close>

fun is_free_dma :: "kcall \<Rightarrow> bool" where
  "is_free_dma (Omap_free_dma ch) = True"
| "is_free_dma c = False"

fun is_kfree :: "kcall \<Rightarrow> bool" where
  "is_kfree (Kfree a) = True"
| "is_kfree c = False"

fun count_calls :: "(kcall \<Rightarrow> bool) \<Rightarrow> history \<Rightarrow> nat" where
  "count_calls p [] = 0"
| "count_calls p (Called c r out # h) = (if p c then 1 else 0) + count_calls p h"
| "count_calls p (Interrupt lch st d m # h) = count_calls p h"

text \<open>
  The contract of the two ways to stop a self-linked channel: apart from the history nothing
  changes, no buffer is freed, and exactly one channel is.
\<close>

locale channel_stopper =
  fixes stop :: "int \<Rightarrow> sc_world \<Rightarrow> sc_world"
  assumes stop_state: "transfers (stop ch w) = transfers w" "mem (stop ch w) = mem w"
    "test_passed (stop ch w) = test_passed w"
    and stop_irqs: "irq_ids (trace (stop ch w)) = irq_ids (trace w)"
    "last_irq i (trace (stop ch w)) = last_irq i (trace w)"
    and stop_frees: "count_calls is_free_dma (trace (stop ch w)) = Suc (count_calls is_free_dma (trace w))"
    "count_calls is_kfree (trace (stop ch w)) = count_calls is_kfree (trace w)"

interpretation link_stop: channel_stopper "stop_dma_selflink_transfer (kcall_irq K)" for K
  by unfold_locales (simp_all add: stop_dma_selflink_transfer_def Let_def)

interpretation unlink_stop: channel_stopper "unlink_stop_dma_selflink_transfer (kcall_irq K)" for K
  by unfold_locales (simp_all add: unlink_stop_dma_selflink_transfer_def Let_def)

text \<open>
  The invariants: a positive flag rests on the last interrupt; a channel is freed once per
  interrupt of a known transfer; no buffer is freed.
\<close>

definition link_good :: "(memory \<Rightarrow> dma_buffers_info \<Rightarrow> int) \<Rightarrow> kernel \<Rightarrow> dma_buffers_info
    \<Rightarrow> (u16 \<times> memory) option \<Rightarrow> bool" where
  "link_good verify K b x = (case x of None \<Rightarrow> False
     | Some (st, m) \<Rightarrow> status_ok K st \<and> verify m b = 0)"

definition link_verified :: "(memory \<Rightarrow> dma_buffers_info \<Rightarrow> int) \<Rightarrow> kernel \<Rightarrow> sc_world \<Rightarrow> nat \<Rightarrow> bool" where
  "link_verified verify K w i \<longleftrightarrow> link_good verify K (bufs w i) (last_irq i (trace w))"

definition link_backed :: "(memory \<Rightarrow> dma_buffers_info \<Rightarrow> int) \<Rightarrow> kernel \<Rightarrow> sc_world \<Rightarrow> bool" where
  "link_backed verify K w \<longleftrightarrow> length (transfers w) = 2 \<and>
     (\<forall>i<2. data_correct (transfers w ! i) \<noteq> 0 \<longrightarrow> link_verified verify K w i)"

definition free_per_irq :: "sc_world \<Rightarrow> bool" where
  "free_per_irq w \<longleftrightarrow> length (transfers w) = 2 \<and>
     count_calls is_free_dma (trace w) = length (filter (\<lambda>d. d < 2) (irq_ids (trace w)))"

definition no_kfree :: "sc_world \<Rightarrow> bool" where
  "no_kfree w \<longleftrightarrow> count_calls is_kfree (trace w) = 0"

context channel_stopper
begin

lemma link_callback_transfers:
  assumes "i < length (transfers w)"
  shows "transfers (link_callback stop verify K lch st i w) = (transfers w)[i := (transfers w ! i)
    \<lparr>data_correct := (if status_ok K st \<and> verify (mem w) (bufs w i) = 0 then 1 else 0), finished := 1\<rparr>]"
  using assms by (simp add: link_callback_def Let_def stop_state flags_commute)

lemma link_callback_last_irq:
  "last_irq j (trace (link_callback stop verify K lch st i w)) = last_irq j (trace w)"
  by (simp add: link_callback_def Let_def stop_irqs)

lemma link_callback_backed:
  assumes "link_backed verify K w"
  shows "link_backed verify K (link_callback stop verify K lch st d (log_ev (Interrupt lch st d (mem w)) w))"
    (is "link_backed verify K ?w")
proof (cases "d < 2")
  case True
  have l: "length (transfers w) = 2" using assms by (simp add: link_backed_def)
  let ?ok = "status_ok K st \<and> verify (mem w) (bufs w d) = 0"
  have ts: "transfers ?w = (transfers w)[d := (transfers w ! d)
      \<lparr>data_correct := (if ?ok then 1 else 0), finished := 1\<rparr>]"
    using True l by (simp add: link_callback_transfers)
  have "link_verified verify K ?w i" if "i < 2" "data_correct (transfers ?w ! i) \<noteq> 0" for i
  proof (cases "i = d")
    case True
    with that l have "?ok" by (simp add: ts split: if_splits)
    with True that l show ?thesis
      by (simp add: link_verified_def link_good_def ts link_callback_last_irq)
  next
    case False
    with that l assms have "link_verified verify K w i" by (simp add: ts link_backed_def)
    with False show ?thesis by (simp add: link_verified_def ts link_callback_last_irq)
  qed
  with l show ?thesis by (simp add: link_backed_def ts)
next
  case False
  with assms show ?thesis by (auto simp: link_backed_def link_verified_def link_callback_def)
qed

lemma link_callback_frees:
  "free_per_irq w \<Longrightarrow>
     free_per_irq (link_callback stop verify K lch st d (log_ev (Interrupt lch st d (mem w)) w))"
  by (simp add: free_per_irq_def link_callback_def Let_def stop_state stop_irqs stop_frees)

lemma link_callback_no_kfree:
  "no_kfree w \<Longrightarrow>
     no_kfree (link_callback stop verify K lch st d (log_ev (Interrupt lch st d (mem w)) w))"
  by (simp add: no_kfree_def link_callback_def Let_def stop_state stop_frees)

lemma backed_inv: "irq_invariant (link_callback stop verify K) (link_backed verify K)"
  by unfold_locales (simp_all add: link_callback_backed, simp add: link_backed_def link_verified_def)

lemma frees_inv: "irq_invariant (link_callback stop verify K) free_per_irq"
  by unfold_locales (simp_all add: link_callback_frees, simp add: free_per_irq_def)

lemma no_kfree_inv: "irq_invariant (link_callback stop verify K) no_kfree"
  by unfold_locales (simp_all add: link_callback_no_kfree, simp add: no_kfree_def)

lemma frees_run: "run_invariant (kcall_thread K (link_callback stop verify K)) free_per_irq"
proof -
  have "free_per_irq (kcall_thread K (link_callback stop verify K) c w)"
    if "free_per_irq w" "\<not> gives_back c" for c w
  proof (rule irq_invariant.kcall_thread_inv [OF frees_inv])
    show "free_per_irq (kcall_irq K c w)" using that by (cases c) (simp_all add: free_per_irq_def)
  qed
  then show ?thesis by unfold_locales (simp_all, simp_all add: free_per_irq_def)
qed

lemma no_kfree_run: "run_invariant (kcall_thread K (link_callback stop verify K)) no_kfree"
proof -
  have "no_kfree (kcall_thread K (link_callback stop verify K) c w)"
    if "no_kfree w" "\<not> gives_back c" for c w
  proof (rule irq_invariant.kcall_thread_inv [OF no_kfree_inv])
    show "no_kfree (kcall_irq K c w)" using that by (cases c) (simp_all add: no_kfree_def)
  qed
  then show ?thesis by unfold_locales (simp_all, simp_all add: no_kfree_def)
qed

lemma backed_call:
  "link_backed verify K w \<Longrightarrow> link_backed verify K (kcall_thread K (link_callback stop verify K) c w)"
  by (rule irq_invariant.kcall_thread_inv [OF backed_inv]) (simp add: link_backed_def link_verified_def)

end

section \<open>Properties of the self-link modules\<close>

lemma link_config_frame: "config_frame (selflink_config K)" "config_frame (unlink_config K)"
  by (simp_all add: config_frame_def selflink_config_def unlink_config_def)

lemma link_fresh: "quiet (sc_fresh 2 m)" "free_per_irq (sc_fresh 2 m)" "no_kfree (sc_fresh 2 m)"
  by (simp_all add: quiet_def not_started_def idle_def free_per_irq_def no_kfree_def)

lemma check_test_passed_frame:
  "free_per_irq w \<Longrightarrow> free_per_irq (check_test_passed n w)" "no_kfree w \<Longrightarrow> no_kfree (check_test_passed n w)"
  by (simp_all add: check_test_passed_spec free_per_irq_def no_kfree_def)

text \<open>The three modules: initialisation, exit, comparison.\<close>

definition link_modules :: "kernel \<Rightarrow> ((sc_world \<Rightarrow> int \<times> sc_world) \<times> (sc_world \<Rightarrow> sc_world) \<times>
    (memory \<Rightarrow> dma_buffers_info \<Rightarrow> int)) list" where
  "link_modules K =
     [(selflink_module_init K, selflink_module_exit, verify_buffers),
      (unlink_module_init K, unlink_module_exit, unlink_verify_buffers),
      (nonlinked_module_init K, nonlinked_module_exit, nonlinked_verify_buffers)]"

text \<open>What the three modules have in common.\<close>

definition link_shape :: "kernel \<Rightarrow> (sc_world \<Rightarrow> int \<times> sc_world)
    \<Rightarrow> (memory \<Rightarrow> dma_buffers_info \<Rightarrow> int) \<Rightarrow> bool" where
  "link_shape K ini verify \<longleftrightarrow> (\<exists>stop link config.
     channel_stopper stop \<and> config_frame config \<and>
     (link = dma_link_lch (kcall_thread K (link_callback stop verify K)) \<or> link = (\<lambda>i w. w)) \<and>
     ini = link_run (request_dma K (kcall_thread K (link_callback stop verify K))) link K
       (kcall_thread K (link_callback stop verify K)) 2 config (get_transfers_finished 2) (check_test_passed 2))"

lemmas link_module_defs = selflink_module_init_def unlink_module_init_def nonlinked_module_init_def
  selflink_request_dma_def unlink_request_dma_def nonlinked_request_dma_def
  selflink_check_test_passed_def unlink_check_test_passed_def nonlinked_check_test_passed_def
  selflink_get_transfers_finished_def unlink_get_transfers_finished_def
  nonlinked_get_transfers_finished_def

lemma link_shapeI:
  assumes "channel_stopper stop" and "config_frame config"
    and "link = dma_link_lch (kcall_thread K (link_callback stop verify K)) \<or> link = (\<lambda>i w. w)"
    and "\<And>w. ini w = link_run (request_dma K (kcall_thread K (link_callback stop verify K))) link K
       (kcall_thread K (link_callback stop verify K)) 2 config (get_transfers_finished 2) (check_test_passed 2) w"
  shows "link_shape K ini verify"
  using assms unfolding link_shape_def by blast

lemma link_module_shape:
  assumes "(ini, ext, verify) \<in> set (link_modules K)"
  shows "link_shape K ini verify" and "ext w = w"
proof -
  have "link_shape K (selflink_module_init K) verify_buffers"
    by (rule link_shapeI [OF link_stop.channel_stopper_axioms [of K] link_config_frame(1) [of K]
          disjI1 [OF refl]])
      (simp add: link_module_defs link_callback_shapes Let_def)
  moreover have "link_shape K (unlink_module_init K) unlink_verify_buffers"
    by (rule link_shapeI [OF unlink_stop.channel_stopper_axioms [of K] link_config_frame(2) [of K]
          disjI1 [OF refl]])
      (simp add: link_module_defs link_callback_shapes Let_def)
  moreover have "link_shape K (nonlinked_module_init K) nonlinked_verify_buffers"
    by (rule link_shapeI [OF link_stop.channel_stopper_axioms [of K] link_config_frame(2) [of K]
          disjI2 [OF refl]])
      (simp add: link_module_defs link_callback_shapes Let_def)
  ultimately show "link_shape K ini verify" and "ext w = w"
    using assms by (auto simp: link_modules_def selflink_module_exit_def unlink_module_exit_def
        nonlinked_module_exit_def)
qed

lemma check_link_backed:
  assumes "link_backed verify K w"
  shows "test_passed (check_test_passed 2 w) = 0 \<or>
    test_passed (check_test_passed 2 w) = 1 \<and> (\<forall>i<2. link_verified verify K (check_test_passed 2 w) i)"
  using assms by (auto simp: check_test_passed_spec link_backed_def link_verified_def)

text \<open>
  C34. The verdict of the three self-link modules: initialisation always stores one; if it is
  PASSED it returned 0 and the last completion interrupt of both transfers had an acceptable
  status and passed the module's own comparison.
\<close>

theorem link_modules_verdict:
  assumes "irq_after_start K" and "(ini, ext, verify) \<in> set (link_modules K)"
    and "ini (sc_fresh 2 m) = (r, w)"
  shows "test_passed w \<in> {0, 1} \<and>
    (test_passed w = 1 \<longrightarrow> r = 0 \<and> link_verified verify K w 0 \<and> link_verified verify K w 1)"
proof -
  from link_module_shape(1) [OF assms(2)] obtain stop link config where
    st: "channel_stopper stop" and cf: "config_frame config"
    and link: "link = dma_link_lch (kcall_thread K (link_callback stop verify K)) \<or> link = (\<lambda>i w. w)"
    and ini: "ini = link_run (request_dma K (kcall_thread K (link_callback stop verify K))) link K
       (kcall_thread K (link_callback stop verify K)) 2 config (get_transfers_finished 2) (check_test_passed 2)"
    unfolding link_shape_def by blast
  let ?call = "kcall_thread K (link_callback stop verify K)"
  let ?I = "\<lambda>w :: sc_world. quiet w \<and> length (transfers w) = 2"
  let ?Q = "\<lambda>w. test_passed w = 0 \<or> test_passed w = 1 \<and> (\<forall>i<2. link_verified verify K w i)"
  have inv: "setup_invariant ?call ?I" by (rule quiet_length_thread [OF assms(1)])
  have "r = 0 \<and> ?Q w \<or> test_passed w = 0"
  proof (rule setup_invariant.link_run_inv [where J = "link_backed verify K" and Q = ?Q
        and check = "check_test_passed 2" and link = link, OF inv _ cf])
    show "link_run (request_dma K ?call) link K ?call 2 config (get_transfers_finished 2)
        (check_test_passed 2) (sc_fresh 2 m) = (r, w)" using assms(3) ini by simp
    show "?I (link i w)" if "?I w" for i w
      using link setup_invariant.dma_link_lch_I [OF inv that] that by auto
    show "link_backed verify K w" if "?I w" for w
      using that by (simp add: quiet_def idle_def link_backed_def)
  qed (use check_link_backed [of verify K] link_fresh(1) channel_stopper.backed_call [OF st] in simp_all)
  then show ?thesis by auto
qed

lemma link_module_keeps:
  assumes "(ini, ext, verify) \<in> set (link_modules K)"
    and inv: "\<And>stop verify. channel_stopper stop \<Longrightarrow> run_invariant (kcall_thread K (link_callback stop verify K)) I"
    and "\<And>w. I w \<Longrightarrow> I (check_test_passed 2 w)" and "I w"
  shows "I (ext (snd (ini w)))"
proof -
  from link_module_shape(1) [OF assms(1)] obtain stop link config where
    st: "channel_stopper stop" and cf: "config_frame config"
    and link: "link = dma_link_lch (kcall_thread K (link_callback stop verify K)) \<or> link = (\<lambda>i w. w)"
    and ini: "ini = link_run (request_dma K (kcall_thread K (link_callback stop verify K))) link K
       (kcall_thread K (link_callback stop verify K)) 2 config (get_transfers_finished 2) (check_test_passed 2)"
    unfolding link_shape_def by blast
  note r = inv [OF st, of verify]
  have l: "I (link i w)" if "I w" for i w
    using link that setup_invariant.dma_link_lch_I [OF run_invariant.axioms(1) [OF r] that] by auto
  have "I (snd (ini w))"
    unfolding ini by (rule run_invariant.link_run_I [OF r l cf assms(3,4)])
  then show ?thesis by (simp add: link_module_shape(2) [OF assms(1)])
qed

lemma alloc_balance_no_kfree:
  "count_calls is_kfree h = 0 \<Longrightarrow> alloc_balance h a = int (count_list (map fst (allocs h)) a)"
proof (induction h)
  case Nil
  then show ?case by simp
next
  case (Cons e h)
  then show ?case
  proof (cases e)
    case (Called c r out)
    with Cons show ?thesis by (cases c) (auto split: if_splits)
  qed auto
qed

text \<open>
  The self-link modules never free a buffer: after initialisation and exit every buffer is
  still allocated as often as it was ever handed out, whatever the kernel answers.
\<close>

theorem link_modules_leak:
  assumes "(ini, ext, verify) \<in> set (link_modules K)" and "w = ext (snd (ini (sc_fresh 2 m)))"
  shows "alloc_balance (trace w) a = int (count_list (map fst (allocs (trace w))) a)"
proof -
  have "no_kfree w"
    unfolding assms(2)
    by (rule link_module_keeps [OF assms(1)])
      (simp_all add: channel_stopper.no_kfree_run check_test_passed_frame link_fresh)
  then show ?thesis by (simp add: no_kfree_def alloc_balance_no_kfree)
qed

text \<open>
  The self-link modules free a channel once per completion interrupt of one of their two
  transfers and never otherwise: a second interrupt of the same transfer frees its channel a
  second time, and a transfer that never completes keeps its channel for ever.
\<close>

theorem link_modules_free_per_irq:
  assumes "(ini, ext, verify) \<in> set (link_modules K)" and "w = ext (snd (ini (sc_fresh 2 m)))"
  shows "count_calls is_free_dma (trace w) = length (filter (\<lambda>d. d < 2) (irq_ids (trace w)))"
proof -
  have "free_per_irq w"
    unfolding assms(2)
    by (rule link_module_keeps [OF assms(1)])
      (simp_all add: channel_stopper.frees_run check_test_passed_frame link_fresh)
  then show ?thesis by (simp add: free_per_irq_def)
qed

text \<open>
  The comparison of the unlink modules accepts exactly the destination buffers all of whose
  bytes equal the first byte of the source buffer: the source pointer is not advanced.
\<close>

theorem unlink_verify_buffers_correct:
  "unlink_verify_buffers m b =
     (if map (\<lambda>j. m (dest_buf b + of_nat j)) [0..<unat (buf_size b)] =
         replicate (unat (buf_size b)) (m (src_buf b)) then 0 else 1) \<and>
   nonlinked_verify_buffers = unlink_verify_buffers"
proof -
  have "map f [0..<n] = replicate n c \<longleftrightarrow> (\<forall>j<n. f j = c)" for f :: "nat \<Rightarrow> u8" and n c
    by (auto simp: list_eq_iff_nth_eq)
  then show ?thesis
    by (simp add: fun_eq_iff unlink_verify_buffers_def nonlinked_verify_buffers_def
        unlink_verify_loop_spec)
qed

text \<open>Witnesses: the self-link module on the concrete kernel.\<close>

lemma selflink_in_modules: "(selflink_module_init K, selflink_module_exit, verify_buffers) \<in> set (link_modules K)"
  by (simp add: link_modules_def)

theorem link_modules_verdict_witness:
  "irq_after_start (demo_kernel 2) \<and>
   test_passed (snd (selflink_module_init (demo_kernel 2) (sc_fresh 2 (\<lambda>_. 0)))) \<in> {0, 1}"
  using link_modules_verdict [where m = "\<lambda>_. 0", OF demo_irq_after_start selflink_in_modules prod.collapse [symmetric]]
    demo_irq_after_start by blast

theorem link_modules_leak_witness:
  "alloc_balance (trace (selflink_module_exit (snd (selflink_module_init (demo_kernel 2) (sc_fresh 2 (\<lambda>_. 0)))))) 4194304 =
   int (count_list (map fst (allocs (trace (selflink_module_exit
     (snd (selflink_module_init (demo_kernel 2) (sc_fresh 2 (\<lambda>_. 0)))))))) 4194304)"
  by (rule link_modules_leak [OF selflink_in_modules refl])

theorem link_modules_free_per_irq_witness:
  "count_calls is_free_dma (trace (selflink_module_exit
     (snd (selflink_module_init (demo_kernel 2) (sc_fresh 2 (\<lambda>_. 0)))))) =
   length (filter (\<lambda>d. d < 2) (irq_ids (trace (selflink_module_exit
     (snd (selflink_module_init (demo_kernel 2) (sc_fresh 2 (\<lambda>_. 0))))))))"
  by (rule link_modules_free_per_irq [OF selflink_in_modules refl])

end
