(* ===== verification/Dma_Oswr.thy ===== *)
theory Dma_Oswr
  imports Dma_Standard
begin

text \<open>
  The test of the open-switch-retention feature: \<^verbatim>\<open>dma_addrmode_constant_oswr.c\<close> runs one
  transfer and dumps the registers of its channel, \<^verbatim>\<open>dma_oswr_trigger.c\<close> dumps them again after
  suspend, and the exit function of the first module compares the two dumps.
  \<^verbatim>\<open>dma_register_dump.c\<close> holds the dump function.
\<close>

section \<open>Reading the registers of a channel\<close>

text \<open>
  What the platform headers decide: which processor it is and the base addresses of its
  interconnect.
\<close>

record platform =
  cpu_is_omap24xx :: bool
  cpu_is_omap34xx :: bool
  cpu_is_omap44xx :: bool
  L4_24XX_BASE :: u32
  L4_34XX_BASE :: u32
  L4_44XX_BASE :: u32

text \<open>The channel registers \<^verbatim>\<open>CCR = 0 \<dots> COLOR\<close>, and their number.\<close>

definition CCR :: nat where
  "CCR = 0"

definition CH_END :: nat where
  "CH_END = 18"

text \<open>
  The static data: the two dumps, the trigger, the mapped base address, and what the uninitialised
  part of the local array \<^verbatim>\<open>reg_dump\<close> happens to hold.
\<close>

record oswr_world = sc_world +
  reg_dump_after_config :: "u32 list"
  reg_dump_after_suspend :: "u32 list"
  wait_oswr_trigger :: u8
  omap_dma_base :: u32
  stack_words :: "u32 list"

text \<open>The offset of register \<open>i\<close> of channel \<open>lch\<close>, in 32-bit arithmetic.\<close>

definition dma_stride :: "int \<Rightarrow> nat \<Rightarrow> u32" where
  "dma_stride lch i = of_nat i * 4 + 0x80 + word_of_int (lch * 0x60)"

fun read_registers :: "kernel \<Rightarrow> (kcall \<Rightarrow> oswr_world \<Rightarrow> oswr_world) \<Rightarrow> int \<Rightarrow> nat \<Rightarrow> nat
    \<Rightarrow> oswr_world \<Rightarrow> u32 list \<times> oswr_world" where
  "read_registers K call lch i 0 w = ([], w)"
| "read_registers K call lch i (Suc k) w =
     (let c = Raw_readl (omap_dma_base w + dma_stride lch i);
          v = word_of_int (kcall_ret K c w)
      in case read_registers K call lch (Suc i) k (call c w) of (vs, w) \<Rightarrow> (v # vs, w))"

definition dma4_base :: "platform \<Rightarrow> u32 option" where
  "dma4_base P =
     (if cpu_is_omap24xx P then Some (L4_24XX_BASE P + 0x56000)
      else if cpu_is_omap34xx P then Some (L4_34XX_BASE P + 0x56000)
      else if cpu_is_omap44xx P then Some (L4_44XX_BASE P + 0x56000)
      else None)"

text \<open>
  The dump: \<open>None\<close> is the early return on an unknown processor, which leaves the caller's array
  alone; otherwise the whole local array of \<^verbatim>\<open>CH_END * 4\<close> words is copied out, of which the first
  \<^verbatim>\<open>CH_END\<close> were read.
\<close>

definition dma_channel_registers_dump :: "platform \<Rightarrow> kernel \<Rightarrow> (kcall \<Rightarrow> oswr_world \<Rightarrow> oswr_world)
    \<Rightarrow> int \<Rightarrow> oswr_world \<Rightarrow> u32 list option \<times> oswr_world" where
  "dma_channel_registers_dump P K call lch w =
     (case dma4_base P of
        None \<Rightarrow> (None, w)
      | Some base \<Rightarrow>
          let c = Ioremap base;
              p = kcall_ret K c w;
              w = (call c w)\<lparr>omap_dma_base := word_of_int p\<rparr>
          in case read_registers K call lch CCR (CH_END - CCR) w of (vs, w) \<Rightarrow>
               (Some (vs @ drop CH_END (take (CH_END * 4) (stack_words w))), w))"

definition dma_dump_init :: "oswr_world \<Rightarrow> int \<times> oswr_world" where
  "dma_dump_init w = (0, w)"

definition dma_dump_exit :: "oswr_world \<Rightarrow> oswr_world" where
  "dma_dump_exit w = w"

section \<open>The transfer module\<close>

definition oswr_check_test_passed :: "oswr_world \<Rightarrow> oswr_world" where
  "oswr_check_test_passed = check_test_passed 1"

definition oswr_verify_buffers :: "memory \<Rightarrow> dma_buffers_info \<Rightarrow> int" where
  "oswr_verify_buffers m b = constant_verify_loop m (src_buf b) (dest_buf b) 0 (unat (buf_size b))"

text \<open>The status branch returns before the trigger is set.\<close>

definition oswr_dma_callback :: "kernel \<Rightarrow> oswr_world handler" where
  "oswr_dma_callback K lch st i w =
     (if i < length (transfers w) then
        let w = tr_upd i (\<lambda>t. t\<lparr>data_correct := 0, finished := 1\<rparr>) w;
            w = unmap_phys_buffers (kcall_irq K) i w
        in if status_ok K st
           then let error = oswr_verify_buffers (mem w) (bufs w i);
                    w = (if error \<noteq> 0 then w else tr_upd i (\<lambda>t. t\<lparr>data_correct := 1\<rparr>) w)
                in w\<lparr>wait_oswr_trigger := word_of_int lch\<rparr>
           else w
      else w)"

definition oswr_get_transfers_finished :: "oswr_world \<Rightarrow> int" where
  "oswr_get_transfers_finished = get_transfers_finished 1"

definition oswr_request_dma :: "kernel \<Rightarrow> (kcall \<Rightarrow> oswr_world \<Rightarrow> oswr_world)
    \<Rightarrow> nat \<Rightarrow> oswr_world \<Rightarrow> int \<times> oswr_world" where
  "oswr_request_dma = request_dma"

abbreviation oswr_call :: "kernel \<Rightarrow> kcall \<Rightarrow> oswr_world \<Rightarrow> oswr_world" where
  "oswr_call K \<equiv> kcall_thread K (oswr_dma_callback K)"

text \<open>Start transfer \<open>i\<close> and dump its channel into \<^verbatim>\<open>reg_dump_after_config\<close>.\<close>

definition oswr_start_and_dump :: "platform \<Rightarrow> kernel \<Rightarrow> nat \<Rightarrow> oswr_world \<Rightarrow> oswr_world" where
  "oswr_start_and_dump P K i w =
     (let w = start_dma_transfer (oswr_call K) i w
      in case dma_channel_registers_dump P K (oswr_call K) (transfer_id (transfers w ! i)) w of
           (None, w) \<Rightarrow> w
         | (Some d, w) \<Rightarrow> w\<lparr>reg_dump_after_config := d\<rparr>)"

definition oswr_module_init :: "platform \<Rightarrow> kernel \<Rightarrow> oswr_world \<Rightarrow> int \<times> oswr_world" where
  "oswr_module_init P K w =
     (let call = oswr_call K;
          w = w\<lparr>wait_oswr_trigger := - 1\<rparr>
      in case for_or_fail (\<lambda>i w. prepare_transfer (oswr_request_dma K call) K call i
                (tr_upd i (amode_config K OMAP_DMA_AMODE_POST_INC 128 0 0 i) w)) 0 1 w of
           (error, w) \<Rightarrow>
             if error \<noteq> 0 then (1, w)
             else case poll_loop (\<lambda>w. oswr_get_transfers_finished w \<noteq> 0)
                         (call (Mdelay TRANSFER_POLL_TIME)) oswr_check_test_passed
                         TRANSFER_POLL_COUNT (for_each (oswr_start_and_dump P K) 0 1 w) of
                    (left_by_break, w) \<Rightarrow>
                      if \<not> left_by_break then (1, set_test_passed 0 w) else (0, w))"

text \<open>The comparison of the two dumps, entry by entry from \<open>i\<close>; entries are in range.\<close>

fun oswr_dumps_differ :: "u32 list \<Rightarrow> u32 list \<Rightarrow> nat \<Rightarrow> nat \<Rightarrow> bool" where
  "oswr_dumps_differ a b i 0 = False"
| "oswr_dumps_differ a b i (Suc k) = (a ! i \<noteq> b ! i \<or> oswr_dumps_differ a b (Suc i) k)"

definition oswr_module_exit :: "kernel \<Rightarrow> oswr_world \<Rightarrow> oswr_world" where
  "oswr_module_exit K w =
     (let w = (if oswr_dumps_differ (reg_dump_after_config w) (reg_dump_after_suspend w) CCR (CH_END - CCR)
               then set_test_passed 0 w else w);
          w = set_test_passed 1 w
      in stop_all (oswr_call K) 1 w)"

section \<open>The trigger module\<close>

text \<open>
  \<^verbatim>\<open>while (wait_oswr_trigger < 0) { mdelay(1000); cpu_relax(); }\<close>: the \<^verbatim>\<open>u8\<close> is promoted to
  \<^verbatim>\<open>int\<close> for the comparison. \<open>None\<close> is running out of \<open>fuel\<close> rounds.
\<close>

fun oswr_wait :: "(kcall \<Rightarrow> oswr_world \<Rightarrow> oswr_world) \<Rightarrow> nat \<Rightarrow> oswr_world \<Rightarrow> oswr_world option" where
  "oswr_wait call 0 w = None"
| "oswr_wait call (Suc fuel) w =
     (if uint (wait_oswr_trigger w) < 0 then oswr_wait call fuel (call (Mdelay 1000) w)
      else Some w)"

definition oswr_trigger_init :: "platform \<Rightarrow> kernel \<Rightarrow> nat \<Rightarrow> oswr_world
    \<Rightarrow> (int \<times> oswr_world) option" where
  "oswr_trigger_init P K fuel w =
     (case oswr_wait (oswr_call K) fuel w of
        None \<Rightarrow> None
      | Some w \<Rightarrow>
          (case dma_channel_registers_dump P K (oswr_call K) (uint (wait_oswr_trigger w)) w of
             (None, w) \<Rightarrow> Some (0, w)
           | (Some d, w) \<Rightarrow> Some (0, w\<lparr>reg_dump_after_suspend := d\<rparr>)))"

definition oswr_trigger_exit :: "oswr_world \<Rightarrow> oswr_world" where
  "oswr_trigger_exit w = w"

section \<open>Properties\<close>

lemma oswr_frame [simp]:
  "trace (w\<lparr>wait_oswr_trigger := x\<rparr>) = trace w" "transfers (w\<lparr>wait_oswr_trigger := x\<rparr>) = transfers w"
  "test_passed (w\<lparr>wait_oswr_trigger := x\<rparr>) = test_passed w"
  by simp_all

lemma oswr_dma_callback_view: "sc_view (oswr_dma_callback K lch st i w) = sc_view w"
proof -
  have "sc_view (v\<lparr>wait_oswr_trigger := x\<rparr>) = sc_view v" for v :: oswr_world and x
    by (simp add: sc_view_def)
  moreover have "sc_view (tr_upd i (\<lambda>t. t\<lparr>data_correct := x, finished := 1\<rparr>) v) = sc_view v"
    "sc_view (tr_upd i (\<lambda>t. t\<lparr>data_correct := x\<rparr>) v) = sc_view v" for x and v :: oswr_world
    by (simp_all add: view_upd strip_def)
  ultimately show ?thesis by (simp add: oswr_dma_callback_def Let_def view_unmap_irq)
qed

interpretation oswr_cb: irq_frame "oswr_dma_callback K" sc_view for K
  by unfold_locales (simp_all add: oswr_dma_callback_view view_log_neutral)

interpretation oswr_calls: sc_caller K "oswr_call K" for K
  by unfold_locales (rule oswr_cb.kcall_thread_view)

text \<open>
  The exit function of the retention test stores PASSED in every case: the result of
  comparing the register dumps is overwritten.
\<close>

theorem oswr_exit_always_passes: "test_passed (oswr_module_exit K w) = 1"
proof -
  have "test_passed (snd (stop_dma_transfer (oswr_call K) i v)) = test_passed v" for i v
    by (simp add: stop_dma_transfer_def Let_def)
  then show ?thesis by (simp add: oswr_module_exit_def stop_all_def Let_def)
qed

text \<open>
  The trigger module never waits: its first look at the unsigned trigger ends the loop, also
  when no transfer has completed and the trigger still holds the initial value, so that it dumps
  channel 255.
\<close>

theorem oswr_trigger_no_wait:
  "oswr_wait call (Suc fuel) w = Some w \<and> uint (wait_oswr_trigger (w\<lparr>wait_oswr_trigger := - 1\<rparr>)) = 255"
  by (simp add: unsigned_minus_1_eq_mask mask_eq_exp_minus_1)

section \<open>The dump\<close>

text \<open>The register reads of a history, oldest first: address and value.\<close>

fun reads_of :: "history \<Rightarrow> (u32 \<times> u32) list" where
  "reads_of [] = []"
| "reads_of (Called (Raw_readl a) r out # h) = reads_of h @ [(a, word_of_int r)]"
| "reads_of (e # h) = reads_of h"

definition dump_view :: "oswr_world \<Rightarrow> (u32 \<times> u32) list \<times> u32 \<times> u32 list" where
  "dump_view w = (reads_of (trace w), omap_dma_base w, stack_words w)"

lemma oswr_dma_callback_dump:
  "dump_view (oswr_dma_callback K lch st i (log_ev (Interrupt lch st i m) w)) = dump_view w"
  by (simp add: dump_view_def oswr_dma_callback_def unmap_phys_buffers_def Let_def)
    (simp add: tr_upd_def kcall_irq_def log_ev_def)

interpretation oswr_dump: irq_frame "oswr_dma_callback K" dump_view for K
  by unfold_locales (simp_all add: oswr_dma_callback_dump, simp add: dump_view_def)

lemma oswr_call_dump:
  "dump_view (oswr_call K c w) = dump_view (kcall_irq K c w)"
  by (rule oswr_dump.kcall_thread_view)

lemma kcall_irq_dump:
  "omap_dma_base (kcall_irq K c w) = omap_dma_base w" "stack_words (kcall_irq K c w) = stack_words w"
  by (simp_all add: kcall_irq_def log_ev_def)

lemma read_registers_spec:
  assumes "read_registers K (oswr_call K) lch i k w = (vs, w')"
  shows "length vs = k \<and> omap_dma_base w' = omap_dma_base w \<and> stack_words w' = stack_words w \<and>
    reads_of (trace w') = reads_of (trace w) @
      zip (map (\<lambda>j. omap_dma_base w + dma_stride lch j) [i..<i + k]) vs"
  using assms
proof (induction k arbitrary: i w vs w')
  case 0
  then show ?case by simp
next
  case (Suc k)
  let ?c = "Raw_readl (omap_dma_base w + dma_stride lch i)"
  obtain us where u: "read_registers K (oswr_call K) lch (Suc i) k (oswr_call K ?c w) = (us, w')"
    and vs: "vs = word_of_int (kcall_ret K ?c w) # us"
    using Suc.prems by (auto simp: Let_def split: prod.splits)
  have v: "omap_dma_base (oswr_call K ?c w) = omap_dma_base w"
    "stack_words (oswr_call K ?c w) = stack_words w"
    "reads_of (trace (oswr_call K ?c w)) = reads_of (trace w) @
       [(omap_dma_base w + dma_stride lch i, word_of_int (kcall_ret K ?c w))]"
    using oswr_call_dump[of K ?c w] by (simp_all add: dump_view_def kcall_irq_dump)
  have "[i..<i + Suc k] = i # [Suc i..<Suc i + k]" by (simp add: upt_conv_Cons)
  with Suc.IH [OF u] v vs show ?case by simp
qed

text \<open>
  A register dump on a known processor reads the eighteen registers of the channel, each once
  and in order, at their offsets from the freshly mapped base, and delivers exactly the values
  read as the first eighteen words of the array it fills, whatever interrupts arrive.
\<close>

theorem registers_dump_correct:
  assumes "dma4_base P = Some base" and "dma_channel_registers_dump P K (oswr_call K) lch w = (r, w')"
  shows "\<exists>d. r = Some d \<and> 18 \<le> length d \<and> reads_of (trace w') = reads_of (trace w) @
    zip (map (\<lambda>j. omap_dma_base w' + dma_stride lch j) [0..<18]) (take 18 d)"
proof -
  let ?v = "(oswr_call K (Ioremap base) w)\<lparr>omap_dma_base := word_of_int (kcall_ret K (Ioremap base) w)\<rparr>"
  obtain vs where rr: "read_registers K (oswr_call K) lch 0 18 ?v = (vs, w')"
    and r: "r = Some (vs @ drop 18 (take 72 (stack_words w')))"
    using assms by (auto simp: dma_channel_registers_dump_def Let_def CCR_def CH_END_def split: prod.splits)
  have "reads_of (trace ?v) = reads_of (trace w)"
    using oswr_call_dump[of K "Ioremap base" w] by (simp add: dump_view_def)
  with read_registers_spec [OF rr] r show ?thesis by simp
qed

lemma dma_stride_value:
  assumes "0 \<le> lch" and "lch \<le> 255" and "i < CH_END"
  shows "uint (dma_stride lch i) = int i * 4 + 128 + lch * 96"
proof -
  have small: "uint (word_of_int x :: u32) = x" if "0 \<le> x" "x < 2 ^ 32" for x
    using that by (simp add: unsigned_of_int take_bit_int_eq_self)
  have "dma_stride lch i = word_of_int (int i * 4 + 128 + lch * 96)"
    by (simp add: dma_stride_def)
  moreover have "uint (word_of_int (int i * 4 + 128 + lch * 96) :: u32) = int i * 4 + 128 + lch * 96"
    by (rule small) (use assms in \<open>simp_all add: CH_END_def\<close>)
  ultimately show ?thesis by (simp only:)
qed

text \<open>
  Bounds of the dump: for the 32 channels of the controller every register read lies inside
  the 4 KB that were mapped, while for channel 255 (the trigger's initial value) every read lies
  outside.
\<close>

theorem registers_dump_bounds:
  assumes "i < CH_END"
  shows "(0 \<le> lch \<and> lch < 32 \<longrightarrow> uint (dma_stride lch i) + 4 \<le> 4096) \<and> 4096 \<le> uint (dma_stride 255 i)"
  using assms by (auto simp: dma_stride_value CH_END_def)

text \<open>Witnesses.\<close>

theorem registers_dump_correct_witness:
  "\<exists>d. fst (dma_channel_registers_dump
      \<lparr>cpu_is_omap24xx = False, cpu_is_omap34xx = True, cpu_is_omap44xx = False,
       L4_24XX_BASE = 0, L4_34XX_BASE = 0x48000000, L4_44XX_BASE = 0\<rparr>
      (demo_kernel 1) (oswr_call (demo_kernel 1)) 3
      (sc_world.extend (sc_fresh 1 (\<lambda>_. 0)) \<lparr>reg_dump_after_config = [], reg_dump_after_suspend = [],
         wait_oswr_trigger = 0, omap_dma_base = 0, stack_words = []\<rparr>)) = Some d \<and> 18 \<le> length d"
proof -
  let ?P = "\<lparr>cpu_is_omap24xx = False, cpu_is_omap34xx = True, cpu_is_omap44xx = False,
       L4_24XX_BASE = 0, L4_34XX_BASE = 0x48000000, L4_44XX_BASE = 0\<rparr>"
  have "dma4_base ?P = Some (0x48000000 + 0x56000)" by (simp add: dma4_base_def)
  from registers_dump_correct [OF this prod.collapse [symmetric]] show ?thesis by blast
qed

theorem registers_dump_bounds_witness:
  "(17::nat) < CH_END \<and> uint (dma_stride 31 17) + 4 \<le> 4096 \<and> 4096 \<le> uint (dma_stride 255 17)"
proof -
  have "17 < CH_END" by (simp add: CH_END_def)
  with registers_dump_bounds [OF this, of 31] show ?thesis by simp
qed

end
