(* ===== verification/Dma_Threads.thy ===== *)
theory Dma_Threads
  imports Dma_Single_Correct
begin

text \<open>
  The concurrency test \<^verbatim>\<open>dma_thread_access.c\<close>: two kernel threads run the same test on an array of
  thirteen transfers each. The threads are interleaved at the granularity of their loop bodies;
  the unprotected \<^verbatim>\<open>count += 1\<close> is split into its load and its store. Interrupts arrive inside
  the kernel calls as everywhere.
\<close>

section \<open>State\<close>

text \<open>
  \<^verbatim>\<open>gtransfers\<close> are the transfers 0 to 12 and \<^verbatim>\<open>gtransfers2\<close> the transfers 13 to 25; a thread's
  array argument is the index of its first transfer. The static \<^verbatim>\<open>count\<close> is \<open>th_count\<close>.
\<close>

record th_world = sc_world +
  th_count :: int

definition th_fresh :: "memory \<Rightarrow> th_world" where
  "th_fresh m = sc_world.extend (sc_fresh 26 m) \<lparr>th_count = 0\<rparr>"

abbreviation th_call :: "kernel \<Rightarrow> kcall \<Rightarrow> th_world \<Rightarrow> th_world" where
  "th_call K \<equiv> kcall_thread K (dma_callback K)"

text \<open>Where a thread is in \<^verbatim>\<open>dma_test_entry\<close>, with its locals \<^verbatim>\<open>i\<close> and \<^verbatim>\<open>error\<close>.\<close>

datatype phase =
    Setup nat
  | Starting nat
  | Polling nat int
  | Verdict int
  | Count_load
  | Count_store int
  | Returned int

section \<open>The code\<close>

definition thread_config :: "kernel \<Rightarrow> nat \<Rightarrow> dma_transfer \<Rightarrow> dma_transfer" where
  "thread_config K i t = t\<lparr>
     device_id := k_const K OMAP_DMA_NO_DEVICE,
     sync_mode := k_const K OMAP_DMA_SYNC_ELEMENT,
     data_burst := k_const K OMAP_DMA_DATA_BURST_DIS,
     data_type := k_const K OMAP_DMA_DATA_TYPE_S8,
     endian_type := k_const K DMA_TEST_LITTLE_ENDIAN,
     addressing_mode := k_const K OMAP_DMA_AMODE_POST_INC,
     dst_addressing_mode := k_const K OMAP_DMA_AMODE_POST_INC,
     priority := k_const K DMA_CH_PRIO_HIGH,
     buffers := (buffers t)\<lparr>buf_size := of_nat (512 * (i + 1) * (i + 1) + i mod 2)\<rparr>\<rparr>"

definition thread_get_transfers_finished :: "nat \<Rightarrow> th_world \<Rightarrow> int" where
  "thread_get_transfers_finished base w = finished_loop (take 13 (drop base (transfers w)))"

text \<open>One step of \<^verbatim>\<open>dma_test_entry\<close> on the array that begins at \<open>base\<close>.\<close>

fun dma_test_entry :: "kernel \<Rightarrow> nat \<Rightarrow> phase \<Rightarrow> th_world \<Rightarrow> phase \<times> th_world" where
  "dma_test_entry K base (Setup i) w =
     (if i < 13 then
        case prepare_transfer (request_dma K (th_call K)) K (th_call K) (base + i)
               (tr_upd (base + i) (thread_config K i) w) of
          (error, w) \<Rightarrow> if error \<noteq> 0 then (Returned 1, w) else (Setup (Suc i), w)
      else (Starting 0, w))"
| "dma_test_entry K base (Starting i) w =
     (if i < 13 then (Starting (Suc i), start_dma_transfer (th_call K) (base + i) w)
      else (Polling 0 0, w))"
| "dma_test_entry K base (Polling i error) w =
     (if i < TRANSFER_POLL_COUNT then
        if thread_get_transfers_finished base w \<noteq> 0 then
          let w = th_call K (Mdelay TRANSFER_POLL_TIME) w
          in (Verdict (check_dma_transfer_complete (drop base (transfers w)) 13), w)
        else (Polling (Suc i) error, th_call K (Mdelay TRANSFER_POLL_TIME) w)
      else (Verdict error, w))"
| "dma_test_entry K base (Verdict error) w =
     (Count_load, if error \<noteq> 0 then set_test_passed 0 w else set_test_passed 1 w)"
| "dma_test_entry K base Count_load w = (Count_store (th_count w + 1), w)"
| "dma_test_entry K base (Count_store v) w = (Returned 0, w\<lparr>th_count := v\<rparr>)"
| "dma_test_entry K base (Returned r) w = (Returned r, w)"

text \<open>
  \<^verbatim>\<open>dma_module_init\<close> creates the two threads and wakes them up: the result and the state of the
  system when it returns.
\<close>

type_synonym th_state = "phase \<times> phase \<times> th_world"

definition thread_module_init :: "th_world \<Rightarrow> int \<times> th_state" where
  "thread_module_init w = (0, Setup 0, Setup 0, w)"

inductive th_step :: "kernel \<Rightarrow> th_state \<Rightarrow> th_state \<Rightarrow> bool" for K where
  first: "dma_test_entry K 0 p w = (p', w') \<Longrightarrow> th_step K (p, q, w) (p', q, w')"
| second: "dma_test_entry K 13 q w = (q', w') \<Longrightarrow> th_step K (p, q, w) (p, q', w')"

inductive_cases th_stepE: "th_step K (p, q, w) s"

abbreviation th_reach :: "kernel \<Rightarrow> th_state \<Rightarrow> th_state \<Rightarrow> bool" where
  "th_reach K \<equiv> (th_step K)\<^sup>*\<^sup>*"

text \<open>
  \<^verbatim>\<open>dma_module_exit\<close>: it sleeps while \<^verbatim>\<open>count\<close> is below 2; once it is not, both arrays are stopped.
\<close>

definition thread_exit_waits :: "th_world \<Rightarrow> bool" where
  "thread_exit_waits w \<longleftrightarrow> th_count w < 2"

definition thread_exit_stop :: "kernel \<Rightarrow> th_world \<Rightarrow> th_world" where
  "thread_exit_stop K w = for_each (\<lambda>i w. snd (stop_dma_transfer (th_call K) (13 + i)
     (snd (stop_dma_transfer (th_call K) i w)))) 0 13 w"

section \<open>The counter and the local error\<close>

lemma th_count_frame [simp]:
  "th_count (tr_upd i f w) = th_count w" "th_count (buf_upd i g w) = th_count w"
  "th_count (log_ev e w) = th_count w" "th_count (kcall_irq K c w) = th_count w"
  "th_count (set_test_passed p w) = th_count w" "th_count (fill_source_buffer i w) = th_count w"
  "th_count (w\<lparr>mem := m\<rparr>) = th_count w"
  by (simp_all add: tr_upd_def buf_upd_def log_ev_def kcall_irq_def set_test_passed_def
      fill_source_buffer_def)

interpretation th_count_frame: irq_frame "dma_callback K" th_count for K
  by unfold_locales (simp_all add: dma_callback_def unmap_phys_buffers_def Let_def)

lemma th_call_count [simp]: "th_count (th_call K c w) = th_count w"
  by (simp add: th_count_frame.kcall_thread_view)

interpretation th_count_run: exit_invariant K "th_call K" "\<lambda>w. th_count w = n" for K n
  by unfold_locales simp_all

lemma prepare_count [simp]:
  "th_count (snd (prepare_transfer (request_dma K (th_call K)) K (th_call K) i w)) = th_count w"
  by (rule th_count_run.prepare_transfer_I) simp

text \<open>A thread adds to the counter only when it returns 0, and its local \<^verbatim>\<open>error\<close> is 0 while it polls.\<close>

fun phase_ok :: "int \<Rightarrow> phase \<Rightarrow> bool" where
  "phase_ok n (Polling i error) = (error = 0)"
| "phase_ok n (Count_store v) = (v \<le> n + 1)"
| "phase_ok n p = True"

fun done0 :: "phase \<Rightarrow> int" where
  "done0 (Returned r) = (if r = 0 then 1 else 0)"
| "done0 p = 0"

text \<open>
  The counter never exceeds the number of threads that have returned 0; a value about to be
  stored never exceeds it by more than one.
\<close>

fun count_inv :: "th_state \<Rightarrow> bool" where
  "count_inv (p, q, w) \<longleftrightarrow> th_count w \<le> done0 p + done0 q \<and>
     phase_ok (done0 q) p \<and> phase_ok (done0 p) q"

lemma dma_test_entry_count:
  assumes "dma_test_entry K b p w = (p', w')" and "th_count w \<le> done0 p + n" and "phase_ok n p"
  shows "th_count w' \<le> done0 p' + n \<and> phase_ok n p' \<and> done0 p \<le> done0 p'"
proof (cases p)
  case (Setup i)
  with assms show ?thesis by (auto simp: case_prod_beta split: if_splits)
qed (use assms in \<open>auto simp: start_dma_transfer_def Let_def split: if_splits\<close>)

lemma phase_ok_mono: "phase_ok n p \<Longrightarrow> n \<le> n' \<Longrightarrow> phase_ok n' p"
  by (cases p) auto

lemma count_inv_step:
  assumes "th_step K s s'" and "count_inv s"
  shows "count_inv s'"
  using assms
proof cases
  case (first p w p' w' q)
  with assms(2) dma_test_entry_count [of K 0 p w p' w' "done0 q"] show ?thesis
    by (auto intro: phase_ok_mono)
next
  case (second q w q' w' p)
  with assms(2) dma_test_entry_count [of K 13 q w q' w' "done0 p"] show ?thesis
    by (auto intro: phase_ok_mono)
qed

lemma count_inv_reach: "th_reach K s s' \<Longrightarrow> count_inv s \<Longrightarrow> count_inv s'"
  by (induction rule: rtranclp_induct) (auto intro: count_inv_step)

lemma th_fresh_simps [simp]:
  "trace (th_fresh m) = []" "transfers (th_fresh m) = replicate 26 zero_transfer" "th_count (th_fresh m) = 0"
  by (simp_all add: th_fresh_def sc_world.defs sc_fresh_def)

lemma count_inv_init: "count_inv (snd (thread_module_init (th_fresh m)))"
  by (simp add: thread_module_init_def)

text \<open>A thread that has returned stays returned.\<close>

lemma returned_reach:
  assumes "th_reach K s s'"
  shows "fst s = Returned r \<Longrightarrow> fst s' = Returned r" and "fst (snd s) = Returned r \<Longrightarrow> fst (snd s') = Returned r"
  using assms by (induction rule: rtranclp_induct) (auto elim!: th_step.cases)

section \<open>Ownership under interleaving\<close>

text \<open>The number of transfers a thread has begun to set up.\<close>

fun begun :: "phase \<Rightarrow> nat" where
  "begun (Setup i) = i"
| "begun p = 13"

fun own_inv :: "th_state \<Rightarrow> bool" where
  "own_inv (p, q, w) \<longleftrightarrow> length (transfers w) = 26 \<and> owned w \<and>
     (\<forall>j. begun p \<le> j \<longrightarrow> j < 13 \<longrightarrow> unused (transfers w ! j)) \<and>
     (\<forall>j. begun q \<le> j \<longrightarrow> j < 13 \<longrightarrow> unused (transfers w ! (13 + j)))"

lemma thread_config_frame:
  "owned (tr_upd i (thread_config K k) w) = owned w"
  "j < length (transfers w) \<Longrightarrow>
     unused (transfers (tr_upd i (thread_config K k) w) ! j) = unused (transfers w ! j)"
proof -
  show "owned (tr_upd i (thread_config K k) w) = owned w"
    by (cases "i < length (transfers w)")
      (simp_all add: owned_def thread_config_def list_update_beyond)
  show "j < length (transfers w) \<Longrightarrow>
     unused (transfers (tr_upd i (thread_config K k) w) ! j) = unused (transfers w ! j)"
    by (cases "j = i") (simp_all add: unused_def thread_config_def)
qed

text \<open>A step of a thread changes the ownership of no transfer but the one it is setting up.\<close>

lemma dma_test_entry_owned:
  assumes "grants_channel K" and "dma_test_entry K b p w = (p', w')"
    and "length (transfers w) = 26" and "b \<le> 13" and "owned w"
    and mine: "\<And>j. begun p \<le> j \<Longrightarrow> j < 13 \<Longrightarrow> unused (transfers w ! (b + j))"
  shows "length (transfers w') = 26 \<and> owned w' \<and>
    (\<forall>j < 26. unused (transfers w ! j) \<longrightarrow> (begun p < 13 \<longrightarrow> j \<noteq> b + begun p) \<longrightarrow> unused (transfers w' ! j)) \<and>
    (begun p' = Suc (begun p) \<or> 13 \<le> begun p')"
proof (cases p)
  case (Setup i)
  show ?thesis
  proof (cases "i < 13")
    case True
    let ?w = "tr_upd (b + i) (thread_config K i) w"
    have u: "unused (transfers ?w ! (b + i))" and l: "b + i < length (transfers ?w)" and o: "owned ?w"
      using mine [of i] Setup True assms(3-5) thread_config_frame(2) [of "b + i" w "b + i" K i]
      by (simp_all add: thread_config_frame(1))
    note p = cb_call.prepare_owned [OF assms(1) l u o]
    have "unused (transfers ?w ! j)" if "j < 26" "unused (transfers w ! j)" for j
      using that assms(3) thread_config_frame(2) [of j w "b + i" K i] by simp
    with p assms(2,3) Setup True show ?thesis
      by (auto split: prod.splits if_splits)
  qed (use assms Setup in auto)
next
  case (Starting i)
  with assms show ?thesis
    by (auto simp: start_dma_transfer_def cb_call.call_owned split: if_splits)
next
  case (Polling i e)
  with assms show ?thesis
    by (auto simp: Let_def cb_call.call_owned split: if_splits)
next
  case (Count_store v)
  with assms have "w' = w\<lparr>th_count := v\<rparr>" "p' = Returned 0" by simp_all
  with Count_store assms(3,5) show ?thesis by (simp add: owned_def)
qed (use assms in \<open>auto split: if_splits\<close>)

lemma own_inv_step:
  assumes "grants_channel K" and "th_step K s s'" and "own_inv s"
  shows "own_inv s'"
  using assms(2,3)
proof cases
  case (first p w p' w' q)
  with assms(3) have o: "length (transfers w') = 26 \<and> owned w' \<and>
    (\<forall>j < 26. unused (transfers w ! j) \<longrightarrow> (begun p < 13 \<longrightarrow> j \<noteq> 0 + begun p) \<longrightarrow> unused (transfers w' ! j)) \<and>
    (begun p' = Suc (begun p) \<or> 13 \<le> begun p')"
    by (intro dma_test_entry_owned [OF assms(1), of 0 p w p' w']) auto
  have "unused (transfers w' ! j)" if "begun p' \<le> j" "j < 13" for j
    using o first(1) assms(3) that by auto
  moreover have "unused (transfers w' ! (13 + j))" if "begun q \<le> j" "j < 13" for j
    using o first(1) assms(3) that by simp
  ultimately show ?thesis using o first(2) by simp
next
  case (second q w q' w' p)
  with assms(3) have o: "length (transfers w') = 26 \<and> owned w' \<and>
    (\<forall>j < 26. unused (transfers w ! j) \<longrightarrow> (begun q < 13 \<longrightarrow> j \<noteq> 13 + begun q) \<longrightarrow> unused (transfers w' ! j)) \<and>
    (begun q' = Suc (begun q) \<or> 13 \<le> begun q')"
    by (intro dma_test_entry_owned [OF assms(1), of 13 q w q' w']) auto
  then show ?thesis using second(1,2) assms(3) by auto
qed

lemma own_inv_reach: "th_reach K s s' \<Longrightarrow> grants_channel K \<Longrightarrow> own_inv s \<Longrightarrow> own_inv s'"
  by (induction rule: rtranclp_induct) (auto intro: own_inv_step)

lemma own_inv_init: "own_inv (snd (thread_module_init (th_fresh m)))"
  by (simp add: thread_module_init_def owned_def own_chan_def own_buf_def unused_def nth_append
      del: replicate_Suc)

lemma all_released:
  assumes "owned w" and "\<And>j. j < length (transfers w) \<Longrightarrow> request_success (transfers w ! j) = 0"
  shows "chan_balance (trace w) ch = 0" and "a \<noteq> 0 \<Longrightarrow> alloc_balance (trace w) a = 0"
proof -
  have z: "\<forall>t \<in> set (transfers w). request_success t = 0"
    using assms(2) by (auto simp: in_set_conv_nth)
  then have "own_chan (transfers w) ch = 0" and "own_buf (transfers w) a = 0"
    by (auto simp: own_chan_def own_buf_def filter_empty_conv)
  with assms(1) show "chan_balance (trace w) ch = 0" and "a \<noteq> 0 \<Longrightarrow> alloc_balance (trace w) a = 0"
    by (simp_all add: owned_def)
qed

lemma thread_exit_released:
  assumes "kept 26 w"
  shows "kept 26 (thread_exit_stop K w)"
    and "j < 26 \<Longrightarrow> request_success (transfers (thread_exit_stop K w) ! j) = 0"
proof -
  let ?stop = "\<lambda>i w. snd (stop_dma_transfer (th_call K) i w)"
  let ?P = "\<lambda>i (w :: th_world). kept 26 w \<and> (\<forall>j<i. request_success (transfers w ! j) = 0 \<and>
    request_success (transfers w ! (13 + j)) = 0)"
  have stop: "kept 26 (?stop i w)" "request_success (transfers (?stop i w) ! i) = 0"
    "j < 26 \<Longrightarrow> request_success (transfers w ! j) = 0 \<Longrightarrow> request_success (transfers (?stop i w) ! j) = 0"
    if "kept 26 w" "i < 26" for i j and w :: th_world
    using that cb_call.stop_dma_transfer_released[of i w K] cb_call.stop_dma_transfer_other[of i w j K]
    by (cases "j = i"; simp add: kept_def cb_call.stop_dma_transfer_owned)+
  have "?P (0 + 13) (thread_exit_stop K w)"
    unfolding thread_exit_stop_def
  proof (rule for_each_inv)
    fix i and w :: th_world
    assume i: "i < 0 + 13" and P: "?P i w"
    let ?w = "?stop (13 + i) (?stop i w)"
    have "kept 26 ?w" using stop(1) P i by simp
    moreover have "request_success (transfers ?w ! j) = 0 \<and> request_success (transfers ?w ! (13 + j)) = 0"
      if "j < Suc i" for j
      using that i P stop by (cases "j = i") (simp_all add: less_Suc_eq)
    ultimately show "?P (Suc i) ?w" by blast
  qed (use assms in simp)
  then show "kept 26 (thread_exit_stop K w)"
    and "j < 26 \<Longrightarrow> request_success (transfers (thread_exit_stop K w) ! j) = 0"
    by (simp, cases "j < 13") (auto dest: spec[of _ j] spec[of _ "j - 13"])
qed

section \<open>Properties\<close>

text \<open>
  C28. Under every interleaving of the two threads and every kernel behaviour, stopping both arrays
  in the exit function gives back every channel and every buffer exactly once, from every state
  the module can reach.
\<close>

theorem thread_module_release:
  assumes "grants_channel K" and "th_reach K (snd (thread_module_init (th_fresh m))) (p, q, w)"
  shows "chan_balance (trace (thread_exit_stop K w)) ch = 0 \<and>
    (a \<noteq> 0 \<longrightarrow> alloc_balance (trace (thread_exit_stop K w)) a = 0)"
proof -
  have "own_inv (p, q, w)" by (rule own_inv_reach [OF assms(2,1) own_inv_init])
  then have "kept 26 w" by (simp add: kept_def)
  note r = thread_exit_released [where K = K, OF this]
  have "owned (thread_exit_stop K w)" and "length (transfers (thread_exit_stop K w)) = 26"
    using r(1) by (simp_all add: kept_def)
  with r(2) all_released show ?thesis by metis
qed

text \<open>
  The module cannot be removed after a thread has failed: that thread returns without counting
  itself, so in every state reachable from there the exit function is still waiting.
\<close>

theorem thread_exit_hangs:
  assumes "th_reach K (snd (thread_module_init (th_fresh m))) (p, q, w)"
    and "p = Returned 1 \<or> q = Returned 1" and "th_reach K (p, q, w) (p', q', w')"
  shows "thread_exit_waits w'"
proof -
  have "th_reach K (snd (thread_module_init (th_fresh m))) (p', q', w')"
    using assms(1,3) by (rule rtranclp_trans)
  then have "count_inv (p', q', w')" using count_inv_init by (rule count_inv_reach)
  moreover have "p' = Returned 1 \<or> q' = Returned 1"
    using assms(2) returned_reach [OF assms(3), of 1] by auto
  moreover have "done0 p' \<le> 1" and "done0 q' \<le> 1" by (cases p'; simp) (cases q'; simp)
  ultimately show ?thesis by (auto simp: thread_exit_waits_def)
qed

text \<open>
  A thread whose transfers never finish reports success: when its polling is exhausted its
  local error is still 0, and its next two steps store the verdict PASSED.
\<close>

theorem thread_timeout_passes:
  assumes "th_reach K (snd (thread_module_init (th_fresh m))) (Polling TRANSFER_POLL_COUNT e, q, w)"
  shows "th_reach K (Polling TRANSFER_POLL_COUNT e, q, w) (Count_load, q, set_test_passed 1 w)"
proof -
  have "count_inv (Polling TRANSFER_POLL_COUNT e, q, w)"
    by (rule count_inv_reach [OF assms count_inv_init])
  then have "e = 0" by simp
  then have "th_step K (Polling TRANSFER_POLL_COUNT e, q, w) (Verdict 0, q, w)"
    by (intro th_step.first) simp
  moreover have "th_step K (Verdict 0, q, w) (Count_load, q, set_test_passed 1 w)"
    by (intro th_step.first) simp
  ultimately show ?thesis by (meson rtranclp.rtrancl_into_rtrancl rtranclp.rtrancl_refl)
qed

lemma check_complete_zero:
  "check_dma_transfer_complete ts 13 = 0 \<longleftrightarrow>
     list_all (\<lambda>t. data_correct t \<noteq> 0) (take 13 ts) \<or> (ts \<noteq> [] \<and> data_correct (hd ts) = 0)"
  by (auto simp: check_dma_transfer_complete_def check_dma_loop_zero hd_take list_all_iff)

text \<open>
  The verdict of a thread that sees its transfers finished: PASSED if all thirteen are correct
  and also if the first one is wrong, FAILED otherwise.
\<close>

theorem thread_verdict_exact:
  assumes "i < TRANSFER_POLL_COUNT" and "thread_get_transfers_finished 0 w \<noteq> 0"
    and "v = th_call K (Mdelay TRANSFER_POLL_TIME) w"
  shows "th_reach K (Polling i e, q, w) (Count_load, q, set_test_passed
    (if list_all (\<lambda>t. data_correct t \<noteq> 0) (take 13 (transfers v)) \<or>
        (transfers v \<noteq> [] \<and> data_correct (hd (transfers v)) = 0) then 1 else 0) v)"
proof -
  let ?e = "check_dma_transfer_complete (transfers v) 13"
  have "th_step K (Polling i e, q, w) (Verdict ?e, q, v)"
    using assms by (intro th_step.first) (simp add: Let_def)
  moreover have "th_step K (Verdict ?e, q, v) (Count_load, q, set_test_passed (if ?e = 0 then 1 else 0) v)"
    by (intro th_step.first) simp
  ultimately show ?thesis
    unfolding check_complete_zero by (meson rtranclp.rtrancl_into_rtrancl rtranclp.rtrancl_refl)
qed

text \<open>
  The unprotected counter can lose an update: from any state in which both threads are about
  to count themselves there is an interleaving after which both have returned 0 and the counter
  has grown by one only.
\<close>

theorem thread_count_lost_update:
  "th_reach K (Count_load, Count_load, w) (Returned 0, Returned 0, w\<lparr>th_count := th_count w + 1\<rparr>)"
proof -
  let ?v = "th_count w + 1"
  have "th_step K (Count_load, Count_load, w) (Count_store ?v, Count_load, w)"
    by (rule th_step.first) simp
  moreover have "th_step K (Count_store ?v, Count_load, w) (Count_store ?v, Count_store ?v, w)"
    by (rule th_step.second) simp
  moreover have "th_step K (Count_store ?v, Count_store ?v, w) (Returned 0, Count_store ?v, w\<lparr>th_count := ?v\<rparr>)"
    by (rule th_step.first) simp
  moreover have "th_step K (Returned 0, Count_store ?v, w\<lparr>th_count := ?v\<rparr>)
      (Returned 0, Returned 0, w\<lparr>th_count := ?v\<rparr>)"
    by (rule th_step.second) simp
  ultimately show ?thesis by (meson rtranclp.rtrancl_into_rtrancl rtranclp.rtrancl_refl)
qed

text \<open>Witnesses.\<close>

theorem thread_module_release_witness:
  "grants_channel (demo_kernel 3) \<and>
   chan_balance (trace (thread_exit_stop (demo_kernel 3) (th_fresh (\<lambda>_. 0)))) 0 = 0"
proof -
  have "th_reach (demo_kernel 3) (snd (thread_module_init (th_fresh (\<lambda>_. 0)))) (Setup 0, Setup 0, th_fresh (\<lambda>_. 0))"
    by (simp add: thread_module_init_def)
  from thread_module_release [OF demo_grants_channel this, of 0 0] show ?thesis
    by (simp add: demo_grants_channel)
qed

text \<open>A kernel without any channel: the first thread fails in its first step.\<close>

definition busy_kernel :: kernel where
  "busy_kernel = \<lparr>k_ret = (\<lambda>_ _. 1), k_out = (\<lambda>_ _. None), k_events = (\<lambda>_. []),
     k_const = (\<lambda>_. 0), OMAP_DMA_BLOCK_IRQ = 32\<rparr>"

lemma busy_first_fails:
  "fst (dma_test_entry busy_kernel 0 (Setup 0) w) = Returned 1"
  by (simp add: prepare_transfer_def request_dma_def kcall_ret_def busy_kernel_def Let_def case_prod_beta
      split: option.splits)

theorem thread_exit_hangs_witness:
  "fst (dma_test_entry busy_kernel 0 (Setup 0) (th_fresh (\<lambda>_. 0))) = Returned 1 \<and>
   thread_exit_waits (snd (dma_test_entry busy_kernel 0 (Setup 0) (th_fresh (\<lambda>_. 0))))"
proof -
  let ?w = "snd (dma_test_entry busy_kernel 0 (Setup 0) (th_fresh (\<lambda>_. 0)))"
  have "th_step busy_kernel (snd (thread_module_init (th_fresh (\<lambda>_. 0)))) (Returned 1, Setup 0, ?w)"
    unfolding thread_module_init_def snd_conv
    by (rule th_step.first) (metis busy_first_fails prod.collapse)
  then have "th_reach busy_kernel (snd (thread_module_init (th_fresh (\<lambda>_. 0)))) (Returned 1, Setup 0, ?w)" ..
  from thread_exit_hangs [OF this disjI1 [OF refl] rtranclp.rtrancl_refl] show ?thesis
    by (simp only: busy_first_fails simp_thms)
qed

theorem thread_verdict_exact_witness:
  "thread_get_transfers_finished 0 (sc_world.extend (sc_fresh 0 (\<lambda>_. 0)) \<lparr>th_count = 0\<rparr>) \<noteq> 0 \<and>
   th_reach (demo_kernel 3) (Polling 0 0, Setup 0, sc_world.extend (sc_fresh 0 (\<lambda>_. 0)) \<lparr>th_count = 0\<rparr>)
     (Count_load, Setup 0, set_test_passed 1 (th_call (demo_kernel 3) (Mdelay TRANSFER_POLL_TIME)
        (sc_world.extend (sc_fresh 0 (\<lambda>_. 0)) \<lparr>th_count = 0\<rparr>)))"
proof -
  let ?w = "sc_world.extend (sc_fresh 0 (\<lambda>_. 0)) \<lparr>th_count = 0\<rparr>"
  have f: "thread_get_transfers_finished 0 ?w \<noteq> 0"
    by (simp add: thread_get_transfers_finished_def sc_world.defs sc_fresh_def)
  have p: "0 < TRANSFER_POLL_COUNT" by (simp add: TRANSFER_POLL_COUNT_def)
  have "transfers (th_call (demo_kernel 3) (Mdelay TRANSFER_POLL_TIME) ?w) = []"
    by (subst length_0_conv [symmetric]) (simp add: sc_world.defs sc_fresh_def)
  with thread_verdict_exact [where K = "demo_kernel 3" and e = 0 and q = "Setup 0", OF p f refl] f
  show ?thesis by simp
qed

text \<open>A run in which the first thread times out: nothing ever interrupts.\<close>

definition silent_kernel :: kernel where
  "silent_kernel = \<lparr>k_ret = (\<lambda>h c. case c of Kmalloc n \<Rightarrow> 4096 | _ \<Rightarrow> 0), k_out = (\<lambda>_ _. Some 5),
     k_events = (\<lambda>_. []), k_const = (\<lambda>_. 0), OMAP_DMA_BLOCK_IRQ = 32\<rparr>"

definition unfinished :: "th_world \<Rightarrow> bool" where
  "unfinished w \<longleftrightarrow> length (transfers w) = 26 \<and> (\<forall>t \<in> set (transfers w). finished t = 0)"

lemma silent_call: "th_call silent_kernel c w = kcall_irq silent_kernel c w"
  by (simp add: kcall_thread_def silent_kernel_def Let_def)

lemma unfinished_upd:
  assumes "unfinished w" and "flag_frame f"
  shows "unfinished (tr_upd i f w)"
proof (cases "i < length (transfers w)")
  case True
  then have "finished (f (transfers w ! i)) = 0"
    using assms unfolding unfinished_def flag_frame_def by (metis nth_mem)
  with True assms(1) show ?thesis
    by (auto simp: unfinished_def dest: set_update_subset_insert [THEN subsetD])
next
  case False
  with assms(1) show ?thesis by (simp add: unfinished_def list_update_beyond)
qed

interpretation silent_run: exit_invariant silent_kernel "th_call silent_kernel" unfinished
  by unfold_locales (simp_all add: unfinished_upd silent_call, simp_all add: unfinished_def)

lemma silent_grants: "grants_all silent_kernel"
  by (simp add: grants_all_def silent_kernel_def)

lemma silent_prepare:
  assumes "unfinished w" and "i < 26"
  shows "fst (prepare_transfer (request_dma silent_kernel (th_call silent_kernel)) silent_kernel
      (th_call silent_kernel) i w) = 0"
  using assms by (simp add: prepare_transfer_def case_prod_beta cb_call.request_dma_ok [OF silent_grants]
      cb_call.create_transfer_buffers_ok [OF silent_grants] unfinished_def)

lemma silent_setup:
  assumes "unfinished w" and "k \<le> 13"
  shows "\<exists>w'. unfinished w' \<and> th_reach silent_kernel (Setup 0, q, w) (Setup k, q, w')"
  using assms(2)
proof (induction k)
  case 0
  with assms(1) show ?case by blast
next
  case (Suc k)
  then obtain v where v: "unfinished v" "th_reach silent_kernel (Setup 0, q, w) (Setup k, q, v)" by auto
  let ?v = "tr_upd (0 + k) (thread_config silent_kernel k) v"
  have u: "unfinished ?v" by (rule unfinished_upd [OF v(1)]) (simp add: flag_frame_def thread_config_def)
  let ?p = "prepare_transfer (request_dma silent_kernel (th_call silent_kernel)) silent_kernel
      (th_call silent_kernel) (0 + k) ?v"
  have "unfinished (snd ?p)" by (rule silent_run.prepare_transfer_I [OF u])
  moreover have "th_step silent_kernel (Setup k, q, v) (Setup (Suc k), q, snd ?p)"
    using silent_prepare [OF u, of "0 + k"] Suc.prems
    by (intro th_step.first) (auto split: prod.splits)
  ultimately show ?case using v(2) by (meson rtranclp.rtrancl_into_rtrancl)
qed

lemma silent_start:
  assumes "unfinished w" and "k \<le> 13"
  shows "\<exists>w'. unfinished w' \<and> th_reach silent_kernel (Starting 0, q, w) (Starting k, q, w')"
  using assms(2)
proof (induction k)
  case 0
  with assms(1) show ?case by blast
next
  case (Suc k)
  then obtain v where v: "unfinished v" "th_reach silent_kernel (Starting 0, q, w) (Starting k, q, v)" by auto
  let ?v = "start_dma_transfer (th_call silent_kernel) (0 + k) v"
  have "unfinished ?v" by (simp add: start_dma_transfer_def silent_run.any_call_I v(1))
  moreover have "th_step silent_kernel (Starting k, q, v) (Starting (Suc k), q, ?v)"
    using Suc.prems by (intro th_step.first) simp
  ultimately show ?case using v(2) by (meson rtranclp.rtrancl_into_rtrancl)
qed

lemma unfinished_polls: "unfinished w \<Longrightarrow> thread_get_transfers_finished 0 w = 0"
  by (cases "transfers w") (auto simp: unfinished_def thread_get_transfers_finished_def)

lemma silent_poll:
  assumes "unfinished w" and "k \<le> TRANSFER_POLL_COUNT"
  shows "\<exists>w'. unfinished w' \<and> th_reach silent_kernel (Polling 0 0, q, w) (Polling k 0, q, w')"
  using assms(2)
proof (induction k)
  case 0
  with assms(1) show ?case by blast
next
  case (Suc k)
  then obtain v where v: "unfinished v" "th_reach silent_kernel (Polling 0 0, q, w) (Polling k 0, q, v)" by auto
  let ?v = "th_call silent_kernel (Mdelay TRANSFER_POLL_TIME) v"
  have "unfinished ?v" by (rule silent_run.any_call_I [OF v(1)])
  moreover have "th_step silent_kernel (Polling k 0, q, v) (Polling (Suc k) 0, q, ?v)"
    using Suc.prems unfinished_polls [OF v(1)] by (intro th_step.first) simp
  ultimately show ?case using v(2) by (meson rtranclp.rtrancl_into_rtrancl)
qed

lemma silent_timeout:
  "\<exists>w. unfinished w \<and> th_reach silent_kernel (snd (thread_module_init (th_fresh m)))
     (Polling TRANSFER_POLL_COUNT 0, Setup 0, w)"
proof -
  have "unfinished (th_fresh m)" by (simp add: unfinished_def)
  from silent_setup [OF this, of 13 "Setup 0"] obtain w1 where w1: "unfinished w1"
    "th_reach silent_kernel (Setup 0, Setup 0, th_fresh m) (Setup 13, Setup 0, w1)" by auto
  from silent_start [OF w1(1), of 13 "Setup 0"] obtain w2 where w2: "unfinished w2"
    "th_reach silent_kernel (Starting 0, Setup 0, w1) (Starting 13, Setup 0, w2)" by auto
  from silent_poll [OF w2(1), of TRANSFER_POLL_COUNT "Setup 0"] obtain w3 where w3: "unfinished w3"
    "th_reach silent_kernel (Polling 0 0, Setup 0, w2) (Polling TRANSFER_POLL_COUNT 0, Setup 0, w3)" by auto
  have "th_step silent_kernel (Setup 13, Setup 0, w1) (Starting 0, Setup 0, w1)"
    and "th_step silent_kernel (Starting 13, Setup 0, w2) (Polling 0 0, Setup 0, w2)"
    by (rule th_step.first, simp)+
  with w1(2) w2(2) w3 show ?thesis
    unfolding thread_module_init_def snd_conv
    by (meson rtranclp.rtrancl_into_rtrancl rtranclp_trans)
qed

theorem thread_timeout_passes_witness:
  "\<exists>w. unfinished w \<and> th_reach silent_kernel (snd (thread_module_init (th_fresh (\<lambda>_. 0))))
     (Count_load, Setup 0, set_test_passed 1 w)"
proof -
  obtain w where "unfinished w" and r: "th_reach silent_kernel (snd (thread_module_init (th_fresh (\<lambda>_. 0))))
     (Polling TRANSFER_POLL_COUNT 0, Setup 0, w)" using silent_timeout by blast
  with rtranclp_trans [OF r thread_timeout_passes [OF r]] show ?thesis by blast
qed

end
