(* ===== verification/Dma_Chain.thy ===== *)
theory Dma_Chain
  imports Dma_Single
begin

text \<open>
  The common module of the chained-transfer tests: \<^verbatim>\<open>dma_chain_transfer.h\<close> (the structs) and
  \<^verbatim>\<open>dma_chain_transfer.c\<close> (one definition per function). The module keeps its own verdict variable
  (\<open>test_passed\<close> of the state), the generator \<^verbatim>\<open>chained_id\<close> and the number of rounds after which
  the callback stops the chain. Fields that share their name with the single-channel structs
  carry the prefix \<open>ct_\<close> (struct \<^verbatim>\<open>dma_transfer\<close>) or \<open>dc_\<close> (struct \<^verbatim>\<open>dma_chain\<close>).
\<close>

section \<open>Data\<close>

record chained_transfer =
  ct_request_success :: int
  ct_chain_id :: int
  ct_chained_id :: int
  rounds :: int
  ct_elements_in_frame :: int
  ct_frame_count :: int
  ct_finished :: int
  ct_data_correct :: int
  ct_buffers :: dma_buffers_info

record dma_chain =
  channel_count :: int
  dc_device_id :: int
  chain_type :: int
  dc_chain_id :: int
  dc_request_success :: int
  dc_finished :: int
  dc_data_type :: int
  dc_sync_mode :: int
  dc_addressing_mode :: int
  dc_data_burst :: int
  channel_params :: omap_dma_channel_params

text \<open>The state: the chain module's static variables and the test module's chain and transfers.\<close>

record ch_world = base_world +
  chained_id :: int
  max_rounds :: int
  ct_transfers :: "chained_transfer list"
  chain :: dma_chain

definition ct_upd :: "nat \<Rightarrow> (chained_transfer \<Rightarrow> chained_transfer) \<Rightarrow> 'a ch_world_scheme
    \<Rightarrow> 'a ch_world_scheme" where
  "ct_upd i f w = w\<lparr>ct_transfers := (ct_transfers w)[i := f (ct_transfers w ! i)]\<rparr>"

definition ctb_upd :: "nat \<Rightarrow> (dma_buffers_info \<Rightarrow> dma_buffers_info) \<Rightarrow> 'a ch_world_scheme
    \<Rightarrow> 'a ch_world_scheme" where
  "ctb_upd i f w = ct_upd i (\<lambda>t. t\<lparr>ct_buffers := f (ct_buffers t)\<rparr>) w"

definition dc_upd :: "(dma_chain \<Rightarrow> dma_chain) \<Rightarrow> 'a ch_world_scheme \<Rightarrow> 'a ch_world_scheme" where
  "dc_upd f w = w\<lparr>chain := f (chain w)\<rparr>"

abbreviation ct_bufs :: "'a ch_world_scheme \<Rightarrow> nat \<Rightarrow> dma_buffers_info" where
  "ct_bufs w i \<equiv> ct_buffers (ct_transfers w ! i)"

definition zero_params :: omap_dma_channel_params where
  "zero_params = \<lparr>p_data_type = 0, p_elem_count = 0, p_frame_count = 0, p_src_amode = 0,
     p_src_start = 0, p_src_ei = 0, p_src_fi = 0, p_dst_amode = 0, p_dst_start = 0, p_dst_ei = 0,
     p_dst_fi = 0, p_trigger = 0, p_sync_mode = 0, p_ie = 0, p_burst_mode = 0\<rparr>"

definition zero_chain :: dma_chain where
  "zero_chain = \<lparr>channel_count = 0, dc_device_id = 0, chain_type = 0, dc_chain_id = 0,
     dc_request_success = 0, dc_finished = 0, dc_data_type = 0, dc_sync_mode = 0,
     dc_addressing_mode = 0, dc_data_burst = 0, channel_params = zero_params\<rparr>"

definition zero_chained :: chained_transfer where
  "zero_chained = \<lparr>ct_request_success = 0, ct_chain_id = 0, ct_chained_id = 0, rounds = 0,
     ct_elements_in_frame = 0, ct_frame_count = 0, ct_finished = 0, ct_data_correct = 0,
     ct_buffers = zero_buffers\<rparr>"

text \<open>The state before a test module is loaded: \<^verbatim>\<open>max_rounds\<close> is initialised to 1.\<close>

definition ch_fresh :: "nat \<Rightarrow> memory \<Rightarrow> ch_world" where
  "ch_fresh n m = \<lparr>trace = [], mem = m, test_passed = - 1, chained_id = 0, max_rounds = 1,
     ct_transfers = replicate n zero_chained, chain = zero_chain\<rparr>"

section \<open>The verdict and its proc entry\<close>

definition dma_read_proc_chain :: "(kcall \<Rightarrow> 'a ch_world_scheme \<Rightarrow> 'a ch_world_scheme) \<Rightarrow> nat
    \<Rightarrow> 'a ch_world_scheme \<Rightarrow> (string \<times> nat \<times> 'a ch_world_scheme) option" where
  "dma_read_proc_chain = dma_read_proc"

definition set_test_passed_chain :: "int \<Rightarrow> 'a ch_world_scheme \<Rightarrow> 'a ch_world_scheme" where
  "set_test_passed_chain passed w = w\<lparr>test_passed := passed\<rparr>"

definition create_dma_proc_chain :: "(kcall \<Rightarrow> 'a ch_world_scheme \<Rightarrow> 'a ch_world_scheme) \<Rightarrow> string
    \<Rightarrow> 'a ch_world_scheme \<Rightarrow> 'a ch_world_scheme" where
  "create_dma_proc_chain call proc_name w = call (Create_proc_read_entry proc_name) w"

definition remove_dma_proc_chain :: "(kcall \<Rightarrow> 'a ch_world_scheme \<Rightarrow> 'a ch_world_scheme) \<Rightarrow> string
    \<Rightarrow> 'a ch_world_scheme \<Rightarrow> 'a ch_world_scheme" where
  "remove_dma_proc_chain call proc_name w = call (Remove_proc_entry proc_name) w"

definition dma_chain_init :: "(kcall \<Rightarrow> 'a ch_world_scheme \<Rightarrow> 'a ch_world_scheme)
    \<Rightarrow> 'a ch_world_scheme \<Rightarrow> int \<times> 'a ch_world_scheme" where
  "dma_chain_init call w = (0, create_dma_proc_chain call PROC_FILE w)"

definition dma_chain_exit :: "(kcall \<Rightarrow> 'a ch_world_scheme \<Rightarrow> 'a ch_world_scheme)
    \<Rightarrow> 'a ch_world_scheme \<Rightarrow> 'a ch_world_scheme" where
  "dma_chain_exit call w = remove_dma_proc_chain call PROC_FILE w"

section \<open>Buffers and the callback\<close>

definition verify_buffers_chain :: "memory \<Rightarrow> dma_buffers_info \<Rightarrow> int" where
  "verify_buffers_chain m b = verify_loop m (src_buf b) (dest_buf b) (unat (buf_size b))"

definition map_to_phys_buffers_chain :: "kernel \<Rightarrow> (kcall \<Rightarrow> 'a ch_world_scheme \<Rightarrow> 'a ch_world_scheme)
    \<Rightarrow> nat \<Rightarrow> 'a ch_world_scheme \<Rightarrow> 'a ch_world_scheme" where
  "map_to_phys_buffers_chain K call i w =
     (let c = Dma_map_single (src_buf (ct_bufs w i)) (buf_size (ct_bufs w i));
          p = kcall_ret K c w;
          w = ctb_upd i (\<lambda>b. b\<lparr>src_buf_phys := word_of_int p\<rparr>) (call c w);
          c = Dma_map_single (dest_buf (ct_bufs w i)) (buf_size (ct_bufs w i));
          p = kcall_ret K c w
      in ctb_upd i (\<lambda>b. b\<lparr>dest_buf_phys := word_of_int p\<rparr>) (call c w))"

definition unmap_phys_buffers_chain :: "(kcall \<Rightarrow> 'a ch_world_scheme \<Rightarrow> 'a ch_world_scheme) \<Rightarrow> nat
    \<Rightarrow> 'a ch_world_scheme \<Rightarrow> 'a ch_world_scheme" where
  "unmap_phys_buffers_chain call i w =
     (let w1 = call (Dma_unmap_single (src_buf_phys (ct_bufs w i)) (buf_size (ct_bufs w i))) w
      in call (Dma_unmap_single (dest_buf_phys (ct_bufs w1 i)) (buf_size (ct_bufs w1 i))) w1)"

definition dma_callback_chain :: "kernel \<Rightarrow> 'a ch_world_scheme handler" where
  "dma_callback_chain K lch st i w =
     (if i < length (ct_transfers w) then
        if rounds (ct_transfers w ! i) = max_rounds w
        then kcall_irq K (Omap_stop_dma_chain_transfers (ct_chain_id (ct_transfers w ! i))) w
        else
          let w = ct_upd i (\<lambda>t. t\<lparr>rounds := rounds t + 1, ct_data_correct := 0, ct_finished := 1\<rparr>) w;
              w = unmap_phys_buffers_chain (kcall_irq K) i w
          in if status_ok K st
             then let error = verify_buffers_chain (mem w) (ct_bufs w i)
                  in if error \<noteq> 0 then ct_upd i (\<lambda>t. t\<lparr>rounds := max_rounds w\<rparr>) w
                     else ct_upd i (\<lambda>t. t\<lparr>ct_data_correct := 1\<rparr>) w
             else ct_upd i (\<lambda>t. t\<lparr>rounds := max_rounds w\<rparr>) w
      else w)"

definition create_transfer_buffers_chain :: "kernel
    \<Rightarrow> (kcall \<Rightarrow> 'a ch_world_scheme \<Rightarrow> 'a ch_world_scheme)
    \<Rightarrow> nat \<Rightarrow> 'a ch_world_scheme \<Rightarrow> int \<times> 'a ch_world_scheme" where
  "create_transfer_buffers_chain K call i w =
     (let c = Kmalloc (buf_size (ct_bufs w i));
          a = kcall_ret K c w;
          w = ctb_upd i (\<lambda>b. b\<lparr>src_buf := word_of_int a\<rparr>) (call c w);
          c = Kmalloc (buf_size (ct_bufs w i));
          a = kcall_ret K c w;
          w = ctb_upd i (\<lambda>b. b\<lparr>dest_buf := word_of_int a\<rparr>) (call c w)
      in if src_buf (ct_bufs w i) = 0 then (1, w)
         else if dest_buf (ct_bufs w i) = 0 then (1, w)
         else (0, w))"

definition fill_source_buffer_chain :: "nat \<Rightarrow> 'a ch_world_scheme \<Rightarrow> 'a ch_world_scheme" where
  "fill_source_buffer_chain i w =
     w\<lparr>mem := fill_loop (src_buf (ct_bufs w i)) (buf_size (ct_bufs w i))
                (unat (buf_size (ct_bufs w i))) (mem w)\<rparr>"

section \<open>Chains\<close>

definition request_dma_chain :: "kernel \<Rightarrow> (kcall \<Rightarrow> 'a ch_world_scheme \<Rightarrow> 'a ch_world_scheme)
    \<Rightarrow> 'a ch_world_scheme \<Rightarrow> int \<times> 'a ch_world_scheme" where
  "request_dma_chain K call w =
     (let w = dc_upd (\<lambda>c. c\<lparr>dc_finished := 0\<rparr>) w;
          w = dc_upd (\<lambda>c. c\<lparr>channel_params :=
                \<lparr>p_data_type = dc_data_type c, p_elem_count = 0, p_frame_count = 1,
                 p_src_amode = dc_addressing_mode c, p_src_start = 0, p_src_ei = 0, p_src_fi = 0,
                 p_dst_amode = dc_addressing_mode c, p_dst_start = 0, p_dst_ei = 0, p_dst_fi = 0,
                 p_trigger = dc_device_id c, p_sync_mode = dc_sync_mode c, p_ie = 0,
                 p_burst_mode = dc_data_burst c\<rparr>\<rparr>) w;
          c = Omap_request_dma_chain (dc_device_id (chain w)) (channel_count (chain w))
                (chain_type (chain w)) (channel_params (chain w));
          error = kcall_ret K c w;
          out = kcall_out K c w;
          w = call c w;
          w = (case out of None \<Rightarrow> w | Some cid \<Rightarrow> dc_upd (\<lambda>c. c\<lparr>dc_chain_id := cid\<rparr>) w)
      in if error \<noteq> 0 then (1, dc_upd (\<lambda>c. c\<lparr>dc_request_success := 0\<rparr>) w)
         else (0, dc_upd (\<lambda>c. c\<lparr>dc_request_success := 1\<rparr>) w))"

definition setup_dma_chain :: "kernel \<Rightarrow> (kcall \<Rightarrow> 'a ch_world_scheme \<Rightarrow> 'a ch_world_scheme)
    \<Rightarrow> 'a ch_world_scheme \<Rightarrow> 'a ch_world_scheme" where
  "setup_dma_chain K call w =
     call (Omap_dma_set_global_params 3 (k_const K DMA_DEFAULT_FIFO_DEPTH) 0) w"

definition start_dma_chain :: "kernel \<Rightarrow> (kcall \<Rightarrow> 'a ch_world_scheme \<Rightarrow> 'a ch_world_scheme)
    \<Rightarrow> 'a ch_world_scheme \<Rightarrow> int \<times> 'a ch_world_scheme" where
  "start_dma_chain K call w =
     (let c = Omap_start_dma_chain_transfers (dc_chain_id (chain w));
          error = kcall_ret K c w;
          w = call c w
      in if error \<noteq> 0 then (1, w) else (0, w))"

text \<open>
  The element count of a chained transfer; \<open>None\<close> is the \<^verbatim>\<open>default\<close> case, in which the function
  returns 0 without chaining anything.
\<close>

definition chain_elements :: "kernel \<Rightarrow> int \<Rightarrow> u32 \<Rightarrow> int option" where
  "chain_elements K dt sz =
     (if dt = k_const K OMAP_DMA_DATA_TYPE_S8 then Some (sint sz)
      else if dt = k_const K OMAP_DMA_DATA_TYPE_S16 then Some (sint (sz div 2))
      else if dt = k_const K OMAP_DMA_DATA_TYPE_S32 then Some (sint (sz div 4))
      else None)"

definition chain_transfer :: "kernel \<Rightarrow> (kcall \<Rightarrow> 'a ch_world_scheme \<Rightarrow> 'a ch_world_scheme)
    \<Rightarrow> nat \<Rightarrow> 'a ch_world_scheme \<Rightarrow> int \<times> 'a ch_world_scheme" where
  "chain_transfer K call i w =
     (let w = ct_upd i (\<lambda>t. t\<lparr>ct_finished := 0, ct_data_correct := 0, ct_frame_count := 1,
                ct_request_success := 0\<rparr>) w
      in case chain_elements K (dc_data_type (chain w)) (buf_size (ct_bufs w i)) of
           None \<Rightarrow> (0, w)
         | Some n \<Rightarrow>
             let w = ct_upd i (\<lambda>t. t\<lparr>ct_elements_in_frame := n\<rparr>) w;
                 w = map_to_phys_buffers_chain K call i w;
                 w = ct_upd i (\<lambda>t. t\<lparr>ct_chained_id := chained_id w\<rparr>) w;
                 w = w\<lparr>chained_id := chained_id w + 1\<rparr>;
                 w = ct_upd i (\<lambda>t. t\<lparr>ct_chain_id := dc_chain_id (chain w)\<rparr>) w;
                 t = ct_transfers w ! i;
                 c = Omap_dma_chain_a_transfer (dc_chain_id (chain w)) (src_buf_phys (ct_buffers t))
                       (dest_buf_phys (ct_buffers t)) (ct_elements_in_frame t) (ct_frame_count t) i;
                 error = kcall_ret K c w;
                 w = call c w
             in if error \<noteq> 0 then (1, w)
                else (0, ct_upd i (\<lambda>t. t\<lparr>ct_request_success := 1\<rparr>) w))"

definition stop_dma_transfer_chain :: "(kcall \<Rightarrow> 'a ch_world_scheme \<Rightarrow> 'a ch_world_scheme)
    \<Rightarrow> nat \<Rightarrow> 'a ch_world_scheme \<Rightarrow> 'a ch_world_scheme" where
  "stop_dma_transfer_chain call i w =
     (if ct_request_success (ct_transfers w ! i) = 0 then w
      else let w = call (Kfree (src_buf (ct_bufs w i))) w
           in call (Kfree (dest_buf (ct_bufs w i))) w)"

definition stop_dma_chain :: "(kcall \<Rightarrow> 'a ch_world_scheme \<Rightarrow> 'a ch_world_scheme)
    \<Rightarrow> 'a ch_world_scheme \<Rightarrow> 'a ch_world_scheme" where
  "stop_dma_chain call w =
     (if dc_request_success (chain w) \<noteq> 0 then
        let w = call (Omap_stop_dma_chain_transfers (dc_chain_id (chain w))) w
        in call (Omap_free_dma_chain (dc_chain_id (chain w))) w
      else w)"

definition set_max_rounds :: "int \<Rightarrow> 'a ch_world_scheme \<Rightarrow> 'a ch_world_scheme" where
  "set_max_rounds r w = w\<lparr>max_rounds := r\<rparr>"

section \<open>Updates\<close>

lemma ct_upd_simps [simp]:
  "ct_transfers (ct_upd i f w) = (ct_transfers w)[i := f (ct_transfers w ! i)]"
  "trace (ct_upd i f w) = trace w" "mem (ct_upd i f w) = mem w"
  "test_passed (ct_upd i f w) = test_passed w" "chain (ct_upd i f w) = chain w"
  "chained_id (ct_upd i f w) = chained_id w" "max_rounds (ct_upd i f w) = max_rounds w"
  by (simp_all add: ct_upd_def)

lemma dc_upd_simps [simp]:
  "ct_transfers (dc_upd f w) = ct_transfers w" "trace (dc_upd f w) = trace w" "mem (dc_upd f w) = mem w"
  "test_passed (dc_upd f w) = test_passed w" "chain (dc_upd f w) = f (chain w)"
  "chained_id (dc_upd f w) = chained_id w" "max_rounds (dc_upd f w) = max_rounds w"
  by (simp_all add: dc_upd_def)

lemma ch_log_simps [simp]:
  "ct_transfers (log_ev e w) = ct_transfers w" "chain (log_ev e w) = chain w"
  "chained_id (log_ev e w) = chained_id w" "max_rounds (log_ev e w) = max_rounds w"
  by (simp_all add: log_ev_def)

lemma ch_irq_simps [simp]:
  "ct_transfers (kcall_irq K c w) = ct_transfers w" "chain (kcall_irq K c w) = chain w"
  "chained_id (kcall_irq K c w) = chained_id w" "max_rounds (kcall_irq K c w) = max_rounds w"
  by (simp_all add: kcall_irq_def)

lemma ch_passed_simps [simp]:
  "ct_transfers (set_test_passed_chain p w) = ct_transfers w" "chain (set_test_passed_chain p w) = chain w"
  "trace (set_test_passed_chain p w) = trace w" "mem (set_test_passed_chain p w) = mem w"
  "test_passed (set_test_passed_chain p w) = p" "max_rounds (set_test_passed_chain p w) = max_rounds w"
  "chained_id (set_test_passed_chain p w) = chained_id w"
  by (simp_all add: set_test_passed_chain_def)

lemma ch_fill_simps [simp]:
  "ct_transfers (fill_source_buffer_chain i w) = ct_transfers w"
  "chain (fill_source_buffer_chain i w) = chain w" "trace (fill_source_buffer_chain i w) = trace w"
  "max_rounds (fill_source_buffer_chain i w) = max_rounds w"
  "test_passed (fill_source_buffer_chain i w) = test_passed w"
  by (simp_all add: fill_source_buffer_chain_def)

lemma ch_unmap_simps [simp]:
  "ct_transfers (unmap_phys_buffers_chain (kcall_irq K) i w) = ct_transfers w"
  "chain (unmap_phys_buffers_chain (kcall_irq K) i w) = chain w"
  "mem (unmap_phys_buffers_chain (kcall_irq K) i w) = mem w"
  "max_rounds (unmap_phys_buffers_chain (kcall_irq K) i w) = max_rounds w"
  "chained_id (unmap_phys_buffers_chain (kcall_irq K) i w) = chained_id w"
  "test_passed (unmap_phys_buffers_chain (kcall_irq K) i w) = test_passed w"
  "irq_ids (trace (unmap_phys_buffers_chain (kcall_irq K) i w)) = irq_ids (trace w)"
  by (simp_all add: unmap_phys_buffers_chain_def Let_def)

lemma verify_buffers_chain_spec:
  "verify_buffers_chain m b =
     (if bytes_equal m (src_buf b) (dest_buf b) (unat (buf_size b)) then 0 else 1)"
  by (simp add: verify_buffers_chain_def verify_loop_spec)

section \<open>What the callback does\<close>

text \<open>A round of transfer \<open>b\<close> seen with status \<open>st\<close> and memory \<open>m\<close> was good.\<close>

definition round_good :: "kernel \<Rightarrow> dma_buffers_info \<Rightarrow> u16 \<Rightarrow> memory \<Rightarrow> bool" where
  "round_good K b st m \<longleftrightarrow> status_ok K st \<and> bytes_equal m (src_buf b) (dest_buf b) (unat (buf_size b))"

lemma dma_callback_chain_transfers:
  "ct_transfers (dma_callback_chain K lch st i w) =
     (if rounds (ct_transfers w ! i) = max_rounds w then ct_transfers w
      else (ct_transfers w)[i := (ct_transfers w ! i)\<lparr>
        rounds := (if round_good K (ct_bufs w i) st (mem w) then rounds (ct_transfers w ! i) + 1 else max_rounds w),
        ct_data_correct := (if round_good K (ct_bufs w i) st (mem w) then 1 else 0), ct_finished := 1\<rparr>])"
proof (cases "i < length (ct_transfers w)")
  case True
  have c: "t\<lparr>rounds := x, ct_data_correct := y, ct_finished := z\<rparr>\<lparr>ct_data_correct := u\<rparr> =
      t\<lparr>rounds := x, ct_data_correct := u, ct_finished := z\<rparr>"
    "t\<lparr>rounds := x, ct_data_correct := y, ct_finished := z\<rparr>\<lparr>rounds := v\<rparr> =
      t\<lparr>rounds := v, ct_data_correct := y, ct_finished := z\<rparr>" for t :: chained_transfer and x y z u v
    by (cases t; simp)+
  from True show ?thesis
    by (auto simp: dma_callback_chain_def Let_def verify_buffers_chain_spec round_good_def c)
next
  case False
  then show ?thesis by (simp add: dma_callback_chain_def list_update_beyond)
qed

lemma dma_callback_chain_frame [simp]:
  "chain (dma_callback_chain K lch st i w) = chain w"
  "max_rounds (dma_callback_chain K lch st i w) = max_rounds w"
  "chained_id (dma_callback_chain K lch st i w) = chained_id w"
  "test_passed (dma_callback_chain K lch st i w) = test_passed w"
  "mem (dma_callback_chain K lch st i w) = mem w"
  "irq_ids (trace (dma_callback_chain K lch st i w)) = irq_ids (trace w)"
  by (simp_all add: dma_callback_chain_def Let_def)

section \<open>Invariants under interrupts\<close>

text \<open>No transfer counts beyond the maximum.\<close>

definition rounds_ok :: "'a ch_world_scheme \<Rightarrow> bool" where
  "rounds_ok w \<longleftrightarrow> (\<forall>t \<in> set (ct_transfers w). 0 \<le> rounds t \<and> rounds t \<le> max_rounds w)"

text \<open>Some interrupt of transfer \<open>i\<close> found its buffers equal, with an acceptable status.\<close>

fun good_round :: "kernel \<Rightarrow> dma_buffers_info \<Rightarrow> nat \<Rightarrow> history \<Rightarrow> bool" where
  "good_round K b i [] = False"
| "good_round K b i (Called c r out # h) = good_round K b i h"
| "good_round K b i (Interrupt lch st d m # h) = (d = i \<and> round_good K b st m \<or> good_round K b i h)"

definition chain_backed :: "kernel \<Rightarrow> 'a ch_world_scheme \<Rightarrow> bool" where
  "chain_backed K w \<longleftrightarrow> (\<forall>i < length (ct_transfers w).
     ct_data_correct (ct_transfers w ! i) \<noteq> 0 \<longrightarrow> good_round K (ct_bufs w i) i (trace w))"

lemma good_round_frame [simp]:
  "good_round K b j (trace (unmap_phys_buffers_chain (kcall_irq K) i w)) = good_round K b j (trace w)"
  "good_round K b j (trace (dma_callback_chain K lch st i w)) = good_round K b j (trace w)"
  by (simp_all add: dma_callback_chain_def unmap_phys_buffers_chain_def Let_def)

lemma rounds_ok_handler:
  assumes "rounds_ok w"
  shows "rounds_ok (dma_callback_chain K lch st d (log_ev e w))"
proof (cases "d < length (ct_transfers w) \<and> rounds (ct_transfers w ! d) \<noteq> max_rounds w")
  case True
  then have "ct_transfers w ! d \<in> set (ct_transfers w)" by simp
  with assms True have "0 \<le> rounds (ct_transfers w ! d)" "rounds (ct_transfers w ! d) < max_rounds w"
    unfolding rounds_ok_def by fastforce+
  then have "0 \<le> rounds t \<and> rounds t \<le> max_rounds w"
    if "rounds t = max_rounds w \<or> rounds t = rounds (ct_transfers w ! d) + 1" for t using that by auto
  moreover have "x = t \<or> x \<in> set (ct_transfers w)" if "x \<in> set ((ct_transfers w)[d := t])" for x t
    using that set_update_subset_insert [of "ct_transfers w" d t] by blast
  ultimately have upd: "\<forall>x \<in> set ((ct_transfers w)[d := t]). 0 \<le> rounds x \<and> rounds x \<le> max_rounds w"
    if "rounds t = max_rounds w \<or> rounds t = rounds (ct_transfers w ! d) + 1" for t
    using that assms unfolding rounds_ok_def by metis
  from True show ?thesis
    by (simp add: rounds_ok_def dma_callback_chain_transfers) (intro conjI impI upd; simp)
next
  case False
  with assms show ?thesis
    by (auto simp: rounds_ok_def dma_callback_chain_transfers list_update_beyond)
qed

lemma chain_backed_handler:
  assumes "chain_backed K w"
  shows "chain_backed K (dma_callback_chain K lch st d (log_ev (Interrupt lch st d (mem w)) w))"
proof (cases "d < length (ct_transfers w)")
  case True
  with assms show ?thesis
    by (auto simp: chain_backed_def dma_callback_chain_transfers nth_list_update)
next
  case False
  with assms show ?thesis
    by (auto simp: chain_backed_def dma_callback_chain_transfers list_update_beyond)
qed

interpretation chain_cb_rounds: irq_invariant "dma_callback_chain K :: 'a ch_world_scheme handler" rounds_ok for K
  by unfold_locales (simp_all add: rounds_ok_handler, simp add: rounds_ok_def)

interpretation chain_cb_backed: irq_invariant "dma_callback_chain K :: 'a ch_world_scheme handler"
  "chain_backed K" for K
  by unfold_locales (simp_all add: chain_backed_handler, simp add: chain_backed_def)

section \<open>What callbacks leave alone\<close>

text \<open>Requests of chain \<open>id\<close> that succeeded, less the times it was freed.\<close>

definition chain_ev :: "int \<Rightarrow> tev \<Rightarrow> int" where
  "chain_ev cid e = (case e of
     Called (Omap_request_dma_chain dev n ty ps) r out \<Rightarrow> if r = 0 \<and> out = Some cid then 1 else 0
   | Called (Omap_free_dma_chain c) r out \<Rightarrow> if c = cid then - 1 else 0
   | _ \<Rightarrow> 0)"

definition chain_balance :: "history \<Rightarrow> int \<Rightarrow> int" where
  "chain_balance h cid = sum_list (map (chain_ev cid) h)"

lemma chain_balance_simps [simp]:
  "chain_balance [] cid = 0" "chain_balance (e # h) cid = chain_ev cid e + chain_balance h cid"
  by (simp_all add: chain_balance_def)

fun chain_neutral :: "kcall \<Rightarrow> bool" where
  "chain_neutral (Omap_request_dma_chain dev n ty ps) = False"
| "chain_neutral (Omap_free_dma_chain cid) = False"
| "chain_neutral c = True"

lemma chain_ev_simps [simp]:
  "chain_neutral c \<Longrightarrow> chain_ev cid (Called c r out) = 0"
  "chain_ev cid (Interrupt lch st d m) = 0"
  "chain_ev cid (Called (Omap_request_dma_chain dev n ty ps) r out) = (if r = 0 \<and> out = Some cid then 1 else 0)"
  "chain_ev cid (Called (Omap_free_dma_chain c') r out) = (if c' = cid then - 1 else 0)"
  by (cases c; simp add: chain_ev_def) (simp_all add: chain_ev_def)

text \<open>The part of a transfer that callbacks never write.\<close>

definition ct_strip :: "chained_transfer \<Rightarrow> chained_transfer" where
  "ct_strip t = t\<lparr>rounds := 0, ct_finished := 0, ct_data_correct := 0\<rparr>"

lemma ct_strip_simps [simp]:
  "ct_request_success (ct_strip t) = ct_request_success t" "ct_buffers (ct_strip t) = ct_buffers t"
  "ct_chain_id (ct_strip t) = ct_chain_id t"
  by (simp_all add: ct_strip_def)

definition ch_view :: "'a ch_world_scheme \<Rightarrow> chained_transfer list \<times> dma_chain \<times> int \<times> int \<times>
    (int \<Rightarrow> int) \<times> (u32 \<Rightarrow> int) \<times> int" where
  "ch_view w = (map ct_strip (ct_transfers w), chain w, max_rounds w, chained_id w,
     chain_balance (trace w), alloc_balance (trace w), test_passed w)"

lemma ch_view_handler:
  "ch_view (dma_callback_chain K lch st d (log_ev (Interrupt lch st d m) w)) = ch_view w"
proof -
  have "map ct_strip (ct_transfers (dma_callback_chain K lch st d (log_ev (Interrupt lch st d m) w))) =
      map ct_strip (ct_transfers w)"
  proof (rule nth_equalityI)
    fix j
    assume "j < length (map ct_strip (ct_transfers (dma_callback_chain K lch st d (log_ev (Interrupt lch st d m) w))))"
    then show "map ct_strip (ct_transfers (dma_callback_chain K lch st d (log_ev (Interrupt lch st d m) w))) ! j =
        map ct_strip (ct_transfers w) ! j"
      by (cases "j = d") (auto simp: dma_callback_chain_transfers ct_strip_def split: if_splits)
  qed (simp add: dma_callback_chain_transfers)
  moreover have "chain_balance (trace (dma_callback_chain K lch st d (log_ev (Interrupt lch st d m) w))) = chain_balance (trace w)"
    "alloc_balance (trace (dma_callback_chain K lch st d (log_ev (Interrupt lch st d m) w))) = alloc_balance (trace w)"
    by (simp_all add: fun_eq_iff dma_callback_chain_def unmap_phys_buffers_chain_def Let_def)
  ultimately show ?thesis by (simp add: ch_view_def)
qed

interpretation chain_cb: irq_frame "dma_callback_chain K :: 'a ch_world_scheme handler" ch_view for K
  by unfold_locales (simp_all add: ch_view_handler, simp add: ch_view_def)

text \<open>The two calling conventions agree on that view.\<close>

locale ch_caller =
  fixes K :: kernel
    and call :: "kcall \<Rightarrow> 'a ch_world_scheme \<Rightarrow> 'a ch_world_scheme"
  assumes call_view: "ch_view (call c w) = ch_view (kcall_irq K c w)"
begin

lemma call_strip: "map ct_strip (ct_transfers (call c w)) = map ct_strip (ct_transfers w)"
  using call_view[of c w] by (simp add: ch_view_def)

lemma call_length [simp]: "length (ct_transfers (call c w)) = length (ct_transfers w)"
  using call_strip[of c w] by (metis length_map)

lemma call_fields [simp]:
  assumes "i < length (ct_transfers w)"
  shows "ct_request_success (ct_transfers (call c w) ! i) = ct_request_success (ct_transfers w ! i)"
    "ct_bufs (call c w) i = ct_bufs w i"
proof -
  have "ct_strip (ct_transfers (call c w) ! i) = ct_strip (ct_transfers w ! i)"
    using call_strip[of c w] assms by (metis call_length nth_map)
  then show "ct_request_success (ct_transfers (call c w) ! i) = ct_request_success (ct_transfers w ! i)"
    and "ct_bufs (call c w) i = ct_bufs w i"
    by (metis ct_strip_simps)+
qed

lemma call_state [simp]:
  "chain (call c w) = chain w" "max_rounds (call c w) = max_rounds w"
  "chained_id (call c w) = chained_id w" "test_passed (call c w) = test_passed w"
  using call_view[of c w] by (simp_all add: ch_view_def)

lemma call_balance [simp]:
  "chain_balance (trace (call c w)) cid =
     chain_ev cid (Called c (kcall_ret K c w) (kcall_out K c w)) + chain_balance (trace w) cid"
  "alloc_balance (trace (call c w)) a =
     alloc_ev a (Called c (kcall_ret K c w) (kcall_out K c w)) + alloc_balance (trace w) a"
  using call_view[of c w] by (simp_all add: ch_view_def fun_eq_iff)

end

interpretation chain_irq: ch_caller K "kcall_irq K" for K
  by unfold_locales simp

interpretation chain_call: ch_caller K "kcall_thread K (dma_callback_chain K)" for K
  by unfold_locales (rule chain_cb.kcall_thread_view)

end
