(* ===== verification/Dma_Chain_Static.thy ===== *)
theory Dma_Chain_Static
  imports Dma_Chain Dma_Single_Modules
begin

text \<open>
  The tests of static chains: \<^verbatim>\<open>dma_chain_static.c\<close> and its variants that free the chain while it is
  being built (\<^verbatim>\<open>dma_chain_static_break.c\<close>), ask for more channels than there are
  (\<^verbatim>\<open>dma_chain_static_invalid.c\<close>) and unlink a channel of another chain
  (\<^verbatim>\<open>dma_chain_static_removed.c\<close>).
\<close>

section \<open>The common shape\<close>

definition TRANSFER_ROUNDS :: int where
  "TRANSFER_ROUNDS = 5"

text \<open>The check stops at the first transfer whose data is wrong.\<close>

fun chain_data_error :: "chained_transfer list \<Rightarrow> int" where
  "chain_data_error [] = 0"
| "chain_data_error (t # ts) = (if ct_data_correct t = 0 then 1 else chain_data_error ts)"

definition chain_check_test_passed :: "nat \<Rightarrow> 'a ch_world_scheme \<Rightarrow> 'a ch_world_scheme" where
  "chain_check_test_passed n w =
     (let error = chain_data_error (take n (ct_transfers w))
      in if error = 0 then set_test_passed_chain 1 w else set_test_passed_chain 0 w)"

text \<open>The chain counts as finished as soon as one transfer has reached the number of rounds.\<close>

fun rounds_loop :: "chained_transfer list \<Rightarrow> int" where
  "rounds_loop [] = 0"
| "rounds_loop (t # ts) = (if rounds t = TRANSFER_ROUNDS then 1 else rounds_loop ts)"

definition chain_get_transfers_finished :: "nat \<Rightarrow> 'a ch_world_scheme \<Rightarrow> int" where
  "chain_get_transfers_finished n w = rounds_loop (take n (ct_transfers w))"

definition static_config :: "kernel \<Rightarrow> int \<Rightarrow> 'a ch_world_scheme \<Rightarrow> 'a ch_world_scheme" where
  "static_config K n w = set_max_rounds TRANSFER_ROUNDS (dc_upd (\<lambda>c. c\<lparr>
     chain_type := k_const K OMAP_DMA_STATIC_CHAIN,
     dc_device_id := k_const K OMAP_DMA_NO_DEVICE,
     dc_data_type := k_const K OMAP_DMA_DATA_TYPE_S8,
     dc_addressing_mode := k_const K OMAP_DMA_AMODE_POST_INC,
     dc_sync_mode := k_const K OMAP_DMA_SYNC_ELEMENT,
     dc_data_burst := k_const K OMAP_DMA_DATA_BURST_DIS,
     channel_count := n\<rparr>) w)"

text \<open>
  The body of the loop that builds the chain; \<open>between\<close> is what the module does between allocating
  and filling the buffers.
\<close>

definition chain_add :: "kernel \<Rightarrow> (kcall \<Rightarrow> 'a ch_world_scheme \<Rightarrow> 'a ch_world_scheme) \<Rightarrow> u32
    \<Rightarrow> (nat \<Rightarrow> 'a ch_world_scheme \<Rightarrow> 'a ch_world_scheme) \<Rightarrow> nat \<Rightarrow> 'a ch_world_scheme
    \<Rightarrow> int \<times> 'a ch_world_scheme" where
  "chain_add K call sz between i w =
     (let w = ctb_upd i (\<lambda>b. b\<lparr>buf_size := sz\<rparr>) w
      in case create_transfer_buffers_chain K call i w of (error, w) \<Rightarrow>
        if error \<noteq> 0 then (1, set_test_passed_chain 0 w)
        else let w = fill_source_buffer_chain i (between i w)
          in case chain_transfer K call i w of (error, w) \<Rightarrow>
            if error \<noteq> 0 then (1, set_test_passed_chain 0 w) else (0, w))"

definition chain_poll :: "(kcall \<Rightarrow> 'a ch_world_scheme \<Rightarrow> 'a ch_world_scheme)
    \<Rightarrow> ('a ch_world_scheme \<Rightarrow> int) \<Rightarrow> ('a ch_world_scheme \<Rightarrow> 'a ch_world_scheme)
    \<Rightarrow> 'a ch_world_scheme \<Rightarrow> int \<times> 'a ch_world_scheme" where
  "chain_poll call finished_test check w =
     (case poll_loop (\<lambda>w. finished_test w \<noteq> 0) (call (Mdelay TRANSFER_POLL_TIME)) check
             TRANSFER_POLL_COUNT w of
        (left_by_break, w) \<Rightarrow>
          if \<not> left_by_break then (1, set_test_passed_chain 0 w) else (0, w))"

text \<open>
  Request the chain, do \<open>prelude\<close>, build the chain with \<open>add\<close>, set it up, start it and poll. The
  result of the start call is ignored. The result 2 of \<open>add\<close> stands for a \<^verbatim>\<open>return 0\<close> out of the
  loop.
\<close>

definition static_run :: "kernel \<Rightarrow> (kcall \<Rightarrow> 'a ch_world_scheme \<Rightarrow> 'a ch_world_scheme) \<Rightarrow> int
    \<Rightarrow> ('a ch_world_scheme \<Rightarrow> 'a ch_world_scheme)
    \<Rightarrow> (nat \<Rightarrow> 'a ch_world_scheme \<Rightarrow> int \<times> 'a ch_world_scheme)
    \<Rightarrow> ('a ch_world_scheme \<Rightarrow> int) \<Rightarrow> ('a ch_world_scheme \<Rightarrow> 'a ch_world_scheme)
    \<Rightarrow> 'a ch_world_scheme \<Rightarrow> int \<times> 'a ch_world_scheme" where
  "static_run K call n prelude add finished_test check w =
     (case request_dma_chain K call (static_config K n w) of (error, w) \<Rightarrow>
        if error \<noteq> 0 then (1, set_test_passed_chain 0 w)
        else let w = prelude w
          in case for_or_fail add 0 (nat (channel_count (chain w))) w of (error, w) \<Rightarrow>
            if error = 2 then (0, w) else if error \<noteq> 0 then (1, w)
            else let w = setup_dma_chain K call w;
                     w = snd (start_dma_chain K call w)
                 in chain_poll call finished_test check w)"

text \<open>The exit functions stop and free a chain that was requested, then free the buffers.\<close>

definition chain_give_back :: "kernel \<Rightarrow> (kcall \<Rightarrow> 'a ch_world_scheme \<Rightarrow> 'a ch_world_scheme)
    \<Rightarrow> 'a ch_world_scheme \<Rightarrow> 'a ch_world_scheme" where
  "chain_give_back K call w =
     (if dc_request_success (chain w) \<noteq> 0 then
        let c = Omap_stop_dma_chain_transfers (dc_chain_id (chain w));
            ret = kcall_ret K c w;
            w = call c w;
            w = (if ret \<noteq> 0 then set_test_passed_chain 0 w else w);
            c = Omap_free_dma_chain (dc_chain_id (chain w));
            ret = kcall_ret K c w;
            w = call c w
        in if ret \<noteq> 0 then set_test_passed_chain 0 w else w
      else w)"

definition chain_module_exit :: "kernel \<Rightarrow> (kcall \<Rightarrow> 'a ch_world_scheme \<Rightarrow> 'a ch_world_scheme)
    \<Rightarrow> 'a ch_world_scheme \<Rightarrow> 'a ch_world_scheme" where
  "chain_module_exit K call w =
     (let w = chain_give_back K call w
      in for_each (stop_dma_transfer_chain call) 0 (nat (channel_count (chain w))) w)"

abbreviation chain_kcall :: "kernel \<Rightarrow> kcall \<Rightarrow> 'a ch_world_scheme \<Rightarrow> 'a ch_world_scheme" where
  "chain_kcall K \<equiv> kcall_thread K (dma_callback_chain K)"

section \<open>The four modules\<close>

definition static_check_test_passed :: "ch_world \<Rightarrow> ch_world" where
  "static_check_test_passed = chain_check_test_passed 4"

definition static_get_transfers_finished :: "ch_world \<Rightarrow> int" where
  "static_get_transfers_finished = chain_get_transfers_finished 4"

definition static_module_init :: "kernel \<Rightarrow> ch_world \<Rightarrow> int \<times> ch_world" where
  "static_module_init K w =
     static_run K (chain_kcall K) 4 (\<lambda>w. w) (chain_add K (chain_kcall K) (1024 * 16) (\<lambda>i w. w))
       static_get_transfers_finished static_check_test_passed w"

definition static_module_exit :: "kernel \<Rightarrow> ch_world \<Rightarrow> ch_world" where
  "static_module_exit K = chain_module_exit K (chain_kcall K)"

definition static_break_check_test_passed :: "ch_world \<Rightarrow> ch_world" where
  "static_break_check_test_passed = chain_check_test_passed 4"

definition static_break_get_transfers_finished :: "ch_world \<Rightarrow> int" where
  "static_break_get_transfers_finished = chain_get_transfers_finished 4"

definition static_break_add :: "kernel \<Rightarrow> nat \<Rightarrow> ch_world \<Rightarrow> int \<times> ch_world" where
  "static_break_add K i w =
     (if i = 3 then
        let w = chain_kcall K (Omap_free_dma_chain (dc_chain_id (chain w))) w;
            w = chain_kcall K (Omap_stop_dma_chain_transfers (dc_chain_id (chain w))) w
        in (2, set_test_passed_chain 0 w)
      else chain_add K (chain_kcall K) (1024 * 1024) (\<lambda>i w. w) i w)"

definition static_break_module_init :: "kernel \<Rightarrow> ch_world \<Rightarrow> int \<times> ch_world" where
  "static_break_module_init K w =
     static_run K (chain_kcall K) 4 (\<lambda>w. w) (static_break_add K)
       static_break_get_transfers_finished static_break_check_test_passed w"

definition static_break_module_exit :: "kernel \<Rightarrow> ch_world \<Rightarrow> ch_world" where
  "static_break_module_exit K = chain_module_exit K (chain_kcall K)"

definition static_invalid_check_test_passed :: "ch_world \<Rightarrow> ch_world" where
  "static_invalid_check_test_passed = chain_check_test_passed 25"

definition static_invalid_get_transfers_finished :: "ch_world \<Rightarrow> int" where
  "static_invalid_get_transfers_finished = chain_get_transfers_finished 25"

definition static_invalid_module_init :: "kernel \<Rightarrow> ch_world \<Rightarrow> int \<times> ch_world" where
  "static_invalid_module_init K w =
     static_run K (chain_kcall K) 25 (\<lambda>w. w) (chain_add K (chain_kcall K) (1024 * 1024) (\<lambda>i w. w))
       static_invalid_get_transfers_finished static_invalid_check_test_passed w"

definition static_invalid_module_exit :: "kernel \<Rightarrow> ch_world \<Rightarrow> ch_world" where
  "static_invalid_module_exit K = chain_module_exit K (chain_kcall K)"

definition static_removed_check_test_passed :: "ch_world \<Rightarrow> ch_world" where
  "static_removed_check_test_passed = chain_check_test_passed 4"

definition static_removed_get_transfers_finished :: "ch_world \<Rightarrow> int" where
  "static_removed_get_transfers_finished = chain_get_transfers_finished 4"

text \<open>The link is made from the (still zero) chain id of transfer 0, and removed at transfer 3.\<close>

definition static_removed_link :: "kernel \<Rightarrow> ch_world \<Rightarrow> ch_world" where
  "static_removed_link K w =
     chain_kcall K (Omap_dma_link_lch (ct_chain_id (ct_transfers w ! 0) + 2) (dc_chain_id (chain w))) w"

definition static_removed_unlink :: "kernel \<Rightarrow> nat \<Rightarrow> ch_world \<Rightarrow> ch_world" where
  "static_removed_unlink K i w =
     (if i = 3 then
        set_test_passed_chain 0
          (chain_kcall K (Omap_dma_unlink_lch (ct_chain_id (ct_transfers w ! i) + 2) (dc_chain_id (chain w))) w)
      else w)"

definition static_removed_module_init :: "kernel \<Rightarrow> ch_world \<Rightarrow> int \<times> ch_world" where
  "static_removed_module_init K w =
     static_run K (chain_kcall K) 4 (static_removed_link K)
       (chain_add K (chain_kcall K) (1024 * 1024) (static_removed_unlink K))
       static_removed_get_transfers_finished static_removed_check_test_passed w"

definition static_removed_module_exit :: "kernel \<Rightarrow> ch_world \<Rightarrow> ch_world" where
  "static_removed_module_exit K = chain_module_exit K (chain_kcall K)"

section \<open>Invariants of a run\<close>

fun is_chain_start :: "kcall \<Rightarrow> bool" where
  "is_chain_start (Omap_start_dma_chain_transfers cid) = True"
| "is_chain_start c = False"

fun chain_started :: "history \<Rightarrow> bool" where
  "chain_started [] = False"
| "chain_started (Called c r out # h) = (is_chain_start c \<or> chain_started h)"
| "chain_started (Interrupt lch st d m # h) = chain_started h"

text \<open>A documented law of the DMA driver: no chain callback is run before a chain is started.\<close>

definition irq_after_chain_start :: "kernel \<Rightarrow> bool" where
  "irq_after_chain_start K \<longleftrightarrow> (\<forall>h. \<not> chain_started h \<longrightarrow> no_irq (k_events K h))"

text \<open>An assignment to a transfer that raises none of its flags.\<close>

definition ct_frame :: "(chained_transfer \<Rightarrow> chained_transfer) \<Rightarrow> bool" where
  "ct_frame f \<longleftrightarrow> (\<forall>t. rounds (f t) = rounds t \<and>
     (ct_data_correct (f t) = ct_data_correct t \<or> ct_data_correct (f t) = 0) \<and>
     (ct_finished (f t) = ct_finished t \<or> ct_finished (f t) = 0) \<and>
     ct_request_success (f t) \<in> {ct_request_success t, 0, 1})"

text \<open>A call that hands no transfers to the driver but those in \<open>X\<close>.\<close>

fun chains_only :: "(nat \<Rightarrow> bool) \<Rightarrow> kcall \<Rightarrow> bool" where
  "chains_only X (Omap_dma_chain_a_transfer cid s d n f i) = X i"
| "chains_only X c = True"

text \<open>An invariant of the phase in which a chain is built from the transfers in \<open>X\<close>.\<close>

locale chain_setup =
  fixes K :: kernel
    and call :: "kcall \<Rightarrow> 'a ch_world_scheme \<Rightarrow> 'a ch_world_scheme"
    and X :: "nat \<Rightarrow> bool"
    and I :: "'a ch_world_scheme \<Rightarrow> bool"
  assumes call_I: "\<not> is_chain_start c \<Longrightarrow> chains_only X c \<Longrightarrow> I w \<Longrightarrow> I (call c w)"
    and upd_I: "I w \<Longrightarrow> ct_frame f \<Longrightarrow> I (ct_upd i f w)"
    and chain_I: "I w \<Longrightarrow> I (dc_upd g w)"
    and id_I: "I w \<Longrightarrow> I (w\<lparr>chained_id := x\<rparr>)"
    and mem_I: "I w \<Longrightarrow> I (w\<lparr>mem := m\<rparr>)"
    and passed_I: "I w \<Longrightarrow> I (set_test_passed_chain p w)"
begin

lemma bufs_I: "I w \<Longrightarrow> I (ctb_upd i f w)"
  by (simp add: ctb_upd_def upd_I ct_frame_def)

lemma request_dma_chain_I: "I w \<Longrightarrow> I (snd (request_dma_chain K call w))"
  by (simp add: request_dma_chain_def Let_def chain_I call_I split: option.splits)

lemma create_I: "I w \<Longrightarrow> I (snd (create_transfer_buffers_chain K call i w))"
  by (simp add: create_transfer_buffers_chain_def Let_def bufs_I call_I)

lemma fill_I: "I w \<Longrightarrow> I (fill_source_buffer_chain i w)"
  by (simp add: fill_source_buffer_chain_def mem_I)

lemma map_I: "I w \<Longrightarrow> I (map_to_phys_buffers_chain K call i w)"
  by (simp add: map_to_phys_buffers_chain_def Let_def bufs_I call_I)

lemma chain_transfer_I: "X i \<Longrightarrow> I w \<Longrightarrow> I (snd (chain_transfer K call i w))"
  by (auto simp: chain_transfer_def Let_def upd_I ct_frame_def map_I id_I call_I split: option.splits)

lemma chain_add_I:
  assumes "X i" and "\<And>i w. I w \<Longrightarrow> I (between i w)" and "I w"
  shows "I (snd (chain_add K call sz between i w))"
  using assms by (simp add: chain_add_def Let_def case_prod_beta passed_I chain_transfer_I fill_I
      create_I bufs_I)

lemma setup_I: "I w \<Longrightarrow> I (setup_dma_chain K call w)"
  by (simp add: setup_dma_chain_def call_I)

lemma static_run_keeps:
  assumes "I (static_config K n w)"
    and prelude: "\<And>w. I w \<Longrightarrow> I (prelude w)"
    and add: "\<And>i w. I w \<Longrightarrow> I (snd (add i w))"
    and calls: "\<And>c w. I w \<Longrightarrow> I (call c w)" and check: "\<And>w. I w \<Longrightarrow> I (check w)"
  shows "I (snd (static_run K call n prelude add fin check w))"
proof -
  have f: "I (snd (for_or_fail add i k v))" if "I v" for i k v
    using that by (induction k arbitrary: i v) (simp_all add: case_prod_beta add)
  have p: "I (snd (chain_poll call fin check v))" if "I v" for v
    using that calls check poll_loop_keeps [where P = I and wait = "call (Mdelay TRANSFER_POLL_TIME)"
        and check = check and finished = "\<lambda>w. fin w \<noteq> 0" and k = TRANSFER_POLL_COUNT and w = v]
    by (simp add: chain_poll_def case_prod_beta passed_I)
  show ?thesis
    using request_dma_chain_I [OF assms(1)]
    by (simp add: static_run_def case_prod_beta Let_def passed_I f prelude p setup_I calls start_dma_chain_def)
qed

lemma static_run_inv:
  assumes "I (static_config K n w)"
    and prelude: "\<And>w. I w \<Longrightarrow> I (prelude w)"
    and add: "\<And>i w. I w \<Longrightarrow> I (snd (add i w))"
    and fail: "\<And>i w. fst (add i w) \<noteq> 0 \<Longrightarrow> test_passed (snd (add i w)) = 0"
    and start: "\<And>w. I w \<Longrightarrow> J w" and calls: "\<And>c w. J w \<Longrightarrow> J (call c w)"
    and check: "\<And>w. J w \<Longrightarrow> fin w \<noteq> 0 \<Longrightarrow> Q (check (call (Mdelay TRANSFER_POLL_TIME) w))"
    and run: "static_run K call n prelude add fin check w = (r, w')"
  shows "r = 0 \<and> Q w' \<or> test_passed w' = 0"
proof -
  obtain e1 w1 where q: "request_dma_chain K call (static_config K n w) = (e1, w1)" by fastforce
  have I1: "I w1" using request_dma_chain_I [OF assms(1)] q by simp
  let ?k = "nat (channel_count (chain (prelude w1)))"
  obtain e2 w2 where f: "for_or_fail add 0 ?k (prelude w1) = (e2, w2)" by fastforce
  have "if fst (for_or_fail add 0 ?k (prelude w1)) = 0 then I (snd (for_or_fail add 0 ?k (prelude w1)))
      else test_passed (snd (for_or_fail add 0 ?k (prelude w1))) = 0"
    by (rule for_or_fail_inv [where P = "\<lambda>_. I"]) (simp_all add: add fail prelude I1)
  then have f2: "if e2 = 0 then I w2 else test_passed w2 = 0"
    unfolding f fst_conv snd_conv .
  show ?thesis
  proof (cases "e1 = 0 \<and> e2 = 0")
    case True
    let ?w = "snd (start_dma_chain K call (setup_dma_chain K call w2))"
    have "J ?w" using f2 True start calls by (simp add: setup_dma_chain_def start_dma_chain_def Let_def)
    then have "if fst (poll_loop (\<lambda>w. fin w \<noteq> 0) (call (Mdelay TRANSFER_POLL_TIME)) check TRANSFER_POLL_COUNT ?w)
        then Q (snd (poll_loop (\<lambda>w. fin w \<noteq> 0) (call (Mdelay TRANSFER_POLL_TIME)) check TRANSFER_POLL_COUNT ?w))
        else J (snd (poll_loop (\<lambda>w. fin w \<noteq> 0) (call (Mdelay TRANSFER_POLL_TIME)) check TRANSFER_POLL_COUNT ?w))"
      by (rule poll_loop_inv [rotated 2]) (simp_all add: calls check)
    with q f True run show ?thesis
      by (auto simp: static_run_def chain_poll_def Let_def split: prod.splits if_splits)
  next
    case False
    with q f f2 run show ?thesis
      by (auto simp: static_run_def Let_def split: prod.splits if_splits)
  qed
qed

end

text \<open>While the chain is built nothing has been transferred.\<close>

definition chain_quiet :: "nat \<Rightarrow> ch_world \<Rightarrow> bool" where
  "chain_quiet n w \<longleftrightarrow> \<not> chain_started (trace w) \<and> length (ct_transfers w) = n \<and> max_rounds w = TRANSFER_ROUNDS \<and>
     (\<forall>t \<in> set (ct_transfers w). ct_data_correct t = 0 \<and> rounds t = 0)"

lemma chain_quiet_upd:
  assumes "chain_quiet n w" and "ct_frame f"
  shows "chain_quiet n (ct_upd i f w)"
proof (cases "i < length (ct_transfers w)")
  case True
  have "ct_data_correct (f (ct_transfers w ! i)) = 0" "rounds (f (ct_transfers w ! i)) = 0"
    using assms True unfolding chain_quiet_def ct_frame_def by (metis nth_mem)+
  with assms(1) show ?thesis
    by (auto simp: chain_quiet_def dest: set_update_subset_insert [THEN subsetD])
next
  case False
  with assms(1) show ?thesis by (simp add: chain_quiet_def list_update_beyond)
qed

lemma chain_quiet_call:
  assumes "irq_after_chain_start K" and "\<not> is_chain_start c" and "chain_quiet n w"
  shows "chain_quiet n (kcall_thread K h c w)"
proof -
  have n: "\<not> chain_started (trace (kcall_irq K c w))" using assms(2,3) by (simp add: chain_quiet_def)
  with assms(1) have "no_irq (k_events K (trace (kcall_irq K c w)))"
    unfolding irq_after_chain_start_def by blast
  then obtain m where "kcall_thread K h c w = (kcall_irq K c w)\<lparr>mem := m\<rparr>"
    using deliver_no_irq[of _ h "kcall_irq K c w"] by (auto simp: kcall_thread_def Let_def)
  with n assms(3) show ?thesis by (simp add: chain_quiet_def)
qed

lemma chain_quiet_setup:
  assumes "irq_after_chain_start K"
  shows "chain_setup (kcall_thread K h) (\<lambda>_. True) (chain_quiet n)"
  by unfold_locales (simp_all add: chain_quiet_call [OF assms] chain_quiet_upd, simp_all add: chain_quiet_def)

text \<open>Once the chain runs: flags are backed, no transfer counts beyond the maximum.\<close>

definition chain_running :: "kernel \<Rightarrow> nat \<Rightarrow> ch_world \<Rightarrow> bool" where
  "chain_running K n w \<longleftrightarrow> chain_backed K w \<and> rounds_ok w \<and> length (ct_transfers w) = n \<and>
     max_rounds w = TRANSFER_ROUNDS"

lemma chain_running_call: "chain_running K n w \<Longrightarrow> chain_running K n (chain_kcall K c w)"
  unfolding chain_running_def
  by (auto intro!: chain_cb_backed.kcall_thread_inv chain_cb_rounds.kcall_thread_inv)
    (simp_all add: chain_backed_def rounds_ok_def)

lemma chain_quiet_running: "chain_quiet n w \<Longrightarrow> chain_running K n w"
  by (simp add: chain_quiet_def chain_running_def chain_backed_def rounds_ok_def TRANSFER_ROUNDS_def)

text \<open>A transfer that has reached the maximum stays there.\<close>

definition chain_reached :: "nat \<Rightarrow> ch_world \<Rightarrow> bool" where
  "chain_reached i w \<longleftrightarrow> i < length (ct_transfers w) \<and> rounds (ct_transfers w ! i) = max_rounds w"

interpretation chain_cb_reached: irq_invariant "dma_callback_chain K" "chain_reached i" for K i
proof unfold_locales
  fix w :: ch_world and lch st d
  assume "chain_reached i w"
  then show "chain_reached i (dma_callback_chain K lch st d (log_ev (Interrupt lch st d (mem w)) w))"
    by (cases "i = d") (auto simp: chain_reached_def dma_callback_chain_transfers)
qed (simp add: chain_reached_def)

lemma chain_reached_call: "chain_reached i w \<Longrightarrow> chain_reached i (chain_kcall K c w)"
  by (rule chain_cb_reached.kcall_thread_inv) (simp add: chain_reached_def)

lemma rounds_loop_spec: "rounds_loop ts \<noteq> 0 \<longleftrightarrow> (\<exists>t \<in> set ts. rounds t = TRANSFER_ROUNDS)"
  by (induction ts) auto

lemma chain_data_error_spec: "chain_data_error ts = (if \<exists>t \<in> set ts. ct_data_correct t = 0 then 1 else 0)"
  by (induction ts) auto

text \<open>The verdict of a chain module with \<open>n\<close> transfers.\<close>

definition chain_verdict :: "kernel \<Rightarrow> nat \<Rightarrow> ch_world \<Rightarrow> bool" where
  "chain_verdict K n w \<longleftrightarrow> test_passed w = 0 \<or> test_passed w = 1 \<and>
     (\<forall>i<n. good_round K (ct_bufs w i) i (trace w)) \<and>
     (\<exists>i<n. rounds (ct_transfers w ! i) = TRANSFER_ROUNDS)"

lemma chain_check_verdict:
  assumes "chain_running K n w" and "chain_get_transfers_finished n w \<noteq> 0"
  shows "chain_verdict K n (chain_check_test_passed n (chain_kcall K c w))"
proof -
  let ?w = "chain_kcall K c w"
  have l: "length (ct_transfers w) = n" and mx: "max_rounds w = TRANSFER_ROUNDS"
    using assms(1) by (simp_all add: chain_running_def)
  have b: "chain_backed K ?w" and l': "length (ct_transfers ?w) = n"
    using chain_running_call [OF assms(1)] by (simp_all add: chain_running_def)
  from assms(2) l obtain i where "i < n" "rounds (ct_transfers w ! i) = TRANSFER_ROUNDS"
    by (auto simp: chain_get_transfers_finished_def rounds_loop_spec in_set_conv_nth)
  with l mx have i: "i < n" "rounds (ct_transfers ?w ! i) = TRANSFER_ROUNDS"
    using chain_reached_call [of i w K c] by (simp_all add: chain_reached_def)
  then have e: "\<exists>i<n. rounds (ct_transfers ?w ! i) = TRANSFER_ROUNDS" by blast
  show ?thesis
  proof (cases "\<exists>t \<in> set (ct_transfers ?w). ct_data_correct t = 0")
    case True
    with l' show ?thesis
      by (simp add: chain_verdict_def chain_check_test_passed_def chain_data_error_spec)
  next
    case False
    then have "\<forall>i<n. good_round K (ct_bufs ?w i) i (trace ?w)"
      using b l' unfolding chain_backed_def by (metis nth_mem)
    with False e l' show ?thesis
      by (simp add: chain_verdict_def chain_check_test_passed_def chain_data_error_spec)
  qed
qed

lemma static_config_quiet:
  assumes "length (ct_transfers w) = n" and "trace w = []"
    and "\<forall>t \<in> set (ct_transfers w). ct_data_correct t = 0 \<and> rounds t = 0"
  shows "chain_quiet n (static_config K k w)"
  using assms by (simp add: chain_quiet_def static_config_def set_max_rounds_def)

lemma ch_fresh_simps [simp]:
  "trace (ch_fresh n m) = []" "ct_transfers (ch_fresh n m) = replicate n zero_chained"
  "test_passed (ch_fresh n m) = - 1" "chain (ch_fresh n m) = zero_chain"
  by (simp_all add: ch_fresh_def)

lemma zero_chained_simps [simp]:
  "ct_data_correct zero_chained = 0" "rounds zero_chained = 0" "ct_request_success zero_chained = 0"
  "dc_request_success zero_chain = 0" "ct_buffers zero_chained = zero_buffers"
  by (simp_all add: zero_chained_def zero_chain_def)

lemma chain_add_fail:
  "fst (chain_add K call sz between i w) \<noteq> 0 \<Longrightarrow> test_passed (snd (chain_add K call sz between i w)) = 0"
  by (auto simp: chain_add_def Let_def case_prod_beta split: if_splits)

lemma static_run_verdict:
  assumes "irq_after_chain_start K"
    and "\<And>w. chain_quiet n w \<Longrightarrow> chain_quiet n (prelude w)"
    and "\<And>i w. chain_quiet n w \<Longrightarrow> chain_quiet n (snd (add i w))"
    and "\<And>i w. fst (add i w) \<noteq> 0 \<Longrightarrow> test_passed (snd (add i w)) = 0"
    and "static_run K (chain_kcall K) k prelude add (chain_get_transfers_finished n)
      (chain_check_test_passed n) (ch_fresh n m) = (r, w)"
  shows "test_passed w \<in> {0, 1} \<and> (test_passed w = 1 \<longrightarrow> r = 0 \<and>
    (\<forall>i<n. good_round K (ct_bufs w i) i (trace w)) \<and>
    (\<exists>i<n. rounds (ct_transfers w ! i) = TRANSFER_ROUNDS))"
proof -
  have "chain_quiet n (static_config K k (ch_fresh n m))"
    by (rule static_config_quiet) simp_all
  then have "r = 0 \<and> chain_verdict K n w \<or> test_passed w = 0"
    by (rule chain_setup.static_run_inv [where J = "chain_running K n" and Q = "chain_verdict K n",
          OF chain_quiet_setup [OF assms(1)] _ assms(2,3,4) _ _ _ assms(5)])
      (simp_all add: chain_quiet_running chain_running_call chain_check_verdict)
  then show ?thesis by (auto simp: chain_verdict_def)
qed

text \<open>The modules that start their chain: number of transfers, initialisation, exit.\<close>

definition static_modules :: "kernel \<Rightarrow> (nat \<times> (ch_world \<Rightarrow> int \<times> ch_world) \<times> (ch_world \<Rightarrow> ch_world)) list" where
  "static_modules K =
     [(4, static_module_init K, static_module_exit K),
      (25, static_invalid_module_init K, static_invalid_module_exit K),
      (4, static_removed_module_init K, static_removed_module_exit K)]"

lemmas static_defs = static_module_init_def static_invalid_module_init_def static_removed_module_init_def
  static_check_test_passed_def static_invalid_check_test_passed_def static_removed_check_test_passed_def
  static_get_transfers_finished_def static_invalid_get_transfers_finished_def
  static_removed_get_transfers_finished_def static_module_exit_def static_invalid_module_exit_def
  static_removed_module_exit_def

lemma removed_quiet:
  assumes "irq_after_chain_start K" and "chain_quiet n w"
  shows "chain_quiet n (static_removed_link K w)" "chain_quiet n (static_removed_unlink K i w)"
proof -
  have "chain_quiet n (set_test_passed_chain p v) = chain_quiet n v" for p v by (simp add: chain_quiet_def)
  then show "chain_quiet n (static_removed_link K w)" "chain_quiet n (static_removed_unlink K i w)"
    using assms by (simp_all add: static_removed_link_def static_removed_unlink_def chain_quiet_call)
qed

section \<open>Giving chains and buffers back\<close>

text \<open>A documented law of \<^verbatim>\<open>omap_request_dma_chain\<close>: when it succeeds it stores the chain id.\<close>

definition grants_chain :: "kernel \<Rightarrow> bool" where
  "grants_chain K \<longleftrightarrow> (\<forall>h dev n ty ps. k_ret K h (Omap_request_dma_chain dev n ty ps) = 0 \<longrightarrow>
     k_out K h (Omap_request_dma_chain dev n ty ps) \<noteq> None)"

text \<open>The buffers that the exit function will free.\<close>

definition own_ct :: "chained_transfer list \<Rightarrow> u32 \<Rightarrow> int" where
  "own_ct ts a =
     int (length (filter (\<lambda>t. ct_request_success t \<noteq> 0 \<and> src_buf (ct_buffers t) = a) ts))
     + int (length (filter (\<lambda>t. ct_request_success t \<noteq> 0 \<and> dest_buf (ct_buffers t) = a) ts))"

lemma own_ct_upd [simp]: "i < length ts \<Longrightarrow> own_ct (ts[i := t]) a =
    own_ct ts a
    - (if ct_request_success (ts ! i) \<noteq> 0 \<and> src_buf (ct_buffers (ts ! i)) = a then 1 else 0)
    - (if ct_request_success (ts ! i) \<noteq> 0 \<and> dest_buf (ct_buffers (ts ! i)) = a then 1 else 0)
    + (if ct_request_success t \<noteq> 0 \<and> src_buf (ct_buffers t) = a then 1 else 0)
    + (if ct_request_success t \<noteq> 0 \<and> dest_buf (ct_buffers t) = a then 1 else 0)"
  by (simp add: own_ct_def length_filter_list_update)

lemma own_ct_strip [simp]: "own_ct (map ct_strip ts) = own_ct ts"
  by (simp add: own_ct_def filter_map comp_def fun_eq_iff)

lemma own_ct_Cons:
  "own_ct (t # ts) a = own_ct ts a
     + (if ct_request_success t \<noteq> 0 \<and> src_buf (ct_buffers t) = a then 1 else 0)
     + (if ct_request_success t \<noteq> 0 \<and> dest_buf (ct_buffers t) = a then 1 else 0)"
  by (simp add: own_ct_def)

lemma own_ct_unused: "(\<forall>t \<in> set ts. ct_request_success t = 0) \<Longrightarrow> own_ct ts a = 0"
  by (simp add: own_ct_def filter_empty_conv)

text \<open>
  After \<open>i\<close> transfers have been chained: their buffers are accounted for, the others are untouched,
  the chain is held, and its configuration is unchanged.
\<close>

definition chain_built :: "kernel \<Rightarrow> nat \<Rightarrow> nat \<Rightarrow> 'a ch_world_scheme \<Rightarrow> bool" where
  "chain_built K n i w \<longleftrightarrow> length (ct_transfers w) = n \<and> channel_count (chain w) = int n \<and>
     dc_data_type (chain w) = k_const K OMAP_DMA_DATA_TYPE_S8 \<and> dc_request_success (chain w) \<noteq> 0 \<and>
     (\<forall>cid. chain_balance (trace w) cid = (if cid = dc_chain_id (chain w) then 1 else 0)) \<and>
     (\<forall>a. a \<noteq> 0 \<longrightarrow> alloc_balance (trace w) a = own_ct (ct_transfers w) a) \<and>
     (\<forall>j. i \<le> j \<longrightarrow> j < n \<longrightarrow> ct_request_success (ct_transfers w ! j) = 0)"

lemma ctb_upd_simps [simp]:
  "ct_transfers (ctb_upd i f w) = (ct_transfers w)[i := (ct_transfers w ! i)\<lparr>ct_buffers := f (ct_bufs w i)\<rparr>]"
  "trace (ctb_upd i f w) = trace w" "chain (ctb_upd i f w) = chain w"
  "test_passed (ctb_upd i f w) = test_passed w"
  by (simp_all add: ctb_upd_def)

context ch_caller
begin

lemma call_own [simp]: "own_ct (ct_transfers (call c w)) = own_ct (ct_transfers w)"
  using call_strip[of c w] by (metis own_ct_strip)

lemma create_frame:
  assumes "i < length (ct_transfers w)" and "j < length (ct_transfers w)"
  defines "w' \<equiv> snd (create_transfer_buffers_chain K call i w)"
  shows "length (ct_transfers w') = length (ct_transfers w)" and "chain w' = chain w"
    and "ct_request_success (ct_transfers w' ! j) = ct_request_success (ct_transfers w ! j)"
    and "chain_balance (trace w') cid = chain_balance (trace w) cid"
  using assms by (cases "j = i"; simp add: create_transfer_buffers_chain_def Let_def w'_def)+

lemma create_allocs:
  assumes "i < length (ct_transfers w)" and "ct_request_success (ct_transfers w ! i) = 0"
    and "a \<noteq> 0"
  defines "w' \<equiv> snd (create_transfer_buffers_chain K call i w)"
  shows "alloc_balance (trace w') a - own_ct (ct_transfers w') a = alloc_balance (trace w) a
    - own_ct (ct_transfers w) a + (if src_buf (ct_bufs w' i) = a then 1 else 0)
    + (if dest_buf (ct_bufs w' i) = a then 1 else 0)"
  using assms by (simp add: create_transfer_buffers_chain_def Let_def w'_def)

end

text \<open>A step that may store a verdict and otherwise leaves the view alone.\<close>

definition view_step :: "('a ch_world_scheme \<Rightarrow> 'a ch_world_scheme) \<Rightarrow> bool" where
  "view_step f \<longleftrightarrow> (\<forall>w. \<exists>p. ch_view (f w) = ch_view (set_test_passed_chain p w))"

lemma view_stepD:
  assumes "view_step f"
  shows "length (ct_transfers (f w)) = length (ct_transfers w)" and "chain (f w) = chain w"
    and "own_ct (ct_transfers (f w)) = own_ct (ct_transfers w)"
    and "chain_balance (trace (f w)) = chain_balance (trace w)"
    and "alloc_balance (trace (f w)) = alloc_balance (trace w)"
    and "j < length (ct_transfers w) \<Longrightarrow>
      ct_request_success (ct_transfers (f w) ! j) = ct_request_success (ct_transfers w ! j) \<and>
      ct_bufs (f w) j = ct_bufs w j"
proof -
  from assms obtain p where "ch_view (f w) = ch_view (set_test_passed_chain p w)"
    unfolding view_step_def by blast
  then have s: "map ct_strip (ct_transfers (f w)) = map ct_strip (ct_transfers w)"
    and r: "chain (f w) = chain w" "chain_balance (trace (f w)) = chain_balance (trace w)"
    "alloc_balance (trace (f w)) = alloc_balance (trace w)" by (simp_all add: ch_view_def)
  from s show l: "length (ct_transfers (f w)) = length (ct_transfers w)" by (metis length_map)
  from s show "own_ct (ct_transfers (f w)) = own_ct (ct_transfers w)" by (metis own_ct_strip)
  from r show "chain (f w) = chain w" "chain_balance (trace (f w)) = chain_balance (trace w)"
    "alloc_balance (trace (f w)) = alloc_balance (trace w)" by simp_all
  assume "j < length (ct_transfers w)"
  with s l have "ct_strip (ct_transfers (f w) ! j) = ct_strip (ct_transfers w ! j)" by (metis nth_map)
  then show "ct_request_success (ct_transfers (f w) ! j) = ct_request_success (ct_transfers w ! j) \<and>
      ct_bufs (f w) j = ct_bufs w j" by (metis ct_strip_simps)
qed

lemma view_step_id: "view_step (\<lambda>w. w)"
  unfolding view_step_def
  by (intro allI exI [of _ "test_passed w" for w]) (simp add: ch_view_def)

context ch_caller
begin

lemma view_step_call:
  assumes "chain_neutral c" and "neutral c"
  shows "ch_view (call c w) = ch_view w"
  using assms call_view[of c w] by (simp add: ch_view_def fun_eq_iff)

lemma map_frame:
  assumes "i < length (ct_transfers w)" and "j < length (ct_transfers w)"
  defines "w' \<equiv> map_to_phys_buffers_chain K call i w"
  shows "length (ct_transfers w') = length (ct_transfers w)" and "chain w' = chain w"
    and "ct_request_success (ct_transfers w' ! j) = ct_request_success (ct_transfers w ! j)"
    and "src_buf (ct_bufs w' j) = src_buf (ct_bufs w j)" and "dest_buf (ct_bufs w' j) = dest_buf (ct_bufs w j)"
    and "chain_balance (trace w') cid = chain_balance (trace w) cid"
    and "alloc_balance (trace w') a = alloc_balance (trace w) a"
    and "own_ct (ct_transfers w') a = own_ct (ct_transfers w) a"
  using assms by (cases "j = i"; simp add: map_to_phys_buffers_chain_def Let_def w'_def)+

lemma chain_transfer_built:
  assumes "i < length (ct_transfers w)" and "j < length (ct_transfers w)"
    and "dc_data_type (chain w) = k_const K OMAP_DMA_DATA_TYPE_S8"
    and "ct_request_success (ct_transfers w ! i) = 0"
  defines "w' \<equiv> snd (chain_transfer K call i w)"
  shows "length (ct_transfers w') = length (ct_transfers w)" and "chain w' = chain w"
    and "j \<noteq> i \<Longrightarrow> ct_request_success (ct_transfers w' ! j) = ct_request_success (ct_transfers w ! j)"
    and "chain_balance (trace w') cid = chain_balance (trace w) cid"
    and "alloc_balance (trace w') a = alloc_balance (trace w) a"
    and "fst (chain_transfer K call i w) = 0 \<Longrightarrow> own_ct (ct_transfers w') a = own_ct (ct_transfers w) a
      + (if src_buf (ct_bufs w i) = a then 1 else 0) + (if dest_buf (ct_bufs w i) = a then 1 else 0)"
proof -
  let ?u = "ct_upd i (\<lambda>t. t\<lparr>ct_elements_in_frame := sint (buf_size (ct_bufs w i))\<rparr>)
    (ct_upd i (\<lambda>t. t\<lparr>ct_finished := 0, ct_data_correct := 0, ct_frame_count := 1, ct_request_success := 0\<rparr>) w)"
  have u: "i < length (ct_transfers ?u)" "j < length (ct_transfers ?u)" using assms(1,2) by simp_all
  note m = map_frame [OF u] and mi = map_frame [OF u(1) u(1)]
  have e: "chain_elements K (dc_data_type (chain w)) (buf_size (ct_bufs w i)) = Some (sint (buf_size (ct_bufs w i)))"
    using assms(3) by (simp add: chain_elements_def)
  show "length (ct_transfers w') = length (ct_transfers w)" and "chain w' = chain w"
    and "chain_balance (trace w') cid = chain_balance (trace w) cid"
    and "alloc_balance (trace w') a = alloc_balance (trace w) a"
    using m assms(1) e by (simp_all add: w'_def chain_transfer_def Let_def)
  show "j \<noteq> i \<Longrightarrow> ct_request_success (ct_transfers w' ! j) = ct_request_success (ct_transfers w ! j)"
    using m(1-3) assms(1,2) e by (simp add: w'_def chain_transfer_def Let_def)
  show "fst (chain_transfer K call i w) = 0 \<Longrightarrow> own_ct (ct_transfers w') a = own_ct (ct_transfers w) a
      + (if src_buf (ct_bufs w i) = a then 1 else 0) + (if dest_buf (ct_bufs w i) = a then 1 else 0)"
    using m(1,8) mi(3,4,5) assms(1,4) e
    by (simp add: w'_def chain_transfer_def Let_def split: if_splits)
qed

end

lemma chain_built_passed [simp]: "chain_built K n i (set_test_passed_chain p w) = chain_built K n i w"
  by (simp add: chain_built_def)

context ch_caller
begin

lemma chain_built_call:
  assumes "chain_built K n n w" and "chain_neutral c" and "neutral c"
  shows "chain_built K n n (call c w)"
  using assms by (simp add: chain_built_def)

lemma chain_add_built:
  assumes b: "chain_built K n i w" and i: "i < n" and v: "view_step (between i)"
    and ok: "fst (chain_add K call sz between i w) = 0"
  shows "chain_built K n (Suc i) (snd (chain_add K call sz between i w))"
proof -
  define w1 where "w1 = ctb_upd i (\<lambda>b. b\<lparr>buf_size := sz\<rparr>) w"
  define w2 where "w2 = snd (create_transfer_buffers_chain K call i w1)"
  define w3 where "w3 = fill_source_buffer_chain i (between i w2)"
  define w4 where "w4 = snd (chain_transfer K call i w3)"
  have add: "fst (create_transfer_buffers_chain K call i w1) = 0" "fst (chain_transfer K call i w3) = 0"
    "snd (chain_add K call sz between i w) = w4"
    using ok by (auto simp: chain_add_def Let_def case_prod_beta w1_def w2_def w3_def w4_def split: if_splits)
  have l1: "length (ct_transfers w1) = n" "i < length (ct_transfers w1)"
    and r1: "\<And>j. i \<le> j \<Longrightarrow> j < n \<Longrightarrow> ct_request_success (ct_transfers w1 ! j) = 0"
    using b i by (auto simp: w1_def chain_built_def nth_list_update)
  note c = create_frame [OF l1(2), folded w2_def]
  have l2: "length (ct_transfers w2) = n" using c(1) [OF l1(2)] l1(1) by simp
  note vs = view_stepD [OF v, where w = w2]
  have l3: "length (ct_transfers w3) = n" and ch3: "chain w3 = chain w"
    using vs(1,2) l2 c(2) [OF l1(2)] by (simp_all add: w3_def) (simp_all add: w1_def)
  have r3: "ct_request_success (ct_transfers w3 ! j) = 0" if "i \<le> j" "j < n" for j
    using that vs(6) [of j] l2 l1 c(3) [of j] r1 by (simp add: w3_def)
  have il: "i < length (ct_transfers w3)" using l3 i by simp
  have dt: "dc_data_type (chain w3) = k_const K OMAP_DMA_DATA_TYPE_S8"
    using ch3 b by (simp add: chain_built_def)
  note t = chain_transfer_built [OF il _ dt r3 [OF order_refl i], folded w4_def]
  have bal: "alloc_balance (trace w4) a = own_ct (ct_transfers w4) a" if "a \<noteq> 0" for a
  proof -
    have "alloc_balance (trace w1) a = own_ct (ct_transfers w1) a"
      using b i that by (simp add: w1_def chain_built_def)
    with create_allocs [OF l1(2) r1 [OF order_refl i] that, folded w2_def] vs(3,5) vs(6) [of i] l2 i
      t(5) [OF il, of a] t(6) [OF il add(2), of a]
    show ?thesis by (simp add: w3_def)
  qed
  have cb: "chain_balance (trace w4) cid = chain_balance (trace w) cid" for cid
    using t(4) [OF il] vs(4) c(4) [OF l1(2)] by (simp add: w3_def w1_def)
  have "ct_request_success (ct_transfers w4 ! j) = 0" if "Suc i \<le> j" "j < n" for j
    using t(3) [of j] r3 [of j] l3 that by simp
  with bal cb t(1,2) [OF il] l3 ch3 b show ?thesis
    unfolding add(3) by (simp add: chain_built_def)
qed

lemma chain_poll_built:
  assumes "chain_built K n n w"
  shows "chain_built K n n (snd (chain_poll call fin (chain_check_test_passed k) w))"
proof -
  have "chain_built K n n (snd (poll_loop (\<lambda>w. fin w \<noteq> 0) (call (Mdelay TRANSFER_POLL_TIME))
      (chain_check_test_passed k) TRANSFER_POLL_COUNT w))"
    using assms by (rule poll_loop_keeps [rotated 2])
      (simp_all add: chain_built_call chain_check_test_passed_def Let_def)
  then show ?thesis by (simp add: chain_poll_def case_prod_beta)
qed

lemma request_built:
  assumes "grants_chain K" and "length (ct_transfers w) = n" and "trace w = []"
    and "\<forall>t \<in> set (ct_transfers w). ct_request_success t = 0"
    and "fst (request_dma_chain K call (static_config K (int n) w)) = 0"
  shows "chain_built K n 0 (snd (request_dma_chain K call (static_config K (int n) w)))"
proof -
  have g: "k_out K h (Omap_request_dma_chain dev k ty ps) = None \<Longrightarrow>
      k_ret K h (Omap_request_dma_chain dev k ty ps) \<noteq> 0" for h dev k ty ps
    using assms(1) unfolding grants_chain_def by blast
  have "own_ct (ct_transfers w) a = 0" for a using assms(4) by (rule own_ct_unused)
  with assms(2-5) show ?thesis
    by (auto dest: g simp: chain_built_def request_dma_chain_def static_config_def set_max_rounds_def Let_def
        kcall_ret_def kcall_out_def split: option.splits if_splits)
qed

lemma static_run_built:
  assumes "grants_chain K" and "length (ct_transfers w) = n" and "trace w = []"
    and "\<forall>t \<in> set (ct_transfers w). ct_request_success t = 0"
    and "view_step prelude" and "\<And>i. view_step (between i)"
    and run: "static_run K call (int n) prelude (chain_add K call sz between) fin (chain_check_test_passed k) w = (0, w')"
  shows "chain_built K n n w'"
proof -
  define w1 where "w1 = snd (request_dma_chain K call (static_config K (int n) w))"
  have e1: "fst (request_dma_chain K call (static_config K (int n) w)) = 0"
    using run by (auto simp: static_run_def split: prod.splits if_splits)
  have b1: "chain_built K n 0 w1" unfolding w1_def by (rule request_built [OF assms(1-4) e1])
  have b2: "chain_built K n 0 (prelude w1)"
    using b1 view_stepD [OF assms(5), where w = w1] by (simp add: chain_built_def)
  then have k: "nat (channel_count (chain (prelude w1))) = n" by (simp add: chain_built_def)
  let ?f = "for_or_fail (chain_add K call sz between) 0 n (prelude w1)"
  have e2: "fst ?f \<noteq> 2"
  proof -
    have "fst (for_or_fail (chain_add K call sz between) j l v) \<noteq> 2" for j l v
      by (induction l arbitrary: j v) (auto simp: chain_add_def Let_def case_prod_beta split: prod.splits)
    then show ?thesis by blast
  qed
  have "if fst ?f = 0 then chain_built K n (0 + n) (snd ?f) else True"
    by (rule for_or_fail_inv) (simp_all add: chain_add_built [OF _ _ assms(6)] b2)
  then have f: "fst ?f = 0 \<Longrightarrow> chain_built K n n (snd ?f)" by simp
  from run e1 e2 have "fst ?f = 0" and w': "w' = snd (chain_poll call fin (chain_check_test_passed k)
      (snd (start_dma_chain K call (setup_dma_chain K call (snd ?f)))))"
    by (auto simp: static_run_def Let_def k w1_def [symmetric] case_prod_beta split: if_splits)
  then show ?thesis
    unfolding w' using f
    by (intro chain_poll_built) (simp add: setup_dma_chain_def start_dma_chain_def Let_def chain_built_call)
qed

lemma stop_loop_released:
  assumes "length (ct_transfers w) = n"
    and "\<And>a. a \<noteq> 0 \<Longrightarrow> alloc_balance (trace w) a = own_ct (ct_transfers w) a"
  defines "w' \<equiv> for_each (stop_dma_transfer_chain call) 0 n w"
  shows "a \<noteq> 0 \<Longrightarrow> alloc_balance (trace w') a = 0" and "chain_balance (trace w') = chain_balance (trace w)"
proof -
  let ?ts = "ct_transfers w"
  let ?P = "\<lambda>i (v :: 'a ch_world_scheme). map ct_strip (ct_transfers v) = map ct_strip ?ts \<and>
    (\<forall>a. a \<noteq> 0 \<longrightarrow> alloc_balance (trace v) a = own_ct (drop i ?ts) a) \<and>
    chain_balance (trace v) = chain_balance (trace w)"
  have "?P (0 + n) w'"
    unfolding w'_def
  proof (rule for_each_inv)
    fix i and v :: "'a ch_world_scheme"
    assume i: "i < 0 + n" and P: "?P i v"
    have l: "length (ct_transfers v) = n" using P assms(1) by (metis length_map)
    have "ct_strip (ct_transfers v ! i) = ct_strip (?ts ! i)"
      using P i l assms(1) by (metis add_0 nth_map)
    then have t: "ct_request_success (ct_transfers v ! i) = ct_request_success (?ts ! i)"
      "ct_bufs v i = ct_buffers (?ts ! i)" by (metis ct_strip_simps)+
    have d: "drop i ?ts = ?ts ! i # drop (Suc i) ?ts" using i assms(1) by (simp add: Cons_nth_drop_Suc)
    have "map ct_strip (ct_transfers (stop_dma_transfer_chain call i v)) = map ct_strip ?ts"
      using P by (simp add: stop_dma_transfer_chain_def Let_def call_strip)
    moreover have "chain_balance (trace (stop_dma_transfer_chain call i v)) = chain_balance (trace w)"
      using P by (simp add: stop_dma_transfer_chain_def Let_def fun_eq_iff)
    moreover have "alloc_balance (trace (stop_dma_transfer_chain call i v)) a = own_ct (drop (Suc i) ?ts) a"
      if "a \<noteq> 0" for a
    proof -
      have "alloc_balance (trace v) a = own_ct (?ts ! i # drop (Suc i) ?ts) a" using P that d by simp
      with t i l show ?thesis by (simp add: stop_dma_transfer_chain_def Let_def own_ct_Cons)
    qed
    ultimately show "?P (Suc i) (stop_dma_transfer_chain call i v)" by blast
  qed (use assms(2) in simp)
  then show "a \<noteq> 0 \<Longrightarrow> alloc_balance (trace w') a = 0" and "chain_balance (trace w') = chain_balance (trace w)"
    using assms(1) by (simp_all add: own_ct_def)
qed

lemma chain_exit_effect:
  assumes "length (ct_transfers w) = n" and "channel_count (chain w) = int n"
    and "dc_request_success (chain w) \<noteq> 0"
    and "\<And>a. a \<noteq> 0 \<Longrightarrow> alloc_balance (trace w) a = own_ct (ct_transfers w) a"
  defines "w' \<equiv> chain_module_exit K call w"
  shows "chain_balance (trace w') cid = chain_balance (trace w) cid - (if cid = dc_chain_id (chain w) then 1 else 0)"
    and "a \<noteq> 0 \<Longrightarrow> alloc_balance (trace w') a = 0"
proof -
  define v where "v = chain_give_back K call w"
  have v: "length (ct_transfers v) = n" "own_ct (ct_transfers v) = own_ct (ct_transfers w)"
    "chain_balance (trace v) cid = chain_balance (trace w) cid - (if cid = dc_chain_id (chain w) then 1 else 0)"
    "alloc_balance (trace v) a = alloc_balance (trace w) a" for a
    using assms(1,3) by (simp_all add: v_def chain_give_back_def Let_def)
  have "w' = for_each (stop_dma_transfer_chain call) 0 n v"
    using assms(2,3) by (simp add: w'_def v_def chain_module_exit_def chain_give_back_def Let_def)
  with stop_loop_released [OF v(1)] v(2-4) assms(4)
  show "chain_balance (trace w') cid = chain_balance (trace w) cid - (if cid = dc_chain_id (chain w) then 1 else 0)"
    and "a \<noteq> 0 \<Longrightarrow> alloc_balance (trace w') a = 0"
    by simp_all
qed

end

lemma removed_view_steps: "view_step (static_removed_link K)" "view_step (static_removed_unlink K i)"
proof -
  have l: "ch_view (static_removed_link K w) = ch_view (set_test_passed_chain (test_passed w) w)" for w
    by (simp add: static_removed_link_def chain_call.view_step_call) (simp add: ch_view_def)
  have u: "ch_view (static_removed_unlink K i w) =
      ch_view (set_test_passed_chain (if i = 3 then 0 else test_passed w) w)" for w
  proof -
    let ?w = "chain_kcall K (Omap_dma_unlink_lch (ct_chain_id (ct_transfers w ! i) + 2) (dc_chain_id (chain w))) w"
    have "ch_view ?w = ch_view w" by (rule chain_call.view_step_call) simp_all
    then show ?thesis by (cases "i = 3") (simp_all add: static_removed_unlink_def ch_view_def)
  qed
  show "view_step (static_removed_link K)" "view_step (static_removed_unlink K i)"
    unfolding view_step_def using l u by blast+
qed

section \<open>Well-formed transfers\<close>

text \<open>The ranges of the fields of a chained transfer, given the maximum number of rounds.\<close>

definition ct_wf :: "int \<Rightarrow> chained_transfer \<Rightarrow> bool" where
  "ct_wf mx t \<longleftrightarrow> 0 \<le> rounds t \<and> rounds t \<le> mx \<and> ct_data_correct t \<in> {0, 1} \<and> ct_finished t \<in> {0, 1} \<and>
     ct_request_success t \<in> {0, 1}"

definition chain_wf :: "ch_world \<Rightarrow> bool" where
  "chain_wf w \<longleftrightarrow> max_rounds w = TRANSFER_ROUNDS \<and> list_all (ct_wf TRANSFER_ROUNDS) (ct_transfers w)"

lemma list_all_update: "list_all P xs \<Longrightarrow> (i < length xs \<Longrightarrow> P x) \<Longrightarrow> list_all P (xs[i := x])"
  by (induction xs arbitrary: i) (auto split: nat.splits)

lemma ct_wf_nth: "chain_wf w \<Longrightarrow> i < length (ct_transfers w) \<Longrightarrow> ct_wf TRANSFER_ROUNDS (ct_transfers w ! i)"
  by (simp add: chain_wf_def list_all_length)

interpretation chain_cb_wf: irq_invariant "dma_callback_chain K" chain_wf for K
proof unfold_locales
  fix w lch st d
  assume wf: "chain_wf w"
  have mx: "max_rounds w = TRANSFER_ROUNDS" using wf by (simp add: chain_wf_def)
  have "list_all (ct_wf TRANSFER_ROUNDS) ((ct_transfers w)[d := (ct_transfers w ! d)\<lparr>rounds := x,
      ct_data_correct := y, ct_finished := 1\<rparr>])"
    if "x = TRANSFER_ROUNDS \<or> rounds (ct_transfers w ! d) \<noteq> TRANSFER_ROUNDS \<and> x = rounds (ct_transfers w ! d) + 1"
      "y \<in> {0, 1}" for x y
    using wf ct_wf_nth [OF wf, of d] that
    by (intro list_all_update) (auto simp: chain_wf_def ct_wf_def TRANSFER_ROUNDS_def)
  with wf mx show "chain_wf (dma_callback_chain K lch st d (log_ev (Interrupt lch st d (mem w)) w))"
    by (auto simp: chain_wf_def dma_callback_chain_transfers)
qed (simp add: chain_wf_def)

lemma chain_wf_call: "chain_wf w \<Longrightarrow> chain_wf (chain_kcall K c w)"
  by (rule chain_cb_wf.kcall_thread_inv) (simp add: chain_wf_def)

lemma chain_wf_frame [simp]:
  "chain_wf (dc_upd g w) = chain_wf w" "chain_wf (set_test_passed_chain p w) = chain_wf w"
  "chain_wf (w\<lparr>mem := x\<rparr>) = chain_wf w" "chain_wf (w\<lparr>chained_id := y\<rparr>) = chain_wf w"
  by (simp_all add: chain_wf_def)

lemma chain_wf_upd: "chain_wf w \<Longrightarrow> ct_frame f \<Longrightarrow> chain_wf (ct_upd i f w)"
  unfolding chain_wf_def ct_upd_simps
proof (elim conjE, intro conjI list_all_update)
  assume f: "ct_frame f" and l: "list_all (ct_wf TRANSFER_ROUNDS) (ct_transfers w)" and i: "i < length (ct_transfers w)"
  have "ct_wf TRANSFER_ROUNDS (ct_transfers w ! i)" using l i by (simp add: list_all_length)
  then show "ct_wf TRANSFER_ROUNDS (f (ct_transfers w ! i))"
    using f [unfolded ct_frame_def, rule_format, of "ct_transfers w ! i"] unfolding ct_wf_def by auto
qed

interpretation wf_setup: chain_setup K "chain_kcall K" "\<lambda>_. True" chain_wf for K
  by unfold_locales (simp_all add: chain_wf_call chain_wf_upd)

lemma chain_exit_wf: "chain_wf w \<Longrightarrow> chain_wf (chain_module_exit K (chain_kcall K) w)"
  unfolding chain_module_exit_def chain_give_back_def Let_def
  by (rule for_each_keeps [where P = chain_wf]) (simp_all add: stop_dma_transfer_chain_def Let_def chain_wf_call)

end
