(* ===== verification/Dma_Chain_Dynamic.thy ===== *)
theory Dma_Chain_Dynamic
  imports Dma_Chain_Static
begin

text \<open>
  The tests of dynamic chains: \<^verbatim>\<open>dma_chain_dynamic.c\<close> and its variants that free the chain from the
  callback (\<^verbatim>\<open>dma_chain_dynamic_break.c\<close>), ask for more transfers
  (\<^verbatim>\<open>dma_chain_dynamic_invalid.c\<close>) and link and unlink a channel of another chain
  (\<^verbatim>\<open>dma_chain_dynamic_removed.c\<close>). Only the first transfer is chained by the module; each further one is
  created and chained by the completion callback of an earlier one.
\<close>

section \<open>State and callback\<close>

record dy_world = ch_world +
  current_transfer :: nat
  transfer_end :: int

definition dy_fresh :: "nat \<Rightarrow> memory \<Rightarrow> dy_world" where
  "dy_fresh n m = \<lparr>trace = [], mem = m, test_passed = - 1, chained_id = 0, max_rounds = 1,
     ct_transfers = replicate n zero_chained, chain = zero_chain, current_transfer = 0, transfer_end = 0\<rparr>"

text \<open>Create, fill and chain the next transfer; the completed transfer \<open>i\<close> is then correct.\<close>

definition dyn_link :: "kernel \<Rightarrow> u32 \<Rightarrow> nat \<Rightarrow> dy_world \<Rightarrow> dy_world" where
  "dyn_link K sz i w =
     (let cur = current_transfer w;
          w = ctb_upd cur (\<lambda>b. b\<lparr>buf_size := sz\<rparr>) w
      in case create_transfer_buffers_chain K (kcall_irq K) cur w of (error, w) \<Rightarrow>
        if error \<noteq> 0 then w\<lparr>transfer_end := 1\<rparr>
        else let w = fill_source_buffer_chain cur w
          in case chain_transfer K (kcall_irq K) cur w of (error, w) \<Rightarrow>
            if error \<noteq> 0 then w\<lparr>transfer_end := 1\<rparr>
            else ct_upd i (\<lambda>t. t\<lparr>ct_data_correct := 1\<rparr>) (w\<lparr>current_transfer := cur + 1\<rparr>))"

text \<open>
  The callback of a module with \<open>n\<close> transfers of \<open>sz\<close> bytes. \<open>extra\<close> is what the variant does after
  storing the flags; its boolean says whether it returns there.
\<close>

definition dyn_callback :: "kernel \<Rightarrow> nat \<Rightarrow> u32 \<Rightarrow> (nat \<Rightarrow> dy_world \<Rightarrow> bool \<times> dy_world) \<Rightarrow> dy_world handler" where
  "dyn_callback K n sz extra lch st i w =
     (if i < length (ct_transfers w) then
        if current_transfer w = n then
          let w = ct_upd i (\<lambda>t. t\<lparr>ct_data_correct := 1, ct_finished := 1\<rparr>) w;
              w = w\<lparr>transfer_end := 1\<rparr>
          in kcall_irq K (Omap_stop_dma_chain_transfers (ct_chain_id (ct_transfers w ! i))) w
        else
          case extra i (ct_upd i (\<lambda>t. t\<lparr>ct_data_correct := 0, ct_finished := 1\<rparr>) w) of (left, w) \<Rightarrow>
            if left then w
            else if status_ok K st
            then let error = verify_buffers_chain (mem w) (ct_bufs w i)
                 in if error \<noteq> 0 then w\<lparr>transfer_end := 1\<rparr> else dyn_link K sz i w
            else w\<lparr>transfer_end := 1\<rparr>
      else w)"

section \<open>The common shape\<close>

definition dynamic_config :: "kernel \<Rightarrow> int \<Rightarrow> 'a ch_world_scheme \<Rightarrow> 'a ch_world_scheme" where
  "dynamic_config K n w = dc_upd (\<lambda>c. c\<lparr>
     chain_type := k_const K OMAP_DMA_DYNAMIC_CHAIN,
     dc_device_id := k_const K OMAP_DMA_NO_DEVICE,
     dc_data_type := k_const K OMAP_DMA_DATA_TYPE_S8,
     dc_addressing_mode := k_const K OMAP_DMA_AMODE_POST_INC,
     dc_sync_mode := k_const K OMAP_DMA_SYNC_ELEMENT,
     dc_data_burst := k_const K OMAP_DMA_DATA_BURST_DIS,
     channel_count := n\<rparr>) w"

definition dyn_get_transfers_finished :: "dy_world \<Rightarrow> int" where
  "dyn_get_transfers_finished w = (if transfer_end w \<noteq> 0 then 1 else 0)"

text \<open>\<open>set_cb\<close>: the module also registers its callback with the chain, before it looks at the error.\<close>

definition dyn_request :: "kernel \<Rightarrow> (kcall \<Rightarrow> dy_world \<Rightarrow> dy_world) \<Rightarrow> (dy_world \<Rightarrow> int \<times> dy_world) \<Rightarrow> nat
    \<Rightarrow> bool \<Rightarrow> dy_world \<Rightarrow> int \<times> dy_world" where
  "dyn_request K call request n set_cb w =
     (case request (dynamic_config K (int n) w) of (error, w) \<Rightarrow>
        (error, if set_cb then call (Omap_set_dma_callback (dc_chain_id (chain w))) w else w))"

definition dyn_run :: "kernel \<Rightarrow> (kcall \<Rightarrow> dy_world \<Rightarrow> dy_world) \<Rightarrow> (dy_world \<Rightarrow> int \<times> dy_world) \<Rightarrow> nat \<Rightarrow> u32 \<Rightarrow> bool
    \<Rightarrow> (dy_world \<Rightarrow> int) \<Rightarrow> (dy_world \<Rightarrow> dy_world) \<Rightarrow> dy_world \<Rightarrow> int \<times> dy_world" where
  "dyn_run K call request n sz set_cb finished_test check w =
     (case dyn_request K call request n set_cb w of (error, w) \<Rightarrow>
        if error \<noteq> 0 then (1, set_test_passed_chain 0 w)
        else case for_or_fail (chain_add K call sz (\<lambda>i w. w)) 0 1 w of (error, w) \<Rightarrow>
          if error \<noteq> 0 then (1, w)
          else let w = w\<lparr>current_transfer := 1\<rparr>;
                   w = setup_dma_chain K call w;
                   w = snd (start_dma_chain K call w)
               in chain_poll call finished_test check w)"

definition dyn_module_exit :: "kernel \<Rightarrow> (kcall \<Rightarrow> dy_world \<Rightarrow> dy_world) \<Rightarrow> dy_world \<Rightarrow> dy_world" where
  "dyn_module_exit K call w =
     (let w = chain_give_back K call w
      in for_each (stop_dma_transfer_chain call) 0 (current_transfer w) w)"

section \<open>The four modules\<close>

definition dynamic_dma_callback_chain :: "kernel \<Rightarrow> dy_world handler" where
  "dynamic_dma_callback_chain K =
     dyn_callback K 10 1024 (\<lambda>i w. (False, unmap_phys_buffers_chain (kcall_irq K) i w))"

definition dynamic_check_test_passed :: "dy_world \<Rightarrow> dy_world" where
  "dynamic_check_test_passed = chain_check_test_passed 10"

definition dynamic_get_transfers_finished :: "dy_world \<Rightarrow> int" where
  "dynamic_get_transfers_finished = dyn_get_transfers_finished"

definition dynamic_request_dma_chain :: "kernel \<Rightarrow> (kcall \<Rightarrow> dy_world \<Rightarrow> dy_world) \<Rightarrow> dy_world \<Rightarrow> int \<times> dy_world" where
  "dynamic_request_dma_chain = request_dma_chain"

definition dynamic_module_init :: "kernel \<Rightarrow> dy_world \<Rightarrow> int \<times> dy_world" where
  "dynamic_module_init K w =
     dyn_run K (kcall_thread K (dynamic_dma_callback_chain K))
       (dynamic_request_dma_chain K (kcall_thread K (dynamic_dma_callback_chain K))) 10 1024 True
       dynamic_get_transfers_finished dynamic_check_test_passed w"

definition dynamic_module_exit :: "kernel \<Rightarrow> dy_world \<Rightarrow> dy_world" where
  "dynamic_module_exit K = dyn_module_exit K (kcall_thread K (dynamic_dma_callback_chain K))"

text \<open>The break variant frees the chain when the fourth chained transfer completes.\<close>

definition dynbreak_extra :: "kernel \<Rightarrow> nat \<Rightarrow> dy_world \<Rightarrow> bool \<times> dy_world" where
  "dynbreak_extra K i w =
     (if ct_chained_id (ct_transfers w ! i) = 3 then
        let c = Omap_stop_dma_chain_transfers (ct_chain_id (ct_transfers w ! i));
            error = kcall_ret K c w;
            w = kcall_irq K c w;
            w = (if error = 0 then set_test_passed_chain 1 w else set_test_passed_chain 0 w);
            c = Omap_free_dma_chain (dc_chain_id (chain w));
            error = kcall_ret K c w;
            w = kcall_irq K c w;
            w = (if error = 0 then set_test_passed_chain 1 w else set_test_passed_chain 0 w);
            w = ct_upd i (\<lambda>t. t\<lparr>ct_data_correct := 0, ct_finished := 0\<rparr>) w
        in (True, w\<lparr>transfer_end := 1\<rparr>)
      else (False, w))"

definition dynbreak_dma_callback_chain :: "kernel \<Rightarrow> dy_world handler" where
  "dynbreak_dma_callback_chain K = dyn_callback K 10 (1024 * 1024) (dynbreak_extra K)"

definition dynbreak_check_test_passed :: "dy_world \<Rightarrow> dy_world" where
  "dynbreak_check_test_passed w =
     (let error = (if ct_data_correct (ct_transfers w ! 3) \<noteq> 0 then 1 else 0 :: int)
      in if error = 0 then set_test_passed_chain 1 w else set_test_passed_chain 0 w)"

definition dynbreak_get_transfers_finished :: "dy_world \<Rightarrow> int" where
  "dynbreak_get_transfers_finished = dyn_get_transfers_finished"

definition dynbreak_request_dma_chain :: "kernel \<Rightarrow> (kcall \<Rightarrow> dy_world \<Rightarrow> dy_world) \<Rightarrow> dy_world \<Rightarrow> int \<times> dy_world" where
  "dynbreak_request_dma_chain = request_dma_chain"

definition dynbreak_module_init :: "kernel \<Rightarrow> dy_world \<Rightarrow> int \<times> dy_world" where
  "dynbreak_module_init K w =
     dyn_run K (kcall_thread K (dynbreak_dma_callback_chain K))
       (dynbreak_request_dma_chain K (kcall_thread K (dynbreak_dma_callback_chain K))) 10 (1024 * 1024) False
       dynbreak_get_transfers_finished dynbreak_check_test_passed w"

definition dynbreak_module_exit :: "kernel \<Rightarrow> dy_world \<Rightarrow> dy_world" where
  "dynbreak_module_exit K w = w"

definition dyninvalid_dma_callback_chain :: "kernel \<Rightarrow> dy_world handler" where
  "dyninvalid_dma_callback_chain K = dyn_callback K 40 (1024 * 1024) (\<lambda>i w. (False, w))"

definition dyninvalid_check_test_passed :: "dy_world \<Rightarrow> dy_world" where
  "dyninvalid_check_test_passed = chain_check_test_passed 40"

definition dyninvalid_get_transfers_finished :: "dy_world \<Rightarrow> int" where
  "dyninvalid_get_transfers_finished = dyn_get_transfers_finished"

definition dyninvalid_request_dma_chain :: "kernel \<Rightarrow> (kcall \<Rightarrow> dy_world \<Rightarrow> dy_world) \<Rightarrow> dy_world \<Rightarrow> int \<times> dy_world" where
  "dyninvalid_request_dma_chain = request_dma_chain"

definition dyninvalid_module_init :: "kernel \<Rightarrow> dy_world \<Rightarrow> int \<times> dy_world" where
  "dyninvalid_module_init K w =
     dyn_run K (kcall_thread K (dyninvalid_dma_callback_chain K))
       (dyninvalid_request_dma_chain K (kcall_thread K (dyninvalid_dma_callback_chain K))) 40 (1024 * 1024) False
       dyninvalid_get_transfers_finished dyninvalid_check_test_passed w"

definition dyninvalid_module_exit :: "kernel \<Rightarrow> dy_world \<Rightarrow> dy_world" where
  "dyninvalid_module_exit K = dyn_module_exit K (kcall_thread K (dyninvalid_dma_callback_chain K))"

text \<open>The removed variant links a channel of another chain at each completion.\<close>

definition dynremoved_extra :: "kernel \<Rightarrow> nat \<Rightarrow> dy_world \<Rightarrow> bool \<times> dy_world" where
  "dynremoved_extra K i w =
     (let t = ct_transfers w ! i;
          w = kcall_irq K (Omap_dma_link_lch (ct_chained_id t) (ct_chain_id t + 1)) w;
          w = (if ct_chained_id t = 3
               then set_test_passed_chain 0 (kcall_irq K (Omap_dma_unlink_lch (ct_chained_id t) (ct_chain_id t + 1)) w)
               else w)
      in (False, ct_upd i (\<lambda>t. t\<lparr>ct_data_correct := 0, ct_finished := 1\<rparr>) w))"

definition dynremoved_dma_callback_chain :: "kernel \<Rightarrow> dy_world handler" where
  "dynremoved_dma_callback_chain K = dyn_callback K 10 (1024 * 1024) (dynremoved_extra K)"

definition dynremoved_check_test_passed :: "dy_world \<Rightarrow> dy_world" where
  "dynremoved_check_test_passed = chain_check_test_passed 10"

definition dynremoved_get_transfers_finished :: "dy_world \<Rightarrow> int" where
  "dynremoved_get_transfers_finished = dyn_get_transfers_finished"

definition dynremoved_request_dma_chain :: "kernel \<Rightarrow> (kcall \<Rightarrow> dy_world \<Rightarrow> dy_world) \<Rightarrow> dy_world \<Rightarrow> int \<times> dy_world" where
  "dynremoved_request_dma_chain = request_dma_chain"

definition dynremoved_module_init :: "kernel \<Rightarrow> dy_world \<Rightarrow> int \<times> dy_world" where
  "dynremoved_module_init K w =
     dyn_run K (kcall_thread K (dynremoved_dma_callback_chain K))
       (dynremoved_request_dma_chain K (kcall_thread K (dynremoved_dma_callback_chain K))) 10 (1024 * 1024) False
       dynremoved_get_transfers_finished dynremoved_check_test_passed w"

definition dynremoved_module_exit :: "kernel \<Rightarrow> dy_world \<Rightarrow> dy_world" where
  "dynremoved_module_exit K = dyn_module_exit K (kcall_thread K (dynremoved_dma_callback_chain K))"

end
