(* ===== verification/Dma_Chain_Correct.thy ===== *)
theory Dma_Chain_Correct
  imports Dma_Chain_Static Dma_Standard
begin

text \<open>
  The properties of the static chain modules from loading to removal, and a concrete kernel on
  which they pass.
\<close>

section \<open>Rounds delivered\<close>

text \<open>
  Interrupts of transfers whose buffers are equal, all with status 0: each counts a round up to
  the maximum, and marks the transfer as correct.
\<close>

definition rounds_step :: "int \<Rightarrow> nat list \<Rightarrow> nat \<Rightarrow> chained_transfer \<Rightarrow> chained_transfer \<Rightarrow> bool" where
  "rounds_step mx ds j t t' \<longleftrightarrow> rounds t' = min mx (rounds t + int (count_list ds j)) \<and>
     ct_buffers t' = ct_buffers t \<and>
     (if j \<in> set ds \<and> rounds t < mx then ct_data_correct t' = 1 else ct_data_correct t' = ct_data_correct t)"

lemma rounds_step_Cons:
  "rounds_step mx [d] j t u \<Longrightarrow> rounds_step mx ds j u v \<Longrightarrow> rounds_step mx (d # ds) j t v"
  by (cases "j = d"; cases "j \<in> set ds") (auto simp: rounds_step_def split: if_splits)

lemma deliver_rounds:
  fixes w :: ch_world and c :: int
  assumes "\<forall>d \<in> set ds. d < length (ct_transfers w)"
    and "\<forall>j < length (ct_transfers w). round_good K (ct_bufs w j) 0 (mem w) \<and> rounds (ct_transfers w ! j) \<le> max_rounds w"
  defines "w' \<equiv> deliver (dma_callback_chain K) (map (Irq c 0) ds) w"
  shows "length (ct_transfers w') = length (ct_transfers w) \<and> max_rounds w' = max_rounds w \<and>
    (\<forall>j < length (ct_transfers w). rounds_step (max_rounds w) ds j (ct_transfers w ! j) (ct_transfers w' ! j))"
  using assms(1,2) unfolding w'_def
proof (induction ds arbitrary: w)
  case Nil
  then show ?case by (auto simp: rounds_step_def)
next
  case (Cons d ds)
  let ?w = "dma_callback_chain K c 0 d (log_ev (Interrupt c 0 d (mem w)) w)"
  have l: "length (ct_transfers ?w) = length (ct_transfers w)" "max_rounds ?w = max_rounds w" "mem ?w = mem w"
    by (simp_all add: dma_callback_chain_transfers)
  have t: "rounds_step (max_rounds w) [d] j (ct_transfers w ! j) (ct_transfers ?w ! j)"
    if "j < length (ct_transfers w)" for j
    using Cons.prems that
    by (cases "j = d") (auto simp: dma_callback_chain_transfers rounds_step_def nth_list_update)
  have "\<forall>j < length (ct_transfers ?w). round_good K (ct_bufs ?w j) 0 (mem ?w) \<and> rounds (ct_transfers ?w ! j) \<le> max_rounds ?w"
    unfolding l using t Cons.prems(2) by (auto simp: rounds_step_def)
  from Cons.IH [OF _ this] Cons.prems(1) l t show ?case
    by (auto intro: rounds_step_Cons)
qed

section \<open>The kernel\<close>

definition chain_demo :: "nat \<Rightarrow> kernel" where
  "chain_demo n = \<lparr>
     k_ret = (\<lambda>h c. case c of Kmalloc sz \<Rightarrow> 2 ^ 22 * (1 + int (min 30 (length (allocs h)))) | _ \<Rightarrow> 0),
     k_out = (\<lambda>h c. case c of Omap_request_dma_chain dev k ty ps \<Rightarrow> Some 1 | _ \<Rightarrow> None),
     k_events = (\<lambda>h. case h of Called (Mdelay t) r out # h' \<Rightarrow>
         (if chain_started h' then Device demo_copy # map (Irq 1 0) (concat (replicate 5 [0..<n])) else [])
       | _ \<Rightarrow> []),
     k_const = (\<lambda>_. 0), OMAP_DMA_BLOCK_IRQ = 32\<rparr>"

lemma chain_demo_laws: "irq_after_chain_start (chain_demo n)" "grants_chain (chain_demo n)"
proof -
  have "no_irq (k_events (chain_demo n) h)" if "\<not> chain_started h" for h
    using that by (auto simp: chain_demo_def no_irq_def split: list.splits tev.splits kcall.splits)
  then show "irq_after_chain_start (chain_demo n)" by (simp add: irq_after_chain_start_def)
  show "grants_chain (chain_demo n)" by (simp add: grants_chain_def chain_demo_def)
qed

lemma chain_demo_call:
  assumes "\<forall>t. c \<noteq> Mdelay t"
  shows "chain_kcall (chain_demo n) c w = kcall_irq (chain_demo n) c w"
  using assms by (cases c) (simp_all add: kcall_thread_def Let_def chain_demo_def)

lemma chain_demo_ret [simp]:
  "kcall_ret (chain_demo n) (Kmalloc sz) w = 2 ^ 22 * (1 + int (min 30 (length (allocs (trace w)))))"
  "kcall_ret (chain_demo n) (Omap_dma_chain_a_transfer c s d e f i) w = 0"
  "kcall_ret (chain_demo n) (Omap_request_dma_chain dev k ty ps) w = 0"
  "kcall_out (chain_demo n) (Omap_request_dma_chain dev k ty ps) w = Some 1"
  "k_const (chain_demo n) x = 0"
  by (simp_all add: kcall_ret_def kcall_out_def chain_demo_def)

text \<open>After \<open>i\<close> transfers have been added on that kernel.\<close>

definition demo_added :: "u32 \<Rightarrow> nat \<Rightarrow> nat \<Rightarrow> ch_world \<Rightarrow> bool" where
  "demo_added sz n i w \<longleftrightarrow> length (ct_transfers w) = n \<and> channel_count (chain w) = int n \<and> dc_data_type (chain w) = 0 \<and>
     max_rounds w = TRANSFER_ROUNDS \<and>
     length (allocs (trace w)) = 2 * i \<and> (\<forall>t \<in> set (ct_transfers w). rounds t = 0) \<and>
     (\<forall>j<i. src_buf (ct_bufs w j) = of_nat (2 ^ 22 * (2 * j + 1)) \<and>
        dest_buf (ct_bufs w j) = of_nat (2 ^ 22 * (2 * j + 2)) \<and> buf_size (ct_bufs w j) = sz)"

lemma demo_create:
  fixes n :: nat
  assumes "length (allocs (trace w)) = 2 * i" and "i < length (ct_transfers w)" and "i < 15"
  defines "r \<equiv> create_transfer_buffers_chain (chain_demo n) (chain_kcall (chain_demo n)) i w"
  shows "fst r = 0" "chain (snd r) = chain w" "max_rounds (snd r) = max_rounds w"
    "length (allocs (trace (snd r))) = 2 * i + 2"
    "ct_transfers (snd r) = (ct_transfers w)[i := (ct_transfers w ! i)\<lparr>ct_buffers := (ct_bufs w i)
       \<lparr>src_buf := of_nat (2 ^ 22 * (2 * i + 1)), dest_buf := of_nat (2 ^ 22 * (2 * i + 2))\<rparr>\<rparr>]"
proof -
  have nz: "(word_of_int (2 ^ 22 * (1 + int k)) :: u32) \<noteq> 0" if "k \<le> 30" for k
    by (rule word_of_int_nonzero) (use that in simp_all)
  show "fst r = 0" "chain (snd r) = chain w" "max_rounds (snd r) = max_rounds w"
    "length (allocs (trace (snd r))) = 2 * i + 2"
    "ct_transfers (snd r) = (ct_transfers w)[i := (ct_transfers w ! i)\<lparr>ct_buffers := (ct_bufs w i)
       \<lparr>src_buf := of_nat (2 ^ 22 * (2 * i + 1)), dest_buf := of_nat (2 ^ 22 * (2 * i + 2))\<rparr>\<rparr>]"
    using assms(1-3) nz [of "2 * i"] nz [of "2 * i + 1"]
    by (simp_all add: r_def create_transfer_buffers_chain_def Let_def chain_demo_call ctb_upd_def ct_upd_def)
qed

lemma demo_chain_transfer:
  fixes n :: nat and w :: ch_world
  assumes "i < length (ct_transfers w)" and "dc_data_type (chain w) = 0"
  defines "r \<equiv> chain_transfer (chain_demo n) (chain_kcall (chain_demo n)) i w"
  shows "fst r = 0" "chain (snd r) = chain w" "max_rounds (snd r) = max_rounds w"
    "allocs (trace (snd r)) = allocs (trace w)" "length (ct_transfers (snd r)) = length (ct_transfers w)"
    "j < length (ct_transfers w) \<Longrightarrow> rounds (ct_transfers (snd r) ! j) = rounds (ct_transfers w ! j) \<and>
       src_buf (ct_bufs (snd r) j) = src_buf (ct_bufs w j) \<and> dest_buf (ct_bufs (snd r) j) = dest_buf (ct_bufs w j) \<and>
       buf_size (ct_bufs (snd r) j) = buf_size (ct_bufs w j)"
  using assms(1,2)
  by (simp_all add: r_def chain_transfer_def chain_elements_def map_to_phys_buffers_chain_def Let_def
      chain_demo_call ctb_upd_def ct_upd_def nth_list_update)

lemma demo_added_step:
  assumes a: "demo_added sz n i w" and i: "i < n" "n \<le> 15"
  defines "r \<equiv> chain_add (chain_demo n) (chain_kcall (chain_demo n)) sz (\<lambda>i w. w) i w"
  shows "fst r = 0" and "demo_added sz n (Suc i) (snd r)"
proof -
  define w1 where "w1 = ctb_upd i (\<lambda>b. b\<lparr>buf_size := sz\<rparr>) w"
  define w2 where "w2 = snd (create_transfer_buffers_chain (chain_demo n) (chain_kcall (chain_demo n)) i w1)"
  define w3 where "w3 = fill_source_buffer_chain i w2"
  have 1: "length (allocs (trace w1)) = 2 * i" "i < length (ct_transfers w1)" "i < 15"
    using a i by (simp_all add: w1_def demo_added_def)
  note c = demo_create [OF this, of n, folded w2_def]
  have m1: "max_rounds w1 = max_rounds w" by (simp add: w1_def ctb_upd_def)
  have 3: "i < length (ct_transfers w3)" "dc_data_type (chain w3) = 0"
    using a i c(2,5) by (simp_all add: w3_def w1_def demo_added_def)
  note t = demo_chain_transfer [OF this, where n = n]
  have r: "r = chain_transfer (chain_demo n) (chain_kcall (chain_demo n)) i w3"
    using c(1) t(1) by (simp add: r_def chain_add_def Let_def case_prod_beta w1_def w2_def w3_def prod_eq_iff)
  show "fst r = 0" by (simp add: r t(1))
  have l: "length (ct_transfers w3) = n" using a c(5) by (simp add: w3_def w1_def demo_added_def)
  have "rounds (ct_transfers w3 ! j) = 0" if "j < n" for j
    using a i c(5) that by (auto simp: w3_def w1_def demo_added_def nth_list_update)
  then have "rounds (ct_transfers (snd r) ! j) = 0" if "j < n" for j
    using t(6) [of j] l that by (simp add: r)
  then have "\<forall>t \<in> set (ct_transfers (snd r)). rounds t = 0"
    using t(5) l by (auto simp: r in_set_conv_nth)
  moreover have "src_buf (ct_bufs (snd r) j) = of_nat (2 ^ 22 * (2 * j + 1)) \<and>
        dest_buf (ct_bufs (snd r) j) = of_nat (2 ^ 22 * (2 * j + 2)) \<and> buf_size (ct_bufs (snd r) j) = sz" if "j < Suc i" for j
    using a i c(5) that t(6) [of j] l by (auto simp: r w3_def w1_def demo_added_def nth_list_update less_Suc_eq)
  ultimately show "demo_added sz n (Suc i) (snd r)"
    using a i c(2-4) t(2-5) l m1 by (simp add: r demo_added_def w3_def) (simp add: w1_def)
qed

section \<open>The run\<close>

interpretation chain_cb_started: irq_invariant "dma_callback_chain K :: ch_world handler" "\<lambda>w. chain_started (trace w)" for K
  by unfold_locales (simp_all add: dma_callback_chain_def unmap_phys_buffers_chain_def Let_def)

definition demo_ready :: "u32 \<Rightarrow> nat \<Rightarrow> ch_world \<Rightarrow> bool" where
  "demo_ready sz n w \<longleftrightarrow> length (ct_transfers w) = n \<and> max_rounds w = TRANSFER_ROUNDS \<and> chain_started (trace w) \<and>
     (\<forall>j<n. src_buf (ct_bufs w j) = of_nat (2 ^ 22 * (2 * j + 1)) \<and> rounds (ct_transfers w ! j) \<le> TRANSFER_ROUNDS \<and>
        dest_buf (ct_bufs w j) = of_nat (2 ^ 22 * (2 * j + 2)) \<and> buf_size (ct_bufs w j) = sz)"

lemma demo_wait:
  fixes t :: nat
  assumes r: "demo_ready sz n w" and n: "n \<le> 15" and sz: "unat sz \<le> 2 ^ 22"
  defines "w' \<equiv> chain_kcall (chain_demo n) (Mdelay t) w"
  shows "demo_ready sz n w'"
    and "j < n \<Longrightarrow> rounds_step TRANSFER_ROUNDS (concat (replicate 5 [0..<n])) j (ct_transfers w ! j) (ct_transfers w' ! j)"
proof -
  let ?v = "(kcall_irq (chain_demo n) (Mdelay t) w)\<lparr>mem := demo_copy (mem w)\<rparr>"
  have w': "w' = deliver (dma_callback_chain (chain_demo n)) (map (Irq 1 0) (concat (replicate 5 [0..<n]))) ?v"
    using r by (simp add: w'_def kcall_thread_def Let_def demo_ready_def chain_demo_def)
  have l: "length (ct_transfers w) = n" "max_rounds w = TRANSFER_ROUNDS" using r by (simp_all add: demo_ready_def)
  have "\<forall>j < length (ct_transfers ?v). round_good (chain_demo n) (ct_bufs ?v j) 0 (mem ?v) \<and> rounds (ct_transfers ?v ! j) \<le> max_rounds ?v"
    using r n sz demo_copy_equal by (simp add: demo_ready_def round_good_def status_ok_def)
  from deliver_rounds [OF _ this, of "concat (replicate 5 [0..<n])" 1, folded w'] l
  have d: "length (ct_transfers w') = n" "max_rounds w' = TRANSFER_ROUNDS"
    "j < n \<Longrightarrow> rounds_step TRANSFER_ROUNDS (concat (replicate 5 [0..<n])) j (ct_transfers w ! j) (ct_transfers w' ! j)" for j
    by auto
  have "chain_started (trace w')"
    unfolding w'_def by (rule chain_cb_started.kcall_thread_inv) (use r in \<open>simp add: demo_ready_def\<close>)
  with d r show "demo_ready sz n w'" by (auto simp: demo_ready_def rounds_step_def)
  show "j < n \<Longrightarrow> rounds_step TRANSFER_ROUNDS (concat (replicate 5 [0..<n])) j (ct_transfers w ! j) (ct_transfers w' ! j)"
    by (rule d)
qed

lemma count_upt: "count_list [0..<n] j = (if j < n then 1 else 0)"
  by (induction n) auto

lemma count_rounds: "j < n \<Longrightarrow> count_list (concat (replicate k [0..<n])) j = k \<and> (0 < k \<longrightarrow> j \<in> set (concat (replicate k [0..<n])))"
  by (induction k) (auto simp: count_upt)

lemma demo_poll:
  assumes r: "demo_ready sz n w" and n: "0 < n" "n \<le> 15" and sz: "unat sz \<le> 2 ^ 22"
    and z: "\<forall>j<n. rounds (ct_transfers w ! j) = 0"
  defines "r \<equiv> chain_poll (chain_kcall (chain_demo n)) (chain_get_transfers_finished n) (chain_check_test_passed n) w"
  shows "fst r = 0 \<and> test_passed (snd r) = 1"
proof -
  define wait :: "ch_world \<Rightarrow> ch_world" where "wait = chain_kcall (chain_demo n) (Mdelay TRANSFER_POLL_TIME)"
  note w1 = demo_wait [OF r n(2) sz, where t = TRANSFER_POLL_TIME, folded wait_def]
  note w2 = demo_wait [OF w1(1) n(2) sz, where t = TRANSFER_POLL_TIME, folded wait_def]
  have 1: "rounds (ct_transfers (wait w) ! j) = TRANSFER_ROUNDS" "ct_data_correct (ct_transfers (wait w) ! j) = 1" if "j < n" for j
    using w1(2) [OF that] z that count_rounds [OF that, of 5] by (auto simp: rounds_step_def TRANSFER_ROUNDS_def split: if_splits)
  have 2: "ct_data_correct (ct_transfers (wait (wait w)) ! j) = 1" if "j < n" for j
    using w2(2) [OF that] 1 [OF that] by (auto simp: rounds_step_def split: if_splits)
  have l: "length (ct_transfers w) = n" "length (ct_transfers (wait w)) = n" "length (ct_transfers (wait (wait w))) = n"
    using r w1(1) w2(1) by (simp_all add: demo_ready_def)
  have "\<not> chain_get_transfers_finished n w \<noteq> 0"
    using z l by (auto simp: chain_get_transfers_finished_def rounds_loop_spec in_set_conv_nth TRANSFER_ROUNDS_def)
  moreover have "chain_get_transfers_finished n (wait w) \<noteq> 0"
    using 1 [OF n(1)] l n(1) unfolding chain_get_transfers_finished_def rounds_loop_spec by (metis nth_mem order_refl take_all)
  ultimately have "poll_loop (\<lambda>w. chain_get_transfers_finished n w \<noteq> 0) wait (chain_check_test_passed n) TRANSFER_POLL_COUNT w =
      (True, chain_check_test_passed n ((wait ^^ Suc 1) w))"
    by (intro poll_loop_first) (simp_all add: TRANSFER_POLL_COUNT_def)
  moreover have "test_passed (chain_check_test_passed n (wait (wait w))) = 1"
    using 2 l by (auto simp: chain_check_test_passed_def chain_data_error_spec in_set_conv_nth)
  ultimately show ?thesis by (simp add: r_def chain_poll_def wait_def [symmetric])
qed

text \<open>A static chain of up to fifteen transfers passes on this kernel.\<close>

lemma demo_static_run:
  fixes m :: memory
  assumes n: "0 < n" "n \<le> 15" and sz: "unat sz \<le> 2 ^ 22"
  defines "r \<equiv> static_run (chain_demo n) (chain_kcall (chain_demo n)) (int n) (\<lambda>w. w)
      (chain_add (chain_demo n) (chain_kcall (chain_demo n)) sz (\<lambda>i w. w))
      (chain_get_transfers_finished n) (chain_check_test_passed n) (ch_fresh n m)"
  shows "fst r = 0 \<and> test_passed (snd r) = 1"
proof -
  let ?c = "chain_kcall (chain_demo n) :: kcall \<Rightarrow> ch_world \<Rightarrow> ch_world"
  let ?q = "request_dma_chain (chain_demo n) ?c (static_config (chain_demo n) (int n) (ch_fresh n m))"
  let ?f = "for_or_fail (chain_add (chain_demo n) ?c sz (\<lambda>i w. w)) 0 n (snd ?q)"
  have q: "fst ?q = 0" "demo_added sz n 0 (snd ?q)" "channel_count (chain (snd ?q)) = int n"
    by (simp_all add: request_dma_chain_def Let_def chain_demo_call demo_added_def static_config_def set_max_rounds_def)
  have "if fst ?f = 0 then demo_added sz n (0 + n) (snd ?f) else False"
    by (rule for_or_fail_inv [where P = "demo_added sz n" and Q = "\<lambda>_. False"]) (simp_all add: demo_added_step n q(2))
  then have f: "fst ?f = 0" "demo_added sz n n (snd ?f)" by (auto split: if_splits)
  define v where "v = snd (start_dma_chain (chain_demo n) ?c (setup_dma_chain (chain_demo n) ?c (snd ?f)))"
  have v: "ct_transfers v = ct_transfers (snd ?f)" "max_rounds v = max_rounds (snd ?f)" "chain_started (trace v)"
    by (simp_all add: v_def start_dma_chain_def setup_dma_chain_def Let_def chain_demo_call)
  have "demo_ready sz n v" "\<forall>j<n. rounds (ct_transfers v ! j) = 0"
    using f(2) v by (auto simp: demo_ready_def demo_added_def TRANSFER_ROUNDS_def)
  from demo_poll [OF this(1) n sz this(2)] q(1,3) f(1) show ?thesis
    by (simp add: r_def static_run_def case_prod_beta Let_def v_def)
qed

lemma demo_static_init:
  "fst (static_module_init (chain_demo 4) (ch_fresh 4 m)) = 0"
  "test_passed (snd (static_module_init (chain_demo 4) (ch_fresh 4 m))) = 1"
  using demo_static_run [of 4 "1024 * 16" m] by (simp_all add: static_defs)

lemma demo_break_init: "fst (static_break_module_init (chain_demo 4) (ch_fresh 4 m)) = 0"
proof -
  let ?c = "chain_kcall (chain_demo 4) :: kcall \<Rightarrow> ch_world \<Rightarrow> ch_world"
  let ?q = "request_dma_chain (chain_demo 4) ?c (static_config (chain_demo 4) 4 (ch_fresh 4 m))"
  let ?f = "for_or_fail (static_break_add (chain_demo 4)) 0 4 (snd ?q)"
  have q: "fst ?q = 0" "demo_added 1048576 4 0 (snd ?q)" "channel_count (chain (snd ?q)) = 4"
    by (simp_all add: request_dma_chain_def Let_def chain_demo_call demo_added_def static_config_def set_max_rounds_def)
  have "if fst ?f = 0 then 0 + 4 < (4 :: nat) \<and> demo_added 1048576 4 (0 + 4) (snd ?f) else fst ?f = 2"
    by (rule for_or_fail_code [where P = "\<lambda>j v. j < 4 \<and> demo_added 1048576 4 j v" and Q = "\<lambda>e _. e = 2"])
      (auto simp: static_break_add_def demo_added_step Let_def q(2) split: if_splits)
  then have "fst ?f = 2" by (auto split: if_splits)
  with q(1,3) show ?thesis
    by (simp add: static_break_module_init_def static_run_def case_prod_beta)
qed

lemma static_in_modules:
  "(4, static_module_init K, static_module_exit K) \<in> set (static_modules K)"
  by (simp add: static_modules_def)

section \<open>Properties of the static chain modules\<close>

text \<open>
  C20. The verdict of the three static chain modules that verify their transfers (all but the break
  variant, which can only fail): initialisation always stores one; if it is PASSED,
  it returned 0, every transfer of the chain had a completion interrupt with an acceptable status
  that found its buffers equal, and some transfer went through all five rounds.
\<close>

theorem static_modules_verdict:
  assumes "irq_after_chain_start K" and "(n, ini, ext) \<in> set (static_modules K)"
    and "ini (ch_fresh n m) = (r, w)"
  shows "test_passed w \<in> {0, 1} \<and> (test_passed w = 1 \<longrightarrow> r = 0 \<and>
    (\<forall>i<n. good_round K (ct_bufs w i) i (trace w)) \<and>
    (\<exists>i<n. rounds (ct_transfers w ! i) = TRANSFER_ROUNDS))"
proof -
  note add = chain_setup.chain_add_I [OF chain_quiet_setup [OF assms(1)] TrueI]
  note verdict = static_run_verdict [OF assms(1) _ _ chain_add_fail]
  from assms(2) consider "n = 4" "ini = static_module_init K" | "n = 25" "ini = static_invalid_module_init K"
    | "n = 4" "ini = static_removed_module_init K" by (auto simp: static_modules_def)
  then show ?thesis
  proof cases
    case 1
    show ?thesis by (rule verdict) (use 1 assms(3) add in \<open>simp_all add: static_defs\<close>)
  next
    case 2
    show ?thesis by (rule verdict) (use 2 assms(3) add in \<open>simp_all add: static_defs\<close>)
  next
    case 3
    show ?thesis
      by (rule verdict) (use 3 assms(3) add removed_quiet [OF assms(1)] in \<open>simp_all add: static_defs\<close>)
  qed
qed

theorem static_modules_verdict_witness:
  "irq_after_chain_start (chain_demo 4) \<and>
   test_passed (snd (static_module_init (chain_demo 4) (ch_fresh 4 (\<lambda>_. 0)))) = 1 \<and>
   good_round (chain_demo 4) (ct_bufs (snd (static_module_init (chain_demo 4) (ch_fresh 4 (\<lambda>_. 0)))) 3) 3
     (trace (snd (static_module_init (chain_demo 4) (ch_fresh 4 (\<lambda>_. 0)))))"
  using static_modules_verdict [where m = "\<lambda>_. 0", OF chain_demo_laws(1) [of 4] static_in_modules prod.collapse [symmetric]]
    demo_static_init [of "\<lambda>_. 0"] chain_demo_laws(1) [of 4] by simp

lemma static_checked_release:
  assumes "grants_chain K" and "(n, ini, ext) \<in> set (static_modules K)" and "ini (ch_fresh n m) = (0, w)"
  shows "chain_balance (trace (ext w)) cid = 0 \<and> (a \<noteq> 0 \<longrightarrow> alloc_balance (trace (ext w)) a = 0)"
proof -
  note built = chain_call.static_run_built [OF assms(1)]
  from assms(2) consider "n = 4" "ini = static_module_init K" "ext = static_module_exit K"
    | "n = 25" "ini = static_invalid_module_init K" "ext = static_invalid_module_exit K"
    | "n = 4" "ini = static_removed_module_init K" "ext = static_removed_module_exit K"
    by (auto simp: static_modules_def)
  then have b: "chain_built K n n w"
  proof cases
    case 1
    show ?thesis by (rule built [of "ch_fresh n m"]) (use 1 assms(3) view_step_id in \<open>simp_all add: static_defs\<close>)
  next
    case 2
    show ?thesis by (rule built [of "ch_fresh n m"]) (use 2 assms(3) view_step_id in \<open>simp_all add: static_defs\<close>)
  next
    case 3
    show ?thesis
      by (rule built [of "ch_fresh n m"]) (use 3 assms(3) removed_view_steps in \<open>simp_all add: static_defs\<close>)
  qed
  have ext: "ext = chain_module_exit K (chain_kcall K)"
    using assms(2) by (auto simp: static_modules_def static_defs)
  show ?thesis
    using b unfolding ext by (simp add: chain_built_def chain_call.chain_exit_effect)
qed

text \<open>
  The module that breaks its chain can never report PASSED: the fourth element of the chain is
  never added, the chain is freed instead, and the verdict is FAILED on every path. When it was
  built that far, initialisation returns 0 and leaves the chain marked as requested, so the exit
  function frees it a second time.
\<close>

lemma static_break_effect:
  assumes "grants_chain K" and "static_break_module_init K (ch_fresh 4 m) = (r, w)"
  shows "test_passed w = 0 \<and> (r = 0 \<longrightarrow>
    (\<forall>cid. chain_balance (trace (static_break_module_exit K w)) cid = (if cid = dc_chain_id (chain w) then - 1 else 0)) \<and>
    (\<forall>a. a \<noteq> 0 \<longrightarrow> alloc_balance (trace (static_break_module_exit K w)) a = 0))"
proof -
  let ?c = "chain_kcall K :: kcall \<Rightarrow> ch_world \<Rightarrow> ch_world"
  define w1 where "w1 = snd (request_dma_chain K ?c (static_config K 4 (ch_fresh 4 m)))"
  let ?f = "for_or_fail (static_break_add K) 0 4 w1"
  let ?Q = "\<lambda>e v. test_passed v = 0 \<and> (e = 2 \<longrightarrow> length (ct_transfers v) = 4 \<and> channel_count (chain v) = 4 \<and>
    dc_request_success (chain v) \<noteq> 0 \<and> (\<forall>cid. chain_balance (trace v) cid = 0) \<and>
    (\<forall>a. a \<noteq> 0 \<longrightarrow> alloc_balance (trace v) a = own_ct (ct_transfers v) a))"
  show ?thesis
  proof (cases "fst (request_dma_chain K ?c (static_config K 4 (ch_fresh 4 m))) = 0")
    case False
    with assms(2) show ?thesis
      by (auto simp: static_break_module_init_def static_run_def split: prod.splits)
  next
    case True
    have b: "chain_built K 4 0 w1"
      using chain_call.request_built [OF assms(1), of "ch_fresh 4 m" 4] True by (simp add: w1_def)
    have "if fst ?f = 0 then 0 + 4 < (4 :: nat) \<and> chain_built K 4 (0 + 4) (snd ?f) else ?Q (fst ?f) (snd ?f)"
    proof (rule for_or_fail_code)
      fix j and v :: ch_world
      assume "j < 0 + 4" "j < 4 \<and> chain_built K 4 j v" and z: "fst (static_break_add K j v) = 0"
      then show "Suc j < 4 \<and> chain_built K 4 (Suc j) (snd (static_break_add K j v))"
        using chain_call.chain_add_built [of K 4 j v "\<lambda>_ w. w", OF _ _ view_step_id]
        by (auto simp: static_break_add_def Let_def split: if_splits)
    next
      fix j and v :: ch_world
      assume "j < 4 \<and> chain_built K 4 j v" and "fst (static_break_add K j v) \<noteq> 0"
      then show "?Q (fst (static_break_add K j v)) (snd (static_break_add K j v))"
        by (cases "j = 3") (auto simp: static_break_add_def Let_def chain_built_def chain_add_fail,
            auto simp: chain_add_def Let_def split: prod.splits if_splits)
    qed (simp add: b)
    then have q: "fst ?f \<noteq> 0" "?Q (fst ?f) (snd ?f)" by (auto split: if_splits)
    have k: "nat (channel_count (chain w1)) = 4" using b by (simp add: chain_built_def)
    have w: "w = snd ?f" "r = 0 \<Longrightarrow> fst ?f = 2"
      using assms(2) True q(1)
      by (auto simp: static_break_module_init_def static_run_def Let_def case_prod_beta k w1_def [symmetric] split: if_splits)
    show ?thesis
      using q(2) w chain_call.chain_exit_effect [where K = K and w = w and n = 4]
      by (auto simp: static_break_module_exit_def)
  qed
qed

theorem static_break_double_free:
  assumes "grants_chain K" and "static_break_module_init K (ch_fresh 4 m) = (r, w)"
  shows "test_passed w = 0 \<and> (r = 0 \<longrightarrow>
    chain_balance (trace (static_break_module_exit K w)) (dc_chain_id (chain w)) = - 1)"
  using static_break_effect [OF assms] by simp

theorem static_break_double_free_witness:
  "grants_chain (chain_demo 4) \<and> fst (static_break_module_init (chain_demo 4) (ch_fresh 4 (\<lambda>_. 0))) = 0 \<and>
   chain_balance (trace (static_break_module_exit (chain_demo 4)
     (snd (static_break_module_init (chain_demo 4) (ch_fresh 4 (\<lambda>_. 0))))))
     (dc_chain_id (chain (snd (static_break_module_init (chain_demo 4) (ch_fresh 4 (\<lambda>_. 0)))))) = - 1"
  using static_break_double_free [where m = "\<lambda>_. 0", OF chain_demo_laws(2) [of 4] prod.collapse [symmetric]]
    demo_break_init [of "\<lambda>_. 0"] chain_demo_laws(2) [of 4] by simp

text \<open>
  C27. What the four static chain modules give back: when initialisation returns 0, then after the exit
  function every buffer has been freed as often as it was allocated, and the chain exactly as often as
  it was requested, except in the module that breaks its chain, which frees it once more.
\<close>

theorem static_modules_release:
  assumes "grants_chain K" and "ini (ch_fresh n m) = (0, w)"
    and "(n, ini, ext, again) \<in> set ((4, static_break_module_init K, static_break_module_exit K, 1) #
      map (\<lambda>(n, ini, ext). (n, ini, ext, 0)) (static_modules K))"
  shows "chain_balance (trace (ext w)) cid = (if cid = dc_chain_id (chain w) then - again else 0) \<and>
    (a \<noteq> 0 \<longrightarrow> alloc_balance (trace (ext w)) a = 0)"
proof (cases "(n, ini, ext) \<in> set (static_modules K) \<and> again = 0")
  case True
  then show ?thesis using static_checked_release [OF assms(1) conjunct1 [OF True] assms(2)] by simp
next
  case False
  then have "n = 4" "ini = static_break_module_init K" "ext = static_break_module_exit K" "again = 1"
    using assms(3) by auto
  then show ?thesis using static_break_effect [OF assms(1)] assms(2) by simp
qed

theorem static_modules_release_witness:
  "grants_chain (chain_demo 4) \<and>
   chain_balance (trace (static_module_exit (chain_demo 4)
     (snd (static_module_init (chain_demo 4) (ch_fresh 4 (\<lambda>_. 0)))))) 1 = 0 \<and>
   alloc_balance (trace (static_module_exit (chain_demo 4)
     (snd (static_module_init (chain_demo 4) (ch_fresh 4 (\<lambda>_. 0)))))) 4194304 = 0 \<and>
   alloc_balance (trace (static_break_module_exit (chain_demo 4)
     (snd (static_break_module_init (chain_demo 4) (ch_fresh 4 (\<lambda>_. 0)))))) 4194304 = 0"
proof -
  let ?w = "snd (static_module_init (chain_demo 4) (ch_fresh 4 (\<lambda>_. 0)))"
    and ?v = "snd (static_break_module_init (chain_demo 4) (ch_fresh 4 (\<lambda>_. 0)))"
  have w: "static_module_init (chain_demo 4) (ch_fresh 4 (\<lambda>_. 0)) = (0, ?w)"
    "static_break_module_init (chain_demo 4) (ch_fresh 4 (\<lambda>_. 0)) = (0, ?v)"
    using demo_static_init [of "\<lambda>_. 0"] demo_break_init [of "\<lambda>_. 0"] by (simp_all add: prod_eq_iff)
  have m: "(4, static_module_init (chain_demo 4), static_module_exit (chain_demo 4), 0) \<in>
      set ((4, static_break_module_init (chain_demo 4), static_break_module_exit (chain_demo 4), 1) #
        map (\<lambda>(n, ini, ext). (n, ini, ext, 0)) (static_modules (chain_demo 4)))"
    using static_in_modules [of "chain_demo 4"] by force
  show ?thesis
    using static_modules_release [where cid = 1 and a = 4194304 and m = "\<lambda>_. 0" and
        ini = "static_module_init (chain_demo 4)", OF chain_demo_laws(2) [of 4] w(1) m]
      static_modules_release [where n = 4 and again = 1 and a = 4194304 and m = "\<lambda>_. 0" and
        ini = "static_break_module_init (chain_demo 4)" and ext = "static_break_module_exit (chain_demo 4)", OF chain_demo_laws(2) [of 4] w(2)]
      chain_demo_laws(2) [of 4]
    by simp
qed

text \<open>
  Type invariant of the chain modules: whatever the kernel answers and whenever callbacks run,
  after initialisation and after the exit function every transfer has flags in the range 0 to 1
  and a round counter between 0 and the maximum of five.
\<close>

theorem static_modules_wf:
  assumes "(n, ini, ext) \<in> set ((4, static_break_module_init K, static_break_module_exit K) # static_modules K)"
  shows "list_all (ct_wf TRANSFER_ROUNDS) (ct_transfers (snd (ini (ch_fresh n m)))) \<and>
    list_all (ct_wf TRANSFER_ROUNDS) (ct_transfers (ext (snd (ini (ch_fresh n m)))))"
proof -
  have run: "chain_wf (snd (static_run K (chain_kcall K) n prelude add fin (chain_check_test_passed k) (ch_fresh j m)))"
    if "\<And>w. chain_wf w \<Longrightarrow> chain_wf (prelude w)" "\<And>i w. chain_wf w \<Longrightarrow> chain_wf (snd (add i w))"
    for n prelude add fin k j
    by (rule wf_setup.static_run_keeps)
      (simp_all add: that chain_wf_call chain_check_test_passed_def Let_def,
        simp add: chain_wf_def static_config_def set_max_rounds_def ct_wf_def TRANSFER_ROUNDS_def list_all_length
          zero_chained_def)
  have add: "chain_wf (snd (chain_add K (chain_kcall K) sz between i w))"
    if "chain_wf w" "\<And>i w. chain_wf w \<Longrightarrow> chain_wf (between i w)" for sz between i w
    using that by (simp add: wf_setup.chain_add_I)
  have wf: "chain_wf (snd (ini (ch_fresh n m)))"
    using assms
    by (auto simp: static_modules_def static_defs static_break_module_init_def
        static_break_check_test_passed_def static_break_add_def static_removed_link_def
        static_removed_unlink_def Let_def intro!: run add chain_wf_call)
  have ext: "ext = chain_module_exit K (chain_kcall K)"
    using assms by (auto simp: static_modules_def static_defs static_break_module_exit_def)
  show ?thesis
    using wf chain_exit_wf [OF wf, of K] unfolding ext by (simp add: chain_wf_def)
qed

theorem static_modules_wf_witness:
  "list_all (ct_wf TRANSFER_ROUNDS) (ct_transfers (snd (static_module_init (chain_demo 4) (ch_fresh 4 (\<lambda>_. 0)))))"
  using static_modules_wf [where m = "\<lambda>_. 0" and K = "chain_demo 4"] static_in_modules by fastforce

end
