(* ===== verification/Dma_Chain_Dynamic_Correct.thy ===== *)
theory Dma_Chain_Dynamic_Correct
  imports Dma_Chain_Dynamic Dma_Chain_Correct
begin

text \<open>
  The properties of the dynamic chain modules: what the verdict PASSED rests on, and the bounds of
  the index \<^verbatim>\<open>current_transfer\<close>. The invariant is proved once for a callback of the common shape (locale
  \<open>dyn_variant\<close>) and holds for the four modules by interpretation.
\<close>

section \<open>What PASSED rests on\<close>

text \<open>
  The driver calls back with the data pointer of a transfer it has accepted before. This is a condition
  on the history of a run, which a property that needs it names.
\<close>

fun handed :: "nat \<Rightarrow> history \<Rightarrow> bool" where
  "handed i [] = False"
| "handed i (Called (Omap_dma_chain_a_transfer cid s d n f j) r out # h) = (j = i \<and> r = 0 \<or> handed i h)"
| "handed i (e # h) = handed i h"

fun irqs_handed :: "history \<Rightarrow> bool" where
  "irqs_handed [] = True"
| "irqs_handed (Called c r out # h) = irqs_handed h"
| "irqs_handed (Interrupt lch st d m # h) = (handed d h \<and> irqs_handed h)"

text \<open>
  The interrupts of the first \<open>c\<close> transfers that had an acceptable status and found the buffers
  \<open>B\<close> of their transfer equal.
\<close>

fun good_irqs :: "kernel \<Rightarrow> nat \<Rightarrow> (nat \<Rightarrow> dma_buffers_info) \<Rightarrow> history \<Rightarrow> nat" where
  "good_irqs K c B [] = 0"
| "good_irqs K c B (Called x r out # h) = good_irqs K c B h"
| "good_irqs K c B (Interrupt lch st d m # h) = (if d < c \<and> round_good K (B d) st m then 1 else 0) + good_irqs K c B h"

lemma good_irqs_mono:
  assumes "c \<le> c'" and "\<And>d. d < c \<Longrightarrow> B' d = B d"
  shows "good_irqs K c B h \<le> good_irqs K c' B' h"
  using assms by (induction h rule: good_irqs.induct [of _ K c B]) (auto simp: trans_le_add2)

text \<open>A step that keeps the bookkeeping of the transfers below \<open>current_transfer\<close>.\<close>

definition dyn_frame :: "dy_world \<Rightarrow> dy_world \<Rightarrow> bool" where
  "dyn_frame w w' \<longleftrightarrow> length (ct_transfers w') = length (ct_transfers w) \<and> current_transfer w' = current_transfer w \<and>
     (\<forall>j < current_transfer w. ct_bufs w' j = ct_bufs w j) \<and>
     (\<forall>j. ct_data_correct (ct_transfers w' ! j) \<in> {ct_data_correct (ct_transfers w ! j), 0}) \<and>
     irq_ids (trace w') = irq_ids (trace w) \<and> irqs_handed (trace w') = irqs_handed (trace w) \<and>
     (\<forall>K c B. good_irqs K c B (trace w') = good_irqs K c B (trace w))"

definition handed_sub :: "dy_world \<Rightarrow> dy_world \<Rightarrow> bool" where
  "handed_sub w w' \<longleftrightarrow> (\<forall>j. handed j (trace w') \<longrightarrow> handed j (trace w))"

lemma dyn_frame_trans: "dyn_frame u v \<Longrightarrow> dyn_frame v w \<Longrightarrow> dyn_frame u w"
  unfolding dyn_frame_def by (elim conjE, intro conjI) (simp_all, metis)

lemma handed_sub_trans: "handed_sub u v \<Longrightarrow> handed_sub v w \<Longrightarrow> handed_sub u w"
  by (simp add: handed_sub_def)

lemma dy_upd_simps [simp]:
  "current_transfer (ct_upd i f w) = current_transfer w" "transfer_end (ct_upd i f w) = transfer_end w"
  "current_transfer (kcall_irq K c w) = current_transfer w" "transfer_end (kcall_irq K c w) = transfer_end w"
  "current_transfer (log_ev e w) = current_transfer w" "transfer_end (log_ev e w) = transfer_end w"
  "current_transfer (dc_upd g w) = current_transfer w" "transfer_end (dc_upd g w) = transfer_end w"
  "current_transfer (set_test_passed_chain p w) = current_transfer w"
  "transfer_end (set_test_passed_chain p w) = transfer_end w"
  "current_transfer (ctb_upd i g2 w) = current_transfer w" "transfer_end (ctb_upd i g2 w) = transfer_end w"
  "current_transfer (fill_source_buffer_chain i w) = current_transfer w"
  "transfer_end (fill_source_buffer_chain i w) = transfer_end w"
  by (simp_all add: ct_upd_def ctb_upd_def kcall_irq_def log_ev_def dc_upd_def set_test_passed_chain_def
      fill_source_buffer_chain_def)

lemma nth_upd_data:
  assumes "i < length ts"
  shows "ct_data_correct (ts[i := t] ! j) = (if j = i then ct_data_correct t else ct_data_correct (ts ! j))"
  using assms by (simp add: nth_list_update)

named_theorems frame_intros \<open>steps that keep the bookkeeping\<close>

lemma dyn_frame_refl [frame_intros]: "dyn_frame w w"
  by (simp add: dyn_frame_def)

lemma dyn_frame_steps [frame_intros]:
  assumes "dyn_frame w v"
  shows "dyn_frame w (kcall_irq K c v)" "dyn_frame w (v\<lparr>chained_id := x\<rparr>)" "dyn_frame w (v\<lparr>transfer_end := y\<rparr>)"
    "dyn_frame w (set_test_passed_chain p v)" "dyn_frame w (fill_source_buffer_chain i v)"
  using assms by (simp_all add: dyn_frame_def)

lemma dyn_frame_upd [frame_intros]:
  assumes "dyn_frame w v" and "\<And>t. ct_data_correct (f t) \<in> {ct_data_correct t, 0}"
    and "i < current_transfer w \<Longrightarrow> (\<And>t. ct_buffers (f t) = ct_buffers t)"
  shows "dyn_frame w (ct_upd i f v)"
proof (cases "i < length (ct_transfers v)")
  case True
  then have "ct_data_correct ((ct_transfers v)[i := f (ct_transfers v ! i)] ! j) \<in> {ct_data_correct (ct_transfers v ! j), 0}" for j
    using assms(2) by (simp add: nth_upd_data)
  moreover have "ct_buffers ((ct_transfers v)[i := f (ct_transfers v ! i)] ! j) = ct_buffers (ct_transfers v ! j)"
    if "j < current_transfer w" for j
    using assms(3) that True by (cases "j = i") auto
  ultimately show ?thesis using assms(1) unfolding dyn_frame_def by (simp, metis)
next
  case False
  then have "ct_upd i f v = v" by (simp add: ct_upd_def list_update_beyond)
  with assms(1) show ?thesis by simp
qed

lemma dyn_frame_bufs [frame_intros]:
  "dyn_frame w v \<Longrightarrow> current_transfer w \<le> i \<Longrightarrow> dyn_frame w (ctb_upd i f v)"
  unfolding ctb_upd_def by (rule dyn_frame_upd) simp_all

lemma create_dyn_frame [frame_intros]:
  "dyn_frame w v \<Longrightarrow> current_transfer w \<le> i \<Longrightarrow> dyn_frame w (snd (create_transfer_buffers_chain K (kcall_irq K) i v))"
  unfolding create_transfer_buffers_chain_def Let_def
  by (simp only: if_distrib [of snd] snd_conv if_cancel) (intro frame_intros)

lemma map_dyn_frame [frame_intros]:
  "dyn_frame w v \<Longrightarrow> current_transfer w \<le> i \<Longrightarrow> dyn_frame w (map_to_phys_buffers_chain K (kcall_irq K) i v)"
  unfolding map_to_phys_buffers_chain_def Let_def by (intro frame_intros)

lemma let_keep: "Q t \<Longrightarrow> (\<And>x. Q x \<Longrightarrow> P (f x)) \<Longrightarrow> P (Let t f)"
  by simp

lemma chain_transfer_dyn_frame [frame_intros]:
  assumes "dyn_frame w v" and "current_transfer w \<le> i"
  shows "dyn_frame w (snd (chain_transfer K (kcall_irq K) i v))"
proof -
  have upd: "dyn_frame w (ct_upd i f u)"
    if "dyn_frame w u" "\<And>t. ct_data_correct (f t) \<in> {ct_data_correct t, 0}" for f u
    using that assms(2) by (intro dyn_frame_upd) simp_all
  note keep = let_keep [where Q = "dyn_frame w" and P = "\<lambda>r. dyn_frame w (snd r)"]
  show ?thesis
    unfolding chain_transfer_def
    apply (rule keep, rule upd, rule assms, simp)
    apply (split option.split, intro conjI allI impI, simp)
    apply (rule keep, rule upd, assumption, simp)
    apply (rule keep, rule map_dyn_frame, assumption, rule assms)
    apply (rule keep, rule upd, assumption, simp)
    apply (rule keep, rule dyn_frame_steps, assumption)
    apply (rule keep, rule upd, assumption, simp)
    by (simp add: Let_def dyn_frame_steps upd)
qed

lemma create_handed: "handed_sub w (snd (create_transfer_buffers_chain K (kcall_irq K) i w))"
  by (simp add: create_transfer_buffers_chain_def Let_def handed_sub_def)

lemma chain_transfer_handed:
  fixes K :: kernel and i :: nat and w :: dy_world
  defines "w' \<equiv> snd (chain_transfer K (kcall_irq K) i w)"
  shows "fst (chain_transfer K (kcall_irq K) i w) \<noteq> 0 \<Longrightarrow> handed_sub w w'"
    "handed j (trace w') \<Longrightarrow> handed j (trace w) \<or> j = i"
proof -
  let ?Q = "\<lambda>v :: dy_world. \<forall>j. handed j (trace v) = handed j (trace w)"
  let ?P = "\<lambda>r :: int \<times> dy_world. (fst r \<noteq> 0 \<longrightarrow> handed_sub w (snd r)) \<and>
    (\<forall>j. handed j (trace (snd r)) \<longrightarrow> handed j (trace w) \<or> j = i)"
  note keep = let_keep [where Q = ?Q and P = ?P]
  have m: "?Q (map_to_phys_buffers_chain K (kcall_irq K) i v)" if "?Q v" for v
    using that by (simp add: map_to_phys_buffers_chain_def Let_def)
  have "?P (chain_transfer K (kcall_irq K) i w)"
    unfolding chain_transfer_def
    apply (rule keep, simp)
    apply (split option.split, rule conjI, rule impI, simp)
    apply (rule allI, rule impI)
    apply (rule keep, simp)
    apply (rule keep, rule m, simp)
    apply (rule keep, simp)
    apply (rule keep, simp)
    apply (rule keep, simp)
    by (simp add: Let_def handed_sub_def)
  then show "fst (chain_transfer K (kcall_irq K) i w) \<noteq> 0 \<Longrightarrow> handed_sub w w'"
    "handed j (trace w') \<Longrightarrow> handed j (trace w) \<or> j = i"
    by (simp_all add: w'_def)
qed

section \<open>The invariant\<close>

text \<open>
  The driver holds only transfers below \<open>current_transfer\<close>; only those are marked correct, and only
  after an interrupt; and there have been at least \<open>current_transfer - 1\<close> good interrupts.
\<close>

definition dyn_core :: "kernel \<Rightarrow> nat \<Rightarrow> dy_world \<Rightarrow> bool" where
  "dyn_core K n w \<longleftrightarrow> length (ct_transfers w) = n \<and> 1 \<le> current_transfer w \<and> current_transfer w \<le> n \<and>
     (\<forall>i<n. ct_data_correct (ct_transfers w ! i) \<noteq> 0 \<longrightarrow> i < current_transfer w \<and> i \<in> set (irq_ids (trace w))) \<and>
     current_transfer w \<le> 1 + good_irqs K (current_transfer w) (ct_bufs w) (trace w)"

definition handed_below :: "dy_world \<Rightarrow> bool" where
  "handed_below w \<longleftrightarrow> (\<forall>i. handed i (trace w) \<longrightarrow> i < current_transfer w)"

lemma dyn_core_frame:
  assumes "dyn_core K n w" and f: "dyn_frame w w'"
  shows "dyn_core K n w'"
proof -
  have "good_irqs K (current_transfer w) (ct_bufs w) (trace w) \<le> good_irqs K (current_transfer w') (ct_bufs w') (trace w')"
    using f good_irqs_mono [of "current_transfer w" "current_transfer w'" "ct_bufs w'" "ct_bufs w"]
    by (simp add: dyn_frame_def)
  moreover have "ct_data_correct (ct_transfers w ! i) \<noteq> 0" if "ct_data_correct (ct_transfers w' ! i) \<noteq> 0" for i
    using f that unfolding dyn_frame_def by (metis insertE singletonD)
  ultimately show ?thesis using assms by (auto simp: dyn_core_def dyn_frame_def)
qed

lemma handed_below_sub:
  "handed_below w \<Longrightarrow> handed_sub w w' \<Longrightarrow> current_transfer w' = current_transfer w \<Longrightarrow> handed_below w'"
  by (simp add: handed_below_def handed_sub_def)

lemma dyn_link_inv:
  assumes c: "dyn_core K n w" and h: "handed_below w" and i: "i < current_transfer w" "i \<in> set (irq_ids (trace w))"
    and cur: "current_transfer w < n" and g: "current_transfer w \<le> good_irqs K (current_transfer w) (ct_bufs w) (trace w)"
  shows "dyn_core K n (dyn_link K sz i w) \<and> handed_below (dyn_link K sz i w)"
proof -
  let ?c = "current_transfer w"
  define w1 where "w1 = snd (create_transfer_buffers_chain K (kcall_irq K) ?c (ctb_upd ?c (\<lambda>b. b\<lparr>buf_size := sz\<rparr>) w))"
  define w2 where "w2 = fill_source_buffer_chain ?c w1"
  define w3 where "w3 = snd (chain_transfer K (kcall_irq K) ?c w2)"
  have f1: "dyn_frame w w1" unfolding w1_def by (intro frame_intros) simp_all
  then have f2: "dyn_frame w w2" unfolding w2_def by (rule dyn_frame_steps)
  then have f3: "dyn_frame w w3" unfolding w3_def by (rule chain_transfer_dyn_frame) simp
  have h1: "handed_sub w w1" using create_handed [of "ctb_upd ?c (\<lambda>b. b\<lparr>buf_size := sz\<rparr>) w"]
    by (simp add: handed_sub_def w1_def)
  then have h2: "handed_sub w w2" by (simp add: handed_sub_def w2_def)
  have c': "current_transfer w1 = ?c" "current_transfer w3 = ?c" "length (ct_transfers w3) = n"
    using f1 f3 c by (simp_all add: dyn_frame_def dyn_core_def)
  let ?w4 = "ct_upd i (\<lambda>t. t\<lparr>ct_data_correct := 1\<rparr>) (w3\<lparr>current_transfer := ?c + 1\<rparr>)"
  consider (create) "dyn_link K sz i w = w1\<lparr>transfer_end := 1\<rparr>"
    | (chain) "dyn_link K sz i w = w3\<lparr>transfer_end := 1\<rparr>" "fst (chain_transfer K (kcall_irq K) ?c w2) \<noteq> 0"
    | (ok) "dyn_link K sz i w = ?w4"
    by (cases "fst (create_transfer_buffers_chain K (kcall_irq K) ?c (ctb_upd ?c (\<lambda>b. b\<lparr>buf_size := sz\<rparr>) w)) = 0";
        cases "fst (chain_transfer K (kcall_irq K) ?c w2) = 0")
      (simp_all add: dyn_link_def Let_def case_prod_beta w1_def w2_def w3_def)
  then show ?thesis
  proof cases
    case create
    have "dyn_frame w (w1\<lparr>transfer_end := 1\<rparr>)" using f1 by (rule dyn_frame_steps)
    from dyn_core_frame [OF c this] handed_below_sub [OF h h1] c'(1) show ?thesis
      unfolding create by (simp add: handed_below_def)
  next
    case chain
    have "dyn_frame w (w3\<lparr>transfer_end := 1\<rparr>)" using f3 by (rule dyn_frame_steps)
    from dyn_core_frame [OF c this] chain_transfer_handed(1) [OF chain(2)] h h2 c'(2) show ?thesis
      unfolding chain(1) by (simp add: handed_below_def handed_sub_def w3_def)
  next
    case ok
    have "handed j (trace w3) \<Longrightarrow> j < Suc ?c" for j
      using chain_transfer_handed(2) [of j K ?c w2] h h2 by (auto simp: handed_below_def handed_sub_def w3_def less_Suc_eq)
    moreover have "Suc ?c \<le> 1 + good_irqs K (Suc ?c) (ct_bufs ?w4) (trace w3)"
    proof -
      have "ct_bufs ?w4 d = ct_bufs w d" if "d < ?c" for d
        using f3 that i(1) cur c'(3) by (cases "d = i") (auto simp: dyn_frame_def)
      then have "good_irqs K ?c (ct_bufs w) (trace w) \<le> good_irqs K (Suc ?c) (ct_bufs ?w4) (trace w)"
        by (intro good_irqs_mono) simp_all
      with g f3 show ?thesis by (simp add: dyn_frame_def)
    qed
    moreover have "j < Suc ?c \<and> j \<in> set (irq_ids (trace w3))"
      if "j < n" "ct_data_correct (ct_transfers ?w4 ! j) \<noteq> 0" for j
    proof (cases "j = i")
      case True
      with i f3 show ?thesis by (simp add: dyn_frame_def)
    next
      case False
      with that have "ct_data_correct (ct_transfers w3 ! j) \<noteq> 0" by simp
      with f3 have "ct_data_correct (ct_transfers w ! j) \<noteq> 0" unfolding dyn_frame_def by (metis insertE singletonD)
      with c that(1) f3 show ?thesis by (auto simp: dyn_core_def dyn_frame_def)
    qed
    ultimately show ?thesis
      unfolding ok using cur c'(3) by (auto simp: dyn_core_def handed_below_def)
  qed
qed

definition dyn_inv :: "kernel \<Rightarrow> nat \<Rightarrow> dy_world \<Rightarrow> bool" where
  "dyn_inv K n w \<longleftrightarrow> dyn_core K n w \<and> handed_below w"

text \<open>What the variants do between the flags and the verification keeps the bookkeeping.\<close>

definition extra_ok :: "(nat \<Rightarrow> dy_world \<Rightarrow> bool \<times> dy_world) \<Rightarrow> bool" where
  "extra_ok extra \<longleftrightarrow> (\<forall>i w. dyn_frame w (snd (extra i w)) \<and> handed_sub w (snd (extra i w)) \<and> mem (snd (extra i w)) = mem w)"

lemma extra_okD:
  assumes "extra_ok extra"
  shows "dyn_frame w (snd (extra i w))" "handed_sub w (snd (extra i w))" "mem (snd (extra i w)) = mem w"
  using assms by (simp_all add: extra_ok_def)

lemma extras_ok:
  "extra_ok (\<lambda>i w. (False, unmap_phys_buffers_chain (kcall_irq K) i w))" "extra_ok (\<lambda>i w. (False, w))"
  "extra_ok (dynbreak_extra K)" "extra_ok (dynremoved_extra K)"
proof -
  have u: "dyn_frame w (unmap_phys_buffers_chain (kcall_irq K) i w)" for i w
    unfolding unmap_phys_buffers_chain_def Let_def by (intro frame_intros)
  show "extra_ok (\<lambda>i w. (False, unmap_phys_buffers_chain (kcall_irq K) i w))"
    using u by (simp add: extra_ok_def handed_sub_def unmap_phys_buffers_chain_def Let_def)
  show "extra_ok (\<lambda>i w. (False, w))" by (simp add: extra_ok_def handed_sub_def dyn_frame_refl)
  have "dyn_frame w (snd (dynbreak_extra K i w))" for i w
    by (simp add: dynbreak_extra_def Let_def dyn_frame_steps dyn_frame_upd dyn_frame_refl)
  then show "extra_ok (dynbreak_extra K)"
    by (simp add: extra_ok_def handed_sub_def dynbreak_extra_def Let_def)
  have "dyn_frame w (snd (dynremoved_extra K i w))" for i w
    by (simp add: dynremoved_extra_def Let_def dyn_frame_steps dyn_frame_upd dyn_frame_refl)
  then show "extra_ok (dynremoved_extra K)"
    by (simp add: extra_ok_def handed_sub_def dynremoved_extra_def Let_def)
qed

lemma dyn_frame_current: "dyn_frame w w' \<Longrightarrow> current_transfer w' = current_transfer w"
  by (simp add: dyn_frame_def)

lemma dyn_inv_frame: "dyn_inv K n w \<Longrightarrow> dyn_frame w w' \<Longrightarrow> handed_sub w w' \<Longrightarrow> dyn_inv K n w'"
  unfolding dyn_inv_def by (blast intro: dyn_core_frame handed_below_sub dyn_frame_current)

lemma dyn_inv_end [simp]: "dyn_inv K n (w\<lparr>transfer_end := x\<rparr>) = dyn_inv K n w"
  by (simp add: dyn_inv_def dyn_core_def handed_below_def)

lemma dyn_inv_log:
  assumes "dyn_inv K n w"
  shows "dyn_inv K n (log_ev (Interrupt lch st d m) w)"
  using assms by (auto simp: dyn_inv_def dyn_core_def handed_below_def)

lemma dyn_callback_inv:
  assumes inv: "dyn_inv K n w" and e: "extra_ok extra" and hd: "handed d (trace w)"
  shows "dyn_inv K n (dyn_callback K n sz extra lch st d (log_ev (Interrupt lch st d (mem w)) w))"
proof -
  define w0 where "w0 = log_ev (Interrupt lch st d (mem w)) w"
  have i0: "dyn_inv K n w0" unfolding w0_def by (rule dyn_inv_log) (rule inv)
  then have l: "length (ct_transfers w0) = n" by (simp add: dyn_inv_def dyn_core_def)
  define w1 where "w1 = ct_upd d (\<lambda>t. t\<lparr>ct_data_correct := 0, ct_finished := 1\<rparr>) w0"
  define w2 where "w2 = snd (extra d w1)"
  have f1: "dyn_frame w0 w1" unfolding w1_def by (intro frame_intros) simp_all
  have f2: "dyn_frame w0 w2" using dyn_frame_trans [OF f1 extra_okD(1) [OF e]] by (simp add: w2_def)
  have h2: "handed_sub w0 w2" using extra_okD(2) [OF e, of w1 d] by (simp add: handed_sub_def w2_def w1_def)
  have m2: "mem w2 = mem w" using extra_okD(3) [OF e] by (simp add: w2_def w1_def w0_def)
  have i2: "dyn_inv K n w2" using i0 f2 h2 by (rule dyn_inv_frame)
  show ?thesis
  proof (cases "d < length (ct_transfers w0)")
    case False
    then show ?thesis unfolding w0_def [symmetric] using i0 by (simp only: dyn_callback_def if_False)
  next
    case True
    have d: "d < current_transfer w0" "d \<in> set (irq_ids (trace w0))"
      using hd i0 by (auto simp: dyn_inv_def handed_below_def w0_def)
    show ?thesis
    proof (cases "current_transfer w0 = n")
      case fin: True
      have "good_irqs K n (ct_bufs w0) (trace w0) =
          good_irqs K n (\<lambda>j. ct_buffers ((ct_transfers w0)[d := (ct_transfers w0 ! d)\<lparr>ct_data_correct := 1, ct_finished := 1\<rparr>] ! j)) (trace w0)"
        using True by (intro arg_cong [where f = "\<lambda>B. good_irqs K n B (trace w0)"] ext) (simp add: nth_list_update)
      with i0 d fin True show ?thesis
        unfolding w0_def [symmetric]
        by (auto simp: dyn_callback_def Let_def dyn_inv_def dyn_core_def handed_below_def nth_list_update)
    next
      case False
      have c: "current_transfer w2 = current_transfer w0" using f2 by (simp add: dyn_frame_def)
      have b: "ct_bufs w2 d = ct_bufs w d" using f2 d(1) by (simp add: dyn_frame_def w0_def)
      have link: "dyn_inv K n (dyn_link K sz d w2)"
        if "status_ok K st" "verify_buffers_chain (mem w2) (ct_bufs w2 d) = 0"
      proof -
        have "round_good K (ct_bufs w d) st (mem w)"
          using that b m2 by (simp add: verify_buffers_chain_spec round_good_def split: if_splits)
        then have "good_irqs K (current_transfer w0) (ct_bufs w0) (trace w0) =
            1 + good_irqs K (current_transfer w) (ct_bufs w) (trace w)"
          using d(1) by (simp add: w0_def)
        then have "current_transfer w0 \<le> good_irqs K (current_transfer w0) (ct_bufs w0) (trace w0)"
          using inv by (simp add: dyn_inv_def dyn_core_def w0_def)
        moreover have "good_irqs K (current_transfer w0) (ct_bufs w0) (trace w0) \<le> good_irqs K (current_transfer w2) (ct_bufs w2) (trace w2)"
          using f2 c good_irqs_mono [of "current_transfer w0" "current_transfer w2" "ct_bufs w2" "ct_bufs w0" K "trace w0"]
          by (simp add: dyn_frame_def)
        ultimately have "current_transfer w2 \<le> good_irqs K (current_transfer w2) (ct_bufs w2) (trace w2)"
          using c by simp
        moreover have "current_transfer w2 < n" "d < current_transfer w2" "d \<in> set (irq_ids (trace w2))"
          using False d f2 i0 by (simp_all add: c dyn_inv_def dyn_core_def dyn_frame_def)
        ultimately show ?thesis using dyn_link_inv [of K n w2 d sz] i2 by (simp add: dyn_inv_def)
      qed
      obtain b where x: "extra d w1 = (b, w2)" by (cases "extra d w1") (simp add: w2_def)
      show ?thesis
        unfolding w0_def [symmetric]
        using True False i2 link by (simp add: dyn_callback_def w1_def [symmetric] x Let_def)
    qed
  qed
qed

lemma irqs_handed_none: "irq_ids h = [] \<Longrightarrow> irqs_handed h"
  by (induction h rule: irq_ids.induct) simp_all

lemma dyn_link_irqs [simp]:
  "irqs_handed (trace (dyn_link K sz i w)) = irqs_handed (trace w)" "irq_ids (trace (dyn_link K sz i w)) = irq_ids (trace w)"
proof -
  let ?c = "current_transfer w"
  define w1 where "w1 = snd (create_transfer_buffers_chain K (kcall_irq K) ?c (ctb_upd ?c (\<lambda>b. b\<lparr>buf_size := sz\<rparr>) w))"
  define w3 where "w3 = snd (chain_transfer K (kcall_irq K) ?c (fill_source_buffer_chain ?c w1))"
  have f1: "dyn_frame w w1" unfolding w1_def by (intro frame_intros) simp_all
  then have "dyn_frame w w3" unfolding w3_def by (intro chain_transfer_dyn_frame dyn_frame_steps) simp_all
  with f1 show "irqs_handed (trace (dyn_link K sz i w)) = irqs_handed (trace w)" "irq_ids (trace (dyn_link K sz i w)) = irq_ids (trace w)"
    by (simp_all add: dyn_link_def Let_def case_prod_beta dyn_frame_def w1_def w3_def)
qed

lemma dyn_callback_irqs:
  assumes "extra_ok extra"
  shows "irqs_handed (trace (dyn_callback K n sz extra lch st d w)) = irqs_handed (trace w)"
proof -
  let ?w = "ct_upd d (\<lambda>t. t\<lparr>ct_data_correct := 0, ct_finished := 1\<rparr>) w"
  have "irqs_handed (trace (snd (extra d ?w))) = irqs_handed (trace w)"
    using extra_okD(1) [OF assms, of ?w d] by (simp add: dyn_frame_def)
  then show ?thesis by (simp add: dyn_callback_def Let_def case_prod_beta dyn_link_irqs)
qed

text \<open>The invariant of a run in which the driver keeps to what it has accepted.\<close>

definition dyn_ok :: "kernel \<Rightarrow> nat \<Rightarrow> dy_world \<Rightarrow> bool" where
  "dyn_ok K n w \<longleftrightarrow> (irqs_handed (trace w) \<longrightarrow> dyn_inv K n w)"

lemma dyn_inv_okI: "dyn_inv K n w \<Longrightarrow> dyn_ok K n w"
  by (simp add: dyn_ok_def)

lemma dyn_callback_ok:
  assumes "dyn_ok K n w" and "extra_ok extra"
  shows "dyn_ok K n (dyn_callback K n sz extra lch st d (log_ev (Interrupt lch st d (mem w)) w))"
  using dyn_callback_inv [OF _ assms(2), of K n w d sz lch st] assms
  by (simp add: dyn_ok_def dyn_callback_irqs)

section \<open>The contract of a variant\<close>

text \<open>While the chain is requested and its first transfer chained, nothing has been transferred.\<close>

definition dyn_quiet :: "nat \<Rightarrow> dy_world \<Rightarrow> bool" where
  "dyn_quiet n w \<longleftrightarrow> \<not> chain_started (trace w) \<and> length (ct_transfers w) = n \<and> irq_ids (trace w) = [] \<and>
     current_transfer w = 0 \<and> (\<forall>t \<in> set (ct_transfers w). ct_data_correct t = 0) \<and> (\<forall>i. handed i (trace w) \<longrightarrow> i = 0)"

lemma handed_call [simp]: "\<not> handed i h \<Longrightarrow> chains_only (\<lambda>j. j \<noteq> i) c \<Longrightarrow> \<not> handed i (Called c r out # h)"
  by (cases c) simp_all

lemma dyn_quiet_upd:
  assumes "dyn_quiet n w" and "ct_frame f"
  shows "dyn_quiet n (ct_upd i f w)"
proof (cases "i < length (ct_transfers w)")
  case True
  have "ct_data_correct (f (ct_transfers w ! i)) = 0"
    using assms True unfolding dyn_quiet_def ct_frame_def by (metis nth_mem)
  with assms(1) show ?thesis
    by (auto simp: dyn_quiet_def dest: set_update_subset_insert [THEN subsetD])
next
  case False
  with assms(1) show ?thesis by (simp add: dyn_quiet_def list_update_beyond)
qed

lemma dyn_quiet_call:
  assumes "irq_after_chain_start K" and "\<not> is_chain_start c" and "chains_only (\<lambda>i. i = 0) c" and "dyn_quiet n w"
  shows "dyn_quiet n (kcall_thread K h c w)"
proof -
  have n: "\<not> chain_started (trace (kcall_irq K c w))" using assms(2,4) by (simp add: dyn_quiet_def)
  with assms(1) have "no_irq (k_events K (trace (kcall_irq K c w)))"
    unfolding irq_after_chain_start_def by blast
  then obtain m where "kcall_thread K h c w = (kcall_irq K c w)\<lparr>mem := m\<rparr>"
    using deliver_no_irq[of _ h "kcall_irq K c w"] by (auto simp: kcall_thread_def Let_def)
  moreover have "i = 0" if "handed i (Called c r out # trace w)" for i r out
    using that assms(3,4) by (cases c) (auto simp: dyn_quiet_def)
  ultimately show ?thesis using n assms(4) by (auto simp: dyn_quiet_def)
qed

lemma dyn_quiet_setup:
  assumes "irq_after_chain_start K"
  shows "chain_setup (kcall_thread K h) (\<lambda>i. i = 0) (dyn_quiet n)"
  by unfold_locales (simp_all add: dyn_quiet_call [OF assms] dyn_quiet_upd, simp_all add: dyn_quiet_def)

lemma dyn_quiet_inv: "dyn_quiet n w \<Longrightarrow> 0 < n \<Longrightarrow> dyn_inv K n (w\<lparr>current_transfer := 1\<rparr>)"
  by (auto simp: dyn_quiet_def dyn_inv_def dyn_core_def handed_below_def)

text \<open>
  A variant is a callback of the common shape whose extra step keeps the bookkeeping. The
  invariant then holds through every call of the module's thread.
\<close>

locale dyn_variant =
  fixes K :: kernel and n :: nat and sz :: u32 and extra :: "nat \<Rightarrow> dy_world \<Rightarrow> bool \<times> dy_world"
  assumes extra: "extra_ok extra" and pos: "0 < n"
begin

lemma callback_inv:
  "dyn_ok K n w \<Longrightarrow> dyn_ok K n (dyn_callback K n sz extra lch st d (log_ev (Interrupt lch st d (mem w)) w))"
  using extra by (rule dyn_callback_ok [rotated])

end

sublocale dyn_variant \<subseteq> irq_invariant "dyn_callback K n sz extra" "dyn_ok K n"
  by unfold_locales (simp_all add: callback_inv, simp add: dyn_ok_def dyn_inv_def dyn_core_def handed_below_def)

context dyn_variant
begin

lemma call_inv:
  assumes "dyn_ok K n w" and "chains_only (\<lambda>_. False) c"
  shows "dyn_ok K n (kcall_thread K (dyn_callback K n sz extra) c w)"
proof (rule kcall_thread_inv)
  have "handed i (Called c r out # h) \<longleftrightarrow> handed i h" for i r out h
    using assms(2) by (cases c) simp_all
  with assms(1) show "dyn_ok K n (kcall_irq K c w)" by (simp add: dyn_ok_def dyn_inv_def dyn_core_def handed_below_def)
qed

lemma dyn_run_inv:
  assumes law: "irq_after_chain_start K" and w: "dyn_quiet n w" "transfer_end w = 0"
    and check: "\<And>w. dyn_ok K n w \<Longrightarrow> Q (check w)"
    and run: "dyn_run K (kcall_thread K (dyn_callback K n sz extra)) (request_dma_chain K (kcall_thread K (dyn_callback K n sz extra)))
      n sz' set_cb fin check w = (r, w')"
  shows "r = 0 \<and> Q w' \<or> r = 1 \<and> test_passed w' = 0 \<and> (dyn_quiet n w' \<or> dyn_ok K n w')"
proof -
  let ?c = "kcall_thread K (dyn_callback K n sz extra)"
  note st = dyn_quiet_setup [OF law, of "dyn_callback K n sz extra" n]
  obtain e1 w1 where q: "dyn_request K ?c (request_dma_chain K ?c) n set_cb w = (e1, w1)" by fastforce
  have "dyn_quiet n (dynamic_config K (int n) w)"
    using w(1) by (simp add: dynamic_config_def chain_setup.chain_I [OF st])
  from chain_setup.request_dma_chain_I [OF st this, of K] q have q1: "dyn_quiet n w1"
    by (auto simp: dyn_request_def dyn_quiet_call [OF law] split: prod.splits)
  obtain e2 w2 where a: "chain_add K ?c sz' (\<lambda>i w. w) 0 w1 = (e2, w2)" by fastforce
  have q2: "dyn_quiet n w2" using chain_setup.chain_add_I [OF st _ _ q1, of 0 "\<lambda>i w. w" K sz'] a by simp
  have t2: "e2 \<noteq> 0 \<Longrightarrow> test_passed w2 = 0"
    using chain_add_fail [of K ?c sz' "\<lambda>i w. w" 0 w1] a by simp
  define w3 where "w3 = snd (start_dma_chain K ?c (setup_dma_chain K ?c (w2\<lparr>current_transfer := 1\<rparr>)))"
  have i3: "dyn_ok K n w3"
    unfolding w3_def start_dma_chain_def setup_dma_chain_def Let_def
    using dyn_quiet_inv [OF q2 pos, THEN dyn_inv_okI] by (simp add: call_inv)
  let ?p = "poll_loop (\<lambda>w. fin w \<noteq> 0) (?c (Mdelay TRANSFER_POLL_TIME)) check TRANSFER_POLL_COUNT w3"
  have "if fst ?p then Q (snd ?p) else dyn_ok K n (snd ?p)"
    using i3 by (rule poll_loop_inv [rotated 2]) (simp_all add: call_inv check)
  moreover have "dyn_quiet n (set_test_passed_chain 0 v) = dyn_quiet n v"
    "dyn_ok K n (set_test_passed_chain 0 v) = dyn_ok K n v" for v
    by (simp_all add: dyn_quiet_def dyn_ok_def dyn_inv_def dyn_core_def handed_below_def)
  ultimately show ?thesis
    using run q a t2 q1 q2
    by (auto simp: dyn_run_def chain_poll_def Let_def w3_def split: prod.splits if_splits)
qed

end

interpretation dynamic: dyn_variant K 10 1024 "\<lambda>i w. (False, unmap_phys_buffers_chain (kcall_irq K) i w)" for K
  by unfold_locales (simp_all add: extras_ok)

interpretation dynbreak: dyn_variant K 10 "1024 * 1024" "dynbreak_extra K" for K
  by unfold_locales (simp_all add: extras_ok)

interpretation dyninvalid: dyn_variant K 40 "1024 * 1024" "\<lambda>i w. (False, w)" for K
  by unfold_locales (simp_all add: extras_ok)

interpretation dynremoved: dyn_variant K 10 "1024 * 1024" "dynremoved_extra K" for K
  by unfold_locales (simp_all add: extras_ok)

section \<open>Properties of the dynamic chain modules\<close>

definition dynamic_modules :: "kernel \<Rightarrow> (nat \<times> (dy_world \<Rightarrow> int \<times> dy_world)) list" where
  "dynamic_modules K = [(10, dynamic_module_init K), (40, dyninvalid_module_init K), (10, dynremoved_module_init K)]"

text \<open>
  What PASSED says of the history of a run in which the driver only calls back for transfers that it
  has accepted. When it does so once for each, all transfers but one have been verified.
\<close>

definition dyn_verdict :: "kernel \<Rightarrow> nat \<Rightarrow> dy_world \<Rightarrow> bool" where
  "dyn_verdict K n w \<longleftrightarrow> test_passed w \<in> {0, 1} \<and> (test_passed w = 1 \<and> irqs_handed (trace w) \<longrightarrow>
     current_transfer w = n \<and> n \<le> 1 + good_irqs K n (ct_bufs w) (trace w) \<and> {0..<n} \<subseteq> set (irq_ids (trace w)) \<and>
     (distinct (irq_ids (trace w)) \<longrightarrow> (\<exists>k<n. \<forall>i<n. i \<noteq> k \<longrightarrow> good_round K (ct_bufs w i) i (trace w))))"

lemma good_round_id: "good_round K b i h \<Longrightarrow> i \<in> set (irq_ids h)"
  by (induction h rule: good_round.induct) auto

text \<open>When no transfer is reported twice, the good interrupts belong to as many transfers.\<close>

lemma good_irqs_step:
  assumes "good_irqs K n B h \<le> card {i. i < n \<and> good_round K (B i) i h}" and "d \<notin> set (irq_ids h)"
  shows "good_irqs K n B (Interrupt lch st d m # h) \<le> card {i. i < n \<and> good_round K (B i) i (Interrupt lch st d m # h)}"
proof -
  let ?S = "{i. i < n \<and> good_round K (B i) i h}" and ?T = "{i. i < n \<and> good_round K (B i) i (Interrupt lch st d m # h)}"
  have S: "d \<notin> ?S" using assms(2) by (auto dest: good_round_id)
  have "?T = (if d < n \<and> round_good K (B d) st m then insert d ?S else ?S)" by auto
  then show ?thesis using S assms(1) by simp
qed

lemma good_irqs_transfers:
  "distinct (irq_ids h) \<Longrightarrow> good_irqs K n B h \<le> card {i. i < n \<and> good_round K (B i) i h}"
  by (induction h rule: irq_ids.induct) (simp_all only: irq_ids.simps distinct_append disjoint_insert good_irqs.simps(1,2)
      good_round.simps(1,2) le0 good_irqs_step, simp add: good_irqs_step del: good_irqs.simps good_round.simps)

lemma all_but_one:
  assumes "0 < n" and "n \<le> 1 + card {i. i < n \<and> P i}"
  shows "\<exists>k<n. \<forall>i<n. i \<noteq> k \<longrightarrow> P i"
proof (cases "\<forall>i<n. P i")
  case True
  with assms(1) show ?thesis by blast
next
  case False
  then obtain k where k: "k < n" "\<not> P k" by blast
  have "P i" if i: "i < n" "i \<noteq> k" for i
  proof (rule ccontr)
    assume "\<not> P i"
    with k have "card {i. i < n \<and> P i} \<le> card ({..<n} - {i, k})" by (intro card_mono) auto
    also have "\<dots> = n - 2" using i k(1) by (simp add: card_Diff_subset)
    finally show False using assms(2) i k(1) by auto
  qed
  with k show ?thesis by blast
qed

lemma dyn_check_verdict:
  assumes "dyn_ok K n w" and "0 < n"
  shows "dyn_verdict K n (chain_check_test_passed n w)"
proof (cases "(\<forall>t \<in> set (take n (ct_transfers w)). ct_data_correct t \<noteq> 0) \<and> irqs_handed (trace w)")
  case False
  then show ?thesis
    by (auto simp: dyn_verdict_def chain_check_test_passed_def chain_data_error_spec Let_def)
next
  case True
  then have inv: "dyn_inv K n w" using assms(1) by (simp add: dyn_ok_def)
  then have l: "length (ct_transfers w) = n" and c: "1 \<le> current_transfer w" "current_transfer w \<le> n"
    by (simp_all add: dyn_inv_def dyn_core_def)
  have all: "i < current_transfer w \<and> i \<in> set (irq_ids (trace w))" if "i < n" for i
    using inv True that l unfolding dyn_inv_def dyn_core_def by (metis nth_mem order_refl take_all)
  have "n - 1 < current_transfer w" using all [of "n - 1"] c by simp
  then have n: "current_transfer w = n" using c by simp
  have g: "n \<le> 1 + good_irqs K n (ct_bufs w) (trace w)" using inv n by (simp add: dyn_inv_def dyn_core_def)
  have "\<exists>k<n. \<forall>i<n. i \<noteq> k \<longrightarrow> good_round K (ct_bufs w i) i (trace w)" if "distinct (irq_ids (trace w))"
    using g good_irqs_transfers [OF that, of K n "ct_bufs w"] by (intro all_but_one assms(2)) simp
  moreover have "{0..<n} \<subseteq> set (irq_ids (trace w))" using all by auto
  ultimately show ?thesis
    using g n l True by (simp add: dyn_verdict_def chain_check_test_passed_def chain_data_error_spec)
qed

lemma dy_fresh_quiet: "dyn_quiet n (dy_fresh n m)" "transfer_end (dy_fresh n m) = 0"
  by (simp_all add: dyn_quiet_def dy_fresh_def)

lemmas dyn_defs = dynamic_module_init_def dyninvalid_module_init_def dynremoved_module_init_def
  dynbreak_module_init_def dynamic_dma_callback_chain_def dyninvalid_dma_callback_chain_def
  dynremoved_dma_callback_chain_def dynbreak_dma_callback_chain_def dynamic_check_test_passed_def
  dyninvalid_check_test_passed_def dynremoved_check_test_passed_def dynamic_request_dma_chain_def
  dyninvalid_request_dma_chain_def dynremoved_request_dma_chain_def dynbreak_request_dma_chain_def

lemma dynamic_run_result:
  assumes "irq_after_chain_start K" and "ini (dy_fresh n m) = (r, w)"
    and "(n, ini) \<in> set (dynamic_modules K) \<and> check = chain_check_test_passed n \<or>
      n = 10 \<and> ini = dynbreak_module_init K \<and> check = dynbreak_check_test_passed"
    and check: "\<And>w. dyn_ok K n w \<Longrightarrow> Q (check w)"
  shows "r = 0 \<and> Q w \<or> r = 1 \<and> test_passed w = 0"
proof -
  have drop: "r = 0 \<and> Q w \<or> r = 1 \<and> test_passed w = 0"
    if "r = 0 \<and> Q w \<or> r = 1 \<and> test_passed w = 0 \<and> (dyn_quiet k w \<or> dyn_ok K k w)" for k using that by blast
  from assms(3) consider "n = 10" "ini = dynamic_module_init K" "check = chain_check_test_passed 10"
    | "n = 40" "ini = dyninvalid_module_init K" "check = chain_check_test_passed 40"
    | "n = 10" "ini = dynremoved_module_init K" "check = chain_check_test_passed 10"
    | "n = 10" "ini = dynbreak_module_init K" "check = dynbreak_check_test_passed" by (auto simp: dynamic_modules_def)
  then show ?thesis
  proof cases
    case 1
    show ?thesis
      unfolding 1(1)
      by (rule drop, rule dynamic.dyn_run_inv [where w = "dy_fresh 10 m", OF assms(1) dy_fresh_quiet _ assms(2) [unfolded 1 dyn_defs]])
        (rule check [unfolded 1])
  next
    case 2
    show ?thesis
      unfolding 2(1)
      by (rule drop, rule dyninvalid.dyn_run_inv [where w = "dy_fresh 40 m", OF assms(1) dy_fresh_quiet _ assms(2) [unfolded 2 dyn_defs]])
        (rule check [unfolded 2])
  next
    case 3
    show ?thesis
      unfolding 3(1)
      by (rule drop, rule dynremoved.dyn_run_inv [where w = "dy_fresh 10 m", OF assms(1) dy_fresh_quiet _ assms(2) [unfolded 3 dyn_defs]])
        (rule check [unfolded 3])
  next
    case 4
    show ?thesis
      unfolding 4(1)
      by (rule drop, rule dynbreak.dyn_run_inv [where w = "dy_fresh 10 m", OF assms(1) dy_fresh_quiet _ assms(2) [unfolded 4 dyn_defs]])
        (rule check [unfolded 4])
  qed
qed

section \<open>A concrete kernel\<close>

text \<open>
  On the first wait after the start the engine completes the transfers one after the other: it
  copies, then reports transfer 0, 1, and so on; the callback of each chains the next.
\<close>

definition dyn_demo :: kernel where
  "dyn_demo = (chain_demo 0)\<lparr>k_events := (\<lambda>h. case h of Called (Mdelay t) r out # h' \<Rightarrow>
     (if chain_started h' \<and> irq_ids h' = [] then concat (map (\<lambda>d. [Device demo_copy, Irq 1 0 d]) [0..<10]) else [])
     | _ \<Rightarrow> [])\<rparr>"

abbreviation dyn_demo_cb :: "dy_world handler" where
  "dyn_demo_cb \<equiv> dyn_callback dyn_demo 10 1024 (\<lambda>i w. (False, unmap_phys_buffers_chain (kcall_irq dyn_demo) i w))"

lemma dyn_demo_law: "irq_after_chain_start dyn_demo"
proof -
  have "no_irq (k_events dyn_demo h)" if "\<not> chain_started h" for h
    using that by (auto simp: dyn_demo_def no_irq_def split: list.splits tev.splits kcall.splits)
  then show ?thesis by (simp add: irq_after_chain_start_def)
qed

lemma dyn_demo_call:
  assumes "\<forall>t. c \<noteq> Mdelay t"
  shows "kcall_thread dyn_demo h c w = kcall_irq dyn_demo c w"
  using assms by (cases c) (simp_all add: kcall_thread_def Let_def dyn_demo_def)

lemma dyn_demo_ret [simp]:
  "kcall_ret dyn_demo (Kmalloc sz) w = 2 ^ 22 * (1 + int (min 30 (length (allocs (trace w)))))"
  "kcall_ret dyn_demo (Omap_dma_chain_a_transfer c s d e f i) w = 0"
  "kcall_ret dyn_demo (Omap_request_dma_chain dev k ty ps) w = 0"
  "kcall_out dyn_demo (Omap_request_dma_chain dev k ty ps) w = Some 1"
  "k_const dyn_demo x = 0"
  by (simp_all add: kcall_ret_def kcall_out_def dyn_demo_def chain_demo_def)

text \<open>After \<open>k\<close> completions.\<close>

definition dyn_stage :: "nat \<Rightarrow> dy_world \<Rightarrow> bool" where
  "dyn_stage k w \<longleftrightarrow> length (ct_transfers w) = 10 \<and> dc_data_type (chain w) = 0 \<and> current_transfer w = Suc k \<and>
     irqs_handed (trace w) \<and> irq_ids (trace w) = [0..<k] \<and>
     length (allocs (trace w)) = 2 * Suc k \<and> (\<forall>j<k. ct_data_correct (ct_transfers w ! j) = 1) \<and>
     (\<forall>j \<le> k. handed j (trace w) \<and> src_buf (ct_bufs w j) = of_nat (2 ^ 22 * (2 * j + 1)) \<and>
        dest_buf (ct_bufs w j) = of_nat (2 ^ 22 * (2 * j + 2)) \<and> buf_size (ct_bufs w j) = 1024)"

lemma demo_create_irq:
  fixes w :: dy_world
  assumes "length (allocs (trace w)) = 2 * i" and "i < length (ct_transfers w)" and "i < 15"
  defines "r \<equiv> create_transfer_buffers_chain dyn_demo (kcall_irq dyn_demo) i w"
  shows "fst r = 0" "chain (snd r) = chain w" "length (allocs (trace (snd r))) = 2 * i + 2"
    "handed j (trace (snd r)) = handed j (trace w)" "current_transfer (snd r) = current_transfer w"
    "ct_transfers (snd r) = (ct_transfers w)[i := (ct_transfers w ! i)\<lparr>ct_buffers := (ct_bufs w i)
       \<lparr>src_buf := of_nat (2 ^ 22 * (2 * i + 1)), dest_buf := of_nat (2 ^ 22 * (2 * i + 2))\<rparr>\<rparr>]"
proof -
  have nz: "(word_of_int (2 ^ 22 * (1 + int k)) :: u32) \<noteq> 0" if "k \<le> 30" for k
    by (rule word_of_int_nonzero) (use that in simp_all)
  show "fst r = 0" "chain (snd r) = chain w" "length (allocs (trace (snd r))) = 2 * i + 2"
    "handed j (trace (snd r)) = handed j (trace w)" "current_transfer (snd r) = current_transfer w"
    "ct_transfers (snd r) = (ct_transfers w)[i := (ct_transfers w ! i)\<lparr>ct_buffers := (ct_bufs w i)
       \<lparr>src_buf := of_nat (2 ^ 22 * (2 * i + 1)), dest_buf := of_nat (2 ^ 22 * (2 * i + 2))\<rparr>\<rparr>]"
    using assms(1-3) nz [of "2 * i"] nz [of "2 * i + 1"]
    by (simp_all add: r_def create_transfer_buffers_chain_def Let_def ctb_upd_def ct_upd_def)
qed

lemma demo_chain_irq:
  fixes w :: dy_world
  assumes "i < length (ct_transfers w)" and "dc_data_type (chain w) = 0"
  defines "r \<equiv> chain_transfer dyn_demo (kcall_irq dyn_demo) i w"
  shows "fst r = 0" "chain (snd r) = chain w" "current_transfer (snd r) = current_transfer w"
    "allocs (trace (snd r)) = allocs (trace w)" "length (ct_transfers (snd r)) = length (ct_transfers w)"
    "handed j (trace (snd r)) \<longleftrightarrow> j = i \<or> handed j (trace w)"
    "j < length (ct_transfers w) \<Longrightarrow>
       (j \<noteq> i \<longrightarrow> ct_data_correct (ct_transfers (snd r) ! j) = ct_data_correct (ct_transfers w ! j)) \<and>
       src_buf (ct_bufs (snd r) j) = src_buf (ct_bufs w j) \<and> dest_buf (ct_bufs (snd r) j) = dest_buf (ct_bufs w j) \<and>
       buf_size (ct_bufs (snd r) j) = buf_size (ct_bufs w j)"
  using assms(1,2)
  by (auto simp add: r_def chain_transfer_def chain_elements_def map_to_phys_buffers_chain_def Let_def
      ctb_upd_def ct_upd_def nth_list_update)

lemma demo_link:
  assumes w: "length (ct_transfers w) = 10" "dc_data_type (chain w) = 0" "length (allocs (trace w)) = 2 * current_transfer w"
    and c: "current_transfer w < 10" and i: "i < current_transfer w"
  defines "w' \<equiv> dyn_link dyn_demo 1024 i w"
  shows "length (ct_transfers w') = 10" "dc_data_type (chain w') = 0" "current_transfer w' = Suc (current_transfer w)"
    "length (allocs (trace w')) = 2 * Suc (current_transfer w)" "ct_data_correct (ct_transfers w' ! i) = 1"
    "j < current_transfer w \<Longrightarrow> j \<noteq> i \<Longrightarrow> ct_data_correct (ct_transfers w' ! j) = ct_data_correct (ct_transfers w ! j)"
    "handed j (trace w') \<longleftrightarrow> j = current_transfer w \<or> handed j (trace w)"
    "j \<noteq> current_transfer w \<Longrightarrow> j < 10 \<Longrightarrow> src_buf (ct_bufs w' j) = src_buf (ct_bufs w j) \<and>
       dest_buf (ct_bufs w' j) = dest_buf (ct_bufs w j) \<and> buf_size (ct_bufs w' j) = buf_size (ct_bufs w j)"
    "src_buf (ct_bufs w' (current_transfer w)) = of_nat (2 ^ 22 * (2 * current_transfer w + 1)) \<and>
       dest_buf (ct_bufs w' (current_transfer w)) = of_nat (2 ^ 22 * (2 * current_transfer w + 2)) \<and>
       buf_size (ct_bufs w' (current_transfer w)) = 1024"
proof -
  let ?c = "current_transfer w"
  define u where "u = ctb_upd ?c (\<lambda>b. b\<lparr>buf_size := 1024\<rparr>) w"
  define v where "v = fill_source_buffer_chain ?c (snd (create_transfer_buffers_chain dyn_demo (kcall_irq dyn_demo) ?c u))"
  have u: "length (allocs (trace u)) = 2 * ?c" "?c < length (ct_transfers u)" "?c < 15"
    using w c by (simp_all add: u_def)
  note cr = demo_create_irq [OF this]
  have v: "?c < length (ct_transfers v)" "dc_data_type (chain v) = 0"
    using cr w c by (simp_all add: v_def) (simp_all add: u_def)
  note ch = demo_chain_irq [OF this]
  have w': "w' = ct_upd i (\<lambda>t. t\<lparr>ct_data_correct := 1\<rparr>)
      ((snd (chain_transfer dyn_demo (kcall_irq dyn_demo) ?c v))\<lparr>current_transfer := ?c + 1\<rparr>)"
    using cr(1) ch(1) by (simp add: w'_def dyn_link_def Let_def case_prod_beta u_def v_def)
  have vt: "ct_transfers v = (ct_transfers w)[?c := (ct_transfers w ! ?c)\<lparr>ct_buffers := (ct_bufs w ?c)
       \<lparr>buf_size := 1024, src_buf := of_nat (2 ^ 22 * (2 * ?c + 1)), dest_buf := of_nat (2 ^ 22 * (2 * ?c + 2))\<rparr>\<rparr>]"
    using cr(6) w c by (simp add: v_def u_def)
  show "length (ct_transfers w') = 10" "current_transfer w' = Suc ?c"
    using ch(5) vt w by (simp_all add: w')
  show "dc_data_type (chain w') = 0" using ch(2) v(2) by (simp add: w')
  show "length (allocs (trace w')) = 2 * Suc ?c" using ch(4) cr(3) by (simp add: w' v_def)
  show "ct_data_correct (ct_transfers w' ! i) = 1" using ch(5) vt w c i by (simp add: w')
  show "handed j (trace w') \<longleftrightarrow> j = ?c \<or> handed j (trace w)"
    using ch(6) cr(4) by (simp add: w' v_def) (simp add: u_def)
  show "j < ?c \<Longrightarrow> j \<noteq> i \<Longrightarrow> ct_data_correct (ct_transfers w' ! j) = ct_data_correct (ct_transfers w ! j)"
    using ch(5) ch(7) [of j] vt w c i by (simp add: w')
  show "j \<noteq> ?c \<Longrightarrow> j < 10 \<Longrightarrow> src_buf (ct_bufs w' j) = src_buf (ct_bufs w j) \<and>
       dest_buf (ct_bufs w' j) = dest_buf (ct_bufs w j) \<and> buf_size (ct_bufs w' j) = buf_size (ct_bufs w j)"
    using ch(5) ch(7) [of j] vt w c i by (cases "j = i") (simp_all add: w')
  show "src_buf (ct_bufs w' ?c) = of_nat (2 ^ 22 * (2 * ?c + 1)) \<and>
       dest_buf (ct_bufs w' ?c) = of_nat (2 ^ 22 * (2 * ?c + 2)) \<and> buf_size (ct_bufs w' ?c) = 1024"
    using ch(5) ch(7) [of ?c] vt w c i by (simp add: w')
qed

lemma demo_stage_step:
  assumes s: "dyn_stage k w" and k: "k < 9"
  shows "dyn_stage (Suc k) (deliver dyn_demo_cb [Device demo_copy, Irq 1 0 k] w)"
proof -
  define v where "v = log_ev (Interrupt 1 0 k (demo_copy (mem w))) (w\<lparr>mem := demo_copy (mem w)\<rparr>)"
  define u where "u = unmap_phys_buffers_chain (kcall_irq dyn_demo) k
    (ct_upd k (\<lambda>t. t\<lparr>ct_data_correct := 0, ct_finished := 1\<rparr>) v)"
  have l: "length (ct_transfers w) = 10" "current_transfer w = Suc k" using s by (simp_all add: dyn_stage_def)
  have ut: "ct_transfers u = (ct_transfers w)[k := (ct_transfers w ! k)\<lparr>ct_data_correct := 0, ct_finished := 1\<rparr>]"
    by (simp add: u_def v_def)
  have cu: "current_transfer u = Suc k"
    using l by (simp add: u_def v_def unmap_phys_buffers_chain_def Let_def)
  have h: "handed j (trace u) = handed j (trace w)" for j
    by (simp add: u_def v_def unmap_phys_buffers_chain_def Let_def)
  have "verify_buffers_chain (mem u) (ct_bufs u k) = 0"
    using s k demo_copy_equal [of k 1024 "mem w"] l
    by (simp add: u_def v_def dyn_stage_def verify_buffers_chain_spec)
  then have cb: "deliver dyn_demo_cb [Device demo_copy, Irq 1 0 k] w = dyn_link dyn_demo 1024 k u"
    using s k l by (simp add: dyn_callback_def v_def [symmetric] u_def [symmetric] status_ok_def)
      (simp add: v_def dyn_stage_def)
  have a: "length (allocs (trace u)) = 2 * current_transfer u" "dc_data_type (chain u) = 0" "length (ct_transfers u) = 10"
    using s by (simp_all add: u_def v_def dyn_stage_def unmap_phys_buffers_chain_def Let_def)
  have "current_transfer u < 10" "k < current_transfer u" using cu k by simp_all
  note link = demo_link [OF a(3,2,1) this]
  have "ct_data_correct (ct_transfers (dyn_link dyn_demo 1024 k u) ! j) = 1" if "j < Suc k" for j
    using link(5) link(6) [of j] that s k cu ut by (cases "j = k") (simp_all add: dyn_stage_def)
  moreover have "handed j (trace (dyn_link dyn_demo 1024 k u)) \<and>
      src_buf (ct_bufs (dyn_link dyn_demo 1024 k u) j) = of_nat (2 ^ 22 * (2 * j + 1)) \<and>
      dest_buf (ct_bufs (dyn_link dyn_demo 1024 k u) j) = of_nat (2 ^ 22 * (2 * j + 2)) \<and>
      buf_size (ct_bufs (dyn_link dyn_demo 1024 k u) j) = 1024" if "j \<le> Suc k" for j
  proof (cases "j = Suc k")
    case True
    with link(7) [of j] link(9) cu show ?thesis by simp
  next
    case False
    with that have "j \<le> k" by simp
    then have "ct_bufs u j = ct_bufs w j" using ut k l by (cases "j = k") simp_all
    with link(7) [of j] link(8) [of j] cu h False \<open>j \<le> k\<close> s k show ?thesis by (simp add: dyn_stage_def)
  qed
  moreover have "irqs_handed (trace u)" "irq_ids (trace u) = [0..<Suc k]"
    using s by (simp_all add: u_def v_def dyn_stage_def unmap_phys_buffers_chain_def Let_def)
  ultimately show ?thesis
    unfolding cb dyn_stage_def using link(1-4) cu by simp
qed

lemma deliver_append: "deliver h (es @ fs) w = deliver h fs (deliver h es w)"
  by (induction es arbitrary: w) simp_all

lemma demo_stages:
  assumes "dyn_stage 0 w" and "k \<le> 9"
  shows "dyn_stage k (deliver dyn_demo_cb (concat (map (\<lambda>d. [Device demo_copy, Irq 1 0 d]) [0..<k])) w)"
  using assms(2)
proof (induction k)
  case 0
  with assms(1) show ?case by simp
next
  case (Suc k)
  then show ?case using demo_stage_step by (simp add: deliver_append)
qed

lemma demo_last:
  assumes "dyn_stage 9 w"
  defines "w' \<equiv> deliver dyn_demo_cb [Device demo_copy, Irq 1 0 9] w"
  shows "transfer_end w' = 1" "length (ct_transfers w') = 10" "irq_ids (trace w') = [0..<10]" "irqs_handed (trace w')"
    "j < 10 \<Longrightarrow> ct_data_correct (ct_transfers w' ! j) = 1"
proof -
  have "[0..<10] = [0..<9] @ [9::nat]" by (simp add: upt_rec)
  then show "irq_ids (trace w') = [0..<10]" using assms by (simp add: dyn_callback_def Let_def dyn_stage_def)
qed (use assms in \<open>simp_all add: dyn_callback_def Let_def dyn_stage_def nth_list_update less_Suc_eq\<close>)

lemma demo_dyn_poll:
  assumes s: "dyn_stage 0 w" and st: "chain_started (trace w)" and z: "irq_ids (trace w) = []" and e: "transfer_end w = 0"
  defines "r \<equiv> chain_poll (kcall_thread dyn_demo dyn_demo_cb) dyn_get_transfers_finished (chain_check_test_passed 10) w"
  shows "fst r = 0 \<and> test_passed (snd r) = 1 \<and> irqs_handed (trace (snd r)) \<and> irq_ids (trace (snd r)) = [0..<10]"
proof -
  define wait :: "dy_world \<Rightarrow> dy_world" where "wait = kcall_thread dyn_demo dyn_demo_cb (Mdelay TRANSFER_POLL_TIME)"
  let ?u = "kcall_irq dyn_demo (Mdelay TRANSFER_POLL_TIME) w"
  have "wait w = deliver dyn_demo_cb (concat (map (\<lambda>d. [Device demo_copy, Irq 1 0 d]) [0..<10])) ?u"
    using st z by (simp add: wait_def kcall_thread_def Let_def dyn_demo_def)
  also have "[0..<10] = [0..<9] @ [9::nat]" by (simp add: upt_rec)
  finally have w1: "wait w = deliver dyn_demo_cb [Device demo_copy, Irq 1 0 9]
      (deliver dyn_demo_cb (concat (map (\<lambda>d. [Device demo_copy, Irq 1 0 d]) [0..<9])) ?u)"
    by (simp add: deliver_append)
  have "dyn_stage 0 ?u" using s by (simp add: dyn_stage_def)
  note l = demo_last [OF demo_stages [OF this, of 9, simplified], folded w1]
  have w2: "wait (wait w) = kcall_irq dyn_demo (Mdelay TRANSFER_POLL_TIME) (wait w)"
    using l(3) by (simp add: wait_def kcall_thread_def Let_def dyn_demo_def upt_rec)
  have "poll_loop (\<lambda>w. dyn_get_transfers_finished w \<noteq> 0) wait (chain_check_test_passed 10) TRANSFER_POLL_COUNT w =
      (True, chain_check_test_passed 10 ((wait ^^ Suc 1) w))"
    by (rule poll_loop_first) (use e l(1) in \<open>simp_all add: TRANSFER_POLL_COUNT_def dyn_get_transfers_finished_def\<close>)
  moreover have "irqs_handed (trace (chain_check_test_passed 10 (wait (wait w))))"
    "irq_ids (trace (chain_check_test_passed 10 (wait (wait w)))) = [0..<10]"
    using l(3,4) by (simp_all add: chain_check_test_passed_def Let_def w2)
  moreover have "test_passed (chain_check_test_passed 10 (wait (wait w))) = 1"
    using l(2,5) by (auto simp: chain_check_test_passed_def chain_data_error_spec in_set_conv_nth w2)
  ultimately show ?thesis by (simp add: r_def chain_poll_def wait_def [symmetric])
qed

lemma chain_transfer_end: "transfer_end (snd (chain_transfer K (kcall_irq K) i w)) = transfer_end w"
proof -
  note keep = let_keep [where Q = "\<lambda>v. transfer_end v = transfer_end w" and P = "\<lambda>r. transfer_end (snd r) = transfer_end w"]
  show ?thesis
    unfolding chain_transfer_def
    apply (rule keep, simp)
    apply (split option.split, rule conjI, rule impI, simp)
    apply (rule allI, rule impI)
    apply (rule keep, simp)
    apply (rule keep, simp add: map_to_phys_buffers_chain_def Let_def)
    apply (rule keep, simp)+
    by (simp add: Let_def)
qed

lemma demo_dynamic_init:
  "fst (dynamic_module_init dyn_demo (dy_fresh 10 m)) = 0 \<and> test_passed (snd (dynamic_module_init dyn_demo (dy_fresh 10 m))) = 1 \<and>
   irqs_handed (trace (snd (dynamic_module_init dyn_demo (dy_fresh 10 m)))) \<and>
   irq_ids (trace (snd (dynamic_module_init dyn_demo (dy_fresh 10 m)))) = [0..<10]"
proof -
  let ?c = "kcall_thread dyn_demo dyn_demo_cb"
  define w1 where "w1 = snd (dyn_request dyn_demo ?c (request_dma_chain dyn_demo ?c) 10 True (dy_fresh 10 m))"
  have e1: "fst (dyn_request dyn_demo ?c (request_dma_chain dyn_demo ?c) 10 True (dy_fresh 10 m)) = 0"
    by (simp add: dyn_request_def request_dma_chain_def Let_def case_prod_beta)
  have q: "ct_transfers w1 = replicate 10 zero_chained" "dc_data_type (chain w1) = 0" "allocs (trace w1) = []"
    "current_transfer w1 = 0" "transfer_end w1 = 0" "irq_ids (trace w1) = []"
    by (simp_all add: w1_def dyn_request_def request_dma_chain_def Let_def case_prod_beta dyn_demo_call dynamic_config_def
        dy_fresh_def)
  define u where "u = ctb_upd 0 (\<lambda>b. b\<lparr>buf_size := 1024\<rparr>) w1"
  define v where "v = fill_source_buffer_chain 0 (snd (create_transfer_buffers_chain dyn_demo (kcall_irq dyn_demo) 0 u))"
  have u: "length (allocs (trace u)) = 2 * 0" "0 < length (ct_transfers u)" "0 < (15::nat)"
    using q by (simp_all add: u_def)
  note cr = demo_create_irq [OF this]
  have v: "0 < length (ct_transfers v)" "dc_data_type (chain v) = 0"
    using cr q by (simp_all add: v_def u_def)
  note ch = demo_chain_irq [OF this]
  have cc: "create_transfer_buffers_chain dyn_demo ?c i x = create_transfer_buffers_chain dyn_demo (kcall_irq dyn_demo) i x"
    "chain_transfer dyn_demo ?c i x = chain_transfer dyn_demo (kcall_irq dyn_demo) i x" for i x
    by (simp_all add: create_transfer_buffers_chain_def chain_transfer_def map_to_phys_buffers_chain_def Let_def dyn_demo_call
        split: option.split)
  have add: "chain_add dyn_demo ?c 1024 (\<lambda>i w. w) 0 w1 = (0, snd (chain_transfer dyn_demo (kcall_irq dyn_demo) 0 v))"
    using cr(1) ch(1) by (simp add: chain_add_def Let_def case_prod_beta cc u_def v_def)
  define x where "x = snd (chain_transfer dyn_demo (kcall_irq dyn_demo) 0 v)"
  define w2 where "w2 = snd (start_dma_chain dyn_demo ?c (setup_dma_chain dyn_demo ?c (x\<lparr>current_transfer := 1\<rparr>)))"
  have w2: "ct_transfers w2 = ct_transfers x" "chain w2 = chain x" "allocs (trace w2) = allocs (trace x)"
    "handed j (trace w2) = handed j (trace x)" "current_transfer w2 = 1" "irq_ids (trace w2) = irq_ids (trace x)"
    "transfer_end w2 = transfer_end x" "chain_started (trace w2)" for j
    by (simp_all add: w2_def start_dma_chain_def setup_dma_chain_def Let_def dyn_demo_call)
  have vt: "length (ct_transfers v) = 10" "src_buf (ct_bufs v 0) = of_nat (2 ^ 22)" "dest_buf (ct_bufs v 0) = of_nat (2 ^ 22 * 2)"
    "buf_size (ct_bufs v 0) = 1024" "length (allocs (trace v)) = 2"
    using cr(3,6) q(1) by (simp_all add: v_def u_def)
  have "irq_ids (trace v) = []" "transfer_end v = 0" "current_transfer v = 0"
    using q by (simp_all add: v_def u_def create_transfer_buffers_chain_def Let_def)
  then have e: "irq_ids (trace w2) = []" "transfer_end w2 = 0"
    using chain_transfer_dyn_frame [OF dyn_frame_refl, of v 0 dyn_demo] chain_transfer_end [of dyn_demo 0 v]
    by (simp_all add: w2 x_def dyn_frame_def)
  have s: "dyn_stage 0 w2"
    using ch vt v(2) e by (simp add: dyn_stage_def w2 x_def irqs_handed_none [OF e(1)])
  from w2(8) e have "fst (chain_poll ?c dyn_get_transfers_finished (chain_check_test_passed 10) w2) = 0 \<and>
      test_passed (snd (chain_poll ?c dyn_get_transfers_finished (chain_check_test_passed 10) w2)) = 1 \<and>
      irqs_handed (trace (snd (chain_poll ?c dyn_get_transfers_finished (chain_check_test_passed 10) w2))) \<and>
      irq_ids (trace (snd (chain_poll ?c dyn_get_transfers_finished (chain_check_test_passed 10) w2))) = [0..<10]"
    by (rule demo_dyn_poll [OF s])
  with e1 add show ?thesis
    unfolding w2_def x_def
    by (simp add: dyn_defs dynamic_get_transfers_finished_def dyn_run_def case_prod_beta w1_def [symmetric] Let_def)
qed

section \<open>The properties\<close>

text \<open>
  C21. The verdict of the dynamic chain modules that check every transfer (all but the module that
  breaks its chain): initialisation always stores one, and if it is PASSED, it returned 0. If moreover
  the driver has only called back for transfers that it had accepted, then all transfers were chained,
  each of them had a completion interrupt, and as many completions as there are transfers, but one,
  were verified: acceptable status and equal buffers. If it has called back once for each, then all
  transfers but one have been verified. (The completion behind the last chaining is accepted unseen.)
\<close>

theorem dynamic_modules_verdict:
  assumes "irq_after_chain_start K" and "(n, ini) \<in> set (dynamic_modules K)" and "ini (dy_fresh n m) = (r, w)"
  shows "test_passed w \<in> {0, 1} \<and> (test_passed w = 1 \<longrightarrow> r = 0) \<and>
    (test_passed w = 1 \<and> irqs_handed (trace w) \<longrightarrow>
       current_transfer w = n \<and> n \<le> 1 + good_irqs K n (ct_bufs w) (trace w) \<and> {0..<n} \<subseteq> set (irq_ids (trace w)) \<and>
       (distinct (irq_ids (trace w)) \<longrightarrow> (\<exists>k<n. \<forall>i<n. i \<noteq> k \<longrightarrow> good_round K (ct_bufs w i) i (trace w))))"
proof -
  have "0 < n" using assms(2) by (auto simp: dynamic_modules_def)
  from dynamic_run_result [where Q = "dyn_verdict K n" and check = "chain_check_test_passed n" and n = n and m = m and ini = ini,
      OF assms(1,3)] assms(2) dyn_check_verdict [OF _ this] show ?thesis by (auto simp: dyn_verdict_def)
qed

theorem dynamic_modules_verdict_witness:
  "let w = snd (dynamic_module_init dyn_demo (dy_fresh 10 (\<lambda>_. 0)))
   in irq_after_chain_start dyn_demo \<and> test_passed w = 1 \<and> 9 \<le> good_irqs dyn_demo 10 (ct_bufs w) (trace w) \<and>
     (\<exists>k<10. \<forall>i<10. i \<noteq> k \<longrightarrow> good_round dyn_demo (ct_bufs w i) i (trace w))"
proof -
  have "(10, dynamic_module_init dyn_demo) \<in> set (dynamic_modules dyn_demo)" by (simp add: dynamic_modules_def)
  from dynamic_modules_verdict [where m = "\<lambda>_. 0", OF dyn_demo_law this prod.collapse [symmetric]]
    demo_dynamic_init [of "\<lambda>_. 0"] dyn_demo_law show ?thesis unfolding Let_def by auto
qed

text \<open>
  The break variant passes when its fourth transfer is not marked correct. It also passes when the
  chain never got that far, for instance because the data of the first transfer was wrong.
\<close>

lemma dynbreak_passes_early:
  assumes "irq_after_chain_start K" and "dynbreak_module_init K (dy_fresh 10 m) = (0, w)" and "current_transfer w \<le> 3"
    and "irqs_handed (trace w)"
  shows "test_passed w = 1"
proof -
  let ?Q = "\<lambda>w. current_transfer w \<le> 3 \<and> irqs_handed (trace w) \<longrightarrow> test_passed w = 1"
  have "?Q (dynbreak_check_test_passed v)" if "dyn_ok K 10 v" for v
  proof -
    have "irqs_handed (trace v) \<longrightarrow> ct_data_correct (ct_transfers v ! 3) \<noteq> 0 \<longrightarrow> 3 < current_transfer v"
      using that by (simp add: dyn_ok_def dyn_inv_def dyn_core_def)
    then show ?thesis by (auto simp: dynbreak_check_test_passed_def Let_def)
  qed
  from dynamic_run_result [where Q = ?Q and n = 10 and m = m and ini = "dynbreak_module_init K" and
      check = dynbreak_check_test_passed, OF assms(1,2) _ this] assms(3,4) show ?thesis by simp
qed

end
