(* ===== verification/Dma_Chain_Dynamic_Order.thy ===== *)
theory Dma_Chain_Dynamic_Order
  imports Dma_Chain_Dynamic_Correct
begin

text \<open>
  In which order the dynamic chain modules hand their transfers to the driver: every index they chain
  lies inside the array, the accepted ones are 0, 1, 2 and so on, and each of them has buffers of the
  module's size. The locale \<open>logged_call\<close> is what the code that creates and chains a transfer needs to
  know of a call, whether it is made by the module's thread before the chain is started or by the
  callback.
\<close>

section \<open>What was chained\<close>

text \<open>The transfers handed to the driver, oldest first, and whether it accepted them.\<close>

fun chainings :: "history \<Rightarrow> (nat \<times> bool) list" where
  "chainings [] = []"
| "chainings (Called (Omap_dma_chain_a_transfer cid s d n f j) r out # h) = chainings h @ [(j, r = 0)]"
| "chainings (e # h) = chainings h"

definition accepted :: "history \<Rightarrow> nat list" where
  "accepted h = map fst (filter snd (chainings h))"

lemma chainings_other [simp]: "chains_only (\<lambda>_. False) c \<Longrightarrow> chainings (Called c r out # h) = chainings h"
  by (cases c) simp_all

text \<open>The transfer has two buffers of the size \<open>sz\<close>.\<close>

definition has_buffers :: "u32 \<Rightarrow> dma_buffers_info \<Rightarrow> bool" where
  "has_buffers sz b \<longleftrightarrow> src_buf b \<noteq> 0 \<and> dest_buf b \<noteq> 0 \<and> buf_size b = sz"

definition dyn_seq :: "kernel \<Rightarrow> nat \<Rightarrow> u32 \<Rightarrow> nat \<Rightarrow> dy_world \<Rightarrow> bool" where
  "dyn_seq K n sz c w \<longleftrightarrow> length (ct_transfers w) = n \<and> dc_data_type (chain w) = k_const K OMAP_DMA_DATA_TYPE_S8 \<and>
     fst ` set (chainings (trace w)) \<subseteq> {..<n} \<and> accepted (trace w) = [0..<c] \<and> c \<le> n \<and>
     (\<forall>j<c. has_buffers sz (ct_bufs w j))"

text \<open>A step that chains nothing and leaves the buffers alone.\<close>

definition seq_frame :: "dy_world \<Rightarrow> dy_world \<Rightarrow> bool" where
  "seq_frame w w' \<longleftrightarrow> length (ct_transfers w') = length (ct_transfers w) \<and> dc_data_type (chain w') = dc_data_type (chain w) \<and>
     chainings (trace w') = chainings (trace w) \<and> (\<forall>j sz. has_buffers sz (ct_bufs w' j) = has_buffers sz (ct_bufs w j)) \<and>
     current_transfer w' = current_transfer w"

lemma dyn_seq_frame: "dyn_seq K n sz c w \<Longrightarrow> seq_frame w w' \<Longrightarrow> dyn_seq K n sz c w'"
  by (simp add: dyn_seq_def seq_frame_def accepted_def)

named_theorems seq_intros \<open>steps that chain nothing\<close>

lemma seq_frame_refl [seq_intros]: "seq_frame w w"
  by (simp add: seq_frame_def)

lemma seq_frame_call [seq_intros]: "chains_only (\<lambda>_. False) c \<Longrightarrow> seq_frame w v \<Longrightarrow> seq_frame w (kcall_irq K c v)"
  by (simp add: seq_frame_def)

lemma seq_frame_steps [seq_intros]:
  assumes "seq_frame w v"
  shows "seq_frame w (v\<lparr>transfer_end := y\<rparr>)" "seq_frame w (set_test_passed_chain p v)"
    "seq_frame w (fill_source_buffer_chain i v)"
  using assms by (simp_all add: seq_frame_def)

lemma seq_frame_upd [seq_intros]:
  assumes "seq_frame w v" and "\<And>t. ct_buffers (f t) = ct_buffers t"
  shows "seq_frame w (ct_upd i f v)"
proof -
  have "ct_buffers ((ct_transfers v)[i := f (ct_transfers v ! i)] ! j) = ct_bufs v j" for j
    by (cases "i < length (ct_transfers v)") (simp_all add: nth_list_update assms(2) list_update_beyond)
  with assms(1) show ?thesis by (simp add: seq_frame_def)
qed

lemma extras_seq:
  "seq_frame w (snd ((\<lambda>i w. (False, unmap_phys_buffers_chain (kcall_irq K) i w)) i w))"
  "seq_frame w (snd (dynbreak_extra K i w))" "seq_frame w (snd (dynremoved_extra K i w))"
  by (simp add: unmap_phys_buffers_chain_def Let_def seq_intros)
    (simp_all add: dynbreak_extra_def dynremoved_extra_def Let_def seq_intros)

section \<open>Creating and chaining a transfer\<close>

locale logged_call =
  fixes K :: kernel and call :: "kcall \<Rightarrow> dy_world \<Rightarrow> dy_world" and P :: "history \<Rightarrow> bool"
  assumes call: "P (trace w) \<Longrightarrow> \<not> is_chain_start c \<Longrightarrow>
      trace (call c w) = Called c (kcall_ret K c w) (kcall_out K c w) # trace w \<and> ct_transfers (call c w) = ct_transfers w \<and>
      chain (call c w) = chain w \<and> current_transfer (call c w) = current_transfer w"
    and P_call: "P h \<Longrightarrow> \<not> is_chain_start c \<Longrightarrow> P (Called c r out # h)"
begin

lemma call_simps [simp]:
  assumes "P (trace w)" and "\<not> is_chain_start c"
  shows "trace (call c w) = Called c (kcall_ret K c w) (kcall_out K c w) # trace w" "ct_transfers (call c w) = ct_transfers w"
    "chain (call c w) = chain w" "current_transfer (call c w) = current_transfer w"
  using call [OF assms] by blast+

declare P_call [simp]

lemma create_seq:
  fixes w i
  defines "r \<equiv> create_transfer_buffers_chain K call i w"
  assumes "P (trace w)" and "i < length (ct_transfers w)"
  shows "length (ct_transfers (snd r)) = length (ct_transfers w)" "chain (snd r) = chain w"
    "chainings (trace (snd r)) = chainings (trace w)" "current_transfer (snd r) = current_transfer w" "P (trace (snd r))"
    "j \<noteq> i \<Longrightarrow> ct_bufs (snd r) j = ct_bufs w j"
    "fst r = 0 \<Longrightarrow> has_buffers (buf_size (ct_bufs w i)) (ct_bufs (snd r) i)"
  using assms(2,3) by (simp_all add: r_def create_transfer_buffers_chain_def Let_def ctb_upd_def has_buffers_def split: if_splits)

text \<open>What chaining a transfer does to the buffers and to the history, step by step.\<close>

definition chaining :: "nat \<Rightarrow> dy_world \<Rightarrow> dy_world \<Rightarrow> bool" where
  "chaining i w v \<longleftrightarrow> P (trace v) \<and> length (ct_transfers v) = length (ct_transfers w) \<and> chain v = chain w \<and>
     chainings (trace v) = chainings (trace w) \<and> current_transfer v = current_transfer w \<and>
     (\<forall>j sz. has_buffers sz (ct_bufs v j) = has_buffers sz (ct_bufs w j))"

lemma chaining_upd:
  assumes "chaining i w v" and "i < length (ct_transfers w)" and "\<And>t sz. has_buffers sz (ct_buffers (f t)) = has_buffers sz (ct_buffers t)"
  shows "chaining i w (ct_upd i f v)"
proof -
  have "i < length (ct_transfers v)" using assms(1,2) by (simp add: chaining_def)
  then have "has_buffers sz (ct_bufs (ct_upd i f v) j) = has_buffers sz (ct_bufs v j)" for sz j
    by (simp add: nth_list_update assms(3))
  with assms(1) show ?thesis by (simp add: chaining_def)
qed

lemma chaining_call:
  assumes "chaining i w v" and "\<not> is_chain_start c" and "chains_only (\<lambda>_. False) c"
  shows "chaining i w (call c v)"
  using assms by (simp add: chaining_def)

lemma chaining_id: "chaining i w v \<Longrightarrow> chaining i w (v\<lparr>chained_id := x\<rparr>)"
  by (simp add: chaining_def)

lemma chaining_map:
  assumes "chaining i w v" and "i < length (ct_transfers w)"
  shows "chaining i w (map_to_phys_buffers_chain K call i v)"
  unfolding map_to_phys_buffers_chain_def Let_def ctb_upd_def
  by (intro chaining_upd chaining_call assms) (simp_all add: has_buffers_def)

lemma chain_seq:
  fixes w i
  defines "r \<equiv> chain_transfer K call i w"
  assumes "P (trace w)" and i: "i < length (ct_transfers w)" and S8: "dc_data_type (chain w) = k_const K OMAP_DMA_DATA_TYPE_S8"
  shows "length (ct_transfers (snd r)) = length (ct_transfers w)" "chain (snd r) = chain w"
    "chainings (trace (snd r)) = chainings (trace w) @ [(i, fst r = 0)]" "current_transfer (snd r) = current_transfer w"
    "P (trace (snd r))" "has_buffers sz (ct_bufs (snd r) j) = has_buffers sz (ct_bufs w j)"
proof -
  define w1 where "w1 = ct_upd i (\<lambda>t. t\<lparr>ct_finished := 0, ct_data_correct := 0, ct_frame_count := 1, ct_request_success := 0\<rparr>) w"
  obtain n where n: "chain_elements K (dc_data_type (chain w1)) (buf_size (ct_bufs w1 i)) = Some n"
    using S8 by (simp add: chain_elements_def w1_def)
  define w2 where "w2 = map_to_phys_buffers_chain K call i (ct_upd i (\<lambda>t. t\<lparr>ct_elements_in_frame := n\<rparr>) w1)"
  define w3 where "w3 = (ct_upd i (\<lambda>t. t\<lparr>ct_chained_id := chained_id w2\<rparr>) w2)\<lparr>chained_id := chained_id w2 + 1\<rparr>"
  define w4 where "w4 = ct_upd i (\<lambda>t. t\<lparr>ct_chain_id := dc_chain_id (chain w3)\<rparr>) w3"
  define c where "c = Omap_dma_chain_a_transfer (dc_chain_id (chain w4)) (src_buf_phys (ct_buffers (ct_transfers w4 ! i)))
    (dest_buf_phys (ct_buffers (ct_transfers w4 ! i))) (ct_elements_in_frame (ct_transfers w4 ! i)) (ct_frame_count (ct_transfers w4 ! i)) i"
  define w5 where "w5 = call c w4"
  have "chaining i w w" using assms(2) by (simp add: chaining_def)
  then have 4: "chaining i w w4"
    unfolding w4_def w3_def w2_def w1_def by (intro chaining_upd chaining_id chaining_map i) simp_all
  then have "chaining i w (call c w4 \<lparr>trace := trace w4\<rparr>)" "trace w5 = Called c (kcall_ret K c w4) (kcall_out K c w4) # trace w4" "P (trace w5)"
    by (simp_all add: chaining_def w5_def c_def)
  note 5 = this [unfolded w5_def [symmetric]]
  have r: "r = (if kcall_ret K c w4 \<noteq> 0 then (1, w5) else (0, ct_upd i (\<lambda>t. t\<lparr>ct_request_success := 1\<rparr>) w5))"
    unfolding r_def chain_transfer_def Let_def w1_def [symmetric] n option.case w2_def [symmetric]
    by (simp add: w3_def w4_def c_def w5_def)
  have u: "ct_bufs (ct_upd i (\<lambda>t. t\<lparr>ct_request_success := 1\<rparr>) w5) j = ct_bufs w5 j"
    by (cases "i < length (ct_transfers w5)") (simp_all add: nth_list_update list_update_beyond)
  have t: "trace (snd r) = trace w5" by (simp add: r)
  show "P (trace (snd r))" unfolding t by (rule 5(3))
  have "chainings (trace w5) = chainings (trace w4) @ [(i, kcall_ret K c w4 = 0)]"
    unfolding 5(2) by (simp add: c_def)
  then show "chainings (trace (snd r)) = chainings (trace w) @ [(i, fst r = 0)]"
    unfolding t using 4 by (simp add: r chaining_def)
  show "length (ct_transfers (snd r)) = length (ct_transfers w)" "chain (snd r) = chain w"
    "current_transfer (snd r) = current_transfer w"
    using 5(1) by (simp_all add: r chaining_def)
  show "has_buffers sz (ct_bufs (snd r) j) = has_buffers sz (ct_bufs w j)"
    using 5(1) u by (simp add: r chaining_def)
qed

end

interpretation irq_log: logged_call K "kcall_irq K" "\<lambda>_. True" for K
  by unfold_locales simp_all

lemma thread_log:
  assumes "irq_after_chain_start K"
  shows "logged_call K (kcall_thread K h) (\<lambda>h. \<not> chain_started h)"
proof unfold_locales
  fix w :: dy_world and c
  assume n: "\<not> chain_started (trace w)" "\<not> is_chain_start c"
  then have "\<not> chain_started (trace (kcall_irq K c w))" by simp
  with assms have "no_irq (k_events K (trace (kcall_irq K c w)))" unfolding irq_after_chain_start_def by blast
  then obtain m where "kcall_thread K h c w = (kcall_irq K c w)\<lparr>mem := m\<rparr>"
    using deliver_no_irq [of _ h "kcall_irq K c w"] by (auto simp: kcall_thread_def Let_def)
  then show "trace (kcall_thread K h c w) = Called c (kcall_ret K c w) (kcall_out K c w) # trace w \<and>
      ct_transfers (kcall_thread K h c w) = ct_transfers w \<and> chain (kcall_thread K h c w) = chain w \<and>
      current_transfer (kcall_thread K h c w) = current_transfer w" by simp
qed simp_all

section \<open>The callback\<close>

lemma dyn_seq_create:
  assumes s: "dyn_seq K n sz c w" and c: "c < n"
  defines "r \<equiv> create_transfer_buffers_chain K (kcall_irq K) c (ctb_upd c (\<lambda>b. b\<lparr>buf_size := sz\<rparr>) w)"
  shows "dyn_seq K n sz c (snd r)" "current_transfer (snd r) = current_transfer w"
    "fst r = 0 \<Longrightarrow> has_buffers sz (ct_bufs (snd r) c)"
proof -
  let ?w = "ctb_upd c (\<lambda>b. b\<lparr>buf_size := sz\<rparr>) w"
  have l: "True" "c < length (ct_transfers ?w)" using s c by (simp_all add: dyn_seq_def ctb_upd_def)
  note cr = irq_log.create_seq(1-4,6,7) [where K = K, OF l, folded r_def]
  have "has_buffers sz (ct_bufs (snd r) j)" if "j < c" for j
    using s c that cr(5) [of j] by (simp add: dyn_seq_def ctb_upd_def)
  with s cr(1-3) show "dyn_seq K n sz c (snd r)" by (simp add: dyn_seq_def accepted_def ctb_upd_def)
  show "current_transfer (snd r) = current_transfer w" using cr(4) by simp
  show "has_buffers sz (ct_bufs (snd r) c)" if "fst r = 0"
    using cr(6) [OF that] s c by (simp add: dyn_seq_def ctb_upd_def)
qed

lemma accepted_snoc: "chainings h' = chainings h @ [(c, b)] \<Longrightarrow> accepted h' = accepted h @ (if b then [c] else [])"
  by (simp add: accepted_def)

lemma dyn_link_seq:
  assumes s: "dyn_seq K n sz (current_transfer w) w" and c: "current_transfer w < n"
  shows "dyn_seq K n sz (current_transfer (dyn_link K sz i w)) (dyn_link K sz i w)"
proof -
  let ?c = "current_transfer w"
  define r1 where "r1 = create_transfer_buffers_chain K (kcall_irq K) ?c (ctb_upd ?c (\<lambda>b. b\<lparr>buf_size := sz\<rparr>) w)"
  define w2 where "w2 = fill_source_buffer_chain ?c (snd r1)"
  define r3 where "r3 = chain_transfer K (kcall_irq K) ?c w2"
  note cr = dyn_seq_create [OF s c, folded r1_def]
  have f2: "seq_frame (snd r1) w2" unfolding w2_def by (intro seq_intros)
  have s2: "dyn_seq K n sz ?c w2" using cr(1) f2 by (rule dyn_seq_frame)
  then have "True" "?c < length (ct_transfers w2)" "dc_data_type (chain w2) = k_const K OMAP_DMA_DATA_TYPE_S8"
    using c by (simp_all add: dyn_seq_def)
  note ch = irq_log.chain_seq(1-4,6) [OF this, folded r3_def]
  have c3: "current_transfer (snd r3) = ?c" using ch(4) f2 cr(2) by (simp add: seq_frame_def)
  have fail: "dyn_seq K n sz ?c (snd r3)" if "fst r3 \<noteq> 0"
    using s2 c ch(1-3,5) that accepted_snoc [OF ch(3)] by (simp add: dyn_seq_def)
  have ok: "dyn_seq K n sz (Suc ?c) (snd r3)" if "fst r3 = 0" "fst r1 = 0"
  proof -
    have "has_buffers sz (ct_bufs w2 ?c)" using cr(3) [OF that(2)] f2 by (simp add: seq_frame_def)
    with s2 c ch(1-3,5) that accepted_snoc [OF ch(3)] show ?thesis by (simp add: dyn_seq_def less_Suc_eq)
  qed
  have e: "seq_frame v (v\<lparr>transfer_end := 1\<rparr>)" for v by (intro seq_intros)
  have u: "seq_frame v (ct_upd i (\<lambda>t. t\<lparr>ct_data_correct := 1\<rparr>) v)" for v by (intro seq_intros) simp
  have cur: "dyn_seq K n sz c (v\<lparr>current_transfer := x\<rparr>) = dyn_seq K n sz c v" for c v x by (simp add: dyn_seq_def)
  consider (create) "dyn_link K sz i w = (snd r1)\<lparr>transfer_end := 1\<rparr>" | (chain) "fst r3 \<noteq> 0" "dyn_link K sz i w = (snd r3)\<lparr>transfer_end := 1\<rparr>"
    | (ok) "fst r1 = 0" "fst r3 = 0" "dyn_link K sz i w = ct_upd i (\<lambda>t. t\<lparr>ct_data_correct := 1\<rparr>) ((snd r3)\<lparr>current_transfer := Suc ?c\<rparr>)"
    by (cases "fst r1 = 0"; cases "fst r3 = 0")
      (simp_all add: dyn_link_def Let_def case_prod_beta r1_def w2_def r3_def)
  then show ?thesis
  proof cases
    case create
    with dyn_seq_frame [OF cr(1) e] cr(2) show ?thesis by simp
  next
    case chain
    with dyn_seq_frame [OF fail e] c3 show ?thesis by simp
  next
    case ok': ok
    have "dyn_seq K n sz (Suc ?c) ((snd r3)\<lparr>current_transfer := Suc ?c\<rparr>)" using ok ok' by (simp add: cur)
    from dyn_seq_frame [OF this u] show ?thesis unfolding ok'(3) by simp
  qed
qed

lemma dyn_callback_seq:
  assumes s: "dyn_seq K n sz (current_transfer w) w" and e: "\<And>i w. seq_frame w (snd (extra i w))"
  shows "dyn_seq K n sz (current_transfer (dyn_callback K n sz extra lch st i w)) (dyn_callback K n sz extra lch st i w)"
proof -
  have keep: "dyn_seq K n sz (current_transfer w') w'" if "seq_frame w w'" for w'
    using dyn_seq_frame [OF s that] that by (simp add: seq_frame_def)
  let ?w1 = "ct_upd i (\<lambda>t. t\<lparr>ct_data_correct := 0, ct_finished := 1\<rparr>) w"
  define w2 where "w2 = snd (extra i ?w1)"
  have f1: "seq_frame w ?w1" by (intro seq_intros) simp
  have f2: "seq_frame w w2" using f1 e [of ?w1 i] by (simp add: seq_frame_def w2_def)
  have s2: "dyn_seq K n sz (current_transfer w2) w2" by (rule keep) (rule f2)
  have fin: "seq_frame w (kcall_irq K (Omap_stop_dma_chain_transfers x)
      ((ct_upd i (\<lambda>t. t\<lparr>ct_data_correct := 1, ct_finished := 1\<rparr>) w)\<lparr>transfer_end := 1\<rparr>))" for x
    by (intro seq_intros) simp_all
  have "dyn_seq K n sz (current_transfer (dyn_link K sz i w2)) (dyn_link K sz i w2)" if "current_transfer w \<noteq> n"
    using s2 dyn_link_seq [OF s2] that f2 by (simp add: seq_frame_def dyn_seq_def)
  moreover have "dyn_seq K n sz (current_transfer (w2\<lparr>transfer_end := 1\<rparr>)) (w2\<lparr>transfer_end := 1\<rparr>)"
    by (rule keep) (intro seq_intros f2)
  ultimately show ?thesis
    using s s2 keep [OF fin]
    by (auto simp: dyn_callback_def Let_def case_prod_beta w2_def [symmetric])
qed

section \<open>A whole run\<close>

text \<open>Requesting the chain and chaining its first transfer, before any interrupt.\<close>

definition seq_start :: "kernel \<Rightarrow> nat \<Rightarrow> u32 \<Rightarrow> dy_world \<Rightarrow> bool" where
  "seq_start K n sz w \<longleftrightarrow> \<not> chain_started (trace w) \<and> dyn_seq K n sz 0 w \<and> current_transfer w = 0"

lemma seq_request:
  fixes h :: "dy_world handler"
  assumes law: "irq_after_chain_start K" and "length (ct_transfers w) = n" "chainings (trace w) = []" "\<not> chain_started (trace w)" "current_transfer w = 0"
  defines "call \<equiv> kcall_thread K h"
  shows "seq_start K n sz (snd (dyn_request K call (request_dma_chain K call) n set_cb w))"
proof -
  note lg = logged_call.call_simps [OF thread_log [OF law], of _ _ h, folded call_def]
  have call: "seq_start K n sz (call c v)" if "seq_start K n sz v" "chains_only (\<lambda>_. False) c" "\<not> is_chain_start c" for c v
    using that lg [of v c] by (simp add: seq_start_def dyn_seq_def accepted_def)
  have upd: "seq_start K n sz (dc_upd f v)" if "seq_start K n sz v" "\<And>d. dc_data_type (f d) = dc_data_type d" for f v
    using that by (simp add: seq_start_def dyn_seq_def)
  have "seq_start K n sz (dynamic_config K (int n) w)"
    using assms(2-5) by (simp add: dynamic_config_def seq_start_def dyn_seq_def accepted_def)
  then have "seq_start K n sz (snd (request_dma_chain K call (dynamic_config K (int n) w)))"
    by (simp add: request_dma_chain_def Let_def upd call split: option.split)
  then show ?thesis by (simp add: dyn_request_def case_prod_beta call)
qed

lemma seq_add:
  fixes h :: "dy_world handler"
  assumes law: "irq_after_chain_start K" and s: "seq_start K n sz w" and n: "0 < n"
  defines "r \<equiv> chain_add K (kcall_thread K h) sz (\<lambda>i w. w) 0 w"
  shows "dyn_seq K n sz (if fst r = 0 then 1 else 0) (snd r)" "current_transfer (snd r) = 0"
proof -
  let ?call = "kcall_thread K h" and ?u = "ctb_upd 0 (\<lambda>b. b\<lparr>buf_size := sz\<rparr>) w"
  note L = thread_log [OF law, of h]
  define r1 where "r1 = create_transfer_buffers_chain K ?call 0 ?u"
  define w2 where "w2 = fill_source_buffer_chain 0 (snd r1)"
  define r3 where "r3 = chain_transfer K ?call 0 w2"
  have u: "\<not> chain_started (trace ?u)" "0 < length (ct_transfers ?u)"
    using s n by (simp_all add: seq_start_def dyn_seq_def ctb_upd_def)
  note cr = logged_call.create_seq(1-3,5,7,4) [OF L this, folded r1_def]
  have bu: "buf_size (ct_bufs ?u 0) = sz" using s n by (simp add: seq_start_def dyn_seq_def ctb_upd_def)
  have s1: "dyn_seq K n sz 0 (snd r1)" using s cr(1-3) by (simp add: seq_start_def dyn_seq_def accepted_def ctb_upd_def)
  have f2: "seq_frame (snd r1) w2" unfolding w2_def by (intro seq_intros)
  have s2: "dyn_seq K n sz 0 w2" using s1 f2 by (rule dyn_seq_frame)
  have "\<not> chain_started (trace w2)" "0 < length (ct_transfers w2)" "dc_data_type (chain w2) = k_const K OMAP_DMA_DATA_TYPE_S8"
    using cr(4) s2 n by (simp_all add: w2_def dyn_seq_def)
  note ch = logged_call.chain_seq(1-3,6,4) [OF L this, folded r3_def]
  have b2: "has_buffers sz (ct_bufs w2 0)" if "fst r1 = 0" using cr(5) [OF that] bu f2 by (simp add: seq_frame_def)
  have s3: "dyn_seq K n sz (if fst r3 = 0 then 1 else 0) (snd r3)" if "fst r1 = 0"
    using s2 n ch b2 [OF that] accepted_snoc [OF ch(3)] by (simp add: dyn_seq_def)
  have p: "dyn_seq K n sz c (set_test_passed_chain 0 v)" if "dyn_seq K n sz c v" for c v
    using that by (rule dyn_seq_frame) (intro seq_intros)
  have r: "r = (if fst r1 \<noteq> 0 then (1, set_test_passed_chain 0 (snd r1))
      else if fst r3 \<noteq> 0 then (1, set_test_passed_chain 0 (snd r3)) else (0, snd r3))"
    by (simp add: r_def chain_add_def Let_def case_prod_beta r1_def w2_def r3_def)
  show "dyn_seq K n sz (if fst r = 0 then 1 else 0) (snd r)" using s3 p [OF s1] p [OF s3] by (auto simp: r)
  have "current_transfer (snd r1) = 0" "current_transfer (snd r3) = 0"
    using s cr(6) ch(5) f2 by (simp_all add: seq_start_def seq_frame_def)
  then show "current_transfer (snd r) = 0" by (simp add: r)
qed

text \<open>A variant is a callback of the common shape whose extra step chains nothing.\<close>

locale dyn_order =
  fixes K :: kernel and n :: nat and sz :: u32 and extra :: "nat \<Rightarrow> dy_world \<Rightarrow> bool \<times> dy_world"
  assumes extra: "seq_frame w (snd (extra i w))" and pos: "0 < n"

sublocale dyn_order \<subseteq> irq_invariant "dyn_callback K n sz extra" "\<lambda>w. dyn_seq K n sz (current_transfer w) w"
proof unfold_locales
  fix w lch st d
  assume "dyn_seq K n sz (current_transfer w) w"
  then have "dyn_seq K n sz (current_transfer (log_ev (Interrupt lch st d (mem w)) w)) (log_ev (Interrupt lch st d (mem w)) w)"
    by (simp add: dyn_seq_def accepted_def)
  then show "dyn_seq K n sz (current_transfer (dyn_callback K n sz extra lch st d (log_ev (Interrupt lch st d (mem w)) w)))
      (dyn_callback K n sz extra lch st d (log_ev (Interrupt lch st d (mem w)) w))"
    by (rule dyn_callback_seq) (rule extra)
qed (simp add: dyn_seq_def)

context dyn_order
begin

lemma call_seq:
  assumes "dyn_seq K n sz (current_transfer w) w" and "chains_only (\<lambda>_. False) c"
  shows "dyn_seq K n sz (current_transfer (kcall_thread K (dyn_callback K n sz extra) c w)) (kcall_thread K (dyn_callback K n sz extra) c w)"
  using assms by (intro kcall_thread_inv) (simp add: dyn_seq_def accepted_def)

lemma run_seq:
  fixes fin :: "dy_world \<Rightarrow> int" and set_cb :: bool and c :: "kcall \<Rightarrow> dy_world \<Rightarrow> dy_world"
  assumes law: "irq_after_chain_start K" and w: "length (ct_transfers w) = n" "chainings (trace w) = []" "\<not> chain_started (trace w)"
      "current_transfer w = 0"
    and check: "\<And>w. seq_frame w (check w)"
  defines "c \<equiv> kcall_thread K (dyn_callback K n sz extra)"
    and "r \<equiv> dyn_run K c (request_dma_chain K c) n sz set_cb fin check w"
  shows "dyn_seq K n sz (current_transfer (snd r)) (snd r)"
proof -
  define q where "q = dyn_request K c (request_dma_chain K c) n set_cb w"
  have s1: "seq_start K n sz (snd q)" unfolding q_def c_def by (rule seq_request [OF law w])
  then have q0: "dyn_seq K n sz (current_transfer (set_test_passed_chain 0 (snd q))) (set_test_passed_chain 0 (snd q))"
    by (simp add: seq_start_def dyn_seq_def)
  define a where "a = chain_add K c sz (\<lambda>i w. w) 0 (snd q)"
  have s2: "dyn_seq K n sz (if fst a = 0 then 1 else 0) (snd a)" "current_transfer (snd a) = 0"
    unfolding a_def c_def using seq_add [OF law s1 pos] by blast+
  have keep: "dyn_seq K n sz (current_transfer y) y" if "dyn_seq K n sz (current_transfer x) x" "seq_frame x y" for x y
    using dyn_seq_frame [OF that] that(2) by (simp add: seq_frame_def)
  define v where "v = snd (start_dma_chain K c (setup_dma_chain K c ((snd a)\<lparr>current_transfer := 1\<rparr>)))"
  let ?p = "poll_loop (\<lambda>w. fin w \<noteq> 0) (c (Mdelay TRANSFER_POLL_TIME)) check TRANSFER_POLL_COUNT v"
  have "dyn_seq K n sz (current_transfer v) v" if "fst a = 0"
  proof -
    have "dyn_seq K n sz (current_transfer ((snd a)\<lparr>current_transfer := 1\<rparr>)) ((snd a)\<lparr>current_transfer := 1\<rparr>)"
      using s2(1) that by (simp add: dyn_seq_def)
    then show ?thesis by (simp add: v_def start_dma_chain_def setup_dma_chain_def Let_def c_def call_seq)
  qed
  moreover have "dyn_seq K n sz (current_transfer x) x \<Longrightarrow> dyn_seq K n sz (current_transfer (check x)) (check x)" for x
    using keep [OF _ check] by blast
  ultimately have "dyn_seq K n sz (current_transfer (snd ?p)) (snd ?p)" if "fst a = 0"
    using that by (intro poll_loop_keeps [where P = "\<lambda>w. dyn_seq K n sz (current_transfer w) w"]) (simp_all add: c_def call_seq)
  moreover have "seq_frame (snd ?p) (snd (chain_poll c fin check v))"
    by (simp add: chain_poll_def case_prod_beta seq_intros)
  ultimately have "dyn_seq K n sz (current_transfer (snd (chain_poll c fin check v))) (snd (chain_poll c fin check v))" if "fst a = 0"
    using keep that by blast
  moreover have "snd r =
      (if fst q \<noteq> 0 then set_test_passed_chain 0 (snd q) else if fst a \<noteq> 0 then snd a else snd (chain_poll c fin check v))"
    by (simp add: r_def dyn_run_def q_def a_def v_def case_prod_beta Let_def)
  moreover have "dyn_seq K n sz (current_transfer (snd a)) (snd a)" if "fst a \<noteq> 0" using s2 that by simp
  ultimately show ?thesis using q0 by simp
qed

end

interpretation dynamic_order: dyn_order K 10 1024 "\<lambda>i w. (False, unmap_phys_buffers_chain (kcall_irq K) i w)" for K
  by unfold_locales (simp_all add: extras_seq [simplified])

interpretation dynbreak_order: dyn_order K 10 "1024 * 1024" "dynbreak_extra K" for K
  by unfold_locales (simp_all add: extras_seq)

interpretation dyninvalid_order: dyn_order K 40 "1024 * 1024" "\<lambda>i w. (False, w)" for K
  by unfold_locales (simp_all add: seq_frame_refl)

interpretation dynremoved_order: dyn_order K 10 "1024 * 1024" "dynremoved_extra K" for K
  by unfold_locales (simp_all add: extras_seq)

lemma checks_seq: "seq_frame w (chain_check_test_passed n w)" "seq_frame w (dynbreak_check_test_passed w)"
  by (simp_all add: chain_check_test_passed_def dynbreak_check_test_passed_def Let_def seq_intros)

lemma handed_accepted: "handed i h \<longleftrightarrow> i \<in> set (accepted h)"
  by (induction h rule: chainings.induct) (auto simp: accepted_def)

lemma irqs_accepted: "irqs_handed h \<Longrightarrow> set (irq_ids h) \<subseteq> set (accepted h)"
proof (induction h rule: irq_ids.induct)
  case (2 c r out h)
  have "set (accepted h) \<subseteq> set (accepted (Called c r out # h))" by (cases c) (simp_all add: accepted_def)
  with 2 show ?case by auto
next
  case (3 lch st d m h)
  then show ?case by (simp add: handed_accepted) (simp add: accepted_def)
qed (simp add: accepted_def)

section \<open>The property\<close>

definition all_dynamic_modules :: "kernel \<Rightarrow> (nat \<times> u32 \<times> (dy_world \<Rightarrow> int \<times> dy_world)) list" where
  "all_dynamic_modules K = [(10, 1024, dynamic_module_init K), (10, 1024 * 1024, dynbreak_module_init K),
     (40, 1024 * 1024, dyninvalid_module_init K), (10, 1024 * 1024, dynremoved_module_init K)]"

text \<open>
  C35. All four dynamic chain modules stay inside their array of transfers and use it in order: every
  index that they hand to the driver is below the size of the array; the transfers that the driver
  accepts are 0, 1, 2 and so on, none left out and none twice, whatever the interrupts report, and
  \<open>current_transfer\<close> counts them; and each accepted transfer has a source and a destination buffer of the
  module's size.
\<close>

theorem dynamic_chain_order:
  assumes "irq_after_chain_start K" and "(n, sz, ini) \<in> set (all_dynamic_modules K)" and "ini (dy_fresh n m) = (r, w)"
  shows "length (ct_transfers w) = n \<and> (\<forall>(j, ok) \<in> set (chainings (trace w)). j < n) \<and>
    accepted (trace w) = [0..<current_transfer w] \<and> current_transfer w \<le> n \<and>
    (\<forall>j < current_transfer w. has_buffers sz (ct_bufs w j))"
proof -
  have f: "length (ct_transfers (dy_fresh k m)) = k" "chainings (trace (dy_fresh k m)) = []" "\<not> chain_started (trace (dy_fresh k m))"
    "current_transfer (dy_fresh k m) = 0" for k
    by (simp_all add: dy_fresh_def)
  note runs = dynamic_order.run_seq [OF assms(1) f] dynbreak_order.run_seq [OF assms(1) f]
    dyninvalid_order.run_seq [OF assms(1) f] dynremoved_order.run_seq [OF assms(1) f]
  from assms(2) consider "(n, sz, ini) = (10, 1024, dynamic_module_init K)"
    | "(n, sz, ini) = (10, 1024 * 1024, dynbreak_module_init K)"
    | "(n, sz, ini) = (40, 1024 * 1024, dyninvalid_module_init K)"
    | "(n, sz, ini) = (10, 1024 * 1024, dynremoved_module_init K)"
    unfolding all_dynamic_modules_def by auto
  then have "dyn_seq K n sz (current_transfer (snd (ini (dy_fresh n m)))) (snd (ini (dy_fresh n m)))"
    by cases (simp only: prod.inject, elim conjE, simp only: dyn_defs, rule runs, rule checks_seq)+
  then show ?thesis using assms(3) by (auto simp: dyn_seq_def)
qed

theorem dynamic_chain_order_witness:
  "let w = snd (dynamic_module_init dyn_demo (dy_fresh 10 (\<lambda>_. 0)))
   in irq_after_chain_start dyn_demo \<and> accepted (trace w) = [0..<10] \<and> (\<forall>j<10. has_buffers 1024 (ct_bufs w j))"
proof -
  define w where "w = snd (dynamic_module_init dyn_demo (dy_fresh 10 (\<lambda>_. 0)))"
  have "(10, 1024, dynamic_module_init dyn_demo) \<in> set (all_dynamic_modules dyn_demo)"
    by (simp add: all_dynamic_modules_def)
  note o = dynamic_chain_order [where m = "\<lambda>_. 0", OF dyn_demo_law this prod.collapse [symmetric], folded w_def]
  have "9 \<in> set (accepted (trace w))"
    using irqs_accepted [of "trace w"] demo_dynamic_init [of "\<lambda>_. 0", folded w_def] by auto
  with o have "current_transfer w = 10" by auto
  with o dyn_demo_law show ?thesis unfolding w_def [symmetric] Let_def by simp
qed

end
