(* ===== verification/Dma_Dload.thy ===== *)
theory Dma_Dload
  imports Dma_Single
begin

text \<open>
  The tests of descriptor autoloading: \<^verbatim>\<open>dma_dload.c\<close>, which gathers seven source blocks into one
  destination buffer with a list of descriptors, and \<^verbatim>\<open>dma_dload_bad_descriptor.c\<close>, which does the same
  with descriptors of an unspecified type.
\<close>

section \<open>Data\<close>

definition num_elements_in_list :: nat where
  "num_elements_in_list = 7"

definition test_element_size :: nat where
  "test_element_size = 100"

record tlist_transfer =
  src_addr :: "u32 list"
  src_addr_phy :: "u32 list"
  transfer_sizes :: "u32 list"
  total_num_elements :: u32
  dst_addr :: u32
  dst_addr_phy :: u32
  sglist_id :: int
  user_sglist :: u32
  user_sglist_phy :: u32

text \<open>
  The callback registered with the driver, and whether its data pointer is still NULL; \<open>crashed\<close>
  records that a callback was run with a NULL data pointer.
\<close>

datatype dl_callback = Cb_none | Cb_null | Cb_final | Cb_inter

record dl_world = base_world +
  tls1 :: tlist_transfer
  nodes :: "sglist_node list"
  dl_cb :: dl_callback
  crashed :: bool

text \<open>What a function does: return a code, or write through a NULL pointer.\<close>

datatype dl_result = Returned int | Null_write

definition dl_fresh :: "memory \<Rightarrow> dl_world" where
  "dl_fresh m = \<lparr>trace = [], mem = m, test_passed = - 1,
     tls1 = \<lparr>src_addr = replicate 7 0, src_addr_phy = replicate 7 0, transfer_sizes = replicate 7 0,
       total_num_elements = 0, dst_addr = 0, dst_addr_phy = 0, sglist_id = 0, user_sglist = 0, user_sglist_phy = 0\<rparr>,
     nodes = [], dl_cb = Cb_none, crashed = False\<rparr>"

definition tl_upd :: "(tlist_transfer \<Rightarrow> tlist_transfer) \<Rightarrow> dl_world \<Rightarrow> dl_world" where
  "tl_upd f w = w\<lparr>tls1 := f (tls1 w)\<rparr>"

definition transfer_params :: "kernel \<Rightarrow> omap_dma_channel_params" where
  "transfer_params K = \<lparr>p_data_type = k_const K OMAP_DMA_DATA_TYPE_S32, p_elem_count = 0, p_frame_count = 1,
     p_src_amode = k_const K OMAP_DMA_AMODE_POST_INC, p_src_start = 0, p_src_ei = 0, p_src_fi = 0,
     p_dst_amode = k_const K OMAP_DMA_AMODE_POST_INC, p_dst_start = 0, p_dst_ei = 0, p_dst_fi = 0,
     p_trigger = k_const K OMAP_DMA_NO_DEVICE, p_sync_mode = k_const K OMAP_DMA_SYNC_ELEMENT, p_ie = 0,
     p_burst_mode = k_const K OMAP_DMA_DATA_BURST_4\<rparr>"

section \<open>Verification of the destination\<close>

text \<open>
  The inner loop compares \<open>n\<close> bytes; it leaves the destination pointer behind the last byte, or
  nothing at the first difference.
\<close>

fun verify_block :: "memory \<Rightarrow> u32 \<Rightarrow> u32 \<Rightarrow> nat \<Rightarrow> u32 option" where
  "verify_block m src1 dst1 0 = Some dst1"
| "verify_block m src1 dst1 (Suc n) =
     (if m src1 \<noteq> m dst1 then None else verify_block m (src1 + 1) (dst1 + 1) n)"

fun verify_blocks :: "memory \<Rightarrow> tlist_transfer \<Rightarrow> nat \<Rightarrow> nat \<Rightarrow> u32 \<Rightarrow> int" where
  "verify_blocks m tr i 0 dst1 = 0"
| "verify_blocks m tr i (Suc k) dst1 =
     (case verify_block m (src_addr tr ! i) dst1 (unat (transfer_sizes tr ! i * 4)) of
        None \<Rightarrow> - 1
      | Some dst1 \<Rightarrow> verify_blocks m tr (Suc i) k dst1)"

definition verify_dest_buffer :: "memory \<Rightarrow> tlist_transfer \<Rightarrow> nat \<Rightarrow> int" where
  "verify_dest_buffer m tr nelems = verify_blocks m tr 0 nelems (dst_addr tr)"

section \<open>Callbacks\<close>

definition dma_sglist_cb_final :: "kernel \<Rightarrow> int \<Rightarrow> u16 \<Rightarrow> dl_world \<Rightarrow> dl_world" where
  "dma_sglist_cb_final K sglistid ch_status w =
     (let w = kcall_irq K (Omap_get_completed_sglist_nodes sglistid) w
      in if verify_dest_buffer (mem w) (tls1 w) num_elements_in_list = 0 then set_test_passed 1 w else w)"

definition PAUSE_AT_ELEMENT :: nat where
  "PAUSE_AT_ELEMENT = 0"

definition dma_sglist_cb_inter :: "kernel \<Rightarrow> int \<Rightarrow> u16 \<Rightarrow> dl_world \<Rightarrow> dl_world" where
  "dma_sglist_cb_inter K sglistid ch_status w =
     (let w = kcall_irq K (Omap_get_completed_sglist_nodes sglistid) w;
          w = kcall_irq K (Omap_dma_sglist_is_paused sglistid) w;
          stat = verify_dest_buffer (mem w) (tls1 w) PAUSE_AT_ELEMENT
      in if stat \<noteq> 0 then set_test_passed 0 w
         else let w = kcall_irq K (Omap_set_dma_callback sglistid) (w\<lparr>dl_cb := Cb_final\<rparr>)
              in kcall_irq K (Omap_resume_dma_sglist_transfers sglistid (- 1)) w)"

text \<open>The driver runs the callback that is registered.\<close>

definition dload_callback :: "kernel \<Rightarrow> dl_world handler" where
  "dload_callback K lch st d w =
     (case dl_cb w of
        Cb_none \<Rightarrow> w
      | Cb_null \<Rightarrow> w\<lparr>crashed := True\<rparr>
      | Cb_final \<Rightarrow> dma_sglist_cb_final K lch st w
      | Cb_inter \<Rightarrow> dma_sglist_cb_inter K lch st w)"

section \<open>Descriptors\<close>

definition sg_first :: "kernel \<Rightarrow> int \<Rightarrow> tlist_transfer \<Rightarrow> sglist_node \<Rightarrow> sglist_node" where
  "sg_first K ty ptls e = e\<lparr>desc_type := ty, num_of_elem := transfer_sizes ptls ! 0,
     sg_flags := k_const K OMAP_DMA_LIST_SRC_VALID OR k_const K OMAP_DMA_LIST_DST_VALID,
     sg_data := T2a (src_addr_phy ptls ! 0) (dst_addr_phy ptls) 1 0x922 0 1 0 1\<rparr>"

definition sg_later :: "kernel \<Rightarrow> int \<Rightarrow> tlist_transfer \<Rightarrow> nat \<Rightarrow> sglist_node \<Rightarrow> sglist_node" where
  "sg_later K ty ptls i e = e\<lparr>desc_type := ty, num_of_elem := transfer_sizes ptls ! i,
     sg_data := T3b (src_addr_phy ptls ! i), sg_flags := k_const K OMAP_DMA_LIST_SRC_VALID\<rparr>"

fun sg_fill :: "kernel \<Rightarrow> int \<Rightarrow> tlist_transfer \<Rightarrow> nat \<Rightarrow> nat \<Rightarrow> sglist_node list \<Rightarrow> sglist_node list" where
  "sg_fill K ty ptls i 0 sglist = sglist"
| "sg_fill K ty ptls i (Suc k) sglist =
     sg_fill K ty ptls (Suc i) k (sglist[i := sg_later K ty ptls i (sglist ! i)])"

definition dmatest_populate_sglist :: "kernel \<Rightarrow> tlist_transfer \<Rightarrow> nat \<Rightarrow> sglist_node list \<Rightarrow> sglist_node list" where
  "dmatest_populate_sglist K ptls nelem sglist =
     sg_fill K (k_const K OMAP_DMA_SGLIST_DESCRIPTOR_TYPE3b) ptls 1 (nelem - 1)
       (sglist[0 := sg_first K (k_const K OMAP_DMA_SGLIST_DESCRIPTOR_TYPE2a) ptls (sglist ! 0)])"

section \<open>The test\<close>

text \<open>\<^verbatim>\<open>memset\<close>\<close>

definition memset_bytes :: "u32 \<Rightarrow> u8 \<Rightarrow> nat \<Rightarrow> memory \<Rightarrow> memory" where
  "memset_bytes a v n m = (\<lambda>x. if unat (x - a) < n then v else m x)"

text \<open>One round of the loop over the source blocks; the code 1 is a write to NULL.\<close>

definition src_block :: "kernel \<Rightarrow> (kcall \<Rightarrow> dl_world \<Rightarrow> dl_world) \<Rightarrow> nat \<Rightarrow> dl_world \<Rightarrow> int \<times> dl_world" where
  "src_block K call i w =
     (let w = tl_upd (\<lambda>t. t\<lparr>transfer_sizes := (transfer_sizes t)[i := of_nat ((i + 10) * test_element_size)]\<rparr>) w;
          sz = transfer_sizes (tls1 w) ! i * 4;
          c = Dma_alloc_coherent sz;
          a = word_of_int (kcall_ret K c w);
          out = kcall_out K c w;
          w = call c w;
          w = tl_upd (\<lambda>t. t\<lparr>src_addr := (src_addr t)[i := a],
                src_addr_phy := (case out of None \<Rightarrow> src_addr_phy t | Some p \<Rightarrow> (src_addr_phy t)[i := word_of_int p])\<rparr>) w
      in if a = 0 then (1, w)
         else let w = w\<lparr>mem := memset_bytes a (of_nat (i + 0x41)) (unat sz) (mem w)\<rparr>
              in (0, tl_upd (\<lambda>t. t\<lparr>total_num_elements := total_num_elements t + transfer_sizes t ! i\<rparr>) w))"

definition dst_block :: "kernel \<Rightarrow> (kcall \<Rightarrow> dl_world \<Rightarrow> dl_world) \<Rightarrow> dl_world \<Rightarrow> int \<times> dl_world" where
  "dst_block K call w =
     (let sz = total_num_elements (tls1 w) * 4;
          c = Dma_alloc_coherent sz;
          a = word_of_int (kcall_ret K c w);
          out = kcall_out K c w;
          w = call c w
      in if a = 0 then (1, w)
         else let w = w\<lparr>mem := memset_bytes a 0xFF (unat sz) (mem w)\<rparr>
              in (0, tl_upd (\<lambda>t. t\<lparr>dst_addr := a,
                   dst_addr_phy := (case out of None \<Rightarrow> dst_addr_phy t | Some p \<Rightarrow> word_of_int p)\<rparr>) w))"

text \<open>Program the channel with the populated list and start it, pausing at \<open>pause\<close>.\<close>

definition sg_launch :: "kernel \<Rightarrow> (kcall \<Rightarrow> dl_world \<Rightarrow> dl_world) \<Rightarrow> dl_callback \<Rightarrow> int \<Rightarrow> dl_world
    \<Rightarrow> dl_result \<times> dl_world" where
  "sg_launch K call cb pause w =
     (let sid = sglist_id (tls1 w);
          w = call (Omap_dma_set_prio_lch sid (k_const K DMA_CH_PRIO_HIGH) (k_const K DMA_CH_PRIO_HIGH)) w;
          w = call (Omap_dma_set_sglist_fastmode sid 1) w;
          w = call (Omap_set_dma_callback sid) (w\<lparr>dl_cb := cb\<rparr>);
          c = Omap_start_dma_sglist_transfers sid pause;
          rc = kcall_ret K c w
      in (Returned rc, call c w))"

text \<open>\<open>sg0\<close> is what the memory of the descriptor page holds when it is allocated.\<close>

definition dmasglist_test1 :: "kernel \<Rightarrow> (kcall \<Rightarrow> dl_world \<Rightarrow> dl_world) \<Rightarrow> sglist_node list \<Rightarrow> dl_world
    \<Rightarrow> dl_result \<times> dl_world" where
  "dmasglist_test1 K call sg0 w =
     (case for_or_fail (src_block K call) 0 num_elements_in_list w of (e, w) \<Rightarrow>
        if e \<noteq> 0 then (Null_write, w)
        else case dst_block K call w of (e, w) \<Rightarrow>
          if e \<noteq> 0 then (Null_write, w)
          else
            let c = Omap_request_dma (k_const K OMAP_DMA_NO_DEVICE) 0;
                out = kcall_out K c w;
                w = call c (w\<lparr>dl_cb := Cb_null\<rparr>);
                sid = (case out of None \<Rightarrow> sglist_id (tls1 w) | Some x \<Rightarrow> x);
                c = Dma_alloc_coherent (word_of_int (k_const K PAGE_SIZE));
                a = word_of_int (kcall_ret K c w);
                out = kcall_out K c w;
                w = call c w;
                w = tl_upd (\<lambda>t. t\<lparr>sglist_id := sid\<rparr>) w
            in if a = 0 then (Returned (- k_const K ENOBUFS), w)
               else
                 let p = (case out of None \<Rightarrow> 0 | Some x \<Rightarrow> word_of_int x);
                     w = tl_upd (\<lambda>t. t\<lparr>user_sglist := a, user_sglist_phy := p\<rparr>) w;
                     w = w\<lparr>nodes := dmatest_populate_sglist K (tls1 w) num_elements_in_list sg0\<rparr>;
                     c = Omap_set_dma_sglist_mode sid (nodes w) p (int num_elements_in_list) (transfer_params K);
                     rc = kcall_ret K c w;
                     w = call c w
                 in if rc \<noteq> 0 then (Returned rc, w)
                    else sg_launch K call Cb_final (int PAUSE_AT_ELEMENT) w)"

abbreviation dload_call :: "kernel \<Rightarrow> kcall \<Rightarrow> dl_world \<Rightarrow> dl_world" where
  "dload_call K \<equiv> kcall_thread K (dload_callback K)"

definition dmatest_init :: "kernel \<Rightarrow> sglist_node list \<Rightarrow> dl_world \<Rightarrow> dl_result \<times> dl_world" where
  "dmatest_init K sg0 w =
     dmasglist_test1 K (dload_call K) sg0
       (dload_call K (Omap_dma_set_global_params (k_const K DMA_DEFAULT_ARB_RATE)
          (k_const K DMA_DEFAULT_FIFO_DEPTH)
          (k_const K DMA_THREAD_RESERVE_ONET OR k_const K DMA_THREAD_FIFO_25)) w)"

definition dmatest_cleanup :: "kernel \<Rightarrow> dl_world \<Rightarrow> dl_world" where
  "dmatest_cleanup K w =
     (let call = dload_call K;
          w = call (Dma_free_coherent (total_num_elements (tls1 w) * 4) (dst_addr (tls1 w)) (dst_addr_phy (tls1 w))) w;
          w = call (Dma_free_coherent (word_of_int (k_const K PAGE_SIZE)) (user_sglist (tls1 w)) (user_sglist_phy (tls1 w))) w;
          w = for_each (\<lambda>i w. call (Dma_free_coherent (transfer_sizes (tls1 w) ! i * 4) (src_addr (tls1 w) ! i)
                (src_addr_phy (tls1 w) ! i)) w) 0 num_elements_in_list w
      in call (Omap_release_dma_sglist (sglist_id (tls1 w))) w)"

section \<open>The module with bad descriptors\<close>

text \<open>Its callbacks only print: no verdict is ever stored.\<close>

definition bad_cb_final :: "kernel \<Rightarrow> int \<Rightarrow> u16 \<Rightarrow> dl_world \<Rightarrow> dl_world" where
  "bad_cb_final K sglistid ch_status w = kcall_irq K (Omap_get_completed_sglist_nodes sglistid) w"

definition bad_cb_inter :: "kernel \<Rightarrow> int \<Rightarrow> u16 \<Rightarrow> dl_world \<Rightarrow> dl_world" where
  "bad_cb_inter K sglistid ch_status w =
     (let w = kcall_irq K (Omap_get_completed_sglist_nodes sglistid) w;
          w = kcall_irq K (Omap_dma_sglist_is_paused sglistid) w;
          stat = verify_dest_buffer (mem w) (tls1 w) 4
      in if stat \<noteq> 0 then w
         else let w = kcall_irq K (Omap_set_dma_callback sglistid) (w\<lparr>dl_cb := Cb_final\<rparr>)
              in kcall_irq K (Omap_resume_dma_sglist_transfers sglistid (- 1)) w)"

definition bad_callback :: "kernel \<Rightarrow> dl_world handler" where
  "bad_callback K lch st d w =
     (case dl_cb w of
        Cb_none \<Rightarrow> w
      | Cb_null \<Rightarrow> w\<lparr>crashed := True\<rparr>
      | Cb_final \<Rightarrow> bad_cb_final K lch st w
      | Cb_inter \<Rightarrow> bad_cb_inter K lch st w)"

text \<open>
  The list comes from the driver as a linked list: \<open>next\<close> gives the position of the node after a
  node.
\<close>

fun sg_walk :: "kernel \<Rightarrow> int \<Rightarrow> tlist_transfer \<Rightarrow> (nat \<Rightarrow> nat) \<Rightarrow> nat \<Rightarrow> nat \<Rightarrow> nat \<Rightarrow> sglist_node list
    \<Rightarrow> sglist_node list" where
  "sg_walk K ty ptls next i 0 pos sglist = sglist"
| "sg_walk K ty ptls next i (Suc k) pos sglist =
     sg_walk K ty ptls next (Suc i) k (next pos)
       (sglist[next pos := sg_later K ty ptls i (sglist ! next pos)])"

definition OMAP_DMA_SGLIST_DESCRIPTOR_TYPE_WRONG :: int where
  "OMAP_DMA_SGLIST_DESCRIPTOR_TYPE_WRONG = 10"

definition bad_populate_sglist :: "kernel \<Rightarrow> (nat \<Rightarrow> nat) \<Rightarrow> tlist_transfer \<Rightarrow> nat \<Rightarrow> sglist_node list
    \<Rightarrow> sglist_node list" where
  "bad_populate_sglist K next ptls nelem sglist =
     sg_walk K OMAP_DMA_SGLIST_DESCRIPTOR_TYPE_WRONG ptls next 1 (nelem - 1) 0
       (sglist[0 := sg_first K OMAP_DMA_SGLIST_DESCRIPTOR_TYPE_WRONG ptls (sglist ! 0)])"

text \<open>\<open>sg\<close> is the list the driver hands out (\<open>None\<close>: NULL).\<close>

definition bad_sglist_test1 :: "kernel \<Rightarrow> (kcall \<Rightarrow> dl_world \<Rightarrow> dl_world) \<Rightarrow> (nat \<Rightarrow> nat) \<Rightarrow> sglist_node list option
    \<Rightarrow> dl_world \<Rightarrow> dl_result \<times> dl_world" where
  "bad_sglist_test1 K call next sg w =
     (case for_or_fail (src_block K call) 0 num_elements_in_list w of (e, w) \<Rightarrow>
        if e \<noteq> 0 then (Null_write, w)
        else case dst_block K call w of (e, w) \<Rightarrow>
          if e \<noteq> 0 then (Null_write, w)
          else
            let c = Omap_request_dma_sglist (k_const K OMAP_DMA_NO_DEVICE) (int num_elements_in_list);
                rc = kcall_ret K c w;
                out = kcall_out K c w;
                w = call c (w\<lparr>dl_cb := Cb_null\<rparr>);
                sid = (case out of None \<Rightarrow> sglist_id (tls1 w) | Some x \<Rightarrow> x)
            in if rc \<noteq> 0 then (Returned rc, w)
               else case sg of
                 None \<Rightarrow> (Returned (- k_const K ENOBUFS), w)
               | Some sglist \<Rightarrow>
                   let w = tl_upd (\<lambda>t. t\<lparr>sglist_id := sid\<rparr>) w;
                       w = w\<lparr>nodes := bad_populate_sglist K next (tls1 w) num_elements_in_list sglist\<rparr>;
                       c = Omap_set_dma_sglist_params sid (nodes w) (transfer_params K);
                       rc = kcall_ret K c w;
                       w = call c w
                   in if rc \<noteq> 0 then (Returned rc, w)
                      else sg_launch K call Cb_inter 4 w)"

abbreviation bad_call :: "kernel \<Rightarrow> kcall \<Rightarrow> dl_world \<Rightarrow> dl_world" where
  "bad_call K \<equiv> kcall_thread K (bad_callback K)"

definition bad_init :: "kernel \<Rightarrow> (nat \<Rightarrow> nat) \<Rightarrow> sglist_node list option \<Rightarrow> dl_world \<Rightarrow> dl_result \<times> dl_world" where
  "bad_init K next sg w =
     bad_sglist_test1 K (bad_call K) next sg
       (bad_call K (Omap_dma_set_global_params (k_const K DMA_DEFAULT_ARB_RATE)
          (k_const K DMA_DEFAULT_FIFO_DEPTH)
          (k_const K DMA_THREAD_RESERVE_ONET OR k_const K DMA_THREAD_FIFO_25)) w)"

definition bad_cleanup :: "kernel \<Rightarrow> dl_world \<Rightarrow> dl_world" where
  "bad_cleanup K w =
     (let call = bad_call K;
          w = call (Dma_free_coherent (total_num_elements (tls1 w) * 4) (dst_addr (tls1 w)) (dst_addr_phy (tls1 w))) w;
          w = for_each (\<lambda>i w. call (Dma_free_coherent (transfer_sizes (tls1 w) ! i * 4) (src_addr (tls1 w) ! i)
                (src_addr_phy (tls1 w) ! i)) w) 0 num_elements_in_list w
      in call (Omap_release_dma_sglist (sglist_id (tls1 w))) w)"

section \<open>Updates\<close>

lemma dl_simps [simp]:
  "tls1 (log_ev e w) = tls1 w" "dl_cb (log_ev e w) = dl_cb w" "nodes (log_ev e w) = nodes w"
  "tls1 (kcall_irq K c w) = tls1 w" "dl_cb (kcall_irq K c w) = dl_cb w" "nodes (kcall_irq K c w) = nodes w"
  "tls1 (set_test_passed p w) = tls1 w" "dl_cb (set_test_passed p w) = dl_cb w"
  "tls1 (tl_upd f w) = f (tls1 w)" "dl_cb (tl_upd f w) = dl_cb w" "trace (tl_upd f w) = trace w"
  "mem (tl_upd f w) = mem w" "test_passed (tl_upd f w) = test_passed w"
  by (simp_all add: log_ev_def kcall_irq_def set_test_passed_def tl_upd_def)

section \<open>The verification against its specification\<close>

text \<open>The bytes of a buffer, and the bytes the test expects in the destination.\<close>

definition read_bytes :: "memory \<Rightarrow> u32 \<Rightarrow> nat \<Rightarrow> u8 list" where
  "read_bytes m a n = map (\<lambda>k. m (a + of_nat k)) [0..<n]"

definition block_bytes :: "tlist_transfer \<Rightarrow> nat \<Rightarrow> nat" where
  "block_bytes tr i = unat (transfer_sizes tr ! i * 4)"

definition gathered :: "memory \<Rightarrow> tlist_transfer \<Rightarrow> nat \<Rightarrow> u8 list" where
  "gathered m tr n = concat (map (\<lambda>i. read_bytes m (src_addr tr ! i) (block_bytes tr i)) [0..<n])"

definition gather_spec :: "memory \<Rightarrow> tlist_transfer \<Rightarrow> nat \<Rightarrow> bool" where
  "gather_spec m tr n \<longleftrightarrow> read_bytes m (dst_addr tr) (sum_list (map (block_bytes tr) [0..<n])) = gathered m tr n"

lemma read_bytes_simps [simp]:
  "read_bytes m a 0 = []" "length (read_bytes m a n) = n"
  by (simp_all add: read_bytes_def)

lemma read_bytes_Suc: "read_bytes m a (Suc n) = m a # read_bytes m (a + 1) n"
proof -
  have "[0..<Suc n] = 0 # map Suc [0..<n]" by (simp add: map_Suc_upt upt_conv_Cons)
  then show ?thesis by (simp add: read_bytes_def comp_def ac_simps)
qed

lemma read_bytes_add: "read_bytes m a (k + n) = read_bytes m a k @ read_bytes m (a + of_nat k) n"
  by (induction k arbitrary: a) (simp_all add: read_bytes_Suc ac_simps)

lemma verify_block_spec:
  "verify_block m s d n = (if read_bytes m s n = read_bytes m d n then Some (d + of_nat n) else None)"
  by (induction n arbitrary: s d) (auto simp: read_bytes_Suc ac_simps)

lemma verify_blocks_spec:
  "verify_blocks m tr i k d =
     (if read_bytes m d (sum_list (map (block_bytes tr) [i..<i + k])) =
        concat (map (\<lambda>i. read_bytes m (src_addr tr ! i) (block_bytes tr i)) [i..<i + k]) then 0 else - 1)"
proof (induction k arbitrary: i d)
  case 0
  then show ?case by simp
next
  case (Suc k)
  have u: "[i..<i + Suc k] = i # [Suc i..<Suc i + k]" by (simp add: upt_conv_Cons)
  show ?case
    unfolding u
    by (simp add: verify_block_spec Suc.IH read_bytes_add block_bytes_def [symmetric] append_eq_append_conv)
qed

lemma verify_dest_buffer_spec: "verify_dest_buffer m tr n = (if gather_spec m tr n then 0 else - 1)"
  by (simp add: verify_dest_buffer_def verify_blocks_spec gather_spec_def gathered_def)

section \<open>What the descriptors say\<close>

text \<open>
  The engine is not part of the repository: it is a parameter \<open>E\<close> that carries out one descriptor with
  the channel parameters, from the destination address it has reached and the memory to those behind
  it. \<open>sg_law\<close> is what the documentation promises of it for elements of four bytes and addresses that
  are incremented. A type 2a descriptor that declares both addresses valid gives source and
  destination; a type 3b descriptor that declares its address a valid source gives the source, and the
  destination goes on where the previous block ended. Nothing is promised for a descriptor of another
  type, with other flags, or with another frame number, interrupt mask or index than the source uses.
  \<open>bus\<close> takes a bus address to the address the processor uses.
\<close>

type_synonym sg_engine = "omap_dma_channel_params \<Rightarrow> sglist_node \<Rightarrow> u32 \<Rightarrow> memory \<Rightarrow> u32 \<times> memory"

definition copy_block :: "u32 \<Rightarrow> u32 \<Rightarrow> nat \<Rightarrow> memory \<Rightarrow> memory" where
  "copy_block s d n m = (\<lambda>x. if unat (x - d) < n then m (s + (x - d)) else m x)"

definition gather_params :: "kernel \<Rightarrow> omap_dma_channel_params \<Rightarrow> bool" where
  "gather_params K p \<longleftrightarrow> p_data_type p = k_const K OMAP_DMA_DATA_TYPE_S32 \<and>
     p_src_amode p = k_const K OMAP_DMA_AMODE_POST_INC \<and> p_dst_amode p = k_const K OMAP_DMA_AMODE_POST_INC"

definition sg_law :: "kernel \<Rightarrow> (u32 \<Rightarrow> u32) \<Rightarrow> sg_engine \<Rightarrow> bool" where
  "sg_law K bus E \<longleftrightarrow> (\<forall>p e d m s dst. gather_params K p \<and> 4 * unat (num_of_elem e) < 2 ^ 32 \<longrightarrow>
     (desc_type e = k_const K OMAP_DMA_SGLIST_DESCRIPTOR_TYPE2a \<and>
      sg_flags e = k_const K OMAP_DMA_LIST_SRC_VALID OR k_const K OMAP_DMA_LIST_DST_VALID \<and>
      sg_data e = T2a s dst 1 0x922 0 1 0 1 \<longrightarrow>
        E p e d m = (bus dst + num_of_elem e * 4, copy_block (bus s) (bus dst) (unat (num_of_elem e * 4)) m)) \<and>
     (desc_type e = k_const K OMAP_DMA_SGLIST_DESCRIPTOR_TYPE3b \<and> sg_flags e = k_const K OMAP_DMA_LIST_SRC_VALID \<and>
      sg_data e = T3b s \<longrightarrow>
        E p e d m = (d + num_of_elem e * 4, copy_block (bus s) d (unat (num_of_elem e * 4)) m)))"

text \<open>The engine works through a list.\<close>

fun run_list :: "sg_engine \<Rightarrow> omap_dma_channel_params \<Rightarrow> sglist_node list \<Rightarrow> u32 \<Rightarrow> memory \<Rightarrow> memory" where
  "run_list E p [] d m = m"
| "run_list E p (e # es) d m = (case E p e d m of (d, m) \<Rightarrow> run_list E p es d m)"

fun copies :: "(u32 \<times> nat) list \<Rightarrow> u32 \<Rightarrow> memory \<Rightarrow> memory" where
  "copies [] d m = m"
| "copies ((s, n) # bs) d m = copies bs (d + of_nat n) (copy_block s d n m)"

text \<open>\<open>x\<close> lies outside the \<open>n\<close> bytes at \<open>d\<close>.\<close>

definition outside :: "u32 \<Rightarrow> nat \<Rightarrow> u32 \<Rightarrow> bool" where
  "outside d n x \<longleftrightarrow> \<not> unat (x - d) < n"

lemma outside_split:
  assumes "n + k < 2 ^ 32"
  shows "outside d (n + k) x \<Longrightarrow> outside d n x" "outside d (n + k) x \<Longrightarrow> outside (d + of_nat n) k x"
    "j < n \<Longrightarrow> outside (d + of_nat n) k (d + of_nat j)"
proof -
  show "outside d (n + k) x \<Longrightarrow> outside d n x" by (simp add: outside_def)
  have n: "unat (of_nat n :: u32) = n" using assms by (intro unat_of_nat_small) simp
  show "outside (d + of_nat n) k x" if "outside d (n + k) x"
  proof -
    have "n \<le> unat (x - d)" using that by (simp add: outside_def)
    then have "unat (x - d - of_nat n) = unat (x - d) - n"
      using n by (simp add: unat_sub word_le_nat_alt)
    with that show ?thesis by (simp add: outside_def algebra_simps)
  qed
  show "outside (d + of_nat n) k (d + of_nat j)" if "j < n"
  proof -
    have "of_nat (2 ^ 32) = (0 :: u32)" by simp
    then have "of_nat (2 ^ 32 - (n - j)) = (- of_nat (n - j) :: u32)"
      using assms that by (simp only: of_nat_diff) simp
    also have "\<dots> = d + of_nat j - (d + of_nat n)" using that by (simp add: of_nat_diff)
    finally have "unat (d + of_nat j - (d + of_nat n)) = unat (of_nat (2 ^ 32 - (n - j)) :: u32)" by simp
    also have "\<dots> = 2 ^ 32 - (n - j)" using that by (intro unat_of_nat_small) simp
    finally have "unat (d + of_nat j - (d + of_nat n)) = 2 ^ 32 - (n - j)" .
    then show ?thesis using that assms by (simp add: outside_def)
  qed
qed

lemma copies_outside:
  "sum_list (map snd bs) < 2 ^ 32 \<Longrightarrow> outside d (sum_list (map snd bs)) x \<Longrightarrow> copies bs d m x = m x"
proof (induction bs arbitrary: d m)
  case Nil
  then show ?case by simp
next
  case (Cons b bs)
  obtain s n where b: "b = (s, n)" by fastforce
  note o = outside_split [of n "sum_list (map snd bs)"]
  from Cons b have "copies bs (d + of_nat n) (copy_block s d n m) x = copy_block s d n m x"
    by (intro Cons.IH o(2)) simp_all
  moreover have "outside d n x" using Cons.prems b by (intro o(1)) simp_all
  ultimately show ?case using b by (simp add: copy_block_def outside_def)
qed

lemma read_bytes_cong: "(\<And>k. k < n \<Longrightarrow> m (a + of_nat k) = m' (b + of_nat k)) \<Longrightarrow> read_bytes m a n = read_bytes m' b n"
  by (simp add: read_bytes_def)

lemma copies_read:
  assumes "sum_list (map snd bs) < 2 ^ 32"
    and "\<forall>(s, n) \<in> set bs. \<forall>k<n. outside d (sum_list (map snd bs)) (s + of_nat k)"
  shows "read_bytes (copies bs d m) d (sum_list (map snd bs)) = concat (map (\<lambda>(s, n). read_bytes m s n) bs)"
  using assms
proof (induction bs arbitrary: d m)
  case Nil
  then show ?case by simp
next
  case (Cons b bs)
  obtain s n where b: "b = (s, n)" by fastforce
  let ?k = "sum_list (map snd bs)" and ?m = "copy_block s d n m"
  have t: "n + ?k < 2 ^ 32" using Cons.prems(1) b by simp
  note o = outside_split [OF t]
  have out: "outside (d + of_nat n) ?k (s' + of_nat j)" "outside d n (s' + of_nat j)"
    if "(s', n') \<in> set bs" "j < n'" for s' n' j
  proof -
    have "outside d (n + ?k) (s' + of_nat j)" using Cons.prems(2) that b by fastforce
    then show "outside (d + of_nat n) ?k (s' + of_nat j)" "outside d n (s' + of_nat j)" by (blast intro: o)+
  qed
  have "read_bytes (copies bs (d + of_nat n) ?m) (d + of_nat n) ?k = concat (map (\<lambda>(s, n). read_bytes ?m s n) bs)"
    using t out(1) by (intro Cons.IH) auto
  also have "\<dots> = concat (map (\<lambda>(s, n). read_bytes m s n) bs)"
    using out(2) by (intro arg_cong [where f = concat] map_cong refl) (auto intro!: read_bytes_cong simp: copy_block_def outside_def)
  finally have tail: "read_bytes (copies bs (d + of_nat n) ?m) (d + of_nat n) ?k = concat (map (\<lambda>(s, n). read_bytes m s n) bs)" .
  have "copies bs (d + of_nat n) ?m (d + of_nat j) = m (s + of_nat j)" if "j < n" for j
  proof -
    have "copies bs (d + of_nat n) ?m (d + of_nat j) = ?m (d + of_nat j)"
      using t that by (intro copies_outside o(3)) simp_all
    moreover have "unat (of_nat j :: u32) = j" using t that by (intro unat_of_nat_small) simp
    ultimately show ?thesis using that by (simp add: copy_block_def)
  qed
  then have head: "read_bytes (copies bs (d + of_nat n) ?m) d n = read_bytes m s n" by (rule read_bytes_cong)
  show ?case using tail head b by (simp add: read_bytes_add)
qed

lemma sg_fill_length [simp]: "length (sg_fill K ty ptls i k sg) = length sg"
  by (induction k arbitrary: i sg) simp_all

lemma sg_fill_nth:
  "j < length sg \<Longrightarrow> sg_fill K ty ptls i k sg ! j =
     (if i \<le> j \<and> j < i + k then sg_later K ty ptls j (sg ! j) else sg ! j)"
proof (induction k arbitrary: i sg)
  case (Suc k)
  then show ?case by (cases "i = j") auto
qed auto

lemma populate_nth:
  assumes "n \<le> length sg" and "j < n"
  shows "dmatest_populate_sglist K tr n sg ! j =
    (if j = 0 then sg_first K (k_const K OMAP_DMA_SGLIST_DESCRIPTOR_TYPE2a) tr (sg ! 0)
     else sg_later K (k_const K OMAP_DMA_SGLIST_DESCRIPTOR_TYPE3b) tr j (sg ! j))"
proof -
  have "j < length sg" "0 < length sg" using assms by linarith+
  then show ?thesis
    using assms by (cases "j = 0") (simp_all add: dmatest_populate_sglist_def sg_fill_nth)
qed

lemma transfer_params_gather: "gather_params K (transfer_params K)"
  by (simp add: gather_params_def transfer_params_def)

lemma run_later:
  assumes "sg_law K bus E" and "gather_params K p" and small: "\<And>j. i \<le> j \<Longrightarrow> j < i + k \<Longrightarrow> 4 * unat (transfer_sizes tr ! j) < 2 ^ 32"
    and "\<And>j. j < k \<Longrightarrow> es ! j = sg_later K (k_const K OMAP_DMA_SGLIST_DESCRIPTOR_TYPE3b) tr (i + j) (old j)"
    and "length es = k" and "\<And>j. i \<le> j \<Longrightarrow> j < i + k \<Longrightarrow> bus (src_addr_phy tr ! j) = src_addr tr ! j"
  shows "run_list E p es d m = copies (map (\<lambda>j. (src_addr tr ! j, block_bytes tr j)) [i..<i + k]) d m"
  using assms(3-6)
proof (induction k arbitrary: i es d m old)
  case 0
  then show ?case by simp
next
  case (Suc k)
  then obtain e es' where e: "es = e # es'" by (cases es) auto
  have "e = sg_later K (k_const K OMAP_DMA_SGLIST_DESCRIPTOR_TYPE3b) tr i (old 0)"
    using Suc.prems(2) [of 0] e by simp
  then have "E p e d m = (d + transfer_sizes tr ! i * 4, copy_block (src_addr tr ! i) d (block_bytes tr i) m)"
    using assms(1,2) Suc.prems(1,4) [of i] by (simp add: sg_law_def sg_later_def block_bytes_def)
  moreover have "run_list E p es' d' m' = copies (map (\<lambda>j. (src_addr tr ! j, block_bytes tr j)) [Suc i..<Suc i + k]) d' m'" for d' m'
    by (rule Suc.IH [where old = "\<lambda>j. old (Suc j)"]) (use Suc.prems e in \<open>force dest: Suc.prems(2) [of "Suc j" for j]\<close>)+
  moreover have "[i..<i + Suc k] = i # [Suc i..<Suc i + k]" by (simp add: upt_conv_Cons)
  ultimately show ?case using e by (simp add: block_bytes_def)
qed

text \<open>The engine, reading the populated list, copies the blocks one after the other.\<close>

lemma run_populated:
  assumes "sg_law K bus E" and "0 < n" and "n \<le> length sg"
    and "\<And>j. j < n \<Longrightarrow> bus (src_addr_phy tr ! j) = src_addr tr ! j" and "bus (dst_addr_phy tr) = dst_addr tr"
    and "\<And>j. j < n \<Longrightarrow> 4 * unat (transfer_sizes tr ! j) < 2 ^ 32"
  shows "run_list E (transfer_params K) (take n (dmatest_populate_sglist K tr n sg)) d m =
    copies (map (\<lambda>j. (src_addr tr ! j, block_bytes tr j)) [0..<n]) (dst_addr tr) m"
proof -
  let ?p = "take n (dmatest_populate_sglist K tr n sg)"
  have l: "length ?p = n" using assms(3) by (simp add: dmatest_populate_sglist_def)
  with assms(2) obtain e es where e: "?p = e # es" by (cases ?p) auto
  have es: "length es = n - 1" using l e by simp
  have nth: "?p ! j = dmatest_populate_sglist K tr n sg ! j" if "j < n" for j using that by simp
  have "e = sg_first K (k_const K OMAP_DMA_SGLIST_DESCRIPTOR_TYPE2a) tr (sg ! 0)"
    using nth [of 0] populate_nth [OF assms(3,2)] assms(2) e by simp
  then have e0: "E (transfer_params K) e d m =
      (dst_addr tr + transfer_sizes tr ! 0 * 4, copy_block (src_addr tr ! 0) (dst_addr tr) (block_bytes tr 0) m)"
    using assms(1,2,5) assms(4,6) [of 0] transfer_params_gather [of K] by (simp add: sg_law_def sg_first_def block_bytes_def)
  have "es ! j = sg_later K (k_const K OMAP_DMA_SGLIST_DESCRIPTOR_TYPE3b) tr (1 + j) (sg ! Suc j)" if "j < n - 1" for j
    using nth [of "Suc j"] populate_nth [OF assms(3), of "Suc j" K tr] that e by simp
  then have "run_list E (transfer_params K) es d' m' = copies (map (\<lambda>j. (src_addr tr ! j, block_bytes tr j)) [1..<1 + (n - 1)]) d' m'" for d' m'
    using es assms(4,6) by (intro run_later [OF assms(1) transfer_params_gather]) simp_all
  moreover have "[0..<n] = 0 # [1..<1 + (n - 1)]" using assms(2) by (simp add: upt_conv_Cons)
  ultimately show ?thesis
    unfolding e using e0 by (simp add: block_bytes_def)
qed

section \<open>Properties\<close>

text \<open>
  C24. The comparison of the gathered data refines its specification: the nested byte loops return
  0 exactly when the destination holds the source blocks one after the other, and the final
  callback stores PASSED exactly then, leaving the verdict alone otherwise.
\<close>

theorem dload_verify_refines:
  "verify_dest_buffer m tr n = (if gather_spec m tr n then 0 else - 1) \<and>
   test_passed (dma_sglist_cb_final K sglistid st w) =
     (if gather_spec (mem w) (tls1 w) 7 then 1 else test_passed w)"
  by (simp add: verify_dest_buffer_spec dma_sglist_cb_final_def Let_def num_elements_in_list_def set_test_passed_def)

text \<open>
  C23. Round trip through the descriptors: any engine that obeys its documentation (\<open>sg_law\<close>), given the
  channel parameters of the test and the list that \<^verbatim>\<open>dmatest_populate_sglist\<close> wrote for a transfer whose
  blocks do not overlap the destination, leaves a memory that \<^verbatim>\<open>verify_dest_buffer\<close> accepts, whatever
  the descriptor page and the memory held before.
\<close>

theorem dload_roundtrip:
  assumes "sg_law K bus E" and "0 < n" and "n \<le> length sg"
    and "\<And>j. j < n \<Longrightarrow> bus (src_addr_phy tr ! j) = src_addr tr ! j" and "bus (dst_addr_phy tr) = dst_addr tr"
    and "\<And>j. j < n \<Longrightarrow> 4 * unat (transfer_sizes tr ! j) < 2 ^ 32"
    and "sum_list (map (block_bytes tr) [0..<n]) < 2 ^ 32"
    and "\<And>j k. j < n \<Longrightarrow> k < block_bytes tr j \<Longrightarrow>
      outside (dst_addr tr) (sum_list (map (block_bytes tr) [0..<n])) (src_addr tr ! j + of_nat k)"
  shows "verify_dest_buffer (run_list E (transfer_params K) (take n (dmatest_populate_sglist K tr n sg)) d m) tr n = 0"
proof -
  let ?bs = "map (\<lambda>j. (src_addr tr ! j, block_bytes tr j)) [0..<n]"
  let ?m = "copies ?bs (dst_addr tr) m"
  have sum: "sum_list (map snd ?bs) = sum_list (map (block_bytes tr) [0..<n])" by (simp add: comp_def)
  have "read_bytes ?m (dst_addr tr) (sum_list (map snd ?bs)) = concat (map (\<lambda>(s, n). read_bytes m s n) ?bs)"
    by (rule copies_read) (use assms(7,8) sum in auto)
  moreover have "read_bytes ?m (src_addr tr ! j) (block_bytes tr j) = read_bytes m (src_addr tr ! j) (block_bytes tr j)"
    if "j < n" for j
    by (rule read_bytes_cong) (rule copies_outside, use that assms(7,8) sum in simp_all)
  then have "gathered ?m tr n = gathered m tr n" unfolding gathered_def by (intro arg_cong [where f = concat] map_cong) simp_all
  ultimately have "gather_spec ?m tr n"
    unfolding gather_spec_def sum by (simp add: gathered_def comp_def)
  then show ?thesis
    by (simp add: verify_dest_buffer_spec run_populated [OF assms(1-6)])
qed

text \<open>Two blocks of one element each, at bus addresses that differ from the processor's.\<close>

definition dload_example :: tlist_transfer where
  "dload_example = \<lparr>src_addr = [0x1000, 0x2000], src_addr_phy = [0x81000, 0x82000], transfer_sizes = [1, 1],
     total_num_elements = 2, dst_addr = 0x3000, dst_addr_phy = 0x83000, sglist_id = 0, user_sglist = 0,
     user_sglist_phy = 0\<rparr>"

definition blank_node :: sglist_node where
  "blank_node = \<lparr>desc_type = 0, num_of_elem = 0, sg_flags = 0, sg_data = Sg_unset\<rparr>"

text \<open>An engine that obeys the documentation and ignores every other descriptor.\<close>

definition careful_engine :: "kernel \<Rightarrow> (u32 \<Rightarrow> u32) \<Rightarrow> sg_engine" where
  "careful_engine K bus p e d m =
     (let n = num_of_elem e * 4
      in case sg_data e of
           T2a s dst cfn cicr dei sei dfi sfi \<Rightarrow>
             if desc_type e = k_const K OMAP_DMA_SGLIST_DESCRIPTOR_TYPE2a \<and> gather_params K p
             then (bus dst + n, copy_block (bus s) (bus dst) (unat n) m) else (d, m)
         | T3b s \<Rightarrow>
             if desc_type e = k_const K OMAP_DMA_SGLIST_DESCRIPTOR_TYPE3b \<and> gather_params K p
             then (d + n, copy_block (bus s) d (unat n) m) else (d, m)
         | Sg_unset \<Rightarrow> (d, m))"

definition dload_kernel :: kernel where
  "dload_kernel = \<lparr>k_ret = \<lambda>_ _. 0, k_out = \<lambda>_ _. None, k_events = \<lambda>_. [],
     k_const = (\<lambda>c. case c of OMAP_DMA_DATA_TYPE_S32 \<Rightarrow> 2 | OMAP_DMA_AMODE_POST_INC \<Rightarrow> 1 |
       OMAP_DMA_SGLIST_DESCRIPTOR_TYPE2a \<Rightarrow> 1 | OMAP_DMA_SGLIST_DESCRIPTOR_TYPE3b \<Rightarrow> 4 |
       OMAP_DMA_LIST_SRC_VALID \<Rightarrow> 1 | OMAP_DMA_LIST_DST_VALID \<Rightarrow> 2 | _ \<Rightarrow> 0), OMAP_DMA_BLOCK_IRQ = 32\<rparr>"

theorem dload_roundtrip_witness:
  "verify_dest_buffer (run_list (careful_engine dload_kernel (\<lambda>p. p - 0x80000)) (transfer_params dload_kernel)
     (take 2 (dmatest_populate_sglist dload_kernel dload_example 2 [blank_node, blank_node])) 0 (\<lambda>a. ucast a)) dload_example 2 = 0"
proof (rule dload_roundtrip)
  show "sg_law dload_kernel (\<lambda>p. p - 0x80000) (careful_engine dload_kernel (\<lambda>p. p - 0x80000))"
    by (simp add: sg_law_def careful_engine_def Let_def)
  have two: "j = 0 \<or> j = 1" if "j < 2" for j :: nat using that by auto
  have b: "block_bytes dload_example j = 4" if "j < 2" for j
    using two [OF that] by (auto simp: block_bytes_def dload_example_def)
  have s: "sum_list (map (block_bytes dload_example) [0..<2]) = 8" by (simp add: b upt_rec)
  show "sum_list (map (block_bytes dload_example) [0..<2]) < 2 ^ 32" by (simp add: s)
  show "outside (dst_addr dload_example) (sum_list (map (block_bytes dload_example) [0..<2]))
      (src_addr dload_example ! j + of_nat k)" if "j < 2" "k < block_bytes dload_example j" for j k
  proof -
    have "k = 0 \<or> k = 1 \<or> k = 2 \<or> k = 3" using that b by auto
    with two [OF that(1)] show ?thesis unfolding s by (auto simp: outside_def dload_example_def)
  qed
qed (auto simp: dload_example_def less_2_cases_iff)

section \<open>The verdict\<close>

text \<open>Some interrupt of the history found the gathered data.\<close>

fun gather_seen :: "tlist_transfer \<Rightarrow> history \<Rightarrow> bool" where
  "gather_seen tr [] = False"
| "gather_seen tr (Called c r out # h) = gather_seen tr h"
| "gather_seen tr (Interrupt lch st d m # h) = (gather_spec m tr 7 \<or> gather_seen tr h)"

definition dl_quiet :: "dl_world \<Rightarrow> bool" where
  "dl_quiet w \<longleftrightarrow> dl_cb w \<in> {Cb_none, Cb_null} \<and> test_passed w = - 1"

definition dl_inv :: "dl_world \<Rightarrow> bool" where
  "dl_inv w \<longleftrightarrow> dl_quiet w \<or> dl_cb w = Cb_final \<and> (test_passed w = - 1 \<or> test_passed w = 1 \<and> gather_seen (tls1 w) (trace w))"

interpretation dload_quiet: irq_invariant "dload_callback K" dl_quiet for K
  by unfold_locales (auto simp: dl_quiet_def dload_callback_def)

lemma cb_final_simps [simp]:
  "dl_cb (dma_sglist_cb_final K s st w) = dl_cb w" "tls1 (dma_sglist_cb_final K s st w) = tls1 w"
  "gather_seen tr (trace (dma_sglist_cb_final K s st w)) = gather_seen tr (trace w)"
  "test_passed (dma_sglist_cb_final K s st w) = (if gather_spec (mem w) (tls1 w) 7 then 1 else test_passed w)"
  by (simp_all add: dma_sglist_cb_final_def Let_def verify_dest_buffer_spec num_elements_in_list_def)
    (simp_all add: set_test_passed_def)

interpretation dload_cb: irq_invariant "dload_callback K" dl_inv for K
  by unfold_locales (auto simp: dl_inv_def dl_quiet_def dload_callback_def split: if_splits)

lemma dl_quiet_call [simp]: "dl_quiet w \<Longrightarrow> dl_quiet (dload_call K c w)"
  by (rule dload_quiet.kcall_thread_inv) (simp add: dl_quiet_def)

lemma dl_inv_call [simp]: "dl_inv w \<Longrightarrow> dl_inv (dload_call K c w)"
  by (rule dload_cb.kcall_thread_inv) (simp add: dl_inv_def dl_quiet_def)

lemma dl_quiet_frame [simp]:
  "dl_quiet (tl_upd f w) = dl_quiet w" "dl_quiet (w\<lparr>mem := x\<rparr>) = dl_quiet w" "dl_quiet (w\<lparr>nodes := y\<rparr>) = dl_quiet w"
  by (simp_all add: dl_quiet_def)

lemma blocks_quiet:
  "dl_quiet w \<Longrightarrow> dl_quiet (snd (src_block K (dload_call K) i w))"
  "dl_quiet w \<Longrightarrow> dl_quiet (snd (dst_block K (dload_call K) w))"
  by (simp_all add: src_block_def dst_block_def Let_def)

lemma launch_inv: "dl_quiet w \<Longrightarrow> dl_inv (snd (sg_launch K (dload_call K) Cb_final p w))"
proof -
  assume "dl_quiet w"
  then have "dl_quiet (dload_call K c' (dload_call K c w))" for c c' by simp
  then have "dl_inv ((dload_call K c' (dload_call K c w))\<lparr>dl_cb := Cb_final\<rparr>)" for c c'
    by (simp add: dl_inv_def dl_quiet_def)
  then show ?thesis by (simp add: sg_launch_def Let_def)
qed

lemma dmasglist_test1_inv:
  assumes "dl_quiet w"
  shows "dl_inv (snd (dmasglist_test1 K (dload_call K) sg w))"
proof -
  have q: "dl_inv v" if "dl_quiet v" for v using that by (simp add: dl_inv_def)
  have null: "dl_quiet (w\<lparr>dl_cb := Cb_null\<rparr>)" if "dl_quiet w" for w using that by (simp add: dl_quiet_def)
  have "dl_quiet (snd (for_or_fail (src_block K (dload_call K)) i k v))" if "dl_quiet v" for i k v
    using that by (induction k arbitrary: i v) (simp_all add: case_prod_beta blocks_quiet)
  then show ?thesis
    using assms by (simp add: dmasglist_test1_def case_prod_beta Let_def q null blocks_quiet launch_inv)
qed

text \<open>
  The verdict of the autoloading test: whatever the kernel answers, and however many
  completions arrive while the module is loaded, the verdict is PASSED only if an interrupt found
  the destination equal to the gathered source blocks; and FAILED is never stored, so that after
  a wrong transfer there is no verdict at all.
\<close>

theorem dload_verdict:
  "let w = snd (dmatest_init K sg (dl_fresh m))
   in (test_passed w = - 1 \<or> test_passed w = 1 \<and> gather_seen (tls1 w) (trace w)) \<and>
      test_passed (dmatest_cleanup K w) \<noteq> 0"
proof -
  let ?w = "snd (dmatest_init K sg (dl_fresh m))"
  have "dl_quiet (dl_fresh m)" by (simp add: dl_quiet_def dl_fresh_def)
  then have i: "dl_inv ?w"
    unfolding dmatest_init_def by (intro dmasglist_test1_inv dl_quiet_call)
  then have "dl_inv (dmatest_cleanup K ?w)"
    unfolding dmatest_cleanup_def Let_def by (intro dl_inv_call for_each_keeps [where P = dl_inv]) simp_all
  with i show ?thesis by (auto simp: dl_inv_def dl_quiet_def Let_def)
qed

text \<open>The module with bad descriptors never stores a verdict.\<close>

interpretation bad_cb: irq_invariant "bad_callback K" "\<lambda>w. test_passed w = - 1" for K
  by unfold_locales
    (auto simp: bad_callback_def bad_cb_final_def bad_cb_inter_def Let_def split: dl_callback.split)

lemma bad_call_keeps [simp]: "test_passed w = - 1 \<Longrightarrow> test_passed (bad_call K c w) = - 1"
  by (rule bad_cb.kcall_thread_inv) simp

lemma bad_blocks_keep:
  "test_passed w = - 1 \<Longrightarrow> test_passed (snd (src_block K (bad_call K) i w)) = - 1"
  "test_passed w = - 1 \<Longrightarrow> test_passed (snd (dst_block K (bad_call K) w)) = - 1"
  by (simp_all add: src_block_def dst_block_def Let_def)

lemma bad_no_verdict:
  "test_passed (snd (bad_init K next sg (dl_fresh m))) = - 1 \<and>
   test_passed (bad_cleanup K (snd (bad_init K next sg (dl_fresh m)))) = - 1"
proof -
  have f: "test_passed (snd (for_or_fail (src_block K (bad_call K)) i k v)) = - 1" if "test_passed v = - 1" for i k v
    using that by (induction k arbitrary: i v) (simp_all add: case_prod_beta bad_blocks_keep)
  have l: "test_passed (snd (sg_launch K (bad_call K) cb p v)) = - 1" if "test_passed v = - 1" for cb p v
    using that by (simp add: sg_launch_def Let_def)
  have "test_passed (dl_fresh m) = - 1" by (simp add: dl_fresh_def)
  then have i: "test_passed (snd (bad_init K next sg (dl_fresh m))) = - 1"
    by (simp add: bad_init_def bad_sglist_test1_def case_prod_beta Let_def f l bad_blocks_keep split: option.split)
  then have "test_passed (bad_cleanup K (snd (bad_init K next sg (dl_fresh m)))) = - 1"
    unfolding bad_cleanup_def Let_def
    by (intro bad_call_keeps for_each_keeps [where P = "\<lambda>w. test_passed w = - 1"]) simp_all
  with i show ?thesis by simp
qed

text \<open>The results of the allocations are not checked: a failed one is written through.\<close>

lemma dload_unchecked_alloc:
  assumes "\<And>h sz. k_ret K h (Dma_alloc_coherent sz) = 0"
  shows "fst (dmatest_init K sg w) = Null_write"
  by (simp add: dmatest_init_def dmasglist_test1_def num_elements_in_list_def eval_nat_numeral src_block_def Let_def
      kcall_ret_def assms case_prod_beta)

end
