(* ===== verification/DDT_Threads.thy ===== *)
theory DDT_Threads
  imports DDT_Prelude
begin

text \<open>
  Kernel threads that run the same function: a step of the system is a step of one of them. The
  modules count the threads that are done in a static \<^verbatim>\<open>int\<close> that is incremented without a lock, so
  its increment is a load and a store; the locale \<open>counted_threads\<close> is what every such module
  shares.
\<close>

inductive multi_step :: "(nat \<Rightarrow> 'p \<Rightarrow> 'w \<Rightarrow> 'p \<times> 'w) \<Rightarrow> 'p list \<times> 'w \<Rightarrow> 'p list \<times> 'w \<Rightarrow> bool"
  for run where
  sched: "t < length ps \<Longrightarrow> run t (ps ! t) w = (p', w') \<Longrightarrow> multi_step run (ps, w) (ps[t := p'], w')"

inductive_cases multi_stepE: "multi_step run (ps, w) s"

lemma multi_step_length: "multi_step run (ps, w) (ps', w') \<Longrightarrow> length ps' = length ps"
  by (auto elim: multi_stepE)

text \<open>
  \<open>cnt\<close> is the counter; \<open>pending\<close> says that a thread has loaded it and is about to store a value;
  \<open>counted\<close> that it has stored and will not step again.
\<close>

locale counted_threads =
  fixes run :: "nat \<Rightarrow> 'p \<Rightarrow> 'w \<Rightarrow> 'p \<times> 'w"
    and cnt :: "'w \<Rightarrow> int"
    and counted :: "'p \<Rightarrow> bool"
    and pending :: "'p \<Rightarrow> int option"
  assumes run_other: "pending p = None \<Longrightarrow> \<not> counted p \<Longrightarrow> run t p w = (p', w') \<Longrightarrow>
      cnt w' = cnt w \<and> \<not> counted p' \<and> (pending p' = None \<or> pending p' = Some (cnt w + 1))"
    and run_store: "pending p = Some v \<Longrightarrow> run t p w = (p', w') \<Longrightarrow> cnt w' = v \<and> counted p'"
    and run_counted: "counted p \<Longrightarrow> run t p w = (p, w)"
    and counted_pending: "counted p \<Longrightarrow> pending p = None"
begin

definition number :: "'p list \<Rightarrow> int" where
  "number ps = int (length (filter counted ps))"

definition count_ok :: "'p list \<times> 'w \<Rightarrow> bool" where
  "count_ok s \<longleftrightarrow> cnt (snd s) \<le> number (fst s) \<and>
     (\<forall>p \<in> set (fst s). \<forall>v. pending p = Some v \<longrightarrow> v \<le> number (fst s) + 1)"

lemma number_update:
  "t < length ps \<Longrightarrow> number (ps[t := p]) =
     number ps - (if counted (ps ! t) then 1 else 0) + (if counted p then 1 else 0)"
  unfolding number_def by (rule length_filter_list_update)

lemma count_ok_step:
  assumes "multi_step run s s'" and "count_ok s"
  shows "count_ok s'"
  using assms(1)
proof cases
  case (sched t ps w p' w')
  let ?p = "ps ! t"
  have c: "cnt w \<le> number ps" and q: "\<And>p v. p \<in> set ps \<Longrightarrow> pending p = Some v \<Longrightarrow> v \<le> number ps + 1"
    using assms(2) sched(1) by (auto simp: count_ok_def)
  consider "counted ?p" | v where "pending ?p = Some v" | "pending ?p = None" "\<not> counted ?p"
    by (cases "pending ?p") auto
  then have "cnt w' \<le> number (ps[t := p']) \<and> number ps \<le> number (ps[t := p']) \<and>
      (\<forall>v. pending p' = Some v \<longrightarrow> v \<le> number (ps[t := p']) + 1)"
  proof cases
    case 1
    with run_counted [of ?p t w] sched counted_pending c show ?thesis by simp
  next
    case 2
    with run_store [of ?p v t w p' w'] sched counted_pending [of p'] counted_pending [of ?p] q [of ?p v]
    show ?thesis by (auto simp: number_update)
  next
    case 3
    with run_other [of ?p t w p' w'] sched c show ?thesis by (auto simp: number_update)
  qed
  then show ?thesis
    using q sched(2) by (force simp: count_ok_def dest!: set_update_subset_insert [THEN subsetD])
qed

text \<open>When the counter has reached the number of threads, every thread has stored.\<close>

lemma all_counted:
  assumes "count_ok (ps, w)" and "int (length ps) \<le> cnt w" and "p \<in> set ps"
  shows "counted p"
proof -
  have "length (filter counted ps) = length ps"
    using assms(1,2) by (intro le_antisym length_filter_le) (simp add: count_ok_def number_def)
  then show ?thesis using assms(3) by (metis length_filter_less less_irrefl)
qed

text \<open>A thread that will never count itself keeps the counter below the number of threads.\<close>

lemma stuck_below:
  assumes "count_ok (ps, w)" and "p \<in> set ps" and "\<not> counted p"
  shows "cnt w < int (length ps)"
  using assms all_counted by (meson not_le)

lemma counted_step:
  assumes "multi_step run (ps, w) (ps', w')" and "\<forall>p \<in> set ps. counted p"
  shows "ps' = ps \<and> w' = w"
  using assms by (auto elim!: multi_stepE simp: run_counted)

end

end
