(* ===== verification/Dma_Dload_Threads.thy ===== *)
theory Dma_Dload_Threads
  imports Dma_Dload DDT_Threads
begin

text \<open>
  The concurrent autoloading test \<^verbatim>\<open>dma_dload_thread_access.c\<close>: four kernel threads each gather two
  source blocks with a descriptor list of their own; the initialisation function waits until all
  have counted themselves and releases everything. The threads are interleaved with each other
  and with the initialisation at the granularity of the phases below; interrupts arrive inside
  the kernel calls.
\<close>

section \<open>State\<close>

text \<open>
  What is registered for a channel: nothing, the final callback with a NULL data pointer, or one of
  the callbacks with a pointer to \<^verbatim>\<open>tls[t]\<close>.
\<close>

datatype dlt_reg = Reg_none | Reg_null | Reg_final nat | Reg_inter nat

record dlt_world = base_world +
  tls :: "tlist_transfer list"
  pages :: "sglist_node list list"
  dlt_cb :: "int \<Rightarrow> dlt_reg"
  dlt_crashed :: bool
  dlt_count :: int

definition MAX_THREADS :: nat where
  "MAX_THREADS = 4"

definition dlt_elements :: nat where
  "dlt_elements = 2"

definition zero_tls :: tlist_transfer where
  "zero_tls = \<lparr>src_addr = replicate dlt_elements 0, src_addr_phy = replicate dlt_elements 0,
     transfer_sizes = replicate dlt_elements 0, total_num_elements = 0, dst_addr = 0, dst_addr_phy = 0,
     sglist_id = 0, user_sglist = 0, user_sglist_phy = 0\<rparr>"

definition dlt_fresh :: "memory \<Rightarrow> dlt_world" where
  "dlt_fresh m = \<lparr>trace = [], mem = m, test_passed = - 1, tls = replicate MAX_THREADS zero_tls,
     pages = replicate MAX_THREADS [], dlt_cb = (\<lambda>_. Reg_none), dlt_crashed = False, dlt_count = 0\<rparr>"

definition tls_upd :: "nat \<Rightarrow> (tlist_transfer \<Rightarrow> tlist_transfer) \<Rightarrow> dlt_world \<Rightarrow> dlt_world" where
  "tls_upd t f w = w\<lparr>tls := (tls w)[t := f (tls w ! t)]\<rparr>"

section \<open>Callbacks\<close>

definition dlt_params :: "kernel \<Rightarrow> omap_dma_channel_params" where
  "dlt_params = transfer_params"

definition dlt_verify_dest_buffer :: "memory \<Rightarrow> tlist_transfer \<Rightarrow> nat \<Rightarrow> int" where
  "dlt_verify_dest_buffer = verify_dest_buffer"

definition dlt_cb_final :: "kernel \<Rightarrow> int \<Rightarrow> u16 \<Rightarrow> nat \<Rightarrow> dlt_world \<Rightarrow> dlt_world" where
  "dlt_cb_final K sglistid ch_status t w =
     (let w = kcall_irq K (Omap_get_completed_sglist_nodes sglistid) w
      in if dlt_verify_dest_buffer (mem w) (tls w ! t) dlt_elements = 0 then set_test_passed 1 w else w)"

definition dlt_cb_inter :: "kernel \<Rightarrow> int \<Rightarrow> u16 \<Rightarrow> nat \<Rightarrow> dlt_world \<Rightarrow> dlt_world" where
  "dlt_cb_inter K sglistid ch_status t w =
     (let w = kcall_irq K (Omap_get_completed_sglist_nodes sglistid) w;
          w = kcall_irq K (Omap_dma_sglist_is_paused sglistid) w;
          stat = dlt_verify_dest_buffer (mem w) (tls w ! t) PAUSE_AT_ELEMENT
      in if stat \<noteq> 0 then set_test_passed 0 w
         else let w = kcall_irq K (Omap_set_dma_callback sglistid)
                        (w\<lparr>dlt_cb := (dlt_cb w)(sglistid := Reg_final t)\<rparr>)
              in kcall_irq K (Omap_resume_dma_sglist_transfers sglistid (- 1)) w)"

text \<open>The driver runs what is registered for the channel that interrupts.\<close>

definition dlt_callback :: "kernel \<Rightarrow> dlt_world handler" where
  "dlt_callback K lch st d w =
     (case dlt_cb w lch of
        Reg_none \<Rightarrow> w
      | Reg_null \<Rightarrow> w\<lparr>dlt_crashed := True\<rparr>
      | Reg_final t \<Rightarrow> dlt_cb_final K lch st t w
      | Reg_inter t \<Rightarrow> dlt_cb_inter K lch st t w)"

abbreviation dlt_call :: "kernel \<Rightarrow> kcall \<Rightarrow> dlt_world \<Rightarrow> dlt_world" where
  "dlt_call K \<equiv> kcall_thread K (dlt_callback K)"

definition dlt_populate_sglist :: "kernel \<Rightarrow> tlist_transfer \<Rightarrow> nat \<Rightarrow> sglist_node list \<Rightarrow> sglist_node list" where
  "dlt_populate_sglist = dmatest_populate_sglist"

section \<open>A thread\<close>

text \<open>
  Where a thread is in \<^verbatim>\<open>dmasglist_test\<close>: the rounds of the loop over the source blocks, the
  destination, the request of the channel and of the descriptor page, programming, starting, the
  load and the store of \<^verbatim>\<open>count += 1\<close> with the local \<^verbatim>\<open>rc\<close>, returned, or stopped by a write to NULL.
\<close>

datatype dlt_phase =
    Fill_source nat
  | Alloc_dest
  | Request_channel
  | Program_list
  | Launch_list
  | Load_count int
  | Store_count int int
  | Counted int
  | Failed int
  | Null_fault

definition dlt_src_block :: "kernel \<Rightarrow> nat \<Rightarrow> nat \<Rightarrow> dlt_world \<Rightarrow> int \<times> dlt_world" where
  "dlt_src_block K t i w =
     (let w = tls_upd t (\<lambda>x. x\<lparr>transfer_sizes := (transfer_sizes x)[i := of_nat ((i + 10) * test_element_size)]\<rparr>) w;
          sz = transfer_sizes (tls w ! t) ! i * 4;
          c = Dma_alloc_coherent sz;
          a = word_of_int (kcall_ret K c w);
          out = kcall_out K c w;
          w = dlt_call K c w;
          w = tls_upd t (\<lambda>x. x\<lparr>src_addr := (src_addr x)[i := a],
                src_addr_phy := (case out of None \<Rightarrow> src_addr_phy x | Some p \<Rightarrow> (src_addr_phy x)[i := word_of_int p])\<rparr>) w
      in if a = 0 then (1, w)
         else let w = w\<lparr>mem := memset_bytes a (of_nat (i + 0x41)) (unat sz) (mem w)\<rparr>
              in (0, tls_upd t (\<lambda>x. x\<lparr>total_num_elements := total_num_elements x + transfer_sizes x ! i\<rparr>) w))"

definition dlt_dst_block :: "kernel \<Rightarrow> nat \<Rightarrow> dlt_world \<Rightarrow> int \<times> dlt_world" where
  "dlt_dst_block K t w =
     (let sz = total_num_elements (tls w ! t) * 4;
          c = Dma_alloc_coherent sz;
          a = word_of_int (kcall_ret K c w);
          out = kcall_out K c w;
          w = dlt_call K c w
      in if a = 0 then (1, w)
         else let w = w\<lparr>mem := memset_bytes a 0xFF (unat sz) (mem w)\<rparr>
              in (0, tls_upd t (\<lambda>x. x\<lparr>dst_addr := a,
                   dst_addr_phy := (case out of None \<Rightarrow> dst_addr_phy x | Some p \<Rightarrow> word_of_int p)\<rparr>) w))"

definition dlt_channel :: "kernel \<Rightarrow> nat \<Rightarrow> dlt_world \<Rightarrow> int \<times> dlt_world" where
  "dlt_channel K t w =
     (let c = Omap_request_dma (k_const K OMAP_DMA_NO_DEVICE) 0
      in case kcall_out K c w of
           None \<Rightarrow> (sglist_id (tls w ! t), dlt_call K c w)
         | Some ch \<Rightarrow> (ch, dlt_call K c (w\<lparr>dlt_cb := (dlt_cb w)(ch := Reg_null)\<rparr>)))"

text \<open>The result is the code the function returns early with, if it does.\<close>

definition dlt_page :: "kernel \<Rightarrow> nat \<Rightarrow> int \<Rightarrow> dlt_world \<Rightarrow> int option \<times> dlt_world" where
  "dlt_page K t sid w =
     (let c = Dma_alloc_coherent (word_of_int (k_const K PAGE_SIZE));
          a = word_of_int (kcall_ret K c w);
          out = kcall_out K c w;
          w = dlt_call K c w;
          w = tls_upd t (\<lambda>x. x\<lparr>sglist_id := sid\<rparr>) w
      in if a = 0 then (Some (- k_const K ENOBUFS), w)
         else (None, tls_upd t (\<lambda>x. x\<lparr>user_sglist := a,
                user_sglist_phy := (case out of None \<Rightarrow> 0 | Some p \<Rightarrow> word_of_int p)\<rparr>) w))"

definition dlt_request :: "kernel \<Rightarrow> nat \<Rightarrow> dlt_world \<Rightarrow> int option \<times> dlt_world" where
  "dlt_request K t w = (case dlt_channel K t w of (sid, w) \<Rightarrow> dlt_page K t sid w)"

text \<open>\<open>sg0\<close> is what the memory of a descriptor page holds when it is allocated.\<close>

definition dlt_program :: "kernel \<Rightarrow> sglist_node list \<Rightarrow> nat \<Rightarrow> dlt_world \<Rightarrow> int \<times> dlt_world" where
  "dlt_program K sg0 t w =
     (let w = w\<lparr>pages := (pages w)[t := dlt_populate_sglist K (tls w ! t) dlt_elements sg0]\<rparr>;
          c = Omap_set_dma_sglist_mode (sglist_id (tls w ! t)) (pages w ! t) (user_sglist_phy (tls w ! t))
                (int dlt_elements) (dlt_params K)
      in (kcall_ret K c w, dlt_call K c w))"

definition dlt_launch :: "kernel \<Rightarrow> nat \<Rightarrow> dlt_world \<Rightarrow> int \<times> dlt_world" where
  "dlt_launch K t w =
     (let sid = sglist_id (tls w ! t);
          w = dlt_call K (Omap_dma_set_prio_lch sid (k_const K DMA_CH_PRIO_HIGH) (k_const K DMA_CH_PRIO_HIGH)) w;
          w = dlt_call K (Omap_dma_set_sglist_fastmode sid 1) w;
          w = dlt_call K (Omap_set_dma_callback sid) (w\<lparr>dlt_cb := (dlt_cb w)(sid := Reg_final t)\<rparr>);
          c = Omap_start_dma_sglist_transfers sid (int PAUSE_AT_ELEMENT)
      in (kcall_ret K c w, dlt_call K c w))"

fun dmasglist_test :: "kernel \<Rightarrow> sglist_node list \<Rightarrow> nat \<Rightarrow> dlt_phase \<Rightarrow> dlt_world \<Rightarrow> dlt_phase \<times> dlt_world" where
  "dmasglist_test K sg0 t (Fill_source i) w =
     (if i < dlt_elements then
        case dlt_src_block K t i w of (e, w) \<Rightarrow> (if e \<noteq> 0 then Null_fault else Fill_source (Suc i), w)
      else (Alloc_dest, w))"
| "dmasglist_test K sg0 t Alloc_dest w =
     (case dlt_dst_block K t w of (e, w) \<Rightarrow> (if e \<noteq> 0 then Null_fault else Request_channel, w))"
| "dmasglist_test K sg0 t Request_channel w =
     (case dlt_request K t w of (r, w) \<Rightarrow>
        (case r of None \<Rightarrow> Program_list | Some rc \<Rightarrow> Failed rc, w))"
| "dmasglist_test K sg0 t Program_list w =
     (case dlt_program K sg0 t w of (rc, w) \<Rightarrow> (if rc \<noteq> 0 then Failed rc else Launch_list, w))"
| "dmasglist_test K sg0 t Launch_list w =
     (case dlt_launch K t w of (rc, w) \<Rightarrow> (Load_count rc, w))"
| "dmasglist_test K sg0 t (Load_count rc) w = (Store_count rc (dlt_count w + 1), w)"
| "dmasglist_test K sg0 t (Store_count rc v) w = (Counted rc, w\<lparr>dlt_count := v\<rparr>)"
| "dmasglist_test K sg0 t (Counted rc) w = (Counted rc, w)"
| "dmasglist_test K sg0 t (Failed rc) w = (Failed rc, w)"
| "dmasglist_test K sg0 t Null_fault w = (Null_fault, w)"

section \<open>The initialisation function\<close>

text \<open>
  \<^verbatim>\<open>create_dma_threads\<close>: \<open>created t\<close> says whether \<^verbatim>\<open>kthread_create\<close> succeeds for thread \<open>t\<close>. A failure
  is only warned about, and \<^verbatim>\<open>wake_up_process\<close> is then handed an error pointer (\<open>None\<close>).
\<close>

definition dlt_create_threads :: "(nat \<Rightarrow> bool) \<Rightarrow> dlt_phase list option" where
  "dlt_create_threads created =
     (if list_all created [0..<MAX_THREADS] then Some (replicate MAX_THREADS (Fill_source 0)) else None)"

text \<open>
  Where \<^verbatim>\<open>dmatest_init\<close> is: waiting for the counter, releasing what thread \<open>t\<close> had, or returned.
\<close>

datatype dlt_main = Waiting | Releasing nat | Loaded int

definition dlt_release :: "kernel \<Rightarrow> nat \<Rightarrow> dlt_world \<Rightarrow> dlt_world" where
  "dlt_release K t w =
     (let call = dlt_call K;
          w = call (Dma_free_coherent (total_num_elements (tls w ! t) * 4) (dst_addr (tls w ! t)) (dst_addr_phy (tls w ! t))) w;
          w = call (Dma_free_coherent (word_of_int (k_const K PAGE_SIZE)) (user_sglist (tls w ! t)) (user_sglist_phy (tls w ! t))) w;
          w = for_each (\<lambda>i w. call (Dma_free_coherent (transfer_sizes (tls w ! t) ! i * 4) (src_addr (tls w ! t) ! i)
                (src_addr_phy (tls w ! t) ! i)) w) 0 dlt_elements w
      in call (Omap_release_dma_sglist (sglist_id (tls w ! t))) w)"

fun dlt_main_step :: "kernel \<Rightarrow> dlt_main \<Rightarrow> dlt_world \<Rightarrow> dlt_main \<times> dlt_world" where
  "dlt_main_step K Waiting w =
     (if dlt_count w < int MAX_THREADS then (Waiting, dlt_call K (Msleep 10) w) else (Releasing 0, w))"
| "dlt_main_step K (Releasing t) w =
     (if t < MAX_THREADS then (Releasing (Suc t), dlt_release K t w) else (Loaded 0, w))"
| "dlt_main_step K (Loaded ret) w = (Loaded ret, w)"

type_synonym dlt_state = "dlt_main \<times> dlt_phase list \<times> dlt_world"

definition dlt_init :: "kernel \<Rightarrow> (nat \<Rightarrow> bool) \<Rightarrow> dlt_world \<Rightarrow> dlt_state option" where
  "dlt_init K created w =
     (let w = dlt_call K (Omap_dma_set_global_params (k_const K DMA_DEFAULT_ARB_RATE)
                (k_const K DMA_DEFAULT_FIFO_DEPTH)
                (k_const K DMA_THREAD_RESERVE_ONET OR k_const K DMA_THREAD_FIFO_25)) w
      in case dlt_create_threads created of None \<Rightarrow> None | Some ps \<Rightarrow> Some (Waiting, ps, w))"

inductive dlt_step :: "kernel \<Rightarrow> sglist_node list \<Rightarrow> dlt_state \<Rightarrow> dlt_state \<Rightarrow> bool" for K sg0 where
  thread: "multi_step (dmasglist_test K sg0) (ps, w) (ps', w') \<Longrightarrow> dlt_step K sg0 (mp, ps, w) (mp, ps', w')"
| main: "dlt_main_step K mp w = (mp', w') \<Longrightarrow> dlt_step K sg0 (mp, ps, w) (mp', ps, w')"

inductive_cases dlt_stepE: "dlt_step K sg0 (mp, ps, w) s"

abbreviation dlt_reach :: "kernel \<Rightarrow> sglist_node list \<Rightarrow> dlt_state \<Rightarrow> dlt_state \<Rightarrow> bool" where
  "dlt_reach K sg0 \<equiv> (dlt_step K sg0)\<^sup>*\<^sup>*"

text \<open>The exit function is empty.\<close>

definition dlt_cleanup :: "dlt_world \<Rightarrow> dlt_world" where
  "dlt_cleanup w = w"

end
