(* ===== verification/Dma_Dload_Threads_Correct.thy ===== *)
theory Dma_Dload_Threads_Correct
  imports Dma_Dload_Threads
begin

text \<open>
  Properties of the concurrent autoloading test: what the counter says about the threads, what is
  allocated and released under every interleaving, what the verdict means, and when the
  initialisation function gets on.
\<close>

section \<open>Frames\<close>

lemma dlt_log_simps [simp]:
  "tls (log_ev e w) = tls w" "dlt_cb (log_ev e w) = dlt_cb w" "dlt_count (log_ev e w) = dlt_count w"
  "tls (kcall_irq K c w) = tls w" "dlt_cb (kcall_irq K c w) = dlt_cb w" "dlt_count (kcall_irq K c w) = dlt_count w"
  "tls (set_test_passed p w) = tls w" "dlt_cb (set_test_passed p w) = dlt_cb w"
  "dlt_count (set_test_passed p w) = dlt_count w" "trace (set_test_passed p w) = trace w"
  by (simp_all add: log_ev_def kcall_irq_def set_test_passed_def)

lemma tls_upd_simps [simp]:
  "tls (tls_upd t f w) = (tls w)[t := f (tls w ! t)]" "dlt_cb (tls_upd t f w) = dlt_cb w"
  "dlt_count (tls_upd t f w) = dlt_count w" "trace (tls_upd t f w) = trace w" "mem (tls_upd t f w) = mem w"
  "test_passed (tls_upd t f w) = test_passed w"
  by (simp_all add: tls_upd_def)

text \<open>No callback changes the lists, the counter, or what is allocated.\<close>

fun coherent_ev :: "u32 \<Rightarrow> tev \<Rightarrow> int" where
  "coherent_ev a (Called (Dma_alloc_coherent n) r out) = (if word_of_int r = a then 1 else 0)"
| "coherent_ev a (Called (Dma_free_coherent n b p) r out) = (if b = a then - 1 else 0)"
| "coherent_ev a e = 0"

definition coherent_balance :: "history \<Rightarrow> u32 \<Rightarrow> int" where
  "coherent_balance h a = sum_list (map (coherent_ev a) h)"

lemma coherent_balance_simps [simp]:
  "coherent_balance [] a = 0" "coherent_balance (e # h) a = coherent_ev a e + coherent_balance h a"
  by (simp_all add: coherent_balance_def)

definition dlt_view :: "dlt_world \<Rightarrow> tlist_transfer list \<times> int \<times> (u32 \<Rightarrow> int)" where
  "dlt_view w = (tls w, dlt_count w, coherent_balance (trace w))"

interpretation dlt_frame: irq_frame "dlt_callback K" dlt_view for K
  by unfold_locales
    (simp_all add: dlt_view_def fun_eq_iff dlt_callback_def dlt_cb_final_def dlt_cb_inter_def Let_def split: dlt_reg.split)

lemma dlt_call_frame [simp]:
  "tls (dlt_call K c w) = tls w" "dlt_count (dlt_call K c w) = dlt_count w"
  "coherent_balance (trace (dlt_call K c w)) a =
     coherent_ev a (Called c (kcall_ret K c w) (kcall_out K c w)) + coherent_balance (trace w) a"
  using dlt_frame.kcall_thread_view [of K K c w] by (simp_all add: dlt_view_def)

section \<open>The counter\<close>

fun is_counted :: "dlt_phase \<Rightarrow> bool" where
  "is_counted (Counted rc) = True"
| "is_counted p = False"

fun pending_count :: "dlt_phase \<Rightarrow> int option" where
  "pending_count (Store_count rc v) = Some v"
| "pending_count p = None"

lemma dlt_ops_count [simp]:
  "dlt_count (snd (dlt_src_block K t i w)) = dlt_count w" "dlt_count (snd (dlt_dst_block K t w)) = dlt_count w"
  "dlt_count (snd (dlt_request K t w)) = dlt_count w" "dlt_count (snd (dlt_program K sg0 t w)) = dlt_count w"
  "dlt_count (snd (dlt_launch K t w)) = dlt_count w" "dlt_count (dlt_release K t w) = dlt_count w"
proof -
  show "dlt_count (dlt_release K t w) = dlt_count w"
    unfolding dlt_release_def Let_def dlt_call_frame
    by (rule for_each_keeps [where P = "\<lambda>v. dlt_count v = dlt_count w"]) simp_all
qed (simp_all add: dlt_src_block_def dlt_dst_block_def dlt_request_def dlt_channel_def dlt_page_def case_prod_beta dlt_program_def dlt_launch_def Let_def
    split: option.split)

interpretation dlt_counted: counted_threads "dmasglist_test K sg0" dlt_count is_counted pending_count for K sg0
proof
  fix p p' and w w' :: dlt_world and t
  assume "pending_count p = None" "\<not> is_counted p" "dmasglist_test K sg0 t p w = (p', w')"
  then show "dlt_count w' = dlt_count w \<and> \<not> is_counted p' \<and>
      (pending_count p' = None \<or> pending_count p' = Some (dlt_count w + 1))"
    by (cases p) (auto simp: case_prod_beta dest: sym split: if_splits option.splits)
next
  fix p p' v and w w' :: dlt_world and t
  assume "pending_count p = Some v" "dmasglist_test K sg0 t p w = (p', w')"
  then show "dlt_count w' = v \<and> is_counted p'" by (cases p) auto
next
  fix p t and w :: dlt_world
  assume "is_counted p"
  then show "dmasglist_test K sg0 t p w = (p, w)" by (cases p) auto
next
  fix p assume "is_counted p"
  then show "pending_count p = None" by (cases p) auto
qed

section \<open>What is allocated\<close>

definition held :: "tlist_transfer \<Rightarrow> u32 \<Rightarrow> int" where
  "held tr a = int (count_list (src_addr tr @ [dst_addr tr, user_sglist tr]) a)"

fun slots_ok :: "dlt_phase \<Rightarrow> tlist_transfer \<Rightarrow> bool" where
  "slots_ok (Fill_source i) tr \<longleftrightarrow> list_all (\<lambda>a. a = 0) (drop i (src_addr tr)) \<and> dst_addr tr = 0 \<and> user_sglist tr = 0"
| "slots_ok Alloc_dest tr \<longleftrightarrow> dst_addr tr = 0 \<and> user_sglist tr = 0"
| "slots_ok Request_channel tr \<longleftrightarrow> user_sglist tr = 0"
| "slots_ok p tr \<longleftrightarrow> True"

lemma two_list: "length xs = dlt_elements \<longleftrightarrow> (\<exists>x y. xs = [x, y])"
  by (auto simp: dlt_elements_def length_Suc_conv eval_nat_numeral)

text \<open>A step of thread \<open>t\<close> allocates exactly what it stores in its own list.\<close>

definition thread_alloc :: "nat \<Rightarrow> dlt_phase \<Rightarrow> dlt_world \<Rightarrow> dlt_world \<Rightarrow> bool" where
  "thread_alloc t p' w w' \<longleftrightarrow> (\<exists>x. tls w' = (tls w)[t := x] \<and> length (src_addr x) = dlt_elements \<and> slots_ok p' x \<and>
     (\<forall>a. a \<noteq> 0 \<longrightarrow> coherent_balance (trace w') a - held x a = coherent_balance (trace w) a - held (tls w ! t) a))"

lemma thread_allocI:
  assumes "tls w' = (tls w)[t := x]" and "length (src_addr x) = dlt_elements" and "slots_ok p' x"
    and "\<And>a. a \<noteq> 0 \<Longrightarrow> coherent_balance (trace w') a - held x a = coherent_balance (trace w) a - held (tls w ! t) a"
  shows "thread_alloc t p' w w'"
  using assms unfolding thread_alloc_def by blast

lemma src_block_effect:
  assumes "t < length (tls w)" and "dlt_src_block K t i w = (e, w')"
  obtains a x where "tls w' = (tls w)[t := x]" "src_addr x = (src_addr (tls w ! t))[i := a]"
    "dst_addr x = dst_addr (tls w ! t)" "user_sglist x = user_sglist (tls w ! t)" "e = 0 \<longleftrightarrow> a \<noteq> 0"
    "\<And>b. coherent_balance (trace w') b = (if a = b then 1 else 0) + coherent_balance (trace w) b"
proof -
  let ?w = "tls_upd t (\<lambda>x. x\<lparr>transfer_sizes := (transfer_sizes x)[i := of_nat ((i + 10) * test_element_size)]\<rparr>) w"
  let ?c = "Dma_alloc_coherent (transfer_sizes (tls ?w ! t) ! i * 4)"
  let ?a = "word_of_int (kcall_ret K ?c ?w) :: u32"
  have "src_addr (tls w' ! t) = (src_addr (tls w ! t))[i := ?a]" "tls w' = (tls w)[t := tls w' ! t]"
    "dst_addr (tls w' ! t) = dst_addr (tls w ! t)" "user_sglist (tls w' ! t) = user_sglist (tls w ! t)"
    "e = 0 \<longleftrightarrow> ?a \<noteq> 0"
    "coherent_balance (trace w') b = (if ?a = b then 1 else 0) + coherent_balance (trace w) b" for b
    using assms by (cases "?a = 0"; force simp: dlt_src_block_def Let_def)+
  with that show thesis by blast
qed

lemma src_block_alloc:
  assumes "t < length (tls w)" and "length (src_addr (tls w ! t)) = dlt_elements" and "i < dlt_elements"
    and "slots_ok (Fill_source i) (tls w ! t)" and "dlt_src_block K t i w = (e, w')"
  shows "thread_alloc t (if e \<noteq> 0 then Null_fault else Fill_source (Suc i)) w w'"
proof -
  obtain a x where x: "tls w' = (tls w)[t := x]" "src_addr x = (src_addr (tls w ! t))[i := a]"
    "dst_addr x = dst_addr (tls w ! t)" "user_sglist x = user_sglist (tls w ! t)" "e = 0 \<longleftrightarrow> a \<noteq> 0"
    "\<And>b. coherent_balance (trace w') b = (if a = b then 1 else 0) + coherent_balance (trace w) b"
    using src_block_effect [OF assms(1,5)] by metis
  from assms(2) obtain y z where yz: "src_addr (tls w ! t) = [y, z]" by (auto simp: two_list)
  from assms(3) have i: "i = 0 \<or> i = 1" by (auto simp: dlt_elements_def)
  show ?thesis
  proof (rule thread_allocI [OF x(1)])
    show "length (src_addr x) = dlt_elements" using x(2) assms(2) by simp
    show "slots_ok (if e \<noteq> 0 then Null_fault else Fill_source (Suc i)) x"
      using x i assms(4) yz by auto
    show "coherent_balance (trace w') b - held x b = coherent_balance (trace w) b - held (tls w ! t) b"
      if "b \<noteq> 0" for b
      using x i assms(4) yz that by (auto simp: held_def)
  qed
qed

lemma held_step:
  assumes "src_addr x = src_addr y" and "coherent_balance h' b = (if a = b then 1 else 0) + coherent_balance h b"
    and "dst_addr x = a \<and> dst_addr y = 0 \<and> user_sglist x = user_sglist y \<or>
      user_sglist x = a \<and> user_sglist y = 0 \<and> dst_addr x = dst_addr y" and "b \<noteq> 0"
  shows "coherent_balance h' b - held x b = coherent_balance h b - held y b"
  using assms(3,4) unfolding held_def assms(1,2) by (elim disjE conjE) simp_all

lemma dst_block_alloc:
  assumes "t < length (tls w)" and "length (src_addr (tls w ! t)) = dlt_elements"
    and "slots_ok Alloc_dest (tls w ! t)" and "dlt_dst_block K t w = (e, w')"
  shows "thread_alloc t (if e \<noteq> 0 then Null_fault else Request_channel) w w'"
proof -
  let ?c = "Dma_alloc_coherent (total_num_elements (tls w ! t) * 4)"
  let ?a = "word_of_int (kcall_ret K ?c w) :: u32"
  have "tls w' = (tls w)[t := tls w' ! t]" "src_addr (tls w' ! t) = src_addr (tls w ! t)"
    "dst_addr (tls w' ! t) = ?a" "user_sglist (tls w' ! t) = 0"
    "coherent_balance (trace w') b = (if ?a = b then 1 else 0) + coherent_balance (trace w) b" for b
    using assms by (cases "?a = 0"; force simp: dlt_dst_block_def Let_def)+
  then show ?thesis
    using assms(2,3) by (intro thread_allocI [where x = "tls w' ! t"] held_step [where a = ?a]) simp_all
qed

lemma request_alloc:
  assumes "t < length (tls w)" and "length (src_addr (tls w ! t)) = dlt_elements"
    and "slots_ok Request_channel (tls w ! t)" and "dlt_request K t w = (r, w')"
  shows "thread_alloc t (case r of None \<Rightarrow> Program_list | Some rc \<Rightarrow> Failed rc) w w'"
proof -
  obtain sid v where v: "dlt_channel K t w = (sid, v)" by fastforce
  then have f: "tls v = tls w" "coherent_balance (trace v) b = coherent_balance (trace w) b" for b
    by (auto simp: dlt_channel_def Let_def split: option.splits)
  let ?a = "word_of_int (kcall_ret K (Dma_alloc_coherent (word_of_int (k_const K PAGE_SIZE))) v) :: u32"
  from assms(4) v have "dlt_page K t sid v = (r, w')" by (simp add: dlt_request_def)
  then have "tls w' = (tls w)[t := tls w' ! t]" "src_addr (tls w' ! t) = src_addr (tls w ! t)"
    "dst_addr (tls w' ! t) = dst_addr (tls w ! t)" "user_sglist (tls w' ! t) = ?a"
    "coherent_balance (trace w') b = (if ?a = b then 1 else 0) + coherent_balance (trace w) b" for b
    using assms(1,3) by (cases "?a = 0"; force simp: dlt_page_def Let_def f)+
  then show ?thesis
    using assms(2,3) by (intro thread_allocI [where x = "tls w' ! t"] held_step [where a = ?a])
      (simp_all split: option.split)
qed

lemma dmasglist_test_alloc:
  assumes "t < length (tls w)" and "length (src_addr (tls w ! t)) = dlt_elements" and "slots_ok p (tls w ! t)"
    and "dmasglist_test K sg0 t p w = (p', w')"
  shows "thread_alloc t p' w w'"
proof (cases p)
  case (Fill_source i)
  then show ?thesis
  proof (cases "i < dlt_elements")
    case True
    with Fill_source assms src_block_alloc show ?thesis by (auto split: prod.splits)
  next
    case False
    with Fill_source assms show ?thesis by (intro thread_allocI [where x = "tls w ! t"]) auto
  qed
next
  case Alloc_dest
  with assms dst_block_alloc show ?thesis by (auto split: prod.splits)
next
  case Request_channel
  with assms request_alloc show ?thesis by (auto split: prod.splits)
next
  case Program_list
  with assms show ?thesis
    by (intro thread_allocI [where x = "tls w ! t"]) (auto simp: dlt_program_def Let_def split: if_splits)
next
  case Launch_list
  with assms show ?thesis
    by (intro thread_allocI [where x = "tls w ! t"]) (auto simp: dlt_launch_def Let_def)
qed (use assms in \<open>auto intro!: thread_allocI [where x = "tls w ! t"]\<close>)

fun released :: "dlt_main \<Rightarrow> nat" where
  "released Waiting = 0"
| "released (Releasing t) = t"
| "released (Loaded ret) = MAX_THREADS"

definition allocated :: "nat \<Rightarrow> dlt_world \<Rightarrow> bool" where
  "allocated r w \<longleftrightarrow> length (tls w) = MAX_THREADS \<and>
     (\<forall>a. a \<noteq> 0 \<longrightarrow> coherent_balance (trace w) a = sum_list (map (\<lambda>tr. held tr a) (drop r (tls w))))"

fun rel_inv :: "dlt_state \<Rightarrow> bool" where
  "rel_inv (mp, ps, w) \<longleftrightarrow> length ps = MAX_THREADS \<and> released mp \<le> MAX_THREADS \<and> allocated (released mp) w \<and>
     (\<forall>t < MAX_THREADS. length (src_addr (tls w ! t)) = dlt_elements \<and> slots_ok (ps ! t) (tls w ! t)) \<and>
     dlt_counted.count_ok (ps, w) \<and> (mp \<noteq> Waiting \<longrightarrow> (\<forall>p \<in> set ps. is_counted p))"

lemma thread_alloc_sum:
  assumes "thread_alloc t p' w w'" and "t < length (tls w)" and "allocated 0 w"
  shows "allocated 0 w'"
proof -
  obtain x where x: "tls w' = (tls w)[t := x]"
    "\<And>a. a \<noteq> 0 \<Longrightarrow> coherent_balance (trace w') a - held x a = coherent_balance (trace w) a - held (tls w ! t) a"
    using assms(1) by (auto simp: thread_alloc_def)
  have "coherent_balance (trace w') a = sum_list (map (\<lambda>tr. held tr a) (tls w'))" if "a \<noteq> 0" for a
    using x(1) x(2) [OF that] that assms(3) sum_list_map_update [OF assms(2), of "\<lambda>tr. held tr a" x]
    by (simp add: allocated_def)
  then show ?thesis using x(1) assms(3) by (simp add: allocated_def)
qed

lemma release_alloc:
  assumes "allocated t w" and "t < MAX_THREADS" and "length (src_addr (tls w ! t)) = dlt_elements"
  shows "allocated (Suc t) (dlt_release K t w)" and "tls (dlt_release K t w) = tls w"
proof -
  obtain x y where xy: "src_addr (tls w ! t) = [x, y]" using assms(3) by (auto simp: two_list)
  show tls: "tls (dlt_release K t w) = tls w" by (simp add: dlt_release_def Let_def dlt_elements_def eval_nat_numeral)
  have "coherent_balance (trace (dlt_release K t w)) a = coherent_balance (trace w) a - held (tls w ! t) a" for a
    by (simp add: dlt_release_def Let_def dlt_elements_def eval_nat_numeral xy held_def)
  moreover have "drop t (tls w) = tls w ! t # drop (Suc t) (tls w)"
    using assms by (simp add: allocated_def Cons_nth_drop_Suc)
  ultimately show "allocated (Suc t) (dlt_release K t w)"
    using assms(1) by (simp add: allocated_def tls)
qed

lemma allocated_call [simp]:
  "(\<And>a. coherent_ev a (Called c (kcall_ret K c w) (kcall_out K c w)) = 0) \<Longrightarrow> allocated r w \<Longrightarrow> allocated r (dlt_call K c w)"
  by (simp add: allocated_def)

lemma rel_inv_main:
  assumes "rel_inv (mp, ps, w)" and "dlt_main_step K mp w = (mp', w')"
  shows "rel_inv (mp', ps, w')"
proof (cases mp)
  case Waiting
  show ?thesis
  proof (cases "dlt_count w < int MAX_THREADS")
    case True
    with Waiting assms show ?thesis by (auto simp: dlt_counted.count_ok_def)
  next
    case False
    have "is_counted p" if "p \<in> set ps" for p
      by (rule dlt_counted.all_counted [OF _ _ that, where w = w]) (use assms(1) False in auto)
    with False Waiting assms show ?thesis by auto
  qed
next
  case (Releasing t)
  then show ?thesis
  proof (cases "t < MAX_THREADS")
    case True
    with Releasing assms have "w' = dlt_release K t w" "mp' = Releasing (Suc t)" by auto
    with release_alloc [of t w K] True Releasing assms(1) show ?thesis by (auto simp: dlt_counted.count_ok_def)
  next
    case False
    with Releasing assms show ?thesis by auto
  qed
next
  case (Loaded ret)
  with assms show ?thesis by auto
qed

lemma rel_inv_thread:
  assumes "rel_inv (mp, ps, w)" and "multi_step (dmasglist_test K sg0) (ps, w) (ps', w')"
  shows "rel_inv (mp, ps', w')"
proof (cases "mp = Waiting")
  case False
  with assms dlt_counted.counted_step [OF assms(2)] show ?thesis by auto
next
  case True
  from assms(2) obtain t p' where t: "t < length ps" "dmasglist_test K sg0 t (ps ! t) w = (p', w')" "ps' = ps[t := p']"
    by (auto elim: multi_stepE)
  with assms(1) have l: "t < length (tls w)" by (simp add: allocated_def)
  have a: "thread_alloc t p' w w'"
    by (rule dmasglist_test_alloc [OF l _ _ t(2)]) (use assms(1) t(1) in auto)
  then obtain x where x: "tls w' = (tls w)[t := x]" "length (src_addr x) = dlt_elements" "slots_ok p' x"
    by (auto simp: thread_alloc_def)
  have "length (src_addr (tls w' ! s)) = dlt_elements \<and> slots_ok (ps' ! s) (tls w' ! s)" if "s < MAX_THREADS" for s
    using assms(1) t x l that by (cases "s = t") auto
  moreover have "dlt_counted.count_ok (ps', w')"
    using dlt_counted.count_ok_step [OF assms(2)] assms(1) by simp
  moreover have "allocated 0 w'" using thread_alloc_sum [OF a l] assms(1) True by simp
  ultimately show ?thesis using True assms(1) t(3) by simp
qed

lemma rel_inv_init: "dlt_init K created (dlt_fresh m) = Some s \<Longrightarrow> rel_inv s"
  by (auto simp: dlt_init_def dlt_create_threads_def Let_def allocated_def dlt_fresh_def held_def zero_tls_def
      dlt_counted.count_ok_def dlt_counted.number_def sum_list_replicate dlt_elements_def eval_nat_numeral split: if_splits)

lemma rel_inv_reach:
  assumes "dlt_init K created (dlt_fresh m) = Some s" and "dlt_reach K sg0 s s'"
  shows "rel_inv s'"
  using assms(2)
proof (induction rule: rtranclp_induct)
  case base
  from assms(1) show ?case by (rule rel_inv_init)
next
  case (step s s')
  from step(2,3) show ?case by cases (auto intro: rel_inv_thread rel_inv_main simp del: rel_inv.simps)
qed

section \<open>The verdict\<close>

fun gather_seen2 :: "tlist_transfer \<Rightarrow> history \<Rightarrow> bool" where
  "gather_seen2 tr [] = False"
| "gather_seen2 tr (Called c r out # h) = gather_seen2 tr h"
| "gather_seen2 tr (Interrupt lch st d m # h) = (gather_spec m tr dlt_elements \<or> gather_seen2 tr h)"

text \<open>The final callback is registered with lists only that are complete and no longer change.\<close>

fun launched :: "dlt_phase \<Rightarrow> bool" where
  "launched (Load_count rc) = True"
| "launched (Store_count rc v) = True"
| "launched (Counted rc) = True"
| "launched p = False"

definition cb_ok :: "nat set \<Rightarrow> dlt_world \<Rightarrow> bool" where
  "cb_ok T w \<longleftrightarrow> (\<forall>ch. dlt_cb w ch \<in> {Reg_none, Reg_null} \<union> Reg_final ` T) \<and>
     (test_passed w = - 1 \<or> test_passed w = 1 \<and> (\<exists>t \<in> T. gather_seen2 (tls w ! t) (trace w)))"

interpretation dlt_verdict: irq_invariant "dlt_callback K" "cb_ok T" for K T
proof
  fix w :: dlt_world and lch st d
  assume a: "cb_ok T w"
  then have "dlt_cb w lch \<in> {Reg_none, Reg_null} \<union> Reg_final ` T" by (simp add: cb_ok_def)
  then consider "dlt_cb w lch = Reg_none" | "dlt_cb w lch = Reg_null" | t where "dlt_cb w lch = Reg_final t" "t \<in> T" by auto
  then show "cb_ok T (dlt_callback K lch st d (log_ev (Interrupt lch st d (mem w)) w))"
    by cases (use a in \<open>auto simp: cb_ok_def dlt_callback_def dlt_cb_final_def dlt_verify_dest_buffer_def
        verify_dest_buffer_spec Let_def set_test_passed_def split: if_splits\<close>)
qed (simp add: cb_ok_def)

lemma cb_ok_call [simp]: "cb_ok T w \<Longrightarrow> cb_ok T (dlt_call K c w)"
  by (rule dlt_verdict.kcall_thread_inv) (simp add: cb_ok_def)

lemma cb_ok_steps:
  "cb_ok T w \<Longrightarrow> t \<notin> T \<Longrightarrow> cb_ok T (tls_upd t f w)"
  "cb_ok T w \<Longrightarrow> cb_ok T (w\<lparr>mem := m\<rparr>)" "cb_ok T w \<Longrightarrow> cb_ok T (w\<lparr>pages := pg\<rparr>)"
  "cb_ok T w \<Longrightarrow> cb_ok T (w\<lparr>dlt_count := v\<rparr>)"
  "cb_ok T w \<Longrightarrow> cb_ok T (w\<lparr>dlt_cb := (dlt_cb w)(ch := Reg_null)\<rparr>)"
  "cb_ok T w \<Longrightarrow> cb_ok (insert t T) (w\<lparr>dlt_cb := (dlt_cb w)(ch := Reg_final t)\<rparr>)"
proof -
  show "cb_ok T w \<Longrightarrow> t \<notin> T \<Longrightarrow> cb_ok T (tls_upd t f w)"
    unfolding cb_ok_def by (auto, metis nth_list_update_neq)
qed (auto simp: cb_ok_def)

lemma dlt_ops_cb:
  assumes "cb_ok T w"
  shows "t \<notin> T \<Longrightarrow> cb_ok T (snd (dlt_src_block K t i w))" "t \<notin> T \<Longrightarrow> cb_ok T (snd (dlt_dst_block K t w))"
    "t \<notin> T \<Longrightarrow> cb_ok T (snd (dlt_request K t w))" "cb_ok T (snd (dlt_program K sg0 t w))"
    "cb_ok (insert t T) (snd (dlt_launch K t w))" "cb_ok T (dlt_release K t w)"
proof -
  show "cb_ok T (dlt_release K t w)"
    unfolding dlt_release_def Let_def by (intro cb_ok_call for_each_keeps [where P = "cb_ok T"] assms) simp
  show "cb_ok (insert t T) (snd (dlt_launch K t w))"
    using assms by (simp add: dlt_launch_def Let_def cb_ok_steps)
  show "t \<notin> T \<Longrightarrow> cb_ok T (snd (dlt_request K t w))"
    using assms by (simp add: dlt_request_def dlt_channel_def dlt_page_def Let_def cb_ok_steps case_prod_beta split: option.split)
qed (use assms in \<open>simp_all add: dlt_src_block_def dlt_dst_block_def dlt_program_def Let_def cb_ok_steps\<close>)

definition launched_set :: "dlt_phase list \<Rightarrow> nat set" where
  "launched_set ps = {t. t < length ps \<and> launched (ps ! t)}"

lemma launched_update:
  "t < length ps \<Longrightarrow> launched_set (ps[t := p]) = (if launched p then insert t (launched_set ps) else launched_set ps - {t})"
  by (auto simp: launched_set_def nth_list_update split: if_splits)

lemma dmasglist_test_cb:
  assumes "cb_ok T w" and "launched p \<longleftrightarrow> t \<in> T" and "dmasglist_test K sg0 t p w = (p', w')"
  shows "cb_ok (if launched p' then insert t T else T - {t}) w'"
proof -
  note ops = dlt_ops_cb [OF assms(1), where t = t] cb_ok_steps(4)
  show ?thesis
    using assms by (cases p)
      (auto simp: case_prod_beta insert_absorb split: if_splits option.splits intro: ops)
qed

definition verdict_inv :: "dlt_state \<Rightarrow> bool" where
  "verdict_inv s = (case s of (mp, ps, w) \<Rightarrow> cb_ok (launched_set ps) w)"

lemma verdict_inv_step:
  assumes "dlt_step K sg0 s s'" and "verdict_inv s"
  shows "verdict_inv s'"
  using assms(1)
proof cases
  case (thread ps w ps' w' mp)
  from thread(3) obtain t p' where t: "t < length ps" "dmasglist_test K sg0 t (ps ! t) w = (p', w')" "ps' = ps[t := p']"
    by (auto elim: multi_stepE)
  have "cb_ok (if launched p' then insert t (launched_set ps) else launched_set ps - {t}) w'"
    by (rule dmasglist_test_cb [OF _ _ t(2)]) (use assms(2) thread(1) t(1) in \<open>auto simp: verdict_inv_def launched_set_def\<close>)
  with thread t show ?thesis by (simp add: verdict_inv_def launched_update)
next
  case (main mp w mp' w' ps)
  with assms(2) show ?thesis
    by (cases mp) (auto simp: verdict_inv_def dlt_ops_cb split: if_splits)
qed

lemma verdict_inv_reach:
  assumes "dlt_init K created (dlt_fresh m) = Some s" and "dlt_reach K sg0 s s'"
  shows "verdict_inv s'"
  using assms(2)
proof (induction rule: rtranclp_induct)
  case base
  have "cb_ok T (dlt_fresh m)" for T by (simp add: cb_ok_def dlt_fresh_def)
  with assms(1) show ?case
    by (auto simp: verdict_inv_def dlt_init_def dlt_create_threads_def Let_def split: if_splits)
qed (rule verdict_inv_step)

lemma verdict_at:
  assumes "dlt_init K created (dlt_fresh m) = Some s" and "dlt_reach K sg0 s (mp, ps, w)"
  shows "test_passed w = - 1 \<or> test_passed w = 1 \<and>
    (\<exists>t < MAX_THREADS. launched (ps ! t) \<and> gather_seen2 (tls w ! t) (trace w))"
  using verdict_inv_reach [OF assms] rel_inv_reach [OF assms]
  by (auto simp: verdict_inv_def cb_ok_def launched_set_def)

section \<open>Runs\<close>

text \<open>A kernel that grants every allocation and accepts every list.\<close>

definition dlt_grants :: "kernel \<Rightarrow> bool" where
  "dlt_grants K \<longleftrightarrow> (\<forall>h n. (word_of_int (k_ret K h (Dma_alloc_coherent n)) :: u32) \<noteq> 0) \<and>
     (\<forall>h i sg p n pr. k_ret K h (Omap_set_dma_sglist_mode i sg p n pr) = 0)"

lemma grants_codes:
  assumes "dlt_grants K"
  shows "fst (dlt_src_block K t i w) = 0" "fst (dlt_dst_block K t w) = 0" "fst (dlt_request K t w) = None"
    "fst (dlt_program K sg0 t w) = 0"
  using assms
  by (simp_all add: dlt_grants_def dlt_src_block_def dlt_dst_block_def dlt_request_def dlt_page_def dlt_program_def
      kcall_ret_def Let_def case_prod_beta)

lemma thread_goes:
  assumes "dlt_reach K sg0 s (mp, ps, w)" and "ps ! t = p" and "dmasglist_test K sg0 t p w = (p', w')" and "t < length ps"
  shows "dlt_reach K sg0 s (mp, ps[t := p'], w')"
  using assms(1)
  by (rule rtranclp.rtrancl_into_rtrancl) (intro dlt_step.thread multi_step.sched, use assms in simp_all)

text \<open>A thread that runs alone counts itself.\<close>

lemma thread_completes:
  assumes "dlt_grants K" and "dlt_reach K sg0 s (mp, ps, w)" and "t < length ps" and "ps ! t = Fill_source 0"
  shows "\<exists>rc w'. dlt_reach K sg0 s (mp, ps[t := Counted rc], w') \<and> dlt_count w' = dlt_count w + 1"
proof -
  note go = thread_goes [where t = t]
  let ?w1 = "snd (dlt_src_block K t 0 w)"
  let ?w2 = "snd (dlt_src_block K t 1 ?w1)"
  let ?w3 = "snd (dlt_dst_block K t ?w2)"
  let ?w4 = "snd (dlt_request K t ?w3)"
  let ?w5 = "snd (dlt_program K sg0 t ?w4)"
  let ?l = "dlt_launch K t ?w5"
  have e: "dlt_elements = Suc (Suc 0)" by (simp add: dlt_elements_def)
  note codes = grants_codes [OF assms(1)]
  have 1: "dlt_reach K sg0 s (mp, ps[t := Fill_source 1], ?w1)"
    by (rule go [OF assms(2,4)]) (use assms(3) codes e in \<open>simp_all add: case_prod_beta\<close>)
  have 2: "dlt_reach K sg0 s (mp, ps[t := Fill_source 2], ?w2)"
    using go [OF 1, of "Fill_source 1" "Fill_source 2" ?w2] assms(3) codes e by (simp add: case_prod_beta eval_nat_numeral)
  have 3: "dlt_reach K sg0 s (mp, ps[t := Alloc_dest], ?w2)"
    using go [OF 2, of "Fill_source 2" Alloc_dest ?w2] assms(3) by (simp add: dlt_elements_def)
  have 4: "dlt_reach K sg0 s (mp, ps[t := Request_channel], ?w3)"
    using go [OF 3, of Alloc_dest Request_channel ?w3] assms(3) codes by (simp add: case_prod_beta)
  have 5: "dlt_reach K sg0 s (mp, ps[t := Program_list], ?w4)"
    using go [OF 4, of Request_channel Program_list ?w4] assms(3) codes by (simp add: case_prod_beta)
  have 6: "dlt_reach K sg0 s (mp, ps[t := Launch_list], ?w5)"
    using go [OF 5, of Program_list Launch_list ?w5] assms(3) codes by (simp add: case_prod_beta)
  have 7: "dlt_reach K sg0 s (mp, ps[t := Load_count (fst ?l)], snd ?l)"
    using go [OF 6, of Launch_list "Load_count (fst ?l)" "snd ?l"] assms(3) by (simp add: case_prod_beta)
  have 8: "dlt_reach K sg0 s (mp, ps[t := Store_count (fst ?l) (dlt_count (snd ?l) + 1)], snd ?l)"
    using go [OF 7, of "Load_count (fst ?l)" "Store_count (fst ?l) (dlt_count (snd ?l) + 1)" "snd ?l"] assms(3) by simp
  have 9: "dlt_reach K sg0 s (mp, ps[t := Counted (fst ?l)], (snd ?l)\<lparr>dlt_count := dlt_count (snd ?l) + 1\<rparr>)"
    using go [OF 8, of "Store_count (fst ?l) (dlt_count (snd ?l) + 1)"] assms(3) by simp
  have "dlt_count (snd ?l) = dlt_count w" by simp
  then have "dlt_count ((snd ?l)\<lparr>dlt_count := dlt_count (snd ?l) + 1\<rparr>) = dlt_count w + 1" by simp
  with 9 show ?thesis by blast
qed

lemma threads_complete:
  assumes "dlt_grants K" and "dlt_reach K sg0 s (mp, replicate n (Fill_source 0), w)" and "k \<le> n"
  shows "\<exists>ps w'. dlt_reach K sg0 s (mp, ps, w') \<and> dlt_count w' = dlt_count w + int k \<and> length ps = n \<and>
    (\<forall>t<n. if t < k then is_counted (ps ! t) else ps ! t = Fill_source 0)"
  using assms(3)
proof (induction k)
  case 0
  show ?case by (intro exI [of _ "replicate n (Fill_source 0)"] exI [of _ w]) (simp add: assms(2))
next
  case (Suc k)
  then obtain ps v where v: "dlt_reach K sg0 s (mp, ps, v)" "dlt_count v = dlt_count w + int k" "length ps = n"
    "\<forall>t<n. if t < k then is_counted (ps ! t) else ps ! t = Fill_source 0" by auto
  with Suc.prems obtain rc v' where v': "dlt_reach K sg0 s (mp, ps[k := Counted rc], v')" "dlt_count v' = dlt_count v + 1"
    using thread_completes [OF assms(1) v(1), of k] by auto
  from v' v Suc.prems show ?case
    by (intro exI [of _ "ps[k := Counted rc]"] exI [of _ v']) (auto simp: nth_list_update less_Suc_eq)
qed

lemma main_completes:
  assumes "dlt_reach K sg0 s (Waiting, ps, w)" and "int MAX_THREADS \<le> dlt_count w"
  shows "\<exists>w'. dlt_reach K sg0 s (Loaded 0, ps, w')"
proof -
  have go: "dlt_reach K sg0 s (mp', ps, w')"
    if "dlt_reach K sg0 s (mp, ps, w)" "dlt_main_step K mp w = (mp', w')" for mp w mp' w'
    using that by (meson dlt_step.main rtranclp.rtrancl_into_rtrancl)
  have r: "\<exists>w'. dlt_reach K sg0 s (Releasing k, ps, w')" if "k \<le> MAX_THREADS" for k
    using that
  proof (induction k)
    case 0
    from go [OF assms(1), of "Releasing 0" w] assms(2) show ?case by auto
  next
    case (Suc k)
    then obtain w' where "dlt_reach K sg0 s (Releasing k, ps, w')" by auto
    from go [OF this, of "Releasing (Suc k)" "dlt_release K k w'"] Suc.prems show ?case by auto
  qed
  from r [of MAX_THREADS] obtain w' where "dlt_reach K sg0 s (Releasing MAX_THREADS, ps, w')" by auto
  from go [OF this, of "Loaded 0" w'] show ?thesis by auto
qed

lemma dlt_can_load:
  assumes "dlt_grants K" and "dlt_init K (\<lambda>_. True) (dlt_fresh m) = Some s"
  shows "\<exists>ps w. dlt_reach K sg0 s (Loaded 0, ps, w) \<and> (\<forall>t < MAX_THREADS. launched (ps ! t))"
proof -
  from assms(2) obtain w where s: "s = (Waiting, replicate MAX_THREADS (Fill_source 0), w)" "dlt_count w = 0"
    by (auto simp: dlt_init_def dlt_create_threads_def Let_def dlt_fresh_def list_all_iff split: if_splits)
  then have "dlt_reach K sg0 s (Waiting, replicate MAX_THREADS (Fill_source 0), w)" by simp
  from threads_complete [OF assms(1) this, of MAX_THREADS] obtain ps w' where
    r: "dlt_reach K sg0 s (Waiting, ps, w')" "dlt_count w' = int MAX_THREADS" "\<forall>t<MAX_THREADS. is_counted (ps ! t)"
    using s(2) by auto
  from main_completes [OF r(1)] r(2) obtain w'' where "dlt_reach K sg0 s (Loaded 0, ps, w'')" by auto
  moreover have "launched p" if "is_counted p" for p using that by (cases p) auto
  ultimately show ?thesis using r(3) by blast
qed

text \<open>Histories without an interrupt.\<close>

fun is_interrupt :: "tev \<Rightarrow> bool" where
  "is_interrupt (Interrupt lch st d m) = True"
| "is_interrupt (Called c r out) = False"

definition uninterrupted :: "dlt_world \<Rightarrow> bool" where
  "uninterrupted w \<longleftrightarrow> list_all (\<lambda>e. \<not> is_interrupt e) (trace w)"

lemma uninterrupted_call:
  assumes "\<And>h. no_irq (k_events K h)" and "uninterrupted w"
  shows "uninterrupted (dlt_call K c w)"
proof -
  obtain m where "dlt_call K c w = (kcall_irq K c w)\<lparr>mem := m\<rparr>"
    using deliver_no_irq [OF assms(1)] unfolding kcall_thread_def Let_def by blast
  with assms(2) show ?thesis by (simp add: uninterrupted_def)
qed

lemma uninterrupted_frame [simp]:
  "uninterrupted (tls_upd t f w) = uninterrupted w" "uninterrupted (w\<lparr>mem := m\<rparr>) = uninterrupted w"
  "uninterrupted (w\<lparr>pages := pg\<rparr>) = uninterrupted w" "uninterrupted (w\<lparr>dlt_cb := cb\<rparr>) = uninterrupted w"
  "uninterrupted (w\<lparr>dlt_count := v\<rparr>) = uninterrupted w"
  by (simp_all add: uninterrupted_def)

lemma uninterrupted_step:
  assumes "\<And>h. no_irq (k_events K h)" and "dlt_step K sg0 s s'" and "uninterrupted (snd (snd s))"
  shows "uninterrupted (snd (snd s'))"
proof -
  note call = uninterrupted_call [OF assms(1)]
  have ops: "uninterrupted (snd (dlt_src_block K t i w))" "uninterrupted (snd (dlt_dst_block K t w))"
    "uninterrupted (snd (dlt_request K t w))" "uninterrupted (snd (dlt_program K sg0 t w))"
    "uninterrupted (snd (dlt_launch K t w))" "uninterrupted (dlt_release K t w)" if "uninterrupted w" for t i w
  proof -
    show "uninterrupted (dlt_release K t w)"
      unfolding dlt_release_def Let_def by (intro call for_each_keeps [where P = uninterrupted] that)
  qed (use that in \<open>simp_all add: dlt_src_block_def dlt_dst_block_def dlt_request_def dlt_channel_def dlt_page_def
      dlt_program_def dlt_launch_def Let_def case_prod_beta call split: option.split\<close>)
  have t: "uninterrupted w'" if "dmasglist_test K sg0 t p w = (p', w')" "uninterrupted w" for t p w p' w'
    using that ops by (cases p) (auto simp: case_prod_beta split: if_splits)
  have m: "uninterrupted w'" if "dlt_main_step K mp w = (mp', w')" "uninterrupted w" for mp w mp' w'
    using that ops call by (cases mp) (auto split: if_splits)
  from assms(2,3) t m show ?thesis by (auto elim!: dlt_step.cases multi_stepE)
qed

lemma uninterrupted_reach:
  assumes "\<And>h. no_irq (k_events K h)" and "dlt_reach K sg0 s s'" and "uninterrupted (snd (snd s))"
  shows "uninterrupted (snd (snd s'))"
  using assms(2,3) by (induction rule: rtranclp_induct) (auto intro: uninterrupted_step [OF assms(1)])

section \<open>Properties\<close>

text \<open>
  C29. Under every interleaving of the four threads and every kernel behaviour, whenever the
  initialisation function returns it has freed every coherent buffer of every thread exactly once:
  the two source blocks, the destination and the descriptor page of each.
\<close>

theorem dload_threads_release:
  assumes "dlt_init K created (dlt_fresh m) = Some s" and "dlt_reach K sg0 s (Loaded ret, ps, w)" and "a \<noteq> 0"
  shows "coherent_balance (trace w) a = 0"
  using rel_inv_reach [OF assms(1,2)] assms(3) by (simp add: allocated_def)

text \<open>
  The verdict of the concurrent autoloading test: at every moment it is PASSED only if some
  thread has launched its list and an interrupt found that thread's destination equal to its two
  source blocks; FAILED is never stored.
\<close>

theorem dload_threads_verdict:
  assumes "dlt_init K created (dlt_fresh m) = Some s" and "dlt_reach K sg0 s (mp, ps, w)"
  shows "test_passed w = - 1 \<or> test_passed w = 1 \<and>
    (\<exists>t < MAX_THREADS. launched (ps ! t) \<and> gather_seen2 (tls w ! t) (trace w))"
  by (rule verdict_at [OF assms])

text \<open>
  Once a thread has returned early or crashed, the initialisation function never gets past its
  loop: in every later state it is still waiting, and nothing has been released.
\<close>

theorem dload_threads_hang:
  assumes "dlt_init K created (dlt_fresh m) = Some s" and "dlt_reach K sg0 s (mp, ps, w)"
    and "Failed rc \<in> set ps \<or> Null_fault \<in> set ps" and "dlt_reach K sg0 (mp, ps, w) (mp', ps', w')"
  shows "mp' = Waiting"
proof -
  have stuck: "Failed rc \<in> set (fst (snd s')) \<or> Null_fault \<in> set (fst (snd s'))"
    if "dlt_step K sg0 s s'" "Failed rc \<in> set (fst (snd s)) \<or> Null_fault \<in> set (fst (snd s))" for s s'
    using that
  proof (cases rule: dlt_step.cases)
    case (thread ps w ps' w' mp)
    from thread(3) obtain t p' where t: "t < length ps" "dmasglist_test K sg0 t (ps ! t) w = (p', w')" "ps' = ps[t := p']"
      by (auto elim: multi_stepE)
    have "p \<in> set ps'" if "p \<in> set ps" "p = Failed rc \<or> p = Null_fault" for p
    proof -
      from that(1) obtain j where j: "j < length ps" "ps ! j = p" by (auto simp: in_set_conv_nth)
      with t that(2) have "ps' ! j = p" by (cases "j = t") auto
      with j t(3) show ?thesis by (metis length_list_update nth_mem)
    qed
    with that(2) thread(1,2) show ?thesis by auto
  qed auto
  from assms(4) have "Failed rc \<in> set ps' \<or> Null_fault \<in> set ps'"
    by (induction "(mp', ps', w')" arbitrary: mp' ps' w' rule: rtranclp_induct)
      (use assms(3) in simp, use stuck in fastforce)
  then show ?thesis
    using rel_inv_reach [OF assms(1) rtranclp_trans [OF assms(2,4)]] by auto
qed

text \<open>
  The loop commented "Wait till all the thread finish data transfer" waits for the transfers to be
  started only: on every kernel that grants the allocations and accepts the lists, but whose engine
  never completes one, the initialisation function can still return 0 with all four lists launched
  and every buffer freed, although no interrupt has arrived and no verdict is stored.
\<close>

theorem dload_threads_frees_early:
  assumes "dlt_grants K" and "\<And>h. no_irq (k_events K h)" and "dlt_init K (\<lambda>_. True) (dlt_fresh m) = Some s"
  shows "\<exists>ps w. dlt_reach K sg0 s (Loaded 0, ps, w) \<and> list_all launched ps \<and> length ps = MAX_THREADS \<and>
    uninterrupted w \<and> test_passed w = - 1 \<and> (\<forall>a. a \<noteq> 0 \<longrightarrow> coherent_balance (trace w) a = 0)"
proof -
  obtain ps w where r: "dlt_reach K sg0 s (Loaded 0, ps, w)" and l: "\<forall>t < MAX_THREADS. launched (ps ! t)"
    using dlt_can_load [OF assms(1,3)] by blast
  have "uninterrupted (snd (snd s))"
    using assms(3) uninterrupted_call [OF assms(2)]
    by (auto simp: dlt_init_def Let_def dlt_fresh_def uninterrupted_def split: option.splits)
  from uninterrupted_reach [OF assms(2) r this] have u: "uninterrupted w" by simp
  have "\<not> gather_seen2 tr h" if "list_all (\<lambda>e. \<not> is_interrupt e) h" for tr h
    using that by (induction tr h rule: gather_seen2.induct) auto
  with verdict_at [OF assms(3) r] u have "test_passed w = - 1" by (auto simp: uninterrupted_def)
  moreover have "length ps = MAX_THREADS" and "\<forall>a. a \<noteq> 0 \<longrightarrow> coherent_balance (trace w) a = 0"
    using rel_inv_reach [OF assms(3) r] by (simp_all add: allocated_def)
  ultimately show ?thesis
    using r u l by (intro exI [of _ ps] exI [of _ w]) (simp add: list_all_length)
qed

section \<open>Witnesses\<close>

definition dlt_demo :: kernel where
  "dlt_demo = \<lparr>k_ret = (\<lambda>h c. case c of Dma_alloc_coherent n \<Rightarrow> 4096 | _ \<Rightarrow> 0), k_out = (\<lambda>_ _. Some 5),
     k_events = (\<lambda>_. []), k_const = (\<lambda>_. 0), OMAP_DMA_BLOCK_IRQ = 32\<rparr>"

lemma dlt_demo_grants: "dlt_grants dlt_demo"
  by (simp add: dlt_grants_def dlt_demo_def)

lemma dlt_demo_silent: "no_irq (k_events dlt_demo h)"
  by (simp add: no_irq_def dlt_demo_def)

definition dlt_start :: "kernel \<Rightarrow> dlt_state" where
  "dlt_start K = (Waiting, replicate MAX_THREADS (Fill_source 0),
     dlt_call K (Omap_dma_set_global_params (k_const K DMA_DEFAULT_ARB_RATE) (k_const K DMA_DEFAULT_FIFO_DEPTH)
       (k_const K DMA_THREAD_RESERVE_ONET OR k_const K DMA_THREAD_FIFO_25)) (dlt_fresh (\<lambda>_. 0)))"

lemma dlt_starts: "dlt_init K (\<lambda>_. True) (dlt_fresh (\<lambda>_. 0)) = Some (dlt_start K)"
  by (simp add: dlt_init_def dlt_create_threads_def dlt_start_def list_all_iff)

theorem dload_threads_release_witness:
  "\<exists>ps w. dlt_reach dlt_demo [] (dlt_start dlt_demo) (Loaded 0, ps, w) \<and> coherent_balance (trace w) 4096 = 0"
proof -
  obtain ps w where r: "dlt_reach dlt_demo [] (dlt_start dlt_demo) (Loaded 0, ps, w)"
    using dlt_can_load [OF dlt_demo_grants dlt_starts] by blast
  from dload_threads_release [OF dlt_starts r, of 4096] r show ?thesis by auto
qed

theorem dload_threads_verdict_witness:
  "\<exists>ps w. dlt_reach dlt_demo [] (dlt_start dlt_demo) (Loaded 0, ps, w) \<and>
     (test_passed w = - 1 \<or> test_passed w = 1 \<and>
       (\<exists>t < MAX_THREADS. launched (ps ! t) \<and> gather_seen2 (tls w ! t) (trace w)))"
proof -
  obtain ps w where r: "dlt_reach dlt_demo [] (dlt_start dlt_demo) (Loaded 0, ps, w)"
    using dlt_can_load [OF dlt_demo_grants dlt_starts] by blast
  from dload_threads_verdict [OF dlt_starts r] r show ?thesis by blast
qed

text \<open>A kernel without memory: the first thread writes to NULL in its first step.\<close>

definition dlt_poor :: kernel where
  "dlt_poor = dlt_demo\<lparr>k_ret := (\<lambda>h c. 0)\<rparr>"

lemma dlt_poor_faults:
  "fst (dmasglist_test dlt_poor sg0 t (Fill_source 0) w) = Null_fault"
  by (simp add: dlt_elements_def dlt_src_block_def dlt_poor_def kcall_ret_def Let_def)

theorem dload_threads_hang_witness:
  "\<exists>ps w. dlt_reach dlt_poor [] (dlt_start dlt_poor) (Waiting, ps, w) \<and> Null_fault \<in> set ps"
proof -
  obtain mp ps w where s: "dlt_start dlt_poor = (mp, ps, w)" by (metis prod_cases3)
  then have ps: "ps = replicate MAX_THREADS (Fill_source 0)" by (simp add: dlt_start_def)
  let ?w = "snd (dmasglist_test dlt_poor [] 0 (Fill_source 0) w)"
  have r: "dlt_reach dlt_poor [] (dlt_start dlt_poor) (mp, ps[0 := Null_fault], ?w)"
  proof (rule thread_goes [where p = "Fill_source 0" and w = w])
    show "dlt_reach dlt_poor [] (dlt_start dlt_poor) (mp, ps, w)" by (simp add: s)
    show "dmasglist_test dlt_poor [] 0 (Fill_source 0) w = (Null_fault, ?w)"
      by (metis dlt_poor_faults prod.collapse)
  qed (simp_all add: ps MAX_THREADS_def)
  have n: "Null_fault \<in> set (ps[0 := Null_fault])" by (simp add: ps MAX_THREADS_def set_update_memI)
  then have "mp = Waiting" using dload_threads_hang [OF dlt_starts r disjI2 rtranclp.rtrancl_refl] by blast
  with r n show ?thesis by blast
qed

theorem dload_threads_frees_early_witness:
  "\<exists>ps w. dlt_reach dlt_demo [] (dlt_start dlt_demo) (Loaded 0, ps, w) \<and> list_all launched ps \<and>
     length ps = MAX_THREADS \<and> uninterrupted w \<and> test_passed w = - 1 \<and> coherent_balance (trace w) 4096 = 0"
  using dload_threads_frees_early [OF dlt_demo_grants dlt_demo_silent dlt_starts, of "[]"] by fastforce

end
