(* ===== verification/Dma_Chain_Threads.thy ===== *)
theory Dma_Chain_Threads
  imports Dma_Chain_Dynamic DDT_Threads
begin

text \<open>
  The concurrent tests of dynamic chains: \<^verbatim>\<open>dma_chain_thread_access.c\<close> (two threads, ten transfers
  each, released by the exit function) and \<^verbatim>\<open>dma_chain_thread_stress.c\<close> (a hundred rounds of two
  threads with fourteen transfers each, released by the initialisation function). The modules have
  the same thread function and callback; the number of transfers is a parameter of the shared
  definitions.
\<close>

section \<open>State\<close>

text \<open>
  \<^verbatim>\<open>struct chain_transfer\<close>. The fields of the structure that is being worked on are the fields
  \<open>ct_transfers\<close>, \<open>chain\<close>, \<open>current_transfer\<close> and \<open>transfer_end\<close> of the state, on which the operations of
  the common module act; \<open>cur\<close> is its index. The other structures are in \<open>cht\<close>.
\<close>

record chain_thread =
  th_transfers :: "chained_transfer list"
  th_chain :: dma_chain
  th_current :: nat
  th_end :: int

record cth_world = dy_world +
  cht :: "chain_thread list"
  cur :: nat
  mod_chained_id :: int
  cth_count :: int
  overrun :: bool

definition zero_thread :: "nat \<Rightarrow> chain_thread" where
  "zero_thread n = \<lparr>th_transfers = replicate n zero_chained, th_chain = zero_chain, th_current = 0, th_end = 0\<rparr>"

definition cth_fresh :: "nat \<Rightarrow> memory \<Rightarrow> cth_world" where
  "cth_fresh n m = \<lparr>trace = [], mem = m, test_passed = - 1, chained_id = 0, max_rounds = 1,
     ct_transfers = replicate n zero_chained, chain = zero_chain, current_transfer = 0, transfer_end = 0,
     cht = [zero_thread n, zero_thread n], cur = 0, mod_chained_id = 0, cth_count = 0, overrun = False\<rparr>"

definition here :: "cth_world \<Rightarrow> chain_thread" where
  "here w = \<lparr>th_transfers = ct_transfers w, th_chain = chain w, th_current = current_transfer w,
     th_end = transfer_end w\<rparr>"

definition structs :: "cth_world \<Rightarrow> chain_thread list" where
  "structs w = (cht w)[cur w := here w]"

text \<open>Work on the structure \<^verbatim>\<open>&cht[t]\<close>.\<close>

definition focus :: "nat \<Rightarrow> cth_world \<Rightarrow> cth_world" where
  "focus t w = (let s = structs w ! t in w\<lparr>cht := structs w, cur := t, ct_transfers := th_transfers s,
     chain := th_chain s, current_transfer := th_current s, transfer_end := th_end s\<rparr>)"

section \<open>The callback\<close>

text \<open>\<^verbatim>\<open>dynamic_chain_transfer\<close> always chains the first transfer of the structure.\<close>

definition dynamic_chain_transfer :: "kernel \<Rightarrow> (kcall \<Rightarrow> cth_world \<Rightarrow> cth_world) \<Rightarrow> cth_world \<Rightarrow> int \<times> cth_world" where
  "dynamic_chain_transfer K call w =
     (let w = ct_upd 0 (\<lambda>t. t\<lparr>ct_finished := 0, ct_data_correct := 0, ct_frame_count := 1,
                ct_request_success := 0\<rparr>) w
      in case chain_elements K (dc_data_type (chain w)) (buf_size (ct_bufs w 0)) of
           None \<Rightarrow> (0, w)
         | Some n \<Rightarrow>
             let w = ct_upd 0 (\<lambda>t. t\<lparr>ct_elements_in_frame := n\<rparr>) w;
                 w = map_to_phys_buffers_chain K call 0 w;
                 w = ct_upd 0 (\<lambda>t. t\<lparr>ct_chained_id := mod_chained_id w\<rparr>) w;
                 w = w\<lparr>mod_chained_id := mod_chained_id w + 1\<rparr>;
                 w = ct_upd 0 (\<lambda>t. t\<lparr>ct_chain_id := dc_chain_id (chain w)\<rparr>) w;
                 t = ct_transfers w ! 0;
                 c = Omap_dma_chain_a_transfer (dc_chain_id (chain w)) (src_buf_phys (ct_buffers t))
                       (dest_buf_phys (ct_buffers t)) (ct_elements_in_frame t) (ct_frame_count t) 0;
                 error = kcall_ret K c w;
                 w = call c w
             in if error \<noteq> 0 then (1, w)
                else (0, ct_upd 0 (\<lambda>t. t\<lparr>ct_request_success := 1\<rparr>) w))"

text \<open>
  Mark the current transfer correct, go on to the next and chain again. The next index is not
  checked: when it is the number of transfers, the code writes behind the array (\<open>overrun\<close>), and
  what it does from there on is not described.
\<close>

definition cth_next :: "kernel \<Rightarrow> nat \<Rightarrow> cth_world \<Rightarrow> cth_world" where
  "cth_next K n w =
     (let w = ct_upd (current_transfer w) (\<lambda>t. t\<lparr>ct_data_correct := 1\<rparr>) w;
          w = w\<lparr>current_transfer := current_transfer w + 1\<rparr>;
          i = current_transfer w
      in if \<not> i < n then w\<lparr>overrun := True\<rparr>
         else
           let w = ctb_upd i (\<lambda>b. b\<lparr>buf_size := 1024 * 1\<rparr>) w
           in case create_transfer_buffers_chain K (kcall_irq K) i w of (error, w) \<Rightarrow>
             if error \<noteq> 0 then w\<lparr>transfer_end := 1\<rparr>
             else case dynamic_chain_transfer K (kcall_irq K) (fill_source_buffer_chain i w) of (error, w) \<Rightarrow>
               if error \<noteq> 0 then w\<lparr>transfer_end := 1\<rparr> else w)"

definition cth_complete :: "kernel \<Rightarrow> nat \<Rightarrow> u16 \<Rightarrow> cth_world \<Rightarrow> cth_world" where
  "cth_complete K n st w =
     (let w = ct_upd 0 (\<lambda>t. t\<lparr>ct_data_correct := 1, ct_finished := 1\<rparr>) w
      in if current_transfer w = n then
           kcall_irq K (Omap_stop_dma_chain_transfers (ct_chain_id (ct_transfers w ! 0))) (w\<lparr>transfer_end := 1\<rparr>)
         else
           let w = unmap_phys_buffers_chain (kcall_irq K) 0 w;
               w = unmap_phys_buffers_chain (kcall_irq K) 0 w
           in if status_ok K st then
                let error = verify_buffers_chain (mem w) (ct_bufs w 0)
                in if error \<noteq> 0 then w\<lparr>transfer_end := 1\<rparr> else cth_next K n w
              else w\<lparr>transfer_end := 1\<rparr>)"

text \<open>
  The interrupt: the data pointer is \<^verbatim>\<open>&cht[d]\<close> (equally the address of its first transfer), whichever
  structure the interrupted thread was working on.
\<close>

definition cth_callback :: "kernel \<Rightarrow> nat \<Rightarrow> cth_world handler" where
  "cth_callback K n lch st d w =
     (if d < length (cht w) then focus (cur w) (cth_complete K n st (focus d w)) else w)"

abbreviation cth_call :: "kernel \<Rightarrow> nat \<Rightarrow> kcall \<Rightarrow> cth_world \<Rightarrow> cth_world" where
  "cth_call K n \<equiv> kcall_thread K (cth_callback K n)"

section \<open>A thread\<close>

text \<open>Where a thread is in \<^verbatim>\<open>dma_chain_thread_entry\<close>.\<close>

datatype cth_phase =
    Request_chain
  | Add_first
  | Begin_chain
  | Poll_chain nat
  | Count_read
  | Count_write int
  | Thread_done
  | Thread_failed

definition cth_request :: "kernel \<Rightarrow> nat \<Rightarrow> cth_world \<Rightarrow> int \<times> cth_world" where
  "cth_request K n w =
     (case request_dma_chain K (cth_call K n) (dynamic_config K (int n) w) of (error, w) \<Rightarrow>
        let w = cth_call K n (Omap_set_dma_callback (dc_chain_id (chain w))) w
        in (error, if error \<noteq> 0 then set_test_passed_chain 0 w else w))"

definition cth_begin :: "kernel \<Rightarrow> nat \<Rightarrow> cth_world \<Rightarrow> cth_world" where
  "cth_begin K n w =
     (let w = w\<lparr>current_transfer := 0\<rparr>;
          w = setup_dma_chain K (cth_call K n) w
      in snd (start_dma_chain K (cth_call K n) w))"

fun cth_entry :: "kernel \<Rightarrow> nat \<Rightarrow> cth_phase \<Rightarrow> cth_world \<Rightarrow> cth_phase \<times> cth_world" where
  "cth_entry K n Request_chain w =
     (case cth_request K n w of (error, w) \<Rightarrow> (if error \<noteq> 0 then Thread_failed else Add_first, w))"
| "cth_entry K n Add_first w =
     (case chain_add K (cth_call K n) (1024 * 1) (\<lambda>i w. w) 0 w of (error, w) \<Rightarrow>
        (if error \<noteq> 0 then Thread_failed else Begin_chain, w))"
| "cth_entry K n Begin_chain w = (Poll_chain 0, cth_begin K n w)"
| "cth_entry K n (Poll_chain i) w =
     (if i < TRANSFER_POLL_COUNT then
        if transfer_end w \<noteq> 0 then
          (Count_read, chain_check_test_passed n (cth_call K n (Mdelay TRANSFER_POLL_TIME) w))
        else (Poll_chain (Suc i), cth_call K n (Mdelay TRANSFER_POLL_TIME) w)
      else (Thread_failed, set_test_passed_chain 0 w))"
| "cth_entry K n Count_read w = (Count_write (cth_count w + 1), w)"
| "cth_entry K n (Count_write v) w = (Thread_done, w\<lparr>cth_count := v\<rparr>)"
| "cth_entry K n Thread_done w = (Thread_done, w)"
| "cth_entry K n Thread_failed w = (Thread_failed, w)"

definition cth_run :: "kernel \<Rightarrow> nat \<Rightarrow> nat \<Rightarrow> cth_phase \<Rightarrow> cth_world \<Rightarrow> cth_phase \<times> cth_world" where
  "cth_run K n t p w =
     (if p = Thread_done \<or> p = Thread_failed then (p, w) else cth_entry K n p (focus t w))"

section \<open>Releasing\<close>

text \<open>
  Stop and free the chain of the structure in focus and free the buffers of its transfers. The
  bound of the loop is read again in every round; it is never more than the number of transfers.
\<close>

definition cth_free_buffers :: "kernel \<Rightarrow> nat \<Rightarrow> cth_world \<Rightarrow> cth_world" where
  "cth_free_buffers K n w = for_each (\<lambda>i w. if i < current_transfer w
     then stop_dma_transfer_chain (cth_call K n) i w else w) 0 n w"

definition cth_release :: "kernel \<Rightarrow> nat \<Rightarrow> cth_world \<Rightarrow> cth_world" where
  "cth_release K n w =
     (if dc_request_success (chain w) \<noteq> 0
      then cth_free_buffers K n (chain_give_back K (cth_call K n) w) else w)"

section \<open>The access module\<close>

text \<open>The functions of the module as instances of the shared definitions.\<close>

definition ACCESS_COUNT :: nat where
  "ACCESS_COUNT = 10"

definition access_check_test_passed :: "cth_world \<Rightarrow> cth_world" where
  "access_check_test_passed = chain_check_test_passed ACCESS_COUNT"

definition access_dynamic_chain_transfer :: "kernel \<Rightarrow> cth_world \<Rightarrow> int \<times> cth_world" where
  "access_dynamic_chain_transfer K = dynamic_chain_transfer K (kcall_irq K)"

definition access_dma_callback_chain :: "kernel \<Rightarrow> cth_world handler" where
  "access_dma_callback_chain K = cth_callback K ACCESS_COUNT"

definition access_request_dma_chain :: "kernel \<Rightarrow> cth_world \<Rightarrow> int \<times> cth_world" where
  "access_request_dma_chain K = request_dma_chain K (cth_call K ACCESS_COUNT)"

definition access_thread_entry :: "kernel \<Rightarrow> nat \<Rightarrow> cth_phase \<Rightarrow> cth_world \<Rightarrow> cth_phase \<times> cth_world" where
  "access_thread_entry K = cth_run K ACCESS_COUNT"

text \<open>
  The module is loaded; it is being removed and waits for the counter; it releases \<^verbatim>\<open>cht1\<close>, then \<^verbatim>\<open>cht2\<close>;
  it is gone. The threads are created and woken up when it is loaded.
\<close>

datatype access_main = Module_loaded | Exit_wait | Exit_free1 | Exit_free2 | Module_gone

type_synonym access_state = "access_main \<times> cth_phase list \<times> cth_world"

definition access_module_init :: "cth_world \<Rightarrow> int \<times> access_state" where
  "access_module_init w = (0, Module_loaded, [Request_chain, Request_chain], w)"

fun access_module_exit :: "kernel \<Rightarrow> access_main \<Rightarrow> cth_world \<Rightarrow> access_main \<times> cth_world" where
  "access_module_exit K Module_loaded w = (Exit_wait, w)"
| "access_module_exit K Exit_wait w =
     (if cth_count w < 2 then (Exit_wait, cth_call K ACCESS_COUNT (Msleep 10) w) else (Exit_free1, w))"
| "access_module_exit K Exit_free1 w =
     (Exit_free2, cth_free_buffers K ACCESS_COUNT (chain_give_back K (cth_call K ACCESS_COUNT) (focus 0 w)))"
| "access_module_exit K Exit_free2 w = (Module_gone, cth_release K ACCESS_COUNT (focus 1 w))"
| "access_module_exit K Module_gone w = (Module_gone, w)"

inductive access_step :: "kernel \<Rightarrow> access_state \<Rightarrow> access_state \<Rightarrow> bool" for K where
  thread: "multi_step (access_thread_entry K) (ps, w) (ps', w') \<Longrightarrow> access_step K (mp, ps, w) (mp, ps', w')"
| remove: "access_module_exit K mp w = (mp', w') \<Longrightarrow> access_step K (mp, ps, w) (mp', ps, w')"

abbreviation access_reach :: "kernel \<Rightarrow> access_state \<Rightarrow> access_state \<Rightarrow> bool" where
  "access_reach K \<equiv> (access_step K)\<^sup>*\<^sup>*"

section \<open>The stress module\<close>

definition STRESS_TRANSFERS :: nat where
  "STRESS_TRANSFERS = 14"

definition STRESS_COUNT :: nat where
  "STRESS_COUNT = 100"

definition stress_check_test_passed :: "cth_world \<Rightarrow> cth_world" where
  "stress_check_test_passed = chain_check_test_passed STRESS_TRANSFERS"

definition stress_dynamic_chain_transfer :: "kernel \<Rightarrow> cth_world \<Rightarrow> int \<times> cth_world" where
  "stress_dynamic_chain_transfer K = dynamic_chain_transfer K (kcall_irq K)"

definition stress_dma_callback_chain :: "kernel \<Rightarrow> cth_world handler" where
  "stress_dma_callback_chain K = cth_callback K STRESS_TRANSFERS"

definition stress_request_dma_chain :: "kernel \<Rightarrow> cth_world \<Rightarrow> int \<times> cth_world" where
  "stress_request_dma_chain K = request_dma_chain K (cth_call K STRESS_TRANSFERS)"

definition stress_thread_entry :: "kernel \<Rightarrow> nat \<Rightarrow> cth_phase \<Rightarrow> cth_world \<Rightarrow> cth_phase \<times> cth_world" where
  "stress_thread_entry K = cth_run K STRESS_TRANSFERS"

definition stress_create_threads :: "cth_phase list" where
  "stress_create_threads = [Request_chain, Request_chain]"

text \<open>
  Where \<^verbatim>\<open>dma_module_init\<close> is: at the head of round \<open>r\<close>, waiting for the threads of the round,
  releasing structure \<open>t\<close>, or returned.
\<close>

datatype stress_main = Round_head nat | Round_wait nat | Round_free nat nat | Init_returned

type_synonym stress_state = "stress_main \<times> cth_phase list \<times> cth_world"

fun stress_module_init :: "kernel \<Rightarrow> stress_state \<Rightarrow> stress_state" where
  "stress_module_init K (Round_head r, ps, w) =
     (if r < STRESS_COUNT then (Round_wait r, stress_create_threads, w) else (Init_returned, ps, w))"
| "stress_module_init K (Round_wait r, ps, w) =
     (if cth_count w < 2 then (Round_wait r, ps, cth_call K STRESS_TRANSFERS (Msleep 10) w)
      else (Round_free r 0, ps, w))"
| "stress_module_init K (Round_free r t, ps, w) =
     (if t < 2 then (Round_free r (Suc t), ps, cth_release K STRESS_TRANSFERS (focus t w))
      else (Round_head (Suc r), ps, w\<lparr>cth_count := 0\<rparr>))"
| "stress_module_init K (Init_returned, ps, w) = (Init_returned, ps, w)"

definition stress_module_exit :: "cth_world \<Rightarrow> cth_world" where
  "stress_module_exit w = w"

inductive stress_step :: "kernel \<Rightarrow> stress_state \<Rightarrow> stress_state \<Rightarrow> bool" for K where
  thread: "multi_step (stress_thread_entry K) (ps, w) (ps', w') \<Longrightarrow> stress_step K (mp, ps, w) (mp, ps', w')"
| init: "stress_step K s (stress_module_init K s)"

abbreviation stress_reach :: "kernel \<Rightarrow> stress_state \<Rightarrow> stress_state \<Rightarrow> bool" where
  "stress_reach K \<equiv> (stress_step K)\<^sup>*\<^sup>*"

end
