(* ===== verification/Dma_Chain_Threads_Correct.thy ===== *)
theory Dma_Chain_Threads_Correct
  imports Dma_Chain_Threads
begin

text \<open>
  Properties of the concurrent chain tests. The locale \<open>chain_keeps\<close> collects what an invariant must
  satisfy to survive the operations of the common module, \<open>cth_keeps\<close> what it must satisfy to survive
  the callback and the thread function as well; four invariants are instances of it.
\<close>

section \<open>Focus\<close>

lemma here_simps [simp]:
  "th_transfers (here w) = ct_transfers w" "th_chain (here w) = chain w"
  "th_current (here w) = current_transfer w" "th_end (here w) = transfer_end w"
  by (simp_all add: here_def)

lemma focus_simps [simp]:
  "cht (focus t w) = structs w" "cur (focus t w) = t" "here (focus t w) = structs w ! t"
  "overrun (focus t w) = overrun w" "test_passed (focus t w) = test_passed w" "trace (focus t w) = trace w"
  "cth_count (focus t w) = cth_count w" "mem (focus t w) = mem w"
  "ct_transfers (focus t w) = th_transfers (structs w ! t)" "current_transfer (focus t w) = th_current (structs w ! t)"
  by (simp_all add: focus_def here_def Let_def)

lemma structs_length [simp]: "length (structs w) = length (cht w)"
  by (simp add: structs_def)

text \<open>Changing the focus changes no structure.\<close>

lemma structs_focus [simp]: "t < length (cht w) \<Longrightarrow> structs (focus t w) = structs w"
  by (subst structs_def) (simp add: list_update_id)

section \<open>Invariants of the operations\<close>

text \<open>
  What a property of the state must satisfy so that every operation of the common module that the
  threads and the callback use keeps it, whoever makes the calls.
\<close>

definition mild :: "nat \<Rightarrow> (chained_transfer \<Rightarrow> chained_transfer) \<Rightarrow> bool" where
  "mild i f \<longleftrightarrow> (\<forall>t. ct_data_correct (f t) \<in> {ct_data_correct t, 0}) \<and>
     (i = 0 \<or> (\<forall>t. ct_request_success (f t) = ct_request_success t))"

locale chain_keeps =
  fixes K :: kernel
    and call :: "kcall \<Rightarrow> cth_world \<Rightarrow> cth_world"
    and P :: "kcall \<Rightarrow> bool"
    and I :: "cth_world \<Rightarrow> bool"
  assumes call_I: "I w \<Longrightarrow> P c \<Longrightarrow> I (call c w)"
    and upd_I: "I w \<Longrightarrow> mild i f \<Longrightarrow> I (ct_upd i f w)"
    and chain_I: "I w \<Longrightarrow> I (dc_upd g w)"
    and id_I: "I w \<Longrightarrow> I (w\<lparr>chained_id := x\<rparr>)"
    and mod_id_I: "I w \<Longrightarrow> I (w\<lparr>mod_chained_id := x\<rparr>)"
    and mem_I: "I w \<Longrightarrow> I (w\<lparr>mem := m\<rparr>)"
    and end_I: "I w \<Longrightarrow> I (w\<lparr>transfer_end := 1\<rparr>)"
    and fail_I: "I w \<Longrightarrow> I (set_test_passed_chain 0 w)"
    and not_free: "(\<And>a. c \<noteq> Kfree a) \<Longrightarrow> P c"
begin

lemma other_call_I [simp]: "I w \<Longrightarrow> (\<And>a. c \<noteq> Kfree a) \<Longrightarrow> I (call c w)"
  by (rule call_I) (simp_all add: not_free)

lemma bufs_I: "I w \<Longrightarrow> I (ctb_upd i f w)"
  by (simp add: ctb_upd_def upd_I mild_def)

lemma request_I: "I w \<Longrightarrow> I (snd (request_dma_chain K call w))"
  by (simp add: request_dma_chain_def Let_def chain_I split: option.splits)

lemma create_I: "I w \<Longrightarrow> I (snd (create_transfer_buffers_chain K call i w))"
  by (simp add: create_transfer_buffers_chain_def Let_def bufs_I)

lemma fill_I: "I w \<Longrightarrow> I (fill_source_buffer_chain i w)"
  by (simp add: fill_source_buffer_chain_def mem_I)

lemma map_I: "I w \<Longrightarrow> I (map_to_phys_buffers_chain K call i w)"
  by (simp add: map_to_phys_buffers_chain_def Let_def bufs_I)

lemma unmap_I: "I w \<Longrightarrow> I (unmap_phys_buffers_chain call i w)"
  by (simp add: unmap_phys_buffers_chain_def Let_def)

lemma chain_transfer_I: "I w \<Longrightarrow> I (snd (chain_transfer K call 0 w))"
  by (auto simp: chain_transfer_def Let_def upd_I mild_def map_I id_I split: option.splits)

lemma dynamic_chain_transfer_I: "I w \<Longrightarrow> I (snd (dynamic_chain_transfer K call w))"
  by (auto simp: dynamic_chain_transfer_def Let_def upd_I mild_def map_I mod_id_I split: option.splits)

lemma chain_add_I: "I w \<Longrightarrow> I (snd (chain_add K call sz (\<lambda>i w. w) 0 w))"
  by (simp add: chain_add_def Let_def case_prod_beta fail_I chain_transfer_I fill_I create_I bufs_I)

lemma setup_I: "I w \<Longrightarrow> I (setup_dma_chain K call w)"
  by (simp add: setup_dma_chain_def)

lemma start_I: "I w \<Longrightarrow> I (snd (start_dma_chain K call w))"
  by (simp add: start_dma_chain_def Let_def)

lemma give_back_I: "I w \<Longrightarrow> I (chain_give_back K call w)"
  by (simp add: chain_give_back_def Let_def fail_I)

end

section \<open>Invariants of the threads\<close>

text \<open>
  An invariant that the operations of the callback keep, and that changing the focus and the few
  assignments of the thread function keep, is kept by the callback, so by every call of a thread,
  by the thread function and by the release.
\<close>

locale cth_keeps = irq: chain_keeps K "kcall_irq K" P I
  for K :: kernel and P :: "kcall \<Rightarrow> bool" and I :: "cth_world \<Rightarrow> bool" +
  fixes n :: nat
  assumes focus_I: "I w \<Longrightarrow> t < 2 \<Longrightarrow> I (focus t w)"
    and shape_I: "I w \<Longrightarrow> length (cht w) = 2 \<and> cur w < 2"
    and log_I: "I w \<Longrightarrow> I (log_ev (Interrupt lch st d m) w)"
    and flag_I: "I w \<Longrightarrow> I (ct_upd 0 (\<lambda>t. t\<lparr>ct_data_correct := 1, ct_finished := 1\<rparr>) w)"
    and next_I: "I w \<Longrightarrow> I (cth_next K n w)"
    and current_I: "I w \<Longrightarrow> I (w\<lparr>current_transfer := 0\<rparr>)"
    and count_I: "I w \<Longrightarrow> I (w\<lparr>cth_count := v\<rparr>)"
    and check_I: "I w \<Longrightarrow> I (chain_check_test_passed n w)"
begin

lemma complete_I: "I w \<Longrightarrow> I (cth_complete K n st w)"
  by (simp add: cth_complete_def Let_def flag_I irq.unmap_I next_I irq.end_I)

lemma callback_I: "I w \<Longrightarrow> I (cth_callback K n lch st d w)"
  using shape_I [of w] by (simp add: cth_callback_def complete_I focus_I)

lemma deliver_I: "I w \<Longrightarrow> I (deliver (cth_callback K n) es w)"
proof (induction es arbitrary: w)
  case (Cons e es)
  then show ?case by (cases e) (simp_all add: callback_I log_I irq.mem_I)
qed simp

lemma thread_call_I: "I w \<Longrightarrow> P c \<Longrightarrow> I (cth_call K n c w)"
  by (simp add: kcall_thread_def Let_def deliver_I irq.call_I)

end

sublocale cth_keeps \<subseteq> chain_keeps K "cth_call K n" P I
  by unfold_locales
    (simp_all add: thread_call_I irq.upd_I irq.chain_I irq.id_I irq.mod_id_I irq.mem_I irq.end_I irq.fail_I irq.not_free)

context cth_keeps
begin

lemma entry_I:
  assumes "I w" and "cth_entry K n p w = (p', w')"
  shows "I w'"
proof -
  have cfg: "I (dynamic_config K (int n) w)" using assms(1) by (simp add: dynamic_config_def chain_I)
  note keeps = request_I chain_add_I setup_I start_I fail_I check_I current_I count_I
  show ?thesis
    using assms cfg by (cases p)
      (auto simp: cth_request_def cth_begin_def case_prod_beta Let_def keeps split: if_splits)
qed

lemma run_I: "I w \<Longrightarrow> t < 2 \<Longrightarrow> cth_run K n t p w = (p', w') \<Longrightarrow> I w'"
  unfolding cth_run_def by (auto split: if_splits intro: entry_I focus_I)

lemma step_I: "multi_step (cth_run K n) (ps, w) (ps', w') \<Longrightarrow> length ps = 2 \<Longrightarrow> I w \<Longrightarrow> I w'"
  by (auto elim!: multi_stepE intro: run_I)

lemma free_I: "(\<And>a. P (Kfree a)) \<Longrightarrow> I w \<Longrightarrow> I (cth_free_buffers K n w)"
  unfolding cth_free_buffers_def
  by (rule for_each_keeps [where P = I]) (simp_all add: stop_dma_transfer_chain_def Let_def call_I)

lemma release_I: "(\<And>a. P (Kfree a)) \<Longrightarrow> I w \<Longrightarrow> I (cth_release K n w)"
  by (simp add: cth_release_def free_I give_back_I)

end

text \<open>The steps of the two modules, when the invariant does not mind a \<^verbatim>\<open>kfree\<close>.\<close>

context cth_keeps
begin

lemma access_step_I:
  assumes "access_step K s s'" and "n = ACCESS_COUNT" and "\<And>a. P (Kfree a)"
    and "length (fst (snd s)) = 2 \<and> I (snd (snd s))"
  shows "length (fst (snd s')) = 2 \<and> I (snd (snd s'))"
  using assms(1)
proof cases
  case (thread ps w ps' w' mp)
  with assms(2,4) show ?thesis
    using step_I [of ps w ps' w'] multi_step_length [of _ ps w ps' w'] by (simp add: access_thread_entry_def)
next
  case (remove mp w mp' w' ps)
  note keeps = free_I release_I give_back_I other_call_I
  from remove assms(3,4) show ?thesis
    by (cases mp) (auto simp: keeps [unfolded assms(2)] focus_I split: if_splits)
qed

lemma access_reach_I:
  assumes "access_reach K s s'" and "n = ACCESS_COUNT" and "\<And>a. P (Kfree a)"
    and "length (fst (snd s)) = 2 \<and> I (snd (snd s))"
  shows "length (fst (snd s')) = 2 \<and> I (snd (snd s'))"
  using assms(1,4) by (induction rule: rtranclp_induct) (auto dest: access_step_I [OF _ assms(2,3)])

lemma stress_step_I:
  assumes "stress_step K s s'" and "n = STRESS_TRANSFERS" and "\<And>a. P (Kfree a)"
    and "length (fst (snd s)) = 2 \<and> I (snd (snd s))"
  shows "length (fst (snd s')) = 2 \<and> I (snd (snd s'))"
  using assms(1)
proof cases
  case (thread ps w ps' w' mp)
  with assms(2,4) show ?thesis
    using step_I [of ps w ps' w'] multi_step_length [of _ ps w ps' w'] by (simp add: stress_thread_entry_def)
next
  case init
  obtain mp ps w where s: "s = (mp, ps, w)" by (metis prod_cases3)
  note keeps = release_I other_call_I
  from assms(3,4) s show ?thesis
    unfolding init s
    by (cases mp) (auto simp: stress_create_threads_def keeps [unfolded assms(2)] focus_I count_I)
qed

lemma stress_reach_I:
  assumes "stress_reach K s s'" and "n = STRESS_TRANSFERS" and "\<And>a. P (Kfree a)"
    and "length (fst (snd s)) = 2 \<and> I (snd (snd s))"
  shows "length (fst (snd s')) = 2 \<and> I (snd (snd s'))"
  using assms(1,4) by (induction rule: rtranclp_induct) (auto dest: stress_step_I [OF _ assms(2,3)])

end

section \<open>No pass without an overrun\<close>

definition thread_ok :: "nat \<Rightarrow> chain_thread \<Rightarrow> bool" where
  "thread_ok n s \<longleftrightarrow> length (th_transfers s) = n \<and> th_current s < n \<and>
     ct_data_correct (th_transfers s ! (n - 1)) = 0 \<and>
     (\<forall>k. 0 < k \<longrightarrow> k < n \<longrightarrow> ct_request_success (th_transfers s ! k) = 0)"

definition cth_inv :: "nat \<Rightarrow> cth_world \<Rightarrow> bool" where
  "cth_inv n w \<longleftrightarrow> length (cht w) = 2 \<and> cur w < 2 \<and>
     (overrun w \<or> test_passed w \<noteq> 1 \<and> (\<forall>s \<in> set (structs w). thread_ok n s))"

lemma structs_ok_iff:
  "cur w < length (cht w) \<Longrightarrow> (\<forall>s \<in> set (structs w). Q s) \<longleftrightarrow>
     Q (here w) \<and> (\<forall>j < length (cht w). j \<noteq> cur w \<longrightarrow> Q (cht w ! j))"
  by (simp add: all_set_conv_all_nth structs_def nth_list_update) blast

lemma cth_inv_change:
  assumes "cth_inv n w" and "cht w' = cht w" and "cur w' = cur w" and "overrun w \<Longrightarrow> overrun w'"
    and "test_passed w' \<in> {test_passed w, 0}" and "\<not> overrun w \<Longrightarrow> thread_ok n (here w) \<Longrightarrow> overrun w' \<or> thread_ok n (here w')"
  shows "cth_inv n w'"
proof (cases "overrun w")
  case True
  with assms(1-4) show ?thesis by (simp add: cth_inv_def)
next
  case False
  with assms(1) structs_ok_iff [of w "thread_ok n"] have "thread_ok n (here w)" by (auto simp: cth_inv_def)
  with assms(1-3,5,6) False structs_ok_iff [of w "thread_ok n"] structs_ok_iff [of w' "thread_ok n"]
  show ?thesis by (auto simp: cth_inv_def)
qed

lemma cth_inv_focus: "cth_inv n w \<Longrightarrow> t < 2 \<Longrightarrow> cth_inv n (focus t w)"
  by (simp add: cth_inv_def)

lemma thread_ok_upd:
  assumes "thread_ok n (here w)" and "mild i f"
  shows "thread_ok n (here (ct_upd i f w))"
proof -
  have "ct_data_correct (f t) = 0" if "ct_data_correct t = 0" for t
    using assms(2) that unfolding mild_def by (metis insert_iff singletonD)
  then have "ct_data_correct ((ct_transfers w)[i := f (ct_transfers w ! i)] ! (n - 1)) = 0"
    using assms(1) by (cases "i = n - 1") (auto simp: thread_ok_def)
  moreover have "ct_request_success ((ct_transfers w)[i := f (ct_transfers w ! i)] ! k) = 0" if "0 < k" "k < n" for k
    using assms that by (cases "i = k") (auto simp: thread_ok_def mild_def)
  moreover have "length ((ct_transfers w)[i := f (ct_transfers w ! i)]) = n" "current_transfer (ct_upd i f w) < n"
    using assms by (simp_all add: thread_ok_def ct_upd_def)
  ultimately show ?thesis by (simp add: thread_ok_def)
qed

lemma cth_frame_simps [simp]:
  "cht (ct_upd i f w) = cht w" "cur (ct_upd i f w) = cur w" "overrun (ct_upd i f w) = overrun w"
  "cht (dc_upd g w) = cht w" "cur (dc_upd g w) = cur w" "overrun (dc_upd g w) = overrun w"
  "cht (kcall_irq K c w) = cht w" "cur (kcall_irq K c w) = cur w" "overrun (kcall_irq K c w) = overrun w"
  "cht (log_ev e w) = cht w" "cur (log_ev e w) = cur w" "overrun (log_ev e w) = overrun w"
  "cht (set_test_passed_chain p w) = cht w" "cur (set_test_passed_chain p w) = cur w"
  "overrun (set_test_passed_chain p w) = overrun w"
  "current_transfer (ct_upd i f w) = current_transfer w" "current_transfer (dc_upd g w) = current_transfer w"
  "current_transfer (kcall_irq K c w) = current_transfer w" "current_transfer (log_ev e w) = current_transfer w"
  "current_transfer (set_test_passed_chain p w) = current_transfer w"
  by (simp_all add: ct_upd_def dc_upd_def kcall_irq_def log_ev_def set_test_passed_chain_def)

lemma thread_ok_other:
  "thread_ok n (here (dc_upd g w)) = thread_ok n (here w)" "thread_ok n (here (kcall_irq K c w)) = thread_ok n (here w)"
  "thread_ok n (here (log_ev e w)) = thread_ok n (here w)" "thread_ok n (here (set_test_passed_chain p w)) = thread_ok n (here w)"
  "thread_ok n (here (w\<lparr>chained_id := x\<rparr>)) = thread_ok n (here w)" "thread_ok n (here (w\<lparr>mod_chained_id := x\<rparr>)) = thread_ok n (here w)"
  "thread_ok n (here (w\<lparr>mem := m\<rparr>)) = thread_ok n (here w)" "thread_ok n (here (w\<lparr>transfer_end := x\<rparr>)) = thread_ok n (here w)"
  by (simp_all add: thread_ok_def)

lemma cth_inv_steps:
  assumes "cth_inv n w"
  shows "cth_inv n (kcall_irq K c w)" "mild i f \<Longrightarrow> cth_inv n (ct_upd i f w)" "cth_inv n (dc_upd g w)"
    "cth_inv n (w\<lparr>chained_id := x\<rparr>)" "cth_inv n (w\<lparr>mod_chained_id := x\<rparr>)" "cth_inv n (w\<lparr>mem := m\<rparr>)"
    "cth_inv n (w\<lparr>transfer_end := y\<rparr>)" "cth_inv n (set_test_passed_chain 0 w)" "cth_inv n (log_ev e w)"
  by (rule cth_inv_change [OF assms]; simp add: thread_ok_other thread_ok_upd)+

interpretation irq_keeps: chain_keeps K "kcall_irq K" "\<lambda>_. True" "cth_inv n" for K n
  by unfold_locales (simp_all add: cth_inv_steps)

lemma cth_next_inv:
  assumes "cth_inv n w"
  shows "cth_inv n (cth_next K n w)"
proof (cases "Suc (current_transfer w) < n")
  case False
  have "cth_next K n w = (ct_upd (current_transfer w) (\<lambda>t. t\<lparr>ct_data_correct := 1\<rparr>) w)
      \<lparr>current_transfer := current_transfer w + 1, overrun := True\<rparr>"
    using False by (simp add: cth_next_def Let_def)
  then show ?thesis by (intro cth_inv_change [OF assms]) simp_all
next
  case True
  let ?w = "(ct_upd (current_transfer w) (\<lambda>t. t\<lparr>ct_data_correct := 1\<rparr>) w)\<lparr>current_transfer := current_transfer w + 1\<rparr>"
  have "cth_inv n ?w"
  proof (rule cth_inv_change [OF assms])
    assume ok: "thread_ok n (here w)"
    have "ct_request_success ((ct_transfers w)[j := (ct_transfers w ! j)\<lparr>ct_data_correct := 1\<rparr>] ! k) =
        ct_request_success (ct_transfers w ! k)" for j k
      by (cases "j = k"; cases "j < length (ct_transfers w)") (simp_all add: list_update_beyond)
    with ok True show "overrun ?w \<or> thread_ok n (here ?w)" by (simp add: thread_ok_def)
  qed simp_all
  with True show ?thesis
    by (simp add: cth_next_def Let_def case_prod_beta irq_keeps.bufs_I irq_keeps.create_I irq_keeps.fill_I
        irq_keeps.dynamic_chain_transfer_I cth_inv_steps)
qed

text \<open>The flag that the callback sets first is the one of transfer 0.\<close>

lemma first_flag_inv:
  assumes "cth_inv n w" and "1 < n"
  shows "cth_inv n (ct_upd 0 (\<lambda>t. t\<lparr>ct_data_correct := 1, ct_finished := x\<rparr>) w)"
  by (rule cth_inv_change [OF assms(1)]) (use assms(2) in \<open>simp_all add: thread_ok_def nth_list_update\<close>)

definition cth_good :: "nat \<Rightarrow> cth_world \<Rightarrow> bool" where
  "cth_good n w \<longleftrightarrow> 1 < n \<and> cth_inv n w"

lemma check_good:
  assumes "cth_good n w"
  shows "cth_good n (chain_check_test_passed n w)"
proof -
  have i: "cth_inv n w" "1 < n" using assms by (simp_all add: cth_good_def)
  have "cth_inv n (set_test_passed_chain (if chain_data_error (take n (ct_transfers w)) = 0 then 1 else 0) w)"
  proof (cases "overrun w")
    case True
    with i show ?thesis by (simp add: cth_inv_def)
  next
    case False
    with i structs_ok_iff [of w "thread_ok n"] have "thread_ok n (here w)" by (auto simp: cth_inv_def)
    then have "ct_transfers w ! (n - 1) \<in> set (take n (ct_transfers w))" "ct_data_correct (ct_transfers w ! (n - 1)) = 0"
      using i(2) by (auto simp: thread_ok_def)
    moreover have "chain_data_error ts = 0 \<longleftrightarrow> (\<forall>t \<in> set ts. ct_data_correct t \<noteq> 0)" for ts
      by (induction ts) auto
    ultimately have "chain_data_error (take n (ct_transfers w)) \<noteq> 0" by blast
    with cth_inv_steps(8) [OF i(1)] show ?thesis by simp
  qed
  with i(2) show ?thesis
    by (simp add: cth_good_def chain_check_test_passed_def Let_def split: if_splits)
qed

lemma inv_assign:
  assumes "cth_inv n w"
  shows "cth_inv n (w\<lparr>current_transfer := 0\<rparr>)" "cth_inv n (w\<lparr>cth_count := v\<rparr>)"
  by (rule cth_inv_change [OF assms]; simp add: thread_ok_def)+

interpretation good: cth_keeps K "\<lambda>_. True" "cth_good n" n for K n
  by unfold_locales
    (auto simp: cth_good_def cth_inv_steps cth_inv_focus first_flag_inv cth_next_inv inv_assign
      intro: check_good [unfolded cth_good_def, THEN conjunct2], simp_all add: cth_inv_def)

lemma cth_fresh_good: "1 < n \<Longrightarrow> cth_good n (cth_fresh n m)"
  by (simp add: cth_good_def cth_inv_def structs_def cth_fresh_def thread_ok_def here_def zero_thread_def zero_chained_def)

definition access_start :: "memory \<Rightarrow> access_state" where
  "access_start m = snd (access_module_init (cth_fresh ACCESS_COUNT m))"

definition stress_start :: "memory \<Rightarrow> stress_state" where
  "stress_start m = (Round_head 0, stress_create_threads, cth_fresh STRESS_TRANSFERS m)"

lemma access_good:
  assumes "access_reach K (access_start m) (mp, ps, w)"
  shows "cth_inv 10 w"
  using good.access_reach_I [OF assms, of ACCESS_COUNT] cth_fresh_good [of ACCESS_COUNT m]
  by (simp add: access_start_def access_module_init_def ACCESS_COUNT_def cth_good_def)

lemma stress_good:
  assumes "stress_reach K (stress_start m) (mp, ps, w)"
  shows "cth_inv 14 w"
  using good.stress_reach_I [OF assms, of STRESS_TRANSFERS] cth_fresh_good [of STRESS_TRANSFERS m]
  by (simp add: stress_start_def stress_create_threads_def STRESS_TRANSFERS_def cth_good_def)

section \<open>A flag that is never cleared\<close>

definition ended :: "nat \<Rightarrow> cth_world \<Rightarrow> bool" where
  "ended t w \<longleftrightarrow> length (cht w) = 2 \<and> cur w < 2 \<and> t < 2 \<and> th_end (structs w ! t) \<noteq> 0"

lemma structs_nth: "cur w < length (cht w) \<Longrightarrow> structs w ! t = (if t = cur w then here w else cht w ! t)"
  by (simp add: structs_def)

lemma transfer_end_frame [simp]:
  "transfer_end (ct_upd i f w) = transfer_end w" "transfer_end (dc_upd g w) = transfer_end w"
  "transfer_end (kcall_irq K c w) = transfer_end w" "transfer_end (log_ev e w) = transfer_end w"
  "transfer_end (set_test_passed_chain p w) = transfer_end w"
  by (simp_all add: ct_upd_def dc_upd_def kcall_irq_def log_ev_def set_test_passed_chain_def)

lemma ended_change:
  assumes "ended t w" and "cht w' = cht w" and "cur w' = cur w" and "transfer_end w \<noteq> 0 \<Longrightarrow> transfer_end w' \<noteq> 0"
  shows "ended t w'"
  using assms by (auto simp: ended_def structs_nth split: if_splits)

lemma ended_steps:
  assumes "ended t w"
  shows "ended t (kcall_irq K c w)" "ended t (ct_upd i f w)" "ended t (dc_upd g w)"
    "ended t (w\<lparr>chained_id := x\<rparr>)" "ended t (w\<lparr>mod_chained_id := x\<rparr>)" "ended t (w\<lparr>mem := m\<rparr>)"
    "ended t (w\<lparr>transfer_end := 1\<rparr>)" "ended t (set_test_passed_chain p w)" "ended t (log_ev e w)"
    "ended t (w\<lparr>current_transfer := k\<rparr>)" "ended t (w\<lparr>cth_count := v\<rparr>)" "ended t (w\<lparr>overrun := b\<rparr>)"
  by (rule ended_change [OF assms]; simp)+

interpretation ended_irq: chain_keeps K "kcall_irq K" "\<lambda>_. True" "ended t" for K t
  by unfold_locales (simp_all add: ended_steps)

lemma cth_next_ended: "ended t w \<Longrightarrow> ended t (cth_next K n w)"
  by (simp add: cth_next_def Let_def case_prod_beta ended_steps ended_irq.bufs_I ended_irq.create_I ended_irq.fill_I
      ended_irq.dynamic_chain_transfer_I)

interpretation ended: cth_keeps K "\<lambda>_. True" "ended t" n for K t n
  by unfold_locales
    (simp_all add: ended_steps cth_next_ended chain_check_test_passed_def Let_def, simp_all add: ended_def)

section \<open>What is allocated and what is freed\<close>

fun is_kmalloc :: "tev \<Rightarrow> bool" where
  "is_kmalloc (Called (Kmalloc n) r out) = True"
| "is_kmalloc e = False"

fun is_kfree :: "tev \<Rightarrow> bool" where
  "is_kfree (Called (Kfree a) r out) = True"
| "is_kfree e = False"

definition kmallocs :: "history \<Rightarrow> nat" where
  "kmallocs h = length (filter is_kmalloc h)"

definition kfrees :: "history \<Rightarrow> nat" where
  "kfrees h = length (filter is_kfree h)"

lemma kcount_simps [simp]:
  "kmallocs [] = 0" "kmallocs (e # h) = (if is_kmalloc e then Suc (kmallocs h) else kmallocs h)"
  "kfrees [] = 0" "kfrees (e # h) = (if is_kfree e then Suc (kfrees h) else kfrees h)"
  by (simp_all add: kmallocs_def kfrees_def)

text \<open>The transfers the threads have gone on to.\<close>

definition advanced :: "cth_world \<Rightarrow> nat" where
  "advanced w = sum_list (map th_current (structs w))"

definition cth_shape :: "cth_world \<Rightarrow> bool" where
  "cth_shape w \<longleftrightarrow> length (cht w) = 2 \<and> cur w < 2"

lemma shape_two: "cth_shape w \<Longrightarrow> \<exists>x y. cht w = [x, y] \<and> (cur w = 0 \<or> cur w = 1)"
  by (auto simp: cth_shape_def length_Suc_conv eval_nat_numeral)

lemma advanced_change:
  assumes "cth_shape w" and "cht w' = cht w" and "cur w' = cur w"
  shows "advanced w' + current_transfer w = advanced w + current_transfer w'"
  using shape_two [OF assms(1)] assms(2,3) by (auto simp: advanced_def structs_def)

definition grown :: "nat \<Rightarrow> cth_world \<Rightarrow> bool" where
  "grown k w \<longleftrightarrow> cth_shape w \<and> (overrun w \<or> 2 * advanced w \<le> kmallocs (trace w) + k)"

lemma grown_change:
  assumes "grown k w" and "cht w' = cht w" and "cur w' = cur w" and "overrun w \<Longrightarrow> overrun w'"
    and "current_transfer w' \<le> current_transfer w" and "kmallocs (trace w) \<le> kmallocs (trace w')"
  shows "grown k w'"
  using assms advanced_change [of w w'] by (auto simp: grown_def cth_shape_def)

lemma grown_steps:
  assumes "grown k w"
  shows "grown k (kcall_irq K c w)" "grown k (ct_upd i f w)" "grown k (dc_upd g w)"
    "grown k (w\<lparr>chained_id := x\<rparr>)" "grown k (w\<lparr>mod_chained_id := x\<rparr>)" "grown k (w\<lparr>mem := m\<rparr>)"
    "grown k (w\<lparr>transfer_end := y\<rparr>)" "grown k (set_test_passed_chain p w)" "grown k (log_ev e w)"
    "grown k (w\<lparr>current_transfer := 0\<rparr>)" "grown k (w\<lparr>cth_count := v\<rparr>)"
  by (rule grown_change [OF assms]; simp)+

interpretation grown_irq: chain_keeps K "kcall_irq K" "\<lambda>_. True" "grown k" for K k
  by unfold_locales (simp_all add: grown_steps)

lemma grown_malloc: "grown (Suc k) w \<Longrightarrow> grown k (kcall_irq K (Kmalloc n) w)"
proof -
  assume g: "grown (Suc k) w"
  then have "cth_shape w" by (simp add: grown_def)
  from advanced_change [OF this, of "kcall_irq K (Kmalloc n) w"] g show ?thesis by (auto simp: grown_def cth_shape_def)
qed

lemma grown_create: "grown (Suc (Suc k)) w \<Longrightarrow> grown k (snd (create_transfer_buffers_chain K (kcall_irq K) i w))"
  by (simp add: create_transfer_buffers_chain_def Let_def grown_irq.bufs_I grown_malloc)

lemma cth_next_grown:
  assumes "grown 0 w"
  shows "grown 0 (cth_next K n w)"
proof -
  let ?w = "(ct_upd (current_transfer w) (\<lambda>t. t\<lparr>ct_data_correct := 1\<rparr>) w)\<lparr>current_transfer := current_transfer w + 1\<rparr>"
  have s: "cth_shape w" using assms by (simp add: grown_def)
  from advanced_change [OF s, of ?w] assms have "grown 2 ?w" by (auto simp: grown_def cth_shape_def)
  then have "grown 2 (ctb_upd i f ?w)" for i f by (rule grown_irq.bufs_I)
  then have c: "grown 0 (snd (create_transfer_buffers_chain K (kcall_irq K) j (ctb_upd i f ?w)))" for i f j
    by (intro grown_create) (simp add: eval_nat_numeral)
  have "grown 0 (?w\<lparr>overrun := True\<rparr>)" using s by (simp add: grown_def cth_shape_def)
  with c show ?thesis
    by (simp add: cth_next_def Let_def case_prod_beta grown_steps grown_irq.fill_I grown_irq.dynamic_chain_transfer_I)
qed

lemma shape_focus: "cth_shape w \<Longrightarrow> t < 2 \<Longrightarrow> cth_shape (focus t w) \<and> structs (focus t w) = structs w"
  by (simp add: cth_shape_def)

lemma grown_focus: "grown k w \<Longrightarrow> t < 2 \<Longrightarrow> grown k (focus t w)"
  using shape_focus [of w t] by (simp add: grown_def advanced_def)

interpretation grown: cth_keeps K "\<lambda>_. True" "grown 0" n for K n
  by unfold_locales
    (simp_all add: grown_steps cth_next_grown grown_focus chain_check_test_passed_def Let_def,
     simp_all add: grown_def cth_shape_def)

text \<open>The calls of \<^verbatim>\<open>kfree\<close>.\<close>

definition freed :: "nat \<Rightarrow> cth_world \<Rightarrow> bool" where
  "freed k w \<longleftrightarrow> cth_shape w \<and> (overrun w \<or> kfrees (trace w) \<le> k)"

lemma freed_change:
  assumes "freed k w" and "cht w' = cht w" and "cur w' = cur w" and "overrun w \<Longrightarrow> overrun w'"
    and "kfrees (trace w') \<le> kfrees (trace w)"
  shows "freed k w'"
  using assms by (auto simp: freed_def cth_shape_def)

definition no_kfree :: "kcall \<Rightarrow> bool" where
  "no_kfree c \<longleftrightarrow> (\<forall>a. c \<noteq> Kfree a)"

lemma no_kfree_ev: "no_kfree c \<Longrightarrow> \<not> is_kfree (Called c r out)"
  by (cases c) (auto simp: no_kfree_def)

lemma freed_steps:
  assumes "freed k w"
  shows "no_kfree c \<Longrightarrow> freed k (kcall_irq K c w)" "freed k (ct_upd i f w)" "freed k (dc_upd g w)"
    "freed k (w\<lparr>chained_id := x\<rparr>)" "freed k (w\<lparr>mod_chained_id := x\<rparr>)" "freed k (w\<lparr>mem := m\<rparr>)"
    "freed k (w\<lparr>transfer_end := y\<rparr>)" "freed k (set_test_passed_chain p w)" "freed k (log_ev (Interrupt lch st d mm) w)"
    "freed k (w\<lparr>current_transfer := z\<rparr>)" "freed k (w\<lparr>cth_count := v\<rparr>)" "freed k (w\<lparr>overrun := True\<rparr>)"
  by (rule freed_change [OF assms]; simp add: no_kfree_ev)+

interpretation freed_irq: chain_keeps K "kcall_irq K" no_kfree "freed k" for K k
  by unfold_locales (simp_all add: freed_steps, simp add: no_kfree_def)

lemma cth_next_freed: "freed k w \<Longrightarrow> freed k (cth_next K n w)"
  by (simp add: cth_next_def Let_def case_prod_beta freed_steps freed_irq.bufs_I freed_irq.create_I freed_irq.fill_I
      freed_irq.dynamic_chain_transfer_I)

lemma freed_focus: "freed k w \<Longrightarrow> t < 2 \<Longrightarrow> freed k (focus t w)"
  using shape_focus [of w t] by (simp add: freed_def)

interpretation freed: cth_keeps K no_kfree "freed k" n for K k n
  by unfold_locales
    (simp_all add: freed_steps cth_next_freed freed_focus chain_check_test_passed_def Let_def,
     simp_all add: freed_def cth_shape_def)

lemma freed_kfree: "freed k w \<Longrightarrow> freed (Suc k) (cth_call K n (Kfree a) w)"
proof -
  assume "freed k w"
  then have "freed (Suc k) (kcall_irq K (Kfree a) w)" by (auto simp: freed_def cth_shape_def)
  then show ?thesis unfolding kcall_thread_def Let_def by (rule freed.deliver_I)
qed

text \<open>An overrun is never forgotten.\<close>

definition over :: "cth_world \<Rightarrow> bool" where
  "over w \<longleftrightarrow> cth_shape w \<and> overrun w"

interpretation over_irq: chain_keeps K "kcall_irq K" "\<lambda>_. True" over for K
  by unfold_locales (simp_all add: over_def cth_shape_def)

lemma cth_next_over: "over w \<Longrightarrow> over (cth_next K n w)"
proof -
  assume o: "over w"
  let ?w = "(ct_upd (current_transfer w) (\<lambda>t. t\<lparr>ct_data_correct := 1\<rparr>) w)\<lparr>current_transfer := current_transfer w + 1\<rparr>"
  have "over ?w" "over (?w\<lparr>overrun := True\<rparr>)" using o by (simp_all add: over_def cth_shape_def)
  then show ?thesis
    by (simp add: cth_next_def Let_def case_prod_beta over_irq.bufs_I over_irq.create_I over_irq.fill_I
        over_irq.dynamic_chain_transfer_I over_irq.end_I)
qed

interpretation over: cth_keeps K "\<lambda>_. True" over n for K n
  by unfold_locales
    (simp_all add: cth_next_over, simp_all add: over_def cth_shape_def chain_check_test_passed_def Let_def)

text \<open>Only transfer 0 is ever freed.\<close>

lemma stop_freed:
  assumes "cth_good n w" and "i < n" and "freed k w"
  shows "freed (if i = 0 then Suc (Suc k) else k) (stop_dma_transfer_chain (cth_call K n) i w)"
proof (cases "overrun w \<and> i \<noteq> 0")
  case True
  with assms(3) have "over w" by (simp add: over_def freed_def)
  then have "over (stop_dma_transfer_chain (cth_call K n) i w)"
    by (simp add: stop_dma_transfer_chain_def Let_def over.call_I)
  then show ?thesis by (simp add: over_def freed_def)
next
  case False
  show ?thesis
  proof (cases "i = 0")
    case True
    have "freed k v \<Longrightarrow> freed (Suc (Suc k)) v" for v by (auto simp: freed_def)
    with True assms(3) show ?thesis by (simp add: stop_dma_transfer_chain_def Let_def freed_kfree)
  next
    case i: False
    with False have "thread_ok n (here w)"
      using assms(1) structs_ok_iff [of w "thread_ok n"] by (auto simp: cth_good_def cth_inv_def)
    with i assms(2,3) show ?thesis by (simp add: thread_ok_def stop_dma_transfer_chain_def)
  qed
qed

lemma free_freed:
  assumes "cth_good n w" and "freed k w"
  shows "freed (Suc (Suc k)) (cth_free_buffers K n w)"
proof -
  let ?s = "\<lambda>i w. if i < current_transfer w then stop_dma_transfer_chain (cth_call K n) i w else w"
  have g: "cth_good n (?s i v)" if "cth_good n v" for i v
    using that by (simp add: stop_dma_transfer_chain_def Let_def good.call_I)
  have "cth_good n (for_each ?s 0 n w) \<and> freed (if 0 + n = 0 then k else Suc (Suc k)) (for_each ?s 0 n w)"
  proof (rule for_each_inv [where P = "\<lambda>i v. cth_good n v \<and> freed (if i = 0 then k else Suc (Suc k)) v"])
    fix i v
    assume i: "0 \<le> i" "i < 0 + n" and v: "cth_good n v \<and> freed (if i = 0 then k else Suc (Suc k)) v"
    have "freed (Suc (Suc k)) (?s i v)"
    proof (cases "i < current_transfer v")
      case True
      with stop_freed [of n v i "if i = 0 then k else Suc (Suc k)" K] v i show ?thesis by (simp split: if_splits)
    next
      case False
      with v show ?thesis by (auto simp: freed_def split: if_splits)
    qed
    with g v show "cth_good n (?s i v) \<and> freed (if Suc i = 0 then k else Suc (Suc k)) (?s i v)" by simp
  qed (use assms in simp)
  then show ?thesis
    using assms(1) by (simp add: cth_free_buffers_def cth_good_def split: if_splits)
qed

lemma release_freed:
  assumes "cth_good n w" and "freed k w"
  shows "freed (Suc (Suc k)) (cth_release K n w)"
  using free_freed [OF good.give_back_I [OF assms(1)] freed.give_back_I [OF assms(2)], of K K] assms(2)
  by (auto simp: cth_release_def freed_def)

fun access_frees :: "access_main \<Rightarrow> nat" where
  "access_frees Exit_free2 = 2"
| "access_frees Module_gone = 4"
| "access_frees mp = 0"

definition access_freed :: "access_state \<Rightarrow> bool" where
  "access_freed s = (case s of (mp, ps, w) \<Rightarrow> length ps = 2 \<and> cth_good ACCESS_COUNT w \<and> freed (access_frees mp) w)"

lemma access_freed_step:
  assumes "access_step K s s'" and "access_freed s"
  shows "access_freed s'"
proof -
  obtain mp ps w mp' ps' w' where s: "s = (mp, ps, w)" "s' = (mp', ps', w')" by (metis prod_cases3)
  have a: "length ps = 2" "cth_good ACCESS_COUNT w" "freed (access_frees mp) w"
    using assms(2) s by (simp_all add: access_freed_def)
  have g: "length ps' = 2 \<and> cth_good ACCESS_COUNT w'"
    using good.access_step_I [OF assms(1), of ACCESS_COUNT] a s by simp
  from assms(1) have "freed (access_frees mp') w'"
    unfolding s
  proof cases
    case thread
    with a freed.step_I [where K = K and n = ACCESS_COUNT] show ?thesis by (simp add: access_thread_entry_def)
  next
    case remove
    have f: "cth_good ACCESS_COUNT (focus t w)" "freed k w \<Longrightarrow> freed k (focus t w)" if "t < 2" for t k
      using a(2) that by (simp_all add: good.focus_I freed_focus)
    let ?g = "chain_give_back K (cth_call K ACCESS_COUNT) (focus 0 w)"
    have gb: "cth_good ACCESS_COUNT ?g" "freed 0 w \<Longrightarrow> freed 0 ?g"
      using f [of 0] by (simp_all add: good.give_back_I freed.give_back_I)
    have 1: "freed 2 (cth_free_buffers K ACCESS_COUNT ?g)" if "freed 0 w"
      using free_freed [OF gb(1) gb(2) [OF that], of K] by (simp add: eval_nat_numeral)
    have 2: "freed 4 (cth_release K ACCESS_COUNT (focus 1 w))" if "freed 2 w"
      using release_freed [OF f(1) f(2) [OF _ that], where K = K] by (simp add: eval_nat_numeral)
    from remove a 1 2 show ?thesis
      by (cases mp) (auto split: if_splits)
  qed
  with g s show ?thesis by (simp add: access_freed_def)
qed

lemma access_freed_reach:
  assumes "access_reach K (access_start m) s"
  shows "access_freed s"
  using assms
proof (induction rule: rtranclp_induct)
  case base
  have "freed 0 (cth_fresh ACCESS_COUNT m)" by (simp add: freed_def cth_shape_def cth_fresh_def)
  then show ?case
    using cth_fresh_good [of ACCESS_COUNT m]
    by (simp add: access_freed_def access_start_def access_module_init_def ACCESS_COUNT_def)
qed (rule access_freed_step)

section \<open>The counter\<close>

lemma cth_count_frame [simp]:
  "cth_count (ct_upd i f w) = cth_count w" "cth_count (dc_upd g w) = cth_count w"
  "cth_count (kcall_irq K c w) = cth_count w" "cth_count (log_ev e w) = cth_count w"
  "cth_count (set_test_passed_chain p w) = cth_count w" "cth_count (chain_check_test_passed n w) = cth_count w"
  by (simp_all add: ct_upd_def dc_upd_def kcall_irq_def log_ev_def set_test_passed_chain_def
      chain_check_test_passed_def Let_def)

interpretation count_irq: chain_keeps K "kcall_irq K" "\<lambda>_. True" "\<lambda>w. cth_count w = c" for K c
  by unfold_locales simp_all

lemma cth_callback_count: "cth_count (cth_callback K n lch st d w) = cth_count w"
proof -
  have "cth_count (cth_next K n v) = cth_count v" for v
    by (simp add: cth_next_def Let_def case_prod_beta count_irq.bufs_I count_irq.create_I count_irq.fill_I
        count_irq.dynamic_chain_transfer_I)
  then have "cth_count (cth_complete K n st v) = cth_count v" for v
    by (simp add: cth_complete_def Let_def count_irq.unmap_I)
  then show ?thesis by (simp add: cth_callback_def)
qed

interpretation count_frame: irq_frame "cth_callback K n" cth_count for K n
  by unfold_locales (simp_all add: cth_callback_count)

interpretation count_thread: chain_keeps K "cth_call K n" "\<lambda>_. True" "\<lambda>w. cth_count w = c" for K n c
  by unfold_locales (simp_all add: count_frame.kcall_thread_view)

lemma release_count [simp]:
  "cth_count (cth_call K n c w) = cth_count w" "cth_count (cth_free_buffers K n w) = cth_count w"
  "cth_count (chain_give_back K (cth_call K n) w) = cth_count w" "cth_count (cth_release K n w) = cth_count w"
proof -
  show c: "cth_count (cth_call K n c w) = cth_count w" for c w by (simp add: count_frame.kcall_thread_view)
  show f: "cth_count (cth_free_buffers K n w) = cth_count w" for w
    unfolding cth_free_buffers_def
    by (rule for_each_keeps [where P = "\<lambda>v. cth_count v = cth_count w"])
      (simp_all add: stop_dma_transfer_chain_def Let_def c)
  show b: "cth_count (chain_give_back K (cth_call K n) w) = cth_count w" by (simp add: count_thread.give_back_I)
  then show "cth_count (cth_release K n w) = cth_count w" by (simp add: cth_release_def f)
qed

fun cth_pending :: "cth_phase \<Rightarrow> int option" where
  "cth_pending (Count_write v) = Some v"
| "cth_pending p = None"

lemma cth_entry_count:
  assumes "cth_entry K n p w = (p', w')" and "cth_pending p = None" and "p \<noteq> Thread_done"
  shows "cth_count w' = cth_count w \<and> p' \<noteq> Thread_done \<and> (cth_pending p' = None \<or> cth_pending p' = Some (cth_count w + 1))"
proof -
  note keeps = count_thread.request_I count_thread.chain_add_I count_thread.setup_I count_thread.start_I
  have "cth_count (dynamic_config K k v) = cth_count v" for k v by (simp add: dynamic_config_def)
  with assms show ?thesis
    by (cases p) (auto simp: cth_request_def cth_begin_def case_prod_beta Let_def keeps split: if_splits)
qed

interpretation cth_counted: counted_threads "cth_run K n" cth_count "\<lambda>p. p = Thread_done" cth_pending for K n
proof
  fix p p' and w w' :: cth_world and t
  assume "cth_pending p = None" "p \<noteq> Thread_done" "cth_run K n t p w = (p', w')"
  then show "cth_count w' = cth_count w \<and> p' \<noteq> Thread_done \<and> (cth_pending p' = None \<or> cth_pending p' = Some (cth_count w + 1))"
    using cth_entry_count [of K n p "focus t w" p' w'] by (auto simp: cth_run_def split: if_splits)
next
  fix p p' v and w w' :: cth_world and t
  assume "cth_pending p = Some v" "cth_run K n t p w = (p', w')"
  then show "cth_count w' = v \<and> p' = Thread_done" by (cases p) (auto simp: cth_run_def)
qed (auto simp: cth_run_def)

lemma failed_stays: "multi_step (cth_run K n) (ps, w) (ps', w') \<Longrightarrow> Thread_failed \<in> set ps \<Longrightarrow> Thread_failed \<in> set ps'"
proof -
  assume "multi_step (cth_run K n) (ps, w) (ps', w')" "Thread_failed \<in> set ps"
  then obtain t p' j where t: "t < length ps" "cth_run K n t (ps ! t) w = (p', w')" "ps' = ps[t := p']"
    and j: "j < length ps" "ps ! j = Thread_failed" by (auto elim!: multi_stepE simp: in_set_conv_nth)
  then have "ps' ! j = Thread_failed" by (cases "j = t") (auto simp: cth_run_def)
  with j t(3) show ?thesis by (metis length_list_update nth_mem)
qed

text \<open>Who waits for the threads gets on only when both have counted themselves.\<close>

definition access_counted :: "access_state \<Rightarrow> bool" where
  "access_counted s = (case s of (mp, ps, w) \<Rightarrow> length ps = 2 \<and> cth_counted.count_ok (ps, w) \<and>
     (mp \<notin> {Module_loaded, Exit_wait} \<longrightarrow> (\<forall>p \<in> set ps. p = Thread_done)))"

lemma access_counted_step:
  assumes "access_step K s s'" and "access_counted s"
  shows "access_counted s'"
  using assms(1)
proof cases
  case (thread ps w ps' w' mp)
  note m = thread(3) [unfolded access_thread_entry_def]
  have "\<forall>p \<in> set ps'. p = Thread_done" if "\<forall>p \<in> set ps. p = Thread_done"
    using cth_counted.counted_step [OF m that] that by simp
  with thread assms(2) cth_counted.count_ok_step [OF m] multi_step_length [OF m] show ?thesis
    by (auto simp: access_counted_def)
next
  case (remove mp w mp' w' ps)
  have c: "cth_count w' = cth_count w" using remove(3) by (cases mp) (auto split: if_splits)
  have "\<forall>p \<in> set ps. p = Thread_done" if "mp = Exit_wait" "mp' \<noteq> Exit_wait"
    using cth_counted.all_counted [of ps w] remove assms(2) that by (auto simp: access_counted_def split: if_splits)
  moreover have "mp' = Exit_wait" if "mp = Module_loaded" using remove that by simp
  ultimately show ?thesis
    using remove assms(2) c by (auto simp: access_counted_def cth_counted.count_ok_def)
qed

lemma access_counted_reach:
  assumes "access_reach K (access_start m) s"
  shows "access_counted s"
  using assms
proof (induction rule: rtranclp_induct)
  case base
  show ?case
    by (simp add: access_counted_def access_start_def access_module_init_def cth_counted.count_ok_def
        cth_counted.number_def cth_fresh_def)
qed (rule access_counted_step)

lemma access_failed_stays:
  "access_reach K s s' \<Longrightarrow> Thread_failed \<in> set (fst (snd s)) \<Longrightarrow> Thread_failed \<in> set (fst (snd s'))"
  by (induction rule: rtranclp_induct)
    (auto elim!: access_step.cases simp: access_thread_entry_def dest: failed_stays)

section \<open>Properties\<close>

text \<open>
  C22. Neither concurrent chain test can pass without writing outside its array: as long as the
  callback has not created buffers for the transfer behind the last one, the verdict is not PASSED,
  every thread's index is inside the array, and no transfer but the first of a structure has been
  chained, under every interleaving and every kernel behaviour.
\<close>

theorem chain_threads_pass_overruns:
  assumes "access_reach K (access_start m) (mp, ps, w) \<and> n = ACCESS_COUNT \<or>
      stress_reach K (stress_start m) (mp', ps, w) \<and> n = STRESS_TRANSFERS"
    and "\<not> overrun w" and "t < 2"
  shows "test_passed w \<noteq> 1 \<and> th_current (structs w ! t) < n \<and>
    (\<forall>k. 0 < k \<longrightarrow> k < n \<longrightarrow> ct_request_success (th_transfers (structs w ! t) ! k) = 0)"
proof -
  have "cth_inv n w"
    using assms(1) access_good stress_good by (auto simp: ACCESS_COUNT_def STRESS_TRANSFERS_def)
  with assms(2,3) have "test_passed w \<noteq> 1" "thread_ok n (structs w ! t)"
    by (auto simp: cth_inv_def)
  then show ?thesis by (simp add: thread_ok_def)
qed

interpretation overrun_irq: chain_keeps K "kcall_irq K" "\<lambda>_. True" "\<lambda>w. overrun w = b" for K b
  by unfold_locales simp_all

lemma cth_next_overrun: "overrun (cth_next K n w) \<longleftrightarrow> overrun w \<or> n \<le> Suc (current_transfer w)"
  by (auto simp: cth_next_def Let_def case_prod_beta overrun_irq.bufs_I overrun_irq.create_I overrun_irq.fill_I
      overrun_irq.dynamic_chain_transfer_I)

text \<open>
  Exactly when the callback writes behind the array of transfers: on a good completion that
  finds the index at the last transfer (or beyond, but not equal to the number of transfers, which
  is the only value it is compared with).
\<close>

theorem chain_thread_overrun_exact:
  "overrun (cth_complete K n st w) \<longleftrightarrow> overrun w \<or>
     current_transfer w \<noteq> n \<and> n \<le> Suc (current_transfer w) \<and> status_ok K st \<and>
     bytes_equal (mem w) (src_buf (ct_bufs w 0)) (dest_buf (ct_bufs w 0)) (unat (buf_size (ct_bufs w 0)))"
proof -
  let ?u = "unmap_phys_buffers_chain (kcall_irq K) 0"
  have "current_transfer (?u v) = current_transfer v" "overrun (?u v) = overrun v" for v :: cth_world
    by (simp_all add: unmap_phys_buffers_chain_def Let_def)
  moreover have "ct_buffers (xs[0 := (xs ! 0)\<lparr>ct_data_correct := a, ct_finished := b\<rparr>] ! 0) = ct_buffers (xs ! 0)" for xs :: "chained_transfer list" and a b
    by (cases xs) simp_all
  ultimately show ?thesis
    by (auto simp: cth_complete_def Let_def cth_next_overrun verify_buffers_chain_spec)
qed

text \<open>
  The access test leaks: as long as nothing was overwritten, and also when its exit function has
  returned, it has called \<^verbatim>\<open>kfree\<close> at most twice per thread (for the first transfer of each), while the
  callbacks have allocated two buffers for every transfer the threads have gone on to.
\<close>

theorem chain_access_leak:
  assumes "access_reach K (access_start m) (mp, ps, w)" and "\<not> overrun w"
  shows "kfrees (trace w) \<le> access_frees mp \<and> access_frees mp \<le> 4 \<and> 2 * advanced w \<le> kmallocs (trace w)"
proof -
  have "freed (access_frees mp) w" using access_freed_reach [OF assms(1)] by (simp add: access_freed_def)
  moreover have "access_frees mp \<le> 4" by (cases mp) simp_all
  moreover have "grown 0 (cth_fresh ACCESS_COUNT m)"
    by (simp add: grown_def cth_shape_def advanced_def structs_def cth_fresh_def here_def zero_thread_def)
  then have "grown 0 w"
    using grown.access_reach_I [OF assms(1), of ACCESS_COUNT] by (simp add: access_start_def access_module_init_def)
  ultimately show ?thesis using assms(2) by (simp add: freed_def grown_def)
qed

text \<open>
  C36. Once a thread of the access test has failed, the module cannot be removed: in every later
  state the exit function has not been called or is still waiting, so that chains and buffers are
  never released.
\<close>

theorem chain_access_hang:
  assumes "access_reach K (access_start m) (mp, ps, w)" and "Thread_failed \<in> set ps"
    and "access_reach K (mp, ps, w) (mp', ps', w')"
  shows "mp' \<in> {Module_loaded, Exit_wait} \<and> cth_count w' < 2"
proof -
  have c: "access_counted (mp', ps', w')" by (rule access_counted_reach [OF rtranclp_trans [OF assms(1,3)]])
  have f: "Thread_failed \<in> set ps'" using access_failed_stays [OF assms(3)] assms(2) by simp
  with c have "mp' \<in> {Module_loaded, Exit_wait}" unfolding access_counted_def by fastforce
  moreover have "cth_count w' < int (length ps')"
    by (rule cth_counted.stuck_below [OF _ f]) (use c in \<open>simp_all add: access_counted_def\<close>)
  ultimately show ?thesis using c by (simp add: access_counted_def)
qed

text \<open>
  The stress test waits in its first round only: nothing resets \<^verbatim>\<open>transfer_end\<close>, so from the moment
  a thread's flag is set it stays set, and the polling of every later thread on that structure ends
  in its first round, before any transfer of the round need have completed.
\<close>

theorem chain_stress_no_wait:
  assumes "stress_reach K (stress_start m) (mp, ps, w)" and "t < 2" and "th_end (structs w ! t) \<noteq> 0"
    and "stress_reach K (mp, ps, w) (mp', ps', w')"
  shows "th_end (structs w' ! t) \<noteq> 0 \<and> fst (stress_thread_entry K t (Poll_chain 0) w') = Count_read"
proof -
  have "length ps = 2 \<and> cth_good STRESS_TRANSFERS w"
    using good.stress_reach_I [OF assms(1), of STRESS_TRANSFERS] cth_fresh_good [of STRESS_TRANSFERS m]
    by (simp add: stress_start_def stress_create_threads_def STRESS_TRANSFERS_def)
  then have "length ps = 2 \<and> ended t w" using assms(2,3) by (simp add: ended_def cth_good_def cth_inv_def)
  then have "ended t w'" using ended.stress_reach_I [OF assms(4), of STRESS_TRANSFERS t] by simp
  then show ?thesis
    by (simp add: ended_def stress_thread_entry_def cth_run_def TRANSFER_POLL_COUNT_def focus_def Let_def)
qed

section \<open>Witnesses\<close>

text \<open>A kernel that refuses every chain, and one that interrupts with an unacceptable status.\<close>

definition cth_busy :: kernel where
  "cth_busy = \<lparr>k_ret = (\<lambda>_ _. 1), k_out = (\<lambda>_ _. None), k_events = (\<lambda>_. []), k_const = (\<lambda>_. 0),
     OMAP_DMA_BLOCK_IRQ = 32\<rparr>"

definition cth_noisy :: kernel where
  "cth_noisy = cth_busy\<lparr>k_events := (\<lambda>_. [Irq 0 1 0])\<rparr>"

lemma cth_busy_call: "cth_call cth_busy n c w = kcall_irq cth_busy c w"
  by (simp add: kcall_thread_def cth_busy_def Let_def)

definition cth_busy_state :: "cth_world" where
  "cth_busy_state = snd (cth_run cth_busy ACCESS_COUNT 0 Request_chain (cth_fresh ACCESS_COUNT (\<lambda>_. 0)))"

lemma cth_busy_step:
  "access_reach cth_busy (access_start (\<lambda>_. 0)) (Module_loaded, [Thread_failed, Request_chain], cth_busy_state)"
proof -
  have "fst (cth_run cth_busy ACCESS_COUNT 0 Request_chain w) = Thread_failed" for w
    by (simp add: cth_run_def cth_request_def request_dma_chain_def kcall_ret_def cth_busy_def Let_def case_prod_beta)
  then have "access_thread_entry cth_busy 0 ([Request_chain, Request_chain] ! 0) (cth_fresh ACCESS_COUNT (\<lambda>_. 0)) =
      (Thread_failed, cth_busy_state)"
    by (metis access_thread_entry_def cth_busy_state_def nth_Cons_0 prod.collapse)
  from multi_step.sched [where t = 0 and ps = "[Request_chain, Request_chain]" and run = "access_thread_entry cth_busy", OF _ this] show ?thesis
    by (intro r_into_rtranclp) (auto simp: access_start_def access_module_init_def intro!: access_step.thread)
qed

lemma cth_busy_no_overrun: "\<not> overrun cth_busy_state"
proof -
  have "overrun (cth_call cth_busy n c w) = overrun w" for n c w by (simp add: cth_busy_call)
  then show ?thesis
    by (simp add: cth_busy_state_def cth_run_def cth_request_def request_dma_chain_def dynamic_config_def Let_def
        case_prod_beta kcall_out_def cth_busy_def cth_fresh_def)
qed

theorem chain_threads_pass_overruns_witness:
  "access_reach cth_busy (access_start (\<lambda>_. 0)) (Module_loaded, [Thread_failed, Request_chain], cth_busy_state) \<and>
   \<not> overrun cth_busy_state \<and> test_passed cth_busy_state \<noteq> 1 \<and> th_current (structs cth_busy_state ! 1) < ACCESS_COUNT"
proof -
  have "access_reach cth_busy (access_start (\<lambda>_. 0)) (Module_loaded, [Thread_failed, Request_chain], cth_busy_state) \<and>
      ACCESS_COUNT = ACCESS_COUNT \<or> stress_reach cth_busy (stress_start (\<lambda>_. 0)) (Init_returned, [Thread_failed, Request_chain], cth_busy_state) \<and>
      ACCESS_COUNT = STRESS_TRANSFERS"
    using cth_busy_step by simp
  from chain_threads_pass_overruns [OF this cth_busy_no_overrun, of 1] show ?thesis
    using cth_busy_step cth_busy_no_overrun by simp
qed

theorem chain_access_leak_witness:
  "access_reach cth_busy (access_start (\<lambda>_. 0)) (Module_loaded, [Thread_failed, Request_chain], cth_busy_state) \<and>
   kfrees (trace cth_busy_state) = 0 \<and> 2 * advanced cth_busy_state \<le> kmallocs (trace cth_busy_state)"
  using chain_access_leak [OF cth_busy_step cth_busy_no_overrun] cth_busy_step by simp

theorem chain_access_hang_witness:
  "access_reach cth_busy (access_start (\<lambda>_. 0)) (Module_loaded, [Thread_failed, Request_chain], cth_busy_state) \<and>
   cth_count cth_busy_state < 2"
  using chain_access_hang [OF cth_busy_step _ rtranclp.rtrancl_refl] cth_busy_step by simp

definition cth_noisy_state :: cth_world where
  "cth_noisy_state = cth_call cth_noisy STRESS_TRANSFERS (Msleep 10) (cth_fresh STRESS_TRANSFERS (\<lambda>_. 0))"

lemma cth_noisy_reach:
  "stress_reach cth_noisy (stress_start (\<lambda>_. 0)) (Round_wait 0, stress_create_threads, cth_noisy_state)"
proof -
  have "stress_step cth_noisy (stress_start (\<lambda>_. 0)) (Round_wait 0, stress_create_threads, cth_fresh STRESS_TRANSFERS (\<lambda>_. 0))"
    using stress_step.init [of cth_noisy "stress_start (\<lambda>_. 0)"] by (simp add: stress_start_def STRESS_COUNT_def)
  moreover have "stress_step cth_noisy (Round_wait 0, stress_create_threads, cth_fresh STRESS_TRANSFERS (\<lambda>_. 0))
      (Round_wait 0, stress_create_threads, cth_noisy_state)"
    using stress_step.init [of cth_noisy "(Round_wait 0, stress_create_threads, cth_fresh STRESS_TRANSFERS (\<lambda>_. 0))"]
    by (simp add: cth_noisy_state_def) (simp add: cth_fresh_def)
  ultimately show ?thesis by (meson converse_rtranclp_into_rtranclp rtranclp.rtrancl_refl)
qed

lemma cth_noisy_ended: "th_end (structs cth_noisy_state ! 0) \<noteq> 0"
proof -
  let ?w = "log_ev (Interrupt 0 1 0 (\<lambda>_. 0)) (kcall_irq cth_noisy (Msleep 10) (cth_fresh STRESS_TRANSFERS (\<lambda>_. 0)))"
  have w: "length (cht ?w) = 2" "cur ?w = 0" "mem ?w = (\<lambda>_. 0)" by (simp_all add: cth_fresh_def)
  have "th_current (structs ?w ! 0) = 0" using w by (simp add: structs_nth) (simp add: cth_fresh_def)
  moreover have "\<not> status_ok cth_noisy 1" by (simp add: status_ok_def cth_noisy_def cth_busy_def)
  moreover define c where "c = cth_complete cth_noisy STRESS_TRANSFERS 1 (focus 0 ?w)"
  ultimately have c: "transfer_end c = 1" "cur c = 0" "length (cht c) = 2"
    using w by (simp_all add: cth_complete_def unmap_phys_buffers_chain_def Let_def STRESS_TRANSFERS_def)
  have n: "cth_noisy_state = focus (cur ?w) c"
    using w by (simp add: cth_noisy_state_def kcall_thread_def Let_def c_def)
      (simp add: cth_noisy_def cth_callback_def cth_fresh_def)
  have "structs (focus 0 c) ! 0 = here c" using c by (simp add: structs_nth)
  with c(1) show ?thesis unfolding n w(2) by simp
qed

theorem chain_stress_no_wait_witness:
  "stress_reach cth_noisy (stress_start (\<lambda>_. 0)) (Round_wait 0, stress_create_threads, cth_noisy_state) \<and>
   fst (stress_thread_entry cth_noisy 0 (Poll_chain 0) cth_noisy_state) = Count_read"
  using chain_stress_no_wait [OF cth_noisy_reach _ cth_noisy_ended rtranclp.rtrancl_refl] cth_noisy_reach by simp

end
