(* ===== verification/Call_Env.thy ===== *)
theory Call_Env
  imports DDT_Prelude
begin

text \<open>
  The environment of the test programs that only ask a device or the kernel and look at the answers:
  every call returns a number that is an arbitrary function of the calls made before and their
  results. The state of a program keeps these calls, newest first, and extends the record by its own
  variables.
\<close>

type_synonym 'c device = "('c \<times> int) list \<Rightarrow> 'c \<Rightarrow> int"

record 'c dev_world =
  clog :: "('c \<times> int) list"

definition ask :: "'c device \<Rightarrow> 'c \<Rightarrow> ('c, 'a) dev_world_scheme \<Rightarrow> int \<times> ('c, 'a) dev_world_scheme" where
  "ask D c w = (D (clog w) c, w\<lparr>clog := (c, D (clog w) c) # clog w\<rparr>)"

text \<open>A call whose result is not looked at.\<close>

definition tell :: "'c device \<Rightarrow> 'c \<Rightarrow> ('c, 'a) dev_world_scheme \<Rightarrow> ('c, 'a) dev_world_scheme" where
  "tell D c w = snd (ask D c w)"

lemma clog_ask [simp]: "clog (snd (ask D c w)) = (c, D (clog w) c) # clog w"
  by (simp add: ask_def)

lemma clog_tell [simp]: "clog (tell D c w) = (c, D (clog w) c) # clog w"
  by (simp add: tell_def)

lemma fst_ask [simp]: "fst (ask D c w) = D (clog w) c"
  by (simp add: ask_def)

text \<open>The calls of a kind in a history, and those that returned success.\<close>

definition calls :: "('c \<Rightarrow> bool) \<Rightarrow> ('c \<times> int) list \<Rightarrow> nat" where
  "calls P h = length (filter (\<lambda>(c, r). P c) h)"

definition successes :: "('c \<Rightarrow> bool) \<Rightarrow> ('c \<times> int) list \<Rightarrow> nat" where
  "successes P h = length (filter (\<lambda>(c, r). P c \<and> r = 0) h)"

lemma calls_simps [simp]:
  "calls P [] = 0" "calls P ((c, r) # h) = (if P c then Suc (calls P h) else calls P h)"
  "successes P [] = 0" "successes P ((c, r) # h) = (if P c \<and> r = 0 then Suc (successes P h) else successes P h)"
  by (simp_all add: calls_def successes_def)

lemma calls_append [simp]:
  "calls P (h @ h') = calls P h + calls P h'" "successes P (h @ h') = successes P h + successes P h'"
  by (simp_all add: calls_def successes_def)

end
