(* ===== verification/Gpio_Test.thy ===== *)
theory Gpio_Test
  imports Call_Env DDT_Threads
begin

text \<open>
  The GPIO test module \<^verbatim>\<open>gpio_test.c\<close>: a number selects one of the tests, each of which requests a
  line, exercises it and frees it; flags collect what failed and give the verdict.
\<close>

section \<open>State\<close>

datatype irq_type = IRQ_TYPE_EDGE_FALLING | IRQ_TYPE_EDGE_RISING

datatype gcall =
    Gpio_request u32
  | Gpio_free u32
  | Gpio_direction_input u32
  | Gpio_direction_output u32 u32
  | Gpio_get_value u32
  | Gpio_set_value u32 u32
  | Gpio_to_irq u32
  | Irq_set_irq_type int irq_type
  | Read_register u32
  | Create_proc_entry string
  | Delete_proc_entry string

record gpio_world = "gcall dev_world" +
  test :: u32
  gpio :: u32
  level :: u32
  request_flag :: u32
  input_direction_flag :: u32
  output_direction_flag :: u32
  g_test_passed :: u32
  error_flag_1 :: u32
  error_flag_2 :: u32
  error_flag_3 :: u32
  iterations :: u32

text \<open>The module parameters \<^verbatim>\<open>test\<close>, \<^verbatim>\<open>gpio\<close>, \<^verbatim>\<open>value\<close> and \<^verbatim>\<open>iterations\<close>; the flags as they are initialised.\<close>

definition gpio_fresh :: "u32 \<Rightarrow> u32 \<Rightarrow> u32 \<Rightarrow> u32 \<Rightarrow> gpio_world" where
  "gpio_fresh t g v n = \<lparr>clog = [], test = t, gpio = g, level = v, request_flag = 0, input_direction_flag = 0,
     output_direction_flag = 0, g_test_passed = 1, error_flag_1 = 1, error_flag_2 = 1, error_flag_3 = 1,
     iterations = n\<rparr>"

section \<open>The operations\<close>

definition gpio_test_request :: "gcall device \<Rightarrow> gpio_world \<Rightarrow> gpio_world" where
  "gpio_test_request D w =
     (case ask D (Gpio_request (gpio w)) w of (ret, w) \<Rightarrow> if ret = 0 then w\<lparr>request_flag := 1\<rparr> else w)"

definition gpio_test_free :: "gcall device \<Rightarrow> gpio_world \<Rightarrow> gpio_world" where
  "gpio_test_free D w = tell D (Gpio_free (gpio w)) w"

definition gpio_test_direction_input :: "gcall device \<Rightarrow> gpio_world \<Rightarrow> gpio_world" where
  "gpio_test_direction_input D w =
     (case ask D (Gpio_direction_input (gpio w)) w of (ret, w) \<Rightarrow>
        if ret = 0 then w\<lparr>input_direction_flag := 1\<rparr> else w\<lparr>error_flag_1 := 0\<rparr>)"

definition gpio_test_direction_output :: "gcall device \<Rightarrow> gpio_world \<Rightarrow> gpio_world" where
  "gpio_test_direction_output D w =
     (case ask D (Gpio_direction_output (gpio w) (level w)) w of (ret, w) \<Rightarrow>
        if ret = 0 then w\<lparr>output_direction_flag := 1\<rparr> else w\<lparr>error_flag_2 := 0\<rparr>)"

definition gpio_test_read :: "gcall device \<Rightarrow> gpio_world \<Rightarrow> gpio_world" where
  "gpio_test_read D w =
     (case ask D (Gpio_get_value (gpio w)) w of (ret, w) \<Rightarrow> if ret < 0 then w\<lparr>error_flag_3 := 0\<rparr> else w)"

definition gpio_test_write :: "gcall device \<Rightarrow> gpio_world \<Rightarrow> gpio_world" where
  "gpio_test_write D w = tell D (Gpio_set_value (gpio w) (level w)) w"

definition gpio_test_irq :: "gcall device \<Rightarrow> gpio_world \<Rightarrow> gpio_world" where
  "gpio_test_irq D w =
     (case ask D (Gpio_to_irq (gpio w)) w of (irq, w) \<Rightarrow>
      let w = (if irq \<ge> 0 then w else w\<lparr>error_flag_1 := 0\<rparr>)
      in case ask D (Irq_set_irq_type irq IRQ_TYPE_EDGE_FALLING) w of (ret, w) \<Rightarrow>
      let w = (if ret = 0 then w else w\<lparr>error_flag_2 := 0\<rparr>)
      in case ask D (Irq_set_irq_type irq IRQ_TYPE_EDGE_FALLING) w of (ret, w) \<Rightarrow>
      (if ret = 0 then w else w\<lparr>error_flag_3 := 0\<rparr>))"

text \<open>One round of the reading and of the writing loops (tests 3 and 4 are one round).\<close>

definition read_round :: "gcall device \<Rightarrow> gpio_world \<Rightarrow> gpio_world" where
  "read_round D w =
     (let w = gpio_test_request D w
      in if request_flag w \<noteq> 0 then
           let w = gpio_test_direction_input D w;
               w = (if input_direction_flag w \<noteq> 0 then gpio_test_read D w else w)
           in gpio_test_free D w
         else w)"

definition write_round :: "gcall device \<Rightarrow> gpio_world \<Rightarrow> gpio_world" where
  "write_round D w =
     (let w = gpio_test_request D w
      in if request_flag w \<noteq> 0 then
           let w = gpio_test_direction_output D w;
               w = (if output_direction_flag w \<noteq> 0 then gpio_test_write D w else w)
           in gpio_test_free D w
         else w)"

definition gpio_read_loop :: "gcall device \<Rightarrow> gpio_world \<Rightarrow> gpio_world" where
  "gpio_read_loop D w = for_each (\<lambda>_. read_round D) 0 (unat (iterations w)) w"

definition gpio_write_loop :: "gcall device \<Rightarrow> gpio_world \<Rightarrow> gpio_world" where
  "gpio_write_loop D w = for_each (\<lambda>_. write_round D) 0 (unat (iterations w)) w"

text \<open>Test 11: write and read the line up to 500 times; the loop is left when the flag is not set.\<close>

fun stress_loop :: "gcall device \<Rightarrow> nat \<Rightarrow> gpio_world \<Rightarrow> gpio_world" where
  "stress_loop D 0 w = w"
| "stress_loop D (Suc k) w =
     (let w = gpio_test_request D w
      in if request_flag w \<noteq> 0 then
           let w = gpio_test_direction_output D w;
               w = (if output_direction_flag w \<noteq> 0 then gpio_test_write D w else w);
               w = gpio_test_direction_input D w;
               w = (if input_direction_flag w \<noteq> 0 then gpio_test_read D w else w)
           in stress_loop D k (gpio_test_free D w)
         else w)"

section \<open>The module status test\<close>

datatype cpu = Omap34xx | Omap44xx | Other_cpu

text \<open>\<open>io\<close> is the mapping \<^verbatim>\<open>OMAP2_L4_IO_ADDRESS\<close> of physical to virtual addresses.\<close>

fun bank_base :: "cpu \<Rightarrow> nat \<Rightarrow> u32" where
  "bank_base Omap34xx i = [0x48310000, 0x49050000, 0x49052000, 0x49054000, 0x49056000, 0x49058000] ! i"
| "bank_base Omap44xx i = [0x4a310000, 0x48055000, 0x48057000, 0x48059000, 0x4805B000, 0x4805D000] ! i"
| "bank_base Other_cpu i = 0"

text \<open>Request the 32 lines of bank \<open>i\<close>; the result is \<^verbatim>\<open>request_status\<close>.\<close>

fun bank_request :: "gcall device \<Rightarrow> nat \<Rightarrow> nat \<Rightarrow> nat \<Rightarrow> gpio_world \<Rightarrow> bool list \<times> gpio_world" where
  "bank_request D i j 0 w = ([], w)"
| "bank_request D i j (Suc k) w =
     (case ask D (Gpio_request (of_nat (j + i * 32))) w of (ret, w) \<Rightarrow>
      case bank_request D i (Suc j) k w of (st, w) \<Rightarrow> ((ret = 0) # st, w))"

fun bank_free :: "gcall device \<Rightarrow> nat \<Rightarrow> nat \<Rightarrow> bool list \<Rightarrow> gpio_world \<Rightarrow> gpio_world" where
  "bank_free D i j [] w = w"
| "bank_free D i j (s # st) w =
     bank_free D i (Suc j) st (if s then tell D (Gpio_free (of_nat (j + i * 32))) w else w)"

text \<open>The base addresses are \<^verbatim>\<open>u32 *\<close>: adding to them counts in words of four bytes.\<close>

definition bank_test :: "gcall device \<Rightarrow> cpu \<Rightarrow> (u32 \<Rightarrow> u32) \<Rightarrow> nat \<Rightarrow> gpio_world \<Rightarrow> gpio_world" where
  "bank_test D cpu io i w =
     (case bank_request D i 0 32 w of (st, w) \<Rightarrow>
      let bank_status = (if list_all (\<lambda>s. s) st then 0 else 1 :: u32);
          w = bank_free D i 0 st w;
          offset = (case cpu of Omap44xx \<Rightarrow> 0x4c | _ \<Rightarrow> 0xc)
      in case ask D (Read_register (io (bank_base cpu i) + 4 * offset)) w of (r, w) \<Rightarrow>
         if (word_of_int r :: u32) AND 1 \<noteq> 0 then w
         else if bank_status = 0 then w\<lparr>g_test_passed := 0\<rparr> else w)"

definition gpio_test7 :: "gcall device \<Rightarrow> cpu \<Rightarrow> (u32 \<Rightarrow> u32) \<Rightarrow> gpio_world \<Rightarrow> gpio_world" where
  "gpio_test7 D cpu io w = (if cpu = Other_cpu then w else for_each (bank_test D cpu io) 0 6 w)"

section \<open>Threads\<close>

text \<open>
  \<^verbatim>\<open>gpio_keep_reading\<close> as the body of a thread: one step per helper function, with the number of rounds
  done. All threads share the module's flags.
\<close>

datatype kr_phase = Kr_request nat | Kr_input nat | Kr_read nat | Kr_free nat | Kr_done

fun gpio_keep_reading :: "gcall device \<Rightarrow> nat \<Rightarrow> kr_phase \<Rightarrow> gpio_world \<Rightarrow> kr_phase \<times> gpio_world" where
  "gpio_keep_reading D t (Kr_request loop) w =
     (if loop < unat (iterations w) then
        let w = gpio_test_request D w
        in (if request_flag w \<noteq> 0 then Kr_input loop else Kr_request (Suc loop), w)
      else (Kr_done, w))"
| "gpio_keep_reading D t (Kr_input loop) w =
     (let w = gpio_test_direction_input D w
      in (if input_direction_flag w \<noteq> 0 then Kr_read loop else Kr_free loop, w))"
| "gpio_keep_reading D t (Kr_read loop) w = (Kr_free loop, gpio_test_read D w)"
| "gpio_keep_reading D t (Kr_free loop) w = (Kr_request (Suc loop), gpio_test_free D w)"
| "gpio_keep_reading D t Kr_done w = (Kr_done, w)"

section \<open>The module\<close>

text \<open>
  \<^verbatim>\<open>gpio_test\<close>: the selected test and then the verdict. Tests 6 to 8 exist when the kernel is
  configured for OMAP4. The result holds the threads that were started.
\<close>

definition gpio_select :: "gcall device \<Rightarrow> bool \<Rightarrow> cpu \<Rightarrow> (u32 \<Rightarrow> u32) \<Rightarrow> gpio_world \<Rightarrow> kr_phase list \<times> gpio_world" where
  "gpio_select D omap4 cpu io w =
     (if test w = 1 then
        let w = gpio_test_request D w in ([], if request_flag w \<noteq> 0 then gpio_test_free D w else w)
      else if test w = 2 then
        let w = gpio_test_request D w
        in ([], if request_flag w \<noteq> 0
                then gpio_test_free D (gpio_test_direction_output D (gpio_test_direction_input D w)) else w)
      else if test w = 3 then ([], read_round D w)
      else if test w = 4 then ([], write_round D w)
      else if test w = 5 then
        let w = gpio_test_request D w
        in ([], if request_flag w \<noteq> 0 then gpio_test_free D (gpio_test_irq D w) else w)
      else if test w = 6 \<and> omap4 then ([], gpio_read_loop D w)
      else if test w = 7 \<and> omap4 then ([], gpio_write_loop D w)
      else if test w = 8 \<and> omap4 then ([Kr_request 0, Kr_request 0], w)
      else if test w = 9 then ([], gpio_test7 D cpu io w)
      else if test w = 10 then
        let w = gpio_test_request D w
        in ([], if request_flag w \<noteq> 0 then
                  let w = gpio_test_request D (w\<lparr>request_flag := 0\<rparr>);
                      w = (if request_flag w \<noteq> 0 then w\<lparr>g_test_passed := 0\<rparr> else w)
                  in gpio_test_free D w
                else w)
      else if test w = 11 then ([], stress_loop D 500 w)
      else if test w = 13 then (replicate 4 (Kr_request 0), w)
      else ([], w))"

definition gpio_verdict :: "gpio_world \<Rightarrow> gpio_world" where
  "gpio_verdict w =
     (if \<not> (error_flag_1 w \<noteq> 0 \<and> error_flag_2 w \<noteq> 0 \<and> error_flag_3 w \<noteq> 0) then w\<lparr>g_test_passed := 0\<rparr> else w)"

text \<open>The whole function, when no thread it started runs before it returns.\<close>

definition gpio_test :: "gcall device \<Rightarrow> bool \<Rightarrow> cpu \<Rightarrow> (u32 \<Rightarrow> u32) \<Rightarrow> gpio_world \<Rightarrow> kr_phase list \<times> gpio_world" where
  "gpio_test D omap4 cpu io w = (case gpio_select D omap4 cpu io w of (ps, w) \<Rightarrow> (ps, gpio_verdict w))"

text \<open>
  In general the threads run from the moment they are woken: the system after the \<^verbatim>\<open>switch\<close> is the
  module itself, with its verdict to take, beside the readers.
\<close>

datatype gpio_phase = Main_verdict | Main_done | Reader kr_phase

fun gpio_run :: "gcall device \<Rightarrow> nat \<Rightarrow> gpio_phase \<Rightarrow> gpio_world \<Rightarrow> gpio_phase \<times> gpio_world" where
  "gpio_run D t Main_verdict w = (Main_done, gpio_verdict w)"
| "gpio_run D t Main_done w = (Main_done, w)"
| "gpio_run D t (Reader p) w = (case gpio_keep_reading D t p w of (p, w) \<Rightarrow> (Reader p, w))"

definition gpio_start :: "gcall device \<Rightarrow> bool \<Rightarrow> cpu \<Rightarrow> (u32 \<Rightarrow> u32) \<Rightarrow> gpio_world \<Rightarrow> gpio_phase list \<times> gpio_world" where
  "gpio_start D omap4 cpu io w = (case gpio_select D omap4 cpu io w of (ps, w) \<Rightarrow> (Main_verdict # map Reader ps, w))"

definition gpio_read_proc :: "gpio_world \<Rightarrow> string" where
  "gpio_read_proc w = (if g_test_passed w \<noteq> 0 then ''Test PASSED'' else ''Test FAILED'') @ [CHR 0x0A]"

definition GPIO_PROC_FILE :: string where
  "GPIO_PROC_FILE = ''driver/gpio_test_result''"

definition create_gpio_proc :: "gcall device \<Rightarrow> string \<Rightarrow> gpio_world \<Rightarrow> gpio_world" where
  "create_gpio_proc D proc_name w = tell D (Create_proc_entry proc_name) w"

definition remove_gpio_proc :: "gcall device \<Rightarrow> string \<Rightarrow> gpio_world \<Rightarrow> gpio_world" where
  "remove_gpio_proc D proc_name w = tell D (Delete_proc_entry proc_name) w"

definition gpio_test_init :: "gcall device \<Rightarrow> bool \<Rightarrow> cpu \<Rightarrow> (u32 \<Rightarrow> u32) \<Rightarrow> gpio_world \<Rightarrow> int \<times> kr_phase list \<times> gpio_world" where
  "gpio_test_init D omap4 cpu io w = (0, gpio_test D omap4 cpu io (create_gpio_proc D GPIO_PROC_FILE w))"

definition gpio_test_exit :: "gcall device \<Rightarrow> gpio_world \<Rightarrow> gpio_world" where
  "gpio_test_exit D w = remove_gpio_proc D GPIO_PROC_FILE w"

section \<open>Calls and flags\<close>

lemma gpio_ask_simps [simp]:
  "request_flag (snd (ask D c w)) = request_flag w" "gpio (snd (ask D c w)) = gpio w" "test (snd (ask D c w)) = test w"
  "level (snd (ask D c w)) = level w" "iterations (snd (ask D c w)) = iterations w"
  "input_direction_flag (snd (ask D c w)) = input_direction_flag w"
  "output_direction_flag (snd (ask D c w)) = output_direction_flag w"
  "g_test_passed (snd (ask D c w)) = g_test_passed w" "error_flag_1 (snd (ask D c w)) = error_flag_1 w"
  "error_flag_2 (snd (ask D c w)) = error_flag_2 w" "error_flag_3 (snd (ask D c w)) = error_flag_3 w"
  by (simp_all add: ask_def)

lemma gpio_tell_simps [simp]:
  "request_flag (tell D c w) = request_flag w" "gpio (tell D c w) = gpio w" "iterations (tell D c w) = iterations w"
  "g_test_passed (tell D c w) = g_test_passed w" "error_flag_1 (tell D c w) = error_flag_1 w"
  "error_flag_2 (tell D c w) = error_flag_2 w" "error_flag_3 (tell D c w) = error_flag_3 w" "test (tell D c w) = test w"
  by (simp_all add: tell_def)

lemmas gpio_ops = gpio_test_request_def gpio_test_free_def gpio_test_direction_input_def
  gpio_test_direction_output_def gpio_test_read_def gpio_test_write_def gpio_test_irq_def case_prod_beta Let_def

section \<open>The verdict\<close>

text \<open>The answers that count as a failure of the test.\<close>

fun failing :: "gcall \<times> int \<Rightarrow> bool" where
  "failing (Gpio_direction_input g, r) = (r \<noteq> 0)"
| "failing (Gpio_direction_output g v, r) = (r \<noteq> 0)"
| "failing (Gpio_get_value g, r) = (r < 0)"
| "failing (Gpio_to_irq g, r) = (r < 0)"
| "failing (Irq_set_irq_type i e, r) = (r \<noteq> 0)"
| "failing _ = False"

definition flags_set :: "gpio_world \<Rightarrow> bool" where
  "flags_set w \<longleftrightarrow> error_flag_1 w \<noteq> 0 \<and> error_flag_2 w \<noteq> 0 \<and> error_flag_3 w \<noteq> 0"

text \<open>The flags tell exactly whether a call has failed; the verdict has not been touched.\<close>

definition flags_exact :: "gpio_world \<Rightarrow> bool" where
  "flags_exact w \<longleftrightarrow> g_test_passed w = 1 \<and> (flags_set w \<longleftrightarrow> list_all (\<lambda>e. \<not> failing e) (clog w))"

lemma ops_exact:
  assumes "flags_exact w"
  shows "flags_exact (gpio_test_request D w)" "flags_exact (gpio_test_free D w)"
    "flags_exact (gpio_test_direction_input D w)" "flags_exact (gpio_test_direction_output D w)"
    "flags_exact (gpio_test_read D w)" "flags_exact (gpio_test_write D w)" "flags_exact (gpio_test_irq D w)"
  using assms by (auto simp: flags_exact_def flags_set_def gpio_ops)

lemma rounds_exact:
  assumes "flags_exact w"
  shows "flags_exact (read_round D w)" "flags_exact (write_round D w)" "flags_exact (stress_loop D k w)"
    "flags_exact (gpio_read_loop D w)" "flags_exact (gpio_write_loop D w)"
proof -
  have r: "flags_exact (read_round D v)" "flags_exact (write_round D v)" if "flags_exact v" for v
    using that by (simp_all add: read_round_def write_round_def Let_def ops_exact)
  show "flags_exact (read_round D w)" "flags_exact (write_round D w)" using assms by (simp_all add: r)
  show "flags_exact (stress_loop D k w)"
    using assms by (induction k arbitrary: w) (simp_all add: Let_def ops_exact)
  show "flags_exact (gpio_read_loop D w)" "flags_exact (gpio_write_loop D w)"
    unfolding gpio_read_loop_def gpio_write_loop_def
    by (rule for_each_keeps [where P = flags_exact], use assms r in simp_all)+
qed

lemma select_exact:
  assumes "flags_exact w" and "test w \<noteq> 9" and "test w \<noteq> 10"
  shows "flags_exact (snd (gpio_select D omap4 cpu io w))"
  using assms by (simp add: gpio_select_def Let_def ops_exact rounds_exact)

section \<open>Requests and frees\<close>

fun line_ev :: "u32 \<Rightarrow> gcall \<times> int \<Rightarrow> int" where
  "line_ev g (Gpio_request h, r) = (if h = g \<and> r = 0 then 1 else 0)"
| "line_ev g (Gpio_free h, r) = (if h = g then - 1 else 0)"
| "line_ev g _ = 0"

definition line_balance :: "(gcall \<times> int) list \<Rightarrow> u32 \<Rightarrow> int" where
  "line_balance h g = sum_list (map (line_ev g) h)"

lemma line_balance_simps [simp]:
  "line_balance [] g = 0" "line_balance (e # h) g = line_ev g e + line_balance h g"
  by (simp_all add: line_balance_def)

fun is_free :: "gcall \<Rightarrow> bool" where
  "is_free (Gpio_free g) = True"
| "is_free c = False"

lemma ops_gpio [simp]:
  "gpio (gpio_test_request D w) = gpio w" "gpio (gpio_test_direction_input D w) = gpio w"
  "gpio (gpio_test_direction_output D w) = gpio w" "gpio (gpio_test_read D w) = gpio w" "gpio (gpio_test_irq D w) = gpio w"
  "gpio (gpio_test_write D w) = gpio w"
  by (simp_all add: gpio_ops)

lemma ops_balance [simp]:
  "line_balance (clog (gpio_test_direction_input D w)) g = line_balance (clog w) g"
  "line_balance (clog (gpio_test_direction_output D w)) g = line_balance (clog w) g"
  "line_balance (clog (gpio_test_read D w)) g = line_balance (clog w) g"
  "line_balance (clog (gpio_test_write D w)) g = line_balance (clog w) g"
  "line_balance (clog (gpio_test_irq D w)) g = line_balance (clog w) g"
  "line_balance (clog (gpio_test_free D w)) g = line_balance (clog w) g - (if gpio w = g then 1 else 0)"
  by (simp_all add: gpio_ops)



text \<open>The lines of a bank that were granted.\<close>

fun granted :: "nat \<Rightarrow> nat \<Rightarrow> bool list \<Rightarrow> u32 \<Rightarrow> int" where
  "granted i j [] g = 0"
| "granted i j (s # st) g = (if s \<and> of_nat (j + i * 32) = g then 1 else 0) + granted i (Suc j) st g"

lemma bank_request_balance:
  "line_balance (clog (snd (bank_request D i j k w))) g =
     line_balance (clog w) g + granted i j (fst (bank_request D i j k w)) g"
  by (induction k arbitrary: j w) (auto simp: case_prod_beta)

lemma bank_free_balance:
  "line_balance (clog (bank_free D i j st w)) g = line_balance (clog w) g - granted i j st g"
  by (induction st arbitrary: j w) simp_all

lemma bank_frame [simp]:
  "g_test_passed (snd (bank_request D i j k w)) = g_test_passed w" "g_test_passed (bank_free D i j st w) = g_test_passed w"
  by (induction k arbitrary: j w, simp_all add: case_prod_beta) (induction st arbitrary: j w, simp_all)

lemma bank_test_balance: "line_balance (clog (bank_test D cpu io i w)) g = line_balance (clog w) g"
  by (simp add: bank_test_def case_prod_beta Let_def bank_free_balance bank_request_balance)

lemma gpio_test7_balance: "line_balance (clog (gpio_test7 D cpu io w)) g = line_balance (clog w) g"
proof -
  have "line_balance (clog (for_each (bank_test D cpu io) 0 6 w)) g = line_balance (clog w) g"
    by (rule for_each_keeps [where P = "\<lambda>v. line_balance (clog v) g = line_balance (clog w) g"])
      (simp_all add: bank_test_balance)
  then show ?thesis by (simp add: gpio_test7_def)
qed

definition same_flags :: "gpio_world \<Rightarrow> gpio_world \<Rightarrow> bool" where
  "same_flags w v \<longleftrightarrow> error_flag_1 v = error_flag_1 w \<and> error_flag_2 v = error_flag_2 w \<and> error_flag_3 v = error_flag_3 w"

lemma bank_flags:
  "same_flags w v \<Longrightarrow> same_flags w (snd (bank_request D i j k v))" "same_flags w v \<Longrightarrow> same_flags w (bank_free D i j st v)"
  "same_flags w v \<Longrightarrow> same_flags w (bank_test D cpu io i v)"
proof -
  show r: "same_flags w v \<Longrightarrow> same_flags w (snd (bank_request D i j k v))" for j k v
    by (induction k arbitrary: j v) (simp_all add: case_prod_beta same_flags_def)
  show f: "same_flags w v \<Longrightarrow> same_flags w (bank_free D i j st v)" for j st v
    by (induction st arbitrary: j v) (simp_all add: same_flags_def)
  show "same_flags w v \<Longrightarrow> same_flags w (bank_test D cpu io i v)"
    using f [OF r] by (simp add: bank_test_def case_prod_beta Let_def same_flags_def)
qed

lemma gpio_test7_flags:
  "error_flag_1 (gpio_test7 D cpu io w) = error_flag_1 w" "error_flag_2 (gpio_test7 D cpu io w) = error_flag_2 w"
  "error_flag_3 (gpio_test7 D cpu io w) = error_flag_3 w"
proof -
  have "same_flags w (for_each (bank_test D cpu io) 0 6 w)"
    by (rule for_each_keeps [where P = "same_flags w"]) (simp_all add: bank_flags, simp add: same_flags_def)
  then show "error_flag_1 (gpio_test7 D cpu io w) = error_flag_1 w" "error_flag_2 (gpio_test7 D cpu io w) = error_flag_2 w"
    "error_flag_3 (gpio_test7 D cpu io w) = error_flag_3 w" by (simp_all add: gpio_test7_def same_flags_def)
qed

text \<open>
  Bank \<open>i\<close> seen from state \<open>w\<close>: all its lines are granted, and after they are freed the status register
  does not say that the module is disabled.
\<close>

definition bank_bad :: "gcall device \<Rightarrow> cpu \<Rightarrow> (u32 \<Rightarrow> u32) \<Rightarrow> nat \<Rightarrow> gpio_world \<Rightarrow> bool" where
  "bank_bad D cpu io i w \<longleftrightarrow> list_all (\<lambda>s. s) (fst (bank_request D i 0 32 w)) \<and>
     (word_of_int (D (clog (bank_free D i 0 (fst (bank_request D i 0 32 w)) (snd (bank_request D i 0 32 w))))
       (Read_register (io (bank_base cpu i) + 4 * (case cpu of Omap44xx \<Rightarrow> 0x4c | _ \<Rightarrow> 0xc)))) :: u32) AND 1 = 0"

lemma bank_test_verdict:
  "g_test_passed (bank_test D cpu io i w) = (if bank_bad D cpu io i w then 0 else g_test_passed w)"
  by (simp add: bank_test_def bank_bad_def case_prod_beta Let_def)

lemma banks_verdict:
  "g_test_passed (for_each (bank_test D cpu io) i k w) = 0 \<longleftrightarrow>
     g_test_passed w = 0 \<or> (\<exists>j<k. bank_bad D cpu io (i + j) (for_each (bank_test D cpu io) i j w))"
proof (induction k arbitrary: i w)
  case (Suc k)
  have "(\<exists>j<Suc k. bank_bad D cpu io (i + j) (for_each (bank_test D cpu io) i j w)) \<longleftrightarrow>
      bank_bad D cpu io i w \<or>
      (\<exists>j<k. bank_bad D cpu io (Suc i + j) (for_each (bank_test D cpu io) (Suc i) j (bank_test D cpu io i w)))"
    (is "?l \<longleftrightarrow> ?r")
  proof
    assume ?l
    then obtain j where "j < Suc k" "bank_bad D cpu io (i + j) (for_each (bank_test D cpu io) i j w)" by blast
    then show ?r by (cases j) auto
  next
    assume ?r
    then show ?l
    proof
      assume "bank_bad D cpu io i w"
      then show ?l by (intro exI [of _ 0]) simp
    next
      assume "\<exists>j<k. bank_bad D cpu io (Suc i + j) (for_each (bank_test D cpu io) (Suc i) j (bank_test D cpu io i w))"
      then obtain j where "j < k" "bank_bad D cpu io (Suc i + j) (for_each (bank_test D cpu io) (Suc i) j (bank_test D cpu io i w))" by blast
      then show ?l by (intro exI [of _ "Suc j"]) simp
    qed
  qed
  then show ?case by (auto simp: Suc.IH bank_test_verdict)
qed simp

lemma status_test_runs:
  assumes "test w = 9" and "error_flag_1 w \<noteq> 0" "error_flag_2 w \<noteq> 0" "error_flag_3 w \<noteq> 0"
  shows "snd (gpio_test D omap4 cpu io w) = gpio_test7 D cpu io w"
  using assms by (simp add: gpio_test_def gpio_verdict_def gpio_select_def case_prod_beta gpio_test7_flags)



lemma ops_frees [simp]:
  "calls is_free (clog (gpio_test_request D w)) = calls is_free (clog w)"
  "calls is_free (clog (gpio_test_direction_input D w)) = calls is_free (clog w)"
  "calls is_free (clog (gpio_test_direction_output D w)) = calls is_free (clog w)"
  "calls is_free (clog (gpio_test_read D w)) = calls is_free (clog w)"
  "calls is_free (clog (gpio_test_write D w)) = calls is_free (clog w)"
  "calls is_free (clog (gpio_test_free D w)) = Suc (calls is_free (clog w))"
  by (simp_all add: gpio_ops)

lemma ops_request_flag [simp]:
  "request_flag (gpio_test_direction_input D w) = request_flag w" "request_flag (gpio_test_direction_output D w) = request_flag w"
  "request_flag (gpio_test_read D w) = request_flag w" "request_flag (gpio_test_write D w) = request_flag w"
  "request_flag (gpio_test_free D w) = request_flag w"
  by (simp_all add: gpio_ops)

lemma request_flag_request: "request_flag w \<noteq> 0 \<Longrightarrow> request_flag (gpio_test_request D w) \<noteq> 0"
  by (simp add: gpio_ops)

text \<open>Once the flag is set, a round frees the line whatever the request returned.\<close>

lemma rounds_free:
  assumes "request_flag w \<noteq> 0"
  shows "request_flag (read_round D w) \<noteq> 0 \<and> calls is_free (clog (read_round D w)) = Suc (calls is_free (clog w))"
    "request_flag (write_round D w) \<noteq> 0 \<and> calls is_free (clog (write_round D w)) = Suc (calls is_free (clog w))"
  using assms by (simp_all add: read_round_def write_round_def Let_def request_flag_request)

lemma stress_frees:
  assumes "request_flag w \<noteq> 0"
  shows "calls is_free (clog (stress_loop D k w)) = calls is_free (clog w) + k"
  using assms by (induction k arbitrary: w) (simp_all add: Let_def request_flag_request)

lemma rounds_free_all:
  assumes "\<And>w. request_flag w \<noteq> 0 \<Longrightarrow> request_flag (f w) \<noteq> 0 \<and> calls is_free (clog (f w)) = Suc (calls is_free (clog w))"
    and "request_flag w \<noteq> 0"
  shows "calls is_free (clog (for_each (\<lambda>_. f) i k w)) = calls is_free (clog w) + k"
  using assms(2) by (induction k arbitrary: i w) (simp_all add: assms(1))

lemma granted_rounds:
  assumes "request_flag w = 0" and "D (clog w) (Gpio_request (gpio w)) = 0"
  shows "request_flag (read_round D w) \<noteq> 0 \<and> calls is_free (clog (read_round D w)) = Suc (calls is_free (clog w))"
    "request_flag (write_round D w) \<noteq> 0 \<and> calls is_free (clog (write_round D w)) = Suc (calls is_free (clog w))"
    "calls is_free (clog (stress_loop D (Suc k) w)) = calls is_free (clog w) + Suc k"
proof -
  have "request_flag (gpio_test_request D w) \<noteq> 0" using assms by (simp add: gpio_ops)
  then show "request_flag (read_round D w) \<noteq> 0 \<and> calls is_free (clog (read_round D w)) = Suc (calls is_free (clog w))"
    "request_flag (write_round D w) \<noteq> 0 \<and> calls is_free (clog (write_round D w)) = Suc (calls is_free (clog w))"
    "calls is_free (clog (stress_loop D (Suc k) w)) = calls is_free (clog w) + Suc k"
    by (simp_all add: read_round_def write_round_def Let_def stress_frees)
qed

text \<open>A loop of rounds of which the first is granted.\<close>

lemma granted_loop:
  assumes "\<And>w. request_flag w \<noteq> 0 \<Longrightarrow> request_flag (f w) \<noteq> 0 \<and> calls is_free (clog (f w)) = Suc (calls is_free (clog w))"
    and "request_flag (f w) \<noteq> 0 \<and> calls is_free (clog (f w)) = Suc (calls is_free (clog w))"
  shows "calls is_free (clog (for_each (\<lambda>_. f) 0 k w)) = calls is_free (clog w) + k"
proof (cases k)
  case (Suc m)
  then show ?thesis using rounds_free_all [of f "f w" 1 m] assms by simp
qed simp

lemma loop_test_calls:
  "test w = 6 \<Longrightarrow> clog (snd (gpio_test D True cpu io w)) = clog (gpio_read_loop D w)"
  "test w = 7 \<Longrightarrow> clog (snd (gpio_test D True cpu io w)) = clog (gpio_write_loop D w)"
  "test w = 11 \<Longrightarrow> clog (snd (gpio_test D True cpu io w)) = clog (stress_loop D 500 w)"
  by (simp_all add: gpio_test_def gpio_verdict_def gpio_select_def)

text \<open>The threads never touch the verdict.\<close>

lemma reader_keeps_verdict: "g_test_passed (snd (gpio_keep_reading D t p w)) = g_test_passed w"
  by (cases p) (simp_all add: gpio_ops)

definition verdict_taken :: "gpio_phase list \<Rightarrow> bool" where
  "verdict_taken ps \<longleftrightarrow> Main_verdict \<notin> set ps"

lemma verdict_final:
  assumes "(multi_step (gpio_run D))\<^sup>*\<^sup>* s s'" and "verdict_taken (fst s)"
  shows "verdict_taken (fst s') \<and> g_test_passed (snd s') = g_test_passed (snd s)"
  using assms
proof (induction rule: rtranclp_induct)
  case (step u v)
  obtain ps w where u: "u = (ps, w)" by (cases u)
  have IH: "verdict_taken ps" "g_test_passed w = g_test_passed (snd s)" using step.IH step.prems u by simp_all
  from step.hyps(2) obtain t p' w' where t: "t < length ps" "gpio_run D t (ps ! t) w = (p', w')" "v = (ps[t := p'], w')"
    unfolding u by (auto elim: multi_stepE)
  have "ps ! t \<noteq> Main_verdict" using IH(1) t(1) by (auto simp: verdict_taken_def dest: nth_mem)
  then have "p' \<noteq> Main_verdict \<and> g_test_passed w' = g_test_passed w"
    using t(2) reader_keeps_verdict [of D t] by (cases "ps ! t") (auto simp: case_prod_beta)
  then show ?case using IH t(3) set_update_subset_insert [of ps t p'] by (auto simp: verdict_taken_def)
qed simp

section \<open>The module and its threads\<close>

text \<open>
  Until the verdict is taken only the readers run. What holds after the \<^verbatim>\<open>switch\<close> and is kept by every step
  of a reader holds when the verdict is taken; a test without threads takes it at once.
\<close>

definition before_verdict :: "(gpio_world \<Rightarrow> bool) \<Rightarrow> nat \<Rightarrow> gpio_phase list \<times> gpio_world \<Rightarrow> bool" where
  "before_verdict P k s \<longleftrightarrow> (Main_verdict \<in> set (fst s) \<longrightarrow>
     (\<exists>ks. fst s = Main_verdict # map Reader ks \<and> length ks = k) \<and> P (snd s))"

lemma before_verdict_step:
  assumes "multi_step (gpio_run D) s s'" and inv: "before_verdict P k s"
    and P: "\<And>t p v. 0 < k \<Longrightarrow> P v \<Longrightarrow> P (snd (gpio_keep_reading D t p v))"
  shows "before_verdict P k s'"
  using assms(1)
proof cases
  case (sched t ps w p' w')
  show ?thesis
  proof (cases "Main_verdict \<in> set ps")
    case False
    then have "ps ! t \<noteq> Main_verdict" using sched(3) by (metis nth_mem)
    then have "p' \<noteq> Main_verdict" using sched(4) by (cases "ps ! t") (auto simp: case_prod_beta)
    with False show ?thesis using sched(2) set_update_subset_insert [of ps t p'] by (auto simp: before_verdict_def)
  next
    case True
    with inv sched(1) obtain ks where ks: "ps = Main_verdict # map Reader ks" "length ks = k" "P w"
      by (auto simp: before_verdict_def)
    show ?thesis
    proof (cases t)
      case 0
      with ks sched show ?thesis by (auto simp: before_verdict_def)
    next
      case (Suc u)
      then have u: "u < length ks" "p' = Reader (fst (gpio_keep_reading D t (ks ! u) w))" "w' = snd (gpio_keep_reading D t (ks ! u) w)"
        using ks(1) sched(3,4) by (auto simp: case_prod_beta)
      then have "P w'" "0 < k" using P [of w t "ks ! u"] ks(2,3) by auto
      moreover have "ps[t := p'] = Main_verdict # map Reader (ks[u := fst (gpio_keep_reading D t (ks ! u) w)])"
        using u(2) Suc ks(1) by (simp add: map_update)
      ultimately show ?thesis
        using sched(2) ks(2) unfolding before_verdict_def by (metis fst_conv length_list_update snd_conv)
    qed
  qed
qed

lemma verdict_of_run:
  assumes st: "gpio_start D omap4 cpu io w0 = (ps0, v)"
    and r1: "(multi_step (gpio_run D))\<^sup>*\<^sup>* (ps0, v) (Main_verdict # ps, w)"
    and r2: "(multi_step (gpio_run D))\<^sup>*\<^sup>* (Main_done # ps, gpio_verdict w) (ps', w')"
    and P: "P (snd (gpio_select D omap4 cpu io w0))"
      "\<And>t p v. fst (gpio_select D omap4 cpu io w0) \<noteq> [] \<Longrightarrow> P v \<Longrightarrow> P (snd (gpio_keep_reading D t p v))"
  shows "P w \<and> g_test_passed w' = g_test_passed (gpio_verdict w)"
proof -
  let ?k = "length (fst (gpio_select D omap4 cpu io w0))"
  have "before_verdict P ?k (ps0, v)"
    using st P(1) by (auto simp: gpio_start_def case_prod_beta before_verdict_def)
  with r1 have b: "before_verdict P ?k (Main_verdict # ps, w)"
    by (induction rule: rtranclp_induct) (auto intro: before_verdict_step P(2))
  then have "Main_verdict \<notin> set ps" by (auto simp: before_verdict_def)
  then have "g_test_passed w' = g_test_passed (gpio_verdict w)"
    using verdict_final [OF r2] by (simp add: verdict_taken_def)
  with b show ?thesis by (simp add: before_verdict_def)
qed

lemma reader_exact: "flags_exact w \<Longrightarrow> flags_exact (snd (gpio_keep_reading D t p w))"
  by (cases p) (simp_all add: Let_def ops_exact)

text \<open>When each test fails, from the calls made until the verdict is taken.\<close>

definition gpio_fails :: "gcall device \<Rightarrow> cpu \<Rightarrow> (u32 \<Rightarrow> u32) \<Rightarrow> gpio_world \<Rightarrow> (gcall \<times> int) list \<Rightarrow> bool" where
  "gpio_fails D cpu io w0 h \<longleftrightarrow>
     (if test w0 = 9 then cpu \<noteq> Other_cpu \<and> (\<exists>i<6. bank_bad D cpu io i (for_each (bank_test D cpu io) 0 i w0))
      else if test w0 = 10 then successes (\<lambda>c. c = Gpio_request (gpio w0)) h = 2
      else \<not> list_all (\<lambda>e. \<not> failing e) h)"

lemma select_verdict:
  fixes t g v n :: u32 and D :: "gcall device" and omap4 :: bool and cpu :: cpu and io :: "u32 \<Rightarrow> u32"
  defines "w0 \<equiv> gpio_fresh t g v n"
    and "w \<equiv> snd (gpio_select D omap4 cpu io (gpio_fresh t g v n))"
  assumes "t = 9 \<or> t = 10"
  shows "fst (gpio_select D omap4 cpu io w0) = []" "g_test_passed (gpio_verdict w) = 0 \<longleftrightarrow> gpio_fails D cpu io w0 (clog w)"
proof -
  have t: "test w0 = t" by (simp add: w0_def gpio_fresh_def)
  show "fst (gpio_select D omap4 cpu io w0) = []" using assms(3) t by (auto simp: gpio_select_def Let_def)
  show "g_test_passed (gpio_verdict w) = 0 \<longleftrightarrow> gpio_fails D cpu io w0 (clog w)"
  proof (cases "t = 9")
    case True
    have w: "w = gpio_test7 D cpu io w0" using True t by (simp add: w_def w0_def gpio_select_def)
    have f: "flags_set w0" "g_test_passed w0 = 1" by (simp_all add: w0_def gpio_fresh_def flags_set_def)
    then have "gpio_verdict w = w" by (simp add: w gpio_verdict_def flags_set_def gpio_test7_flags)
    with f(2) banks_verdict [of D cpu io 0 6 w0] show ?thesis
      unfolding w gpio_fails_def t by (simp add: True gpio_test7_def)
  next
    case False
    with assms(3) have "t = 10" by simp
    then show ?thesis
      by (auto simp: w_def w0_def gpio_fails_def gpio_select_def gpio_fresh_def gpio_verdict_def gpio_ops)
  qed
qed

section \<open>Who holds the line\<close>














section \<open>Properties\<close>

text \<open>
  C7. The verdict that the GPIO module reports, for every test and every interleaving with the threads of
  the threaded tests: \<open>w\<close> is the state in which the verdict is taken and \<open>w'\<close> any later one. The module
  status test (9) fails exactly when some bank had all its lines granted and was still enabled after they
  were freed; the double-request test (10) exactly when the line was granted twice; every other test
  exactly when a direction could not be set, a read returned a negative value, or the interrupt could
  not be mapped or configured in a call made before the verdict: a refused request is not a failure,
  and what a thread meets later is never reported.
\<close>

theorem gpio_verdict_exact:
  assumes "gpio_start D omap4 cpu io (gpio_fresh t g v n) = (ps0, w0)"
    and "(multi_step (gpio_run D))\<^sup>*\<^sup>* (ps0, w0) (Main_verdict # ps, w)"
    and "(multi_step (gpio_run D))\<^sup>*\<^sup>* (Main_done # ps, gpio_verdict w) (ps', w')"
  shows "gpio_read_proc w' =
    (if gpio_fails D cpu io (gpio_fresh t g v n) (clog w) then ''Test FAILED'' else ''Test PASSED'') @ [CHR 0x0A]"
proof -
  let ?w0 = "gpio_fresh t g v n"
  have "g_test_passed w' = 0 \<longleftrightarrow> gpio_fails D cpu io ?w0 (clog w)"
  proof (cases "t = 9 \<or> t = 10")
    case True
    note s = select_verdict [OF True, of D omap4 cpu io g v n]
    have "w = snd (gpio_select D omap4 cpu io ?w0) \<and> g_test_passed w' = g_test_passed (gpio_verdict w)"
      by (rule verdict_of_run [OF assms]) (simp_all add: s(1))
    with s(2) show ?thesis by simp
  next
    case False
    then have "flags_exact (snd (gpio_select D omap4 cpu io ?w0))"
      by (intro select_exact) (simp_all add: flags_exact_def flags_set_def gpio_fresh_def)
    from verdict_of_run [OF assms, of flags_exact, OF this reader_exact]
    have "flags_exact w" "g_test_passed w' = g_test_passed (gpio_verdict w)" by blast+
    moreover have "test ?w0 = t" by (simp add: gpio_fresh_def)
    ultimately show ?thesis using False by (auto simp: gpio_verdict_def gpio_fails_def flags_exact_def flags_set_def)
  qed
  then show ?thesis by (simp add: gpio_read_proc_def)
qed

text \<open>
  The verdict of the module status test: FAILED exactly when some bank had all its 32 lines granted
  and, after they were freed, was still enabled; and every line that was granted is freed exactly
  once.
\<close>

theorem gpio_status_test:
  assumes "cpu \<noteq> Other_cpu"
  shows "let w0 = gpio_fresh 9 g v n; w = snd (gpio_test D omap4 cpu io w0)
    in (g_test_passed w = 0 \<longleftrightarrow> (\<exists>i<6. bank_bad D cpu io i (for_each (bank_test D cpu io) 0 i w0))) \<and>
       line_balance (clog w) l = 0"
proof -
  let ?w0 = "gpio_fresh 9 g v n"
  have u: "gpio_test7 D cpu io ?w0 = for_each (bank_test D cpu io) 0 6 ?w0"
    unfolding gpio_test7_def by (rule if_not_P [OF assms])
  have t: "test ?w0 = 9" and f: "error_flag_1 ?w0 \<noteq> 0" "error_flag_2 ?w0 \<noteq> 0" "error_flag_3 ?w0 \<noteq> 0"
    by (simp_all add: gpio_fresh_def)
  have s: "snd (gpio_test D omap4 cpu io ?w0) = gpio_test7 D cpu io ?w0"
    by (rule status_test_runs [OF t f])
  have l: "line_balance (clog (gpio_test7 D cpu io ?w0)) l = 0"
    unfolding gpio_test7_balance by (simp add: gpio_fresh_def)
  have "g_test_passed ?w0 \<noteq> 0" by (simp add: gpio_fresh_def)
  with banks_verdict [of D cpu io 0 6 ?w0] have "g_test_passed (gpio_test7 D cpu io ?w0) = 0 \<longleftrightarrow>
      (\<exists>i<6. bank_bad D cpu io i (for_each (bank_test D cpu io) 0 i ?w0))"
    unfolding u add_0 by blast
  with l show ?thesis unfolding Let_def s by (rule_tac conjI)
qed

text \<open>A thread of test 13 whose direction cannot be set, run before or after the verdict (\<open>p\<close>).\<close>

definition bad_direction :: "gcall device" where
  "bad_direction = (\<lambda>h c. case c of Gpio_direction_input _ \<Rightarrow> - 22 | _ \<Rightarrow> 0)"

lemma reader_bad_direction:
  "(multi_step (gpio_run bad_direction))\<^sup>*\<^sup>* (p # replicate 4 (Reader (Kr_request 0)), gpio_fresh 13 157 0 1)
     (p # Reader (Kr_free 0) # replicate 3 (Reader (Kr_request 0)),
      gpio_test_direction_input bad_direction (gpio_test_request bad_direction (gpio_fresh 13 157 0 1)))"
proof -
  let ?D = bad_direction and ?w = "gpio_fresh 13 157 0 1" and ?rs = "replicate 4 (Reader (Kr_request 0))"
  let ?w1 = "gpio_test_request ?D ?w" and ?w2 = "gpio_test_direction_input ?D (gpio_test_request ?D ?w)"
  have "multi_step (gpio_run ?D) (p # ?rs, ?w) ((p # ?rs)[1 := Reader (Kr_input 0)], ?w1)"
    by (rule multi_step.sched [where run = "gpio_run ?D" and t = 1]) (simp_all add: gpio_fresh_def gpio_ops bad_direction_def)
  moreover have "multi_step (gpio_run ?D) ((p # ?rs)[1 := Reader (Kr_input 0)], ?w1)
      ((p # ?rs)[1 := Reader (Kr_input 0), 1 := Reader (Kr_free 0)], ?w2)"
    by (rule multi_step.sched [where run = "gpio_run ?D" and t = 1]) (simp_all add: gpio_fresh_def gpio_ops bad_direction_def)
  ultimately have "(multi_step (gpio_run ?D))\<^sup>*\<^sup>* (p # ?rs, ?w) ((p # ?rs)[1 := Reader (Kr_input 0), 1 := Reader (Kr_free 0)], ?w2)"
    by (meson converse_rtranclp_into_rtranclp rtranclp.rtrancl_refl)
  then show ?thesis by (simp add: numeral_eq_Suc)
qed

lemma bad_direction_start:
  "gpio_start D False Other_cpu id (gpio_fresh 13 g v n) = (Main_verdict # replicate 4 (Reader (Kr_request 0)), gpio_fresh 13 g v n)"
  by (simp add: gpio_start_def gpio_select_def gpio_fresh_def)

theorem gpio_verdict_exact_witness:
  "\<exists>ps w. (multi_step (gpio_run bad_direction))\<^sup>*\<^sup>*
      (gpio_start bad_direction False Other_cpu id (gpio_fresh 13 157 0 1)) (Main_verdict # ps, w) \<and>
    gpio_read_proc (gpio_verdict w) = ''Test FAILED'' @ [CHR 0x0A]"
proof -
  let ?w = "gpio_test_direction_input bad_direction (gpio_test_request bad_direction (gpio_fresh 13 157 0 1))"
  have "gpio_fails bad_direction Other_cpu id (gpio_fresh 13 157 0 1) (clog ?w)"
    by (simp add: gpio_fails_def gpio_fresh_def gpio_ops bad_direction_def)
  with gpio_verdict_exact [OF bad_direction_start reader_bad_direction rtranclp.rtrancl_refl] reader_bad_direction
  show ?thesis unfolding bad_direction_start by auto
qed

theorem gpio_status_test_witness:
  "g_test_passed (snd (gpio_test (\<lambda>h c. 0) True Omap44xx id (gpio_fresh 9 0 0 1))) = 0"
proof -
  have "fst (bank_request (\<lambda>h c. 0) i j k w) = replicate k True" for i j k w
    by (induction k arbitrary: j w) (simp_all add: case_prod_beta)
  then have "bank_bad (\<lambda>h c. 0) Omap44xx id 0 (gpio_fresh 9 0 0 1)"
    unfolding bank_bad_def by (simp add: list_all_iff)
  then have "\<exists>i<6. bank_bad (\<lambda>h c. 0) Omap44xx id i (for_each (bank_test (\<lambda>h c. 0) Omap44xx id) 0 i (gpio_fresh 9 0 0 1))"
    by (intro exI [of _ 0]) simp
  then show ?thesis
    using gpio_status_test [of Omap44xx 0 0 1 "\<lambda>h c. 0" True id 0] unfolding Let_def by blast
qed



text \<open>
  The flag that says a request was granted is never reset in the loops: when the first request of
  the reading, writing or stress loop is granted, every round frees the line, also the rounds whose
  own request was refused.
\<close>

theorem gpio_loop_frees:
  assumes "t \<in> {6, 7, 11}" and "D [] (Gpio_request g) = 0"
  shows "calls is_free (clog (snd (gpio_test D True cpu io (gpio_fresh t g v n)))) = (if t = 11 then 500 else unat n)"
proof -
  let ?w = "gpio_fresh t g v n"
  have w: "request_flag ?w = 0" "D (clog ?w) (Gpio_request (gpio ?w)) = 0" "calls is_free (clog ?w) = 0"
    "iterations ?w = n" "test ?w = t"
    using assms(2) by (simp_all add: gpio_fresh_def)
  have "calls is_free (clog (gpio_read_loop D ?w)) = unat n" "calls is_free (clog (gpio_write_loop D ?w)) = unat n"
    unfolding gpio_read_loop_def gpio_write_loop_def
    using granted_loop [OF rounds_free(1) granted_rounds(1) [of _ D, OF w(1,2)], where k = "unat n"]
      granted_loop [OF rounds_free(2) granted_rounds(2) [of _ D, OF w(1,2)], where k = "unat n"] w(3,4) by simp_all
  moreover have "calls is_free (clog (stress_loop D 500 ?w)) = 500"
    using granted_rounds(3) [of _ D 499, OF w(1,2)] w(3) by (simp del: stress_loop.simps)
  ultimately show ?thesis
    using assms(1) loop_test_calls [of ?w D cpu io] w(5) by (metis empty_iff insert_iff one_eq_numeral_iff numeral_eq_iff)
qed

theorem gpio_loop_frees_witness:
  "let w = snd (gpio_test (\<lambda>h c. if h = [] then 0 else - 16) True Omap44xx id (gpio_fresh 6 157 0 3))
   in calls is_free (clog w) = 3 \<and> successes (\<lambda>c. c = Gpio_request 157) (clog w) = 1"
proof -
  let ?D = "\<lambda>h c. if h = [] then 0 else - 16 :: int"
  have n: "unat (iterations (gpio_fresh 6 157 0 3)) = Suc (Suc (Suc 0))" by (simp add: gpio_fresh_def)
  have e: "gpio_read_loop ?D (gpio_fresh 6 157 0 3) =
      read_round ?D (read_round ?D (read_round ?D (gpio_fresh 6 157 0 3)))"
    unfolding gpio_read_loop_def n by simp
  have "successes (\<lambda>c. c = Gpio_request 157) (clog (read_round ?D (read_round ?D (read_round ?D (gpio_fresh 6 157 0 3))))) = 1"
    by (simp add: gpio_fresh_def read_round_def gpio_ops)
  then show ?thesis
    using gpio_loop_frees [of 6 ?D 157 Omap44xx id 0 3]
    by (simp add: Let_def gpio_test_def gpio_verdict_def gpio_select_def case_prod_beta e) (simp add: gpio_fresh_def)
qed

text \<open>
  The threaded tests take their verdict without waiting for the threads: if the module returns
  before the threads have run, the result reads PASSED for ever, whatever the threads meet.
\<close>

theorem gpio_threads_unheard:
  assumes "t = 13 \<or> t = 8 \<and> omap4"
    and "gpio_start D omap4 cpu io (gpio_fresh t g v n) = (Main_verdict # rs, w)"
    and "(multi_step (gpio_run D))\<^sup>*\<^sup>* (Main_done # rs, gpio_verdict w) (ps', w')"
  shows "gpio_read_proc w' = ''Test PASSED'' @ [CHR 0x0A]"
proof -
  have s: "snd (gpio_select D omap4 cpu io (gpio_fresh t g v n)) = gpio_fresh t g v n"
    using assms(1) by (auto simp: gpio_select_def gpio_fresh_def)
  then have w: "w = gpio_fresh t g v n" and "verdict_taken (Main_done # rs)"
    using assms(2) by (auto simp: gpio_start_def case_prod_beta verdict_taken_def)
  then have "g_test_passed w' = g_test_passed (gpio_verdict w)"
    using verdict_final [OF assms(3)] by simp
  also have "\<dots> = 1" unfolding w by (simp add: gpio_verdict_def gpio_fresh_def)
  finally show ?thesis by (simp add: gpio_read_proc_def)
qed

theorem gpio_threads_unheard_witness:
  "\<exists>ps w. (multi_step (gpio_run bad_direction))\<^sup>*\<^sup>*
      (Main_done # replicate 4 (Reader (Kr_request 0)), gpio_fresh 13 157 0 1) (ps, w) \<and>
    (Gpio_direction_input 157, - 22) \<in> set (clog w) \<and> gpio_read_proc w = ''Test PASSED'' @ [CHR 0x0A]"
proof -
  let ?w = "gpio_fresh 13 157 0 1"
  let ?w2 = "gpio_test_direction_input bad_direction (gpio_test_request bad_direction ?w)"
  have v: "gpio_verdict ?w = ?w" by (simp add: gpio_verdict_def gpio_fresh_def)
  note r = reader_bad_direction [of Main_done]
  have "gpio_read_proc ?w2 = ''Test PASSED'' @ [CHR 0x0A]"
    by (rule gpio_threads_unheard [where t = 13, OF _ bad_direction_start [of bad_direction 157 0 1]]) (simp, unfold v, rule r)
  moreover have "(Gpio_direction_input 157, - 22) \<in> set (clog ?w2)" by (simp add: gpio_fresh_def gpio_ops bad_direction_def)
  ultimately show ?thesis using r by blast
qed

end
