(* ===== verification/Mcbsp_Config.thy ===== *)
theory Mcbsp_Config
  imports Call_Env
begin

text \<open>
  The polled McBSP test module \<^verbatim>\<open>omap_mcbsp_test_poll.c\<close>: its variables, and how it derives the
  configuration of the interface from its parameters and programs the registers.
\<close>

section \<open>Constants and register fields of the kernel headers\<close>

text \<open>
  What the module takes from \<^verbatim>\<open>mcbsp.h\<close>: constants, and the macros that place a value in a register of
  16 bits.
\<close>

record mcbsp_hw =
  WORD_8 :: int
  WORD_16 :: int
  WORD_32 :: int
  FS_ACTIVE_LOW :: int
  XCOMPAND :: "u32 \<Rightarrow> u16"
  XDATDLY :: "u32 \<Rightarrow> u16"
  XWDLEN1 :: "u32 \<Rightarrow> u16"
  XFRLEN1 :: "u32 \<Rightarrow> u16"
  RWDLEN1 :: "u32 \<Rightarrow> u16"
  RFRLEN1 :: "u32 \<Rightarrow> u16"
  RWDLEN2 :: "u32 \<Rightarrow> u16"
  RFRLEN2 :: "u32 \<Rightarrow> u16"
  RJUST :: "u32 \<Rightarrow> u16"
  RCOMPAND :: "u32 \<Rightarrow> u16"
  RDATDLY :: "u32 \<Rightarrow> u16"
  FWID :: "u32 \<Rightarrow> u16"
  CLKGDV :: "u32 \<Rightarrow> u16"
  FPER :: "u32 \<Rightarrow> u16"
  XPHASE :: u16
  RPHASE :: u16
  FSXP :: u16
  FSXM :: u16
  CLKXM :: u16
  CLKXP :: u16
  FSRM :: u16
  CLKRM :: u16
  CLKRP :: u16
  FSRP :: u16
  ALB :: u16
  FREE :: u16
  FSGM :: u16
  SCLKME :: u16
  CLKSM :: u16
  CLKSP :: u16
  GSYNC :: u16
  DILB :: u16

section \<open>State\<close>

record omap_mcbsp_cfg_param =
  fsync_src :: u8
  fs_polarity :: u8
  clk_polarity :: u8
  clk_mode :: u8
  frame_length1 :: u8
  frame_length2 :: u8
  p_word_length1 :: u8
  p_word_length2 :: u8
  p_justification :: u8
  reverse_compand :: u8
  p_phase :: u8
  data_delay :: u8

record omap_mcbsp_srg_fsg_cfg =
  period :: u32
  pulse_width :: u32
  fsgm :: u8
  g_sample_rate :: u32
  g_bits_per_sample :: u32
  srg_src :: u32
  sync_mode :: u8
  polarity :: u8
  dlb :: u8

record omap_mcbsp_reg_cfg =
  spcr2 :: u16
  spcr1 :: u16
  rcr2 :: u16
  rcr1 :: u16
  xcr2 :: u16
  xcr1 :: u16
  srgr2 :: u16
  srgr1 :: u16
  pcr0 :: u16
  xccr :: u16

record mcbsp_info_struct =
  mcbsp_id :: int
  mode :: int
  tx_buf_dma_phys :: u32
  tx_buf_dma_virt :: u32
  rx_buf_dma_phys :: u32
  rx_buf_dma_virt :: u32
  rx_cnt :: int
  tx_cnt :: int
  num_of_tx_transfers :: int
  num_of_rx_transfers :: int
  send_cnt :: int
  recv_cnt :: int

text \<open>
  \<^verbatim>\<open>omap_mcbsp_pollread\<close> returns a status and stores the word it read: the model asks for the two one after
  the other.
\<close>

datatype bcall =
    Set_io_type int int
  | Mcbsp_request int
  | Mcbsp_config int omap_mcbsp_reg_cfg
  | Mcbsp_start int int int
  | Mcbsp_stop int int int
  | Mcbsp_free int
  | Pollwrite int u32
  | Pollread int
  | Pollread_word int
  | Proc_mkdir string
  | Proc_create string
  | Proc_remove string
  | Dma_free_coherent int u32 u32

record mcbsp_world = "bcall dev_world" +
  transmission_status :: int
  mcbsptest_info :: "mcbsp_info_struct list"
  tp1 :: omap_mcbsp_cfg_param
  rp1 :: omap_mcbsp_cfg_param
  cfg :: omap_mcbsp_srg_fsg_cfg
  mcbsp_cfg :: omap_mcbsp_reg_cfg
  buffer_size :: int
  no_of_trans :: int
  no_of_words_tx :: int
  no_of_words_rx :: int
  sample_rate :: int
  phase :: int
  clkr_polarity :: int
  fsr_polarity :: int
  clkx_polarity :: int
  fsx_polarity :: int
  justification :: int
  word_length1 :: int
  word_length2 :: int
  test_mcbsp_id :: int
  words_per_frame :: int
  test_mcbsp_smp :: int

text \<open>The static variables as they are initialised; \<open>mcbsp1\<close> is \<^verbatim>\<open>OMAP_MCBSP1\<close>. Structures start as zeros.\<close>

definition zero_cfg_param :: omap_mcbsp_cfg_param where
  "zero_cfg_param = \<lparr>fsync_src = 0, fs_polarity = 0, clk_polarity = 0, clk_mode = 0, frame_length1 = 0, frame_length2 = 0,
     p_word_length1 = 0, p_word_length2 = 0, p_justification = 0, reverse_compand = 0, p_phase = 0, data_delay = 0\<rparr>"

definition zero_info :: mcbsp_info_struct where
  "zero_info = \<lparr>mcbsp_id = 0, mode = 0, tx_buf_dma_phys = 0, tx_buf_dma_virt = 0, rx_buf_dma_phys = 0, rx_buf_dma_virt = 0,
     rx_cnt = 0, tx_cnt = 0, num_of_tx_transfers = 0, num_of_rx_transfers = 0, send_cnt = 0, recv_cnt = 0\<rparr>"

definition mcbsp_fresh :: "mcbsp_hw \<Rightarrow> int \<Rightarrow> mcbsp_world" where
  "mcbsp_fresh hw mcbsp1 = \<lparr>clog = [], transmission_status = 0, mcbsptest_info = [zero_info, zero_info],
     tp1 = zero_cfg_param, rp1 = zero_cfg_param,
     cfg = \<lparr>period = 0, pulse_width = 0, fsgm = 0, g_sample_rate = 0, g_bits_per_sample = 0, srg_src = 0, sync_mode = 0,
       polarity = 0, dlb = 0\<rparr>,
     mcbsp_cfg = \<lparr>spcr2 = 0, spcr1 = 0, rcr2 = 0, rcr1 = 0, xcr2 = 0, xcr1 = 0, srgr2 = 0, srgr1 = 0, pcr0 = 0, xccr = 0\<rparr>,
     buffer_size = 256, no_of_trans = 128, no_of_words_tx = 0, no_of_words_rx = 0, sample_rate = 8000, phase = 1,
     clkr_polarity = 1, fsr_polarity = FS_ACTIVE_LOW hw, clkx_polarity = 1, fsx_polarity = FS_ACTIVE_LOW hw,
     justification = 0, word_length1 = WORD_8 hw, word_length2 = WORD_8 hw, test_mcbsp_id = mcbsp1, words_per_frame = 1,
     test_mcbsp_smp = 0\<rparr>"

definition bits_per_sample :: "(int \<Rightarrow> u32) \<Rightarrow> int \<Rightarrow> u32" where
  "bits_per_sample mem i = (if 0 \<le> i \<and> i < 6 then [8, 12, 16, 20, 24, 32] ! nat i else mem i)"

section \<open>Parameters of the interface\<close>

definition OMAP_MCBSP_FRAMELEN_N :: "int \<Rightarrow> u8" where
  "OMAP_MCBSP_FRAMELEN_N num_words = word_of_int ((num_words - 1) AND 0x7F)"

text \<open>\<open>mem\<close> is what lies around the table \<^verbatim>\<open>bits_per_sample\<close> when it is indexed out of its bounds.\<close>

definition configure_mcbsp_interface :: "(int \<Rightarrow> u32) \<Rightarrow> mcbsp_world \<Rightarrow> mcbsp_world" where
  "configure_mcbsp_interface mem w =
     (let w = (if phase w = 1 then w\<lparr>word_length2 := word_length1 w\<rparr> else w);
          w = (if phase w = 2 then w\<lparr>words_per_frame := 1\<rparr> else w);
          p = bits_per_sample mem (word_length1 w) + 8;
          p = (if phase w = 2 then p + (bits_per_sample mem (word_length2 w) + 8) else p);
          m = (if word_length1 w > word_length2 w then word_length1 w else word_length2 w)
      in w\<lparr>cfg := \<lparr>period = p, pulse_width = bits_per_sample mem m + 1, fsgm = 1,
            g_sample_rate = word_of_int (sample_rate w), g_bits_per_sample = bits_per_sample mem m,
            srg_src = 2, sync_mode = 1, polarity = 0, dlb = 1\<rparr>\<rparr>)"

definition configure_mcbsp_tx :: "mcbsp_world \<Rightarrow> mcbsp_world" where
  "configure_mcbsp_tx w =
     (let w = w\<lparr>clkx_polarity := clkr_polarity w\<rparr>;
          w = w\<lparr>fsx_polarity := fsr_polarity w\<rparr>
      in w\<lparr>tp1 := \<lparr>fsync_src = 1, fs_polarity = word_of_int (fsx_polarity w),
            clk_polarity = word_of_int (clkx_polarity w), clk_mode = 2,
            frame_length1 = OMAP_MCBSP_FRAMELEN_N (words_per_frame w),
            frame_length2 = OMAP_MCBSP_FRAMELEN_N (words_per_frame w),
            p_word_length1 = word_of_int (word_length1 w), p_word_length2 = word_of_int (word_length2 w),
            p_justification = word_of_int (justification w), reverse_compand = 0,
            p_phase = word_of_int (phase w), data_delay = 1\<rparr>\<rparr>)"

definition configure_mcbsp_rx :: "mcbsp_world \<Rightarrow> mcbsp_world" where
  "configure_mcbsp_rx w =
     w\<lparr>rp1 := \<lparr>fsync_src = 1, fs_polarity = word_of_int (fsr_polarity w),
            clk_polarity = word_of_int (clkr_polarity w), clk_mode = 1,
            frame_length1 = OMAP_MCBSP_FRAMELEN_N (words_per_frame w),
            frame_length2 = OMAP_MCBSP_FRAMELEN_N (words_per_frame w),
            p_word_length1 = word_of_int (word_length1 w), p_word_length2 = word_of_int (word_length2 w),
            p_justification = word_of_int (justification w), reverse_compand = 0,
            p_phase = word_of_int (phase w), data_delay = 1\<rparr>\<rparr>"

section \<open>Registers\<close>

definition omap2_mcbsp_set_trans_param ::
    "mcbsp_hw \<Rightarrow> omap_mcbsp_cfg_param \<Rightarrow> omap_mcbsp_reg_cfg \<Rightarrow> omap_mcbsp_reg_cfg" where
  "omap2_mcbsp_set_trans_param hw tp r =
     (let r = r\<lparr>xcr2 := XCOMPAND hw (ucast (reverse_compand tp)) OR XDATDLY hw (ucast (data_delay tp))\<rparr>;
          r = (if p_phase tp = 1 then r\<lparr>xcr2 := xcr2 r AND NOT (XPHASE hw)\<rparr>
               else r\<lparr>xcr2 := xcr2 r OR XPHASE hw OR RWDLEN2 hw (ucast (p_word_length2 tp))
                                 OR RFRLEN2 hw (ucast (frame_length2 tp))\<rparr>);
          r = r\<lparr>xcr1 := XWDLEN1 hw (ucast (p_word_length1 tp)) OR XFRLEN1 hw (ucast (frame_length1 tp))\<rparr>;
          r = (if uint (fs_polarity tp) = FS_ACTIVE_LOW hw then r\<lparr>pcr0 := pcr0 r OR FSXP hw\<rparr> else r);
          r = (if fsync_src tp = 1 then r\<lparr>pcr0 := pcr0 r OR FSXM hw\<rparr> else r);
          r = (if clk_mode tp = 2 then r\<lparr>pcr0 := pcr0 r OR CLKXM hw\<rparr> else r)
      in if clk_polarity tp = 2 then r\<lparr>pcr0 := pcr0 r OR CLKXP hw\<rparr> else r)"

definition omap2_mcbsp_set_recv_param ::
    "mcbsp_hw \<Rightarrow> omap_mcbsp_cfg_param \<Rightarrow> omap_mcbsp_reg_cfg \<Rightarrow> omap_mcbsp_reg_cfg" where
  "omap2_mcbsp_set_recv_param hw rp r =
     (let r = r\<lparr>spcr1 := RJUST hw (ucast (p_justification rp))\<rparr>;
          r = r\<lparr>rcr2 := RCOMPAND hw (ucast (reverse_compand rp)) OR RDATDLY hw (ucast (data_delay rp))\<rparr>;
          r = (if p_phase rp = 1 then r\<lparr>rcr2 := rcr2 r AND NOT (RPHASE hw)\<rparr>
               else r\<lparr>rcr2 := rcr2 r OR RPHASE hw OR RWDLEN2 hw (ucast (p_word_length2 rp))
                                 OR RFRLEN2 hw (ucast (frame_length2 rp))\<rparr>);
          r = r\<lparr>rcr1 := RWDLEN1 hw (ucast (p_word_length1 rp)) OR RFRLEN1 hw (ucast (frame_length1 rp))\<rparr>;
          r = (if fsync_src rp = 1 then r\<lparr>pcr0 := pcr0 r OR FSRM hw\<rparr> else r);
          r = (if clk_mode rp = 2 then r\<lparr>pcr0 := pcr0 r OR CLKRM hw\<rparr> else r);
          r = (if clk_polarity rp = 1 then r\<lparr>pcr0 := pcr0 r OR CLKRP hw\<rparr> else r)
      in if uint (fs_polarity rp) = FS_ACTIVE_LOW hw then r\<lparr>pcr0 := pcr0 r OR FSRP hw\<rparr> else r)"

text \<open>The clock divider; None is the division by zero.\<close>

definition clkgdv :: "omap_mcbsp_srg_fsg_cfg \<Rightarrow> u32 option" where
  "clkgdv g = (let d = g_sample_rate g * (g_bits_per_sample g - 1) in if d = 0 then None else Some (96000000 div d))"

definition srg_source :: "mcbsp_hw \<Rightarrow> int \<Rightarrow> omap_mcbsp_srg_fsg_cfg \<Rightarrow> omap_mcbsp_reg_cfg \<Rightarrow> omap_mcbsp_reg_cfg" where
  "srg_source hw interface_mode g r =
     (if srg_src g = 1 then
        let r = r\<lparr>pcr0 := pcr0 r AND NOT (SCLKME hw)\<rparr>; r = r\<lparr>srgr2 := srgr2 r AND NOT (CLKSM hw)\<rparr>
        in if polarity g = 1 \<or> interface_mode = 1 then r\<lparr>srgr2 := srgr2 r AND NOT (CLKSP hw)\<rparr>
           else r\<lparr>srgr2 := srgr2 r OR CLKSP hw\<rparr>
      else if srg_src g = 2 then
        let r = r\<lparr>pcr0 := pcr0 r AND NOT (SCLKME hw)\<rparr> in r\<lparr>srgr2 := srgr2 r OR CLKSM hw\<rparr>
      else if srg_src g = 3 then
        let r = r\<lparr>pcr0 := pcr0 r OR SCLKME hw\<rparr>; r = r\<lparr>srgr2 := srgr2 r AND NOT (CLKSM hw)\<rparr>
        in if polarity g = 2 then r\<lparr>pcr0 := pcr0 r AND NOT (CLKRP hw)\<rparr> else r\<lparr>pcr0 := pcr0 r OR CLKRP hw\<rparr>
      else if srg_src g = 4 then
        let r = r\<lparr>pcr0 := pcr0 r OR SCLKME hw\<rparr>; r = r\<lparr>srgr2 := srgr2 r OR CLKSM hw\<rparr>
        in if polarity g = 1 then r\<lparr>pcr0 := pcr0 r AND NOT (CLKXP hw)\<rparr> else r\<lparr>pcr0 := pcr0 r OR CLKXP hw\<rparr>
      else r)"

definition omap2_mcbsp_set_srg_cfg_param ::
    "mcbsp_hw \<Rightarrow> int \<Rightarrow> omap_mcbsp_srg_fsg_cfg \<Rightarrow> omap_mcbsp_reg_cfg \<Rightarrow> omap_mcbsp_reg_cfg option" where
  "omap2_mcbsp_set_srg_cfg_param hw interface_mode g r =
     (let r = r\<lparr>srgr1 := FWID hw (pulse_width g)\<rparr>
      in case (if interface_mode = 1 then map_option (\<lambda>d. r\<lparr>srgr1 := srgr1 r OR CLKGDV hw d\<rparr>) (clkgdv g)
               else Some r) of
           None \<Rightarrow> None
         | Some r \<Rightarrow>
             let r = (if dlb g \<noteq> 0 then r\<lparr>spcr1 := spcr1 r AND NOT (ALB hw)\<rparr> else r);
                 r = (if sync_mode g = 1 then r\<lparr>spcr2 := spcr2 r OR FREE hw\<rparr> else r);
                 r = r\<lparr>srgr2 := FPER hw (period g) OR (if fsgm g \<noteq> 0 then FSGM hw else 0)\<rparr>;
                 r = srg_source hw interface_mode g r;
                 r = (if sync_mode g = 1 then r\<lparr>srgr2 := srgr2 r AND NOT (GSYNC hw)\<rparr>
                      else if sync_mode g = 2 then r\<lparr>srgr2 := srgr2 r OR GSYNC hw\<rparr> else r)
             in Some (if dlb g \<noteq> 0 then r\<lparr>xccr := xccr r OR DILB hw\<rparr> else r))"

text \<open>\<^verbatim>\<open>omap2_mcbsp_params_cfg\<close>: NULL arguments are left out; the registers first, then the calls.\<close>

definition params_regs :: "mcbsp_hw \<Rightarrow> int \<Rightarrow> omap_mcbsp_cfg_param option \<Rightarrow> omap_mcbsp_cfg_param option \<Rightarrow>
    omap_mcbsp_srg_fsg_cfg option \<Rightarrow> omap_mcbsp_reg_cfg \<Rightarrow> omap_mcbsp_reg_cfg option" where
  "params_regs hw interface_mode tp rp g r =
     (let r = (case rp of None \<Rightarrow> r | Some rp \<Rightarrow> omap2_mcbsp_set_recv_param hw rp r);
          r = (case tp of None \<Rightarrow> r | Some tp \<Rightarrow> omap2_mcbsp_set_trans_param hw tp r)
      in case g of None \<Rightarrow> Some r | Some g \<Rightarrow> omap2_mcbsp_set_srg_cfg_param hw interface_mode g r)"

definition omap2_mcbsp_params_cfg :: "mcbsp_hw \<Rightarrow> bcall device \<Rightarrow> int \<Rightarrow> int \<Rightarrow> omap_mcbsp_cfg_param option \<Rightarrow>
    omap_mcbsp_cfg_param option \<Rightarrow> omap_mcbsp_srg_fsg_cfg option \<Rightarrow> mcbsp_world \<Rightarrow> mcbsp_world option" where
  "omap2_mcbsp_params_cfg hw D ifc interface_mode tp rp g w =
     (case params_regs hw interface_mode tp rp g (mcbsp_cfg w) of
        None \<Rightarrow> None
      | Some r \<Rightarrow>
          let w = w\<lparr>mcbsp_cfg := r\<rparr>;
              w = tell D (Mcbsp_config ifc r) w
          in Some (tell D (Mcbsp_start ifc (if tp = None then 0 else 1) (if rp = None then 0 else 1)) w))"

end
