(* ===== verification/Mcbsp_Poll.thy ===== *)
theory Mcbsp_Poll
  imports Mcbsp_Config
begin

text \<open>
  The polled McBSP test: the transmission that writes known words to the interface in digital
  loopback and compares what comes back, the proc files that start it and report its status, and the
  life of the module. This is the build without \<^verbatim>\<open>CONFIG_ARCH_OMAP4\<close>, which has no threads.
\<close>

section \<open>The transmission\<close>

text \<open>\<open>junk\<close> is the uninitialised variable when the word length is none of the three.\<close>

definition data1 :: "mcbsp_hw \<Rightarrow> u32 \<Rightarrow> mcbsp_world \<Rightarrow> u32" where
  "data1 hw junk w = (if word_length1 w = WORD_8 hw then 0x80 else if word_length1 w = WORD_16 hw then 0xA500
     else if word_length1 w = WORD_32 hw then 0x5A5A0000 else junk)"

definition data2 :: "mcbsp_hw \<Rightarrow> u32 \<Rightarrow> mcbsp_world \<Rightarrow> u32" where
  "data2 hw junk w = (if word_length2 w = WORD_8 hw then 0x80 else if word_length2 w = WORD_16 hw then 0xA500
     else if word_length2 w = WORD_32 hw then 0xA5A50000 else junk)"

text \<open>Write one word; the first component is \<^verbatim>\<open>tx_err\<close>.\<close>

definition send_word :: "bcall device \<Rightarrow> int \<Rightarrow> u32 \<Rightarrow> int \<times> mcbsp_world \<Rightarrow> int \<times> mcbsp_world" where
  "send_word D ifc x s =
     (case s of (tx_err, w) \<Rightarrow>
      case ask D (Pollwrite ifc x) w of (ret, w) \<Rightarrow>
        if ret \<noteq> 0 then (- 1, w) else (tx_err, w\<lparr>no_of_words_tx := no_of_words_tx w + 1\<rparr>))"

text \<open>
  The inner loops of the transmission have the same shape: an operation on the words of the block at \<open>j\<close>,
  two in each round, left when \<open>n\<close> words are done.
\<close>

function word_block :: "(u32 \<Rightarrow> 's \<Rightarrow> 's) \<Rightarrow> u32 \<Rightarrow> u32 \<Rightarrow> int \<Rightarrow> int \<Rightarrow> int \<Rightarrow> 's \<Rightarrow> 's" where
  "word_block f d1 d2 n j k s =
     (if k < 128 then
        if j + k \<ge> n then s
        else
          let s = f (d1 + word_of_int k) s;
              k = k + 1
          in if j + k \<ge> n then s
             else word_block f d1 d2 n j (k + 1) (f (d2 + word_of_int k) s)
      else s)"
  by pat_completeness auto
termination by (relation "measure (\<lambda>(f, d1, d2, n, j, k, s). nat (128 - k))") auto

text \<open>What the comparison accepts for a word \<open>x\<close> that was sent.\<close>

definition word_ok :: "int \<Rightarrow> u32 \<Rightarrow> u32 \<Rightarrow> bool" where
  "word_ok just temp x \<longleftrightarrow>
     just = 0 \<and> temp = x \<or> just = 2 \<and> temp = push_bit 24 x \<or> just = 1 \<and> temp = x OR 0xFFFFFF00"

text \<open>Read one word and compare it; the first component is \<^verbatim>\<open>rx_err\<close>.\<close>

definition recv_word :: "bcall device \<Rightarrow> int \<Rightarrow> u32 \<Rightarrow> int \<times> mcbsp_world \<Rightarrow> int \<times> mcbsp_world" where
  "recv_word D ifc x s =
     (case s of (rx_err, w) \<Rightarrow>
      case ask D (Pollread ifc) w of (ret, w) \<Rightarrow>
      case ask D (Pollread_word ifc) w of (temp, w) \<Rightarrow>
        if ret \<noteq> 0 then (- 2, w)
        else if word_ok (justification w) (word_of_int temp) x then (rx_err, w\<lparr>no_of_words_rx := no_of_words_rx w + 1\<rparr>)
        else (- 1, w\<lparr>no_of_words_rx := no_of_words_rx w + 1\<rparr>))"

text \<open>The state is \<^verbatim>\<open>tx_err\<close>, \<^verbatim>\<open>rx_err\<close> and the variables of the module.\<close>

function transmit :: "bcall device \<Rightarrow> int \<Rightarrow> u32 \<Rightarrow> u32 \<Rightarrow> int \<Rightarrow> int \<Rightarrow> int \<times> int \<times> mcbsp_world \<Rightarrow> int \<times> int \<times> mcbsp_world" where
  "transmit D ifc d1 d2 n j s =
     (if j < n then
        (case s of (tx_err, rx_err, w) \<Rightarrow>
         case word_block (send_word D ifc) d1 d2 n j 0 (tx_err, w) of (tx_err, w) \<Rightarrow>
         case word_block (recv_word D ifc) d1 d2 n j 0 (rx_err, w) of (rx_err, w) \<Rightarrow>
           transmit D ifc d1 d2 n (j + 128) (tx_err, rx_err, w))
      else s)"
  by pat_completeness auto
termination by (relation "measure (\<lambda>(D, ifc, d1, d2, n, j, s). nat (n - j))") auto

declare word_block.simps [simp del] transmit.simps [simp del]

definition start_mcbsp_transmission ::
    "mcbsp_hw \<Rightarrow> bcall device \<Rightarrow> u32 \<times> u32 \<Rightarrow> nat \<Rightarrow> mcbsp_world \<Rightarrow> int \<times> mcbsp_world" where
  "start_mcbsp_transmission hw D junk i w =
     (let w = w\<lparr>transmission_status := 0\<rparr>;
          d1 = data1 hw (fst junk) w;
          d2 = data2 hw (snd junk) w;
          w = w\<lparr>no_of_words_tx := 0\<rparr>
      in case transmit D (mcbsp_id (mcbsptest_info w ! i)) d1 d2 (no_of_trans w) 0 (0, 0, w) of (tx_err, rx_err, w) \<Rightarrow>
         (0, if tx_err \<noteq> 0 \<or> rx_err \<noteq> 0 then w\<lparr>transmission_status := 1\<rparr> else w))"

section \<open>Proc files\<close>

text \<open>\<^verbatim>\<open>strncmp(val, s, 4) == 0\<close> for the first characters \<open>buf\<close> of what was written, a 0 behind them.\<close>

definition EINVAL :: int where
  "EINVAL = 22"

definition ENOMEM :: int where
  "ENOMEM = 12"

definition ENOSYS :: int where
  "ENOSYS = 38"

definition same4 :: "string \<Rightarrow> string \<Rightarrow> bool" where
  "same4 val s = (take 4 val = take 4 s)"

definition write_proc_entry ::
    "mcbsp_hw \<Rightarrow> bcall device \<Rightarrow> u32 \<times> u32 \<Rightarrow> string option \<Rightarrow> mcbsp_world \<Rightarrow> int \<times> mcbsp_world" where
  "write_proc_entry hw D junk buffer w =
     (case buffer of None \<Rightarrow> (0, w)
      | Some b \<Rightarrow>
        if b = [] then (0, w)
        else
          let val = takeWhile (\<lambda>c. c \<noteq> CHR 0x00) (take 7 b)
          in if same4 val ''start'' then (int (length b), snd (start_mcbsp_transmission hw D junk 0 w))
             else if same4 val ''stop'' then (int (length b), tell D (Mcbsp_stop (mcbsp_id (mcbsptest_info w ! 0)) 1 1) w)
             else if same4 val ''suspend'' then (0, w)
             else if same4 val ''resume'' then (0, w)
             else (- EINVAL, w))"

definition create_proc_file_entries :: "bcall device \<Rightarrow> mcbsp_world \<Rightarrow> int \<times> mcbsp_world" where
  "create_proc_file_entries D w =
     (case ask D (Proc_mkdir ''driver/mcbsp_test'') w of (dir, w) \<Rightarrow>
      if dir = 0 then (- ENOMEM, tell D (Proc_remove ''driver/mcbsp_test'') w)
      else case ask D (Proc_create ''transmission'') w of (file, w) \<Rightarrow>
      if file = 0 then (- ENOMEM, tell D (Proc_remove ''driver/mcbsp_test'') (tell D (Proc_remove ''transmission'') w))
      else case ask D (Proc_create ''status'') w of (file, w) \<Rightarrow>
      if file = 0 then
        (- ENOMEM, tell D (Proc_remove ''driver/mcbsp_test'') (tell D (Proc_remove ''transmission'')
           (tell D (Proc_remove ''status'') w)))
      else (0, w))"

definition remove_proc_file_entries :: "bcall device \<Rightarrow> mcbsp_world \<Rightarrow> mcbsp_world" where
  "remove_proc_file_entries D w =
     tell D (Proc_remove ''driver/mcbsp_test'') (tell D (Proc_remove ''status'') (tell D (Proc_remove ''transmission'') w))"

section \<open>The module\<close>

definition fill_global_structure :: "nat \<Rightarrow> mcbsp_world \<Rightarrow> mcbsp_world" where
  "fill_global_structure i w =
     w\<lparr>mcbsptest_info := (mcbsptest_info w)[i := (mcbsptest_info w ! i)
        \<lparr>mcbsp_id := test_mcbsp_id w + int i, mode := 1, rx_cnt := 0, tx_cnt := 0, num_of_tx_transfers := 256,
          num_of_rx_transfers := 256, send_cnt := 0, recv_cnt := 0\<rparr>]\<rparr>"

text \<open>None is the division by zero in the clock setup.\<close>

definition omap2_mcbsp_request_interface ::
    "mcbsp_hw \<Rightarrow> bcall device \<Rightarrow> nat \<Rightarrow> mcbsp_world \<Rightarrow> (int \<times> mcbsp_world) option" where
  "omap2_mcbsp_request_interface hw D i w =
     (let w = fill_global_structure i w;
          ifc = mcbsp_id (mcbsptest_info w ! i);
          w = tell D (Set_io_type ifc 0) w
      in case ask D (Mcbsp_request ifc) w of (ret, w) \<Rightarrow>
         if ret \<noteq> 0 then Some (- 1, w)
         else case omap2_mcbsp_params_cfg hw D ifc 1 (Some (tp1 w)) (Some (rp1 w)) (Some (cfg w)) w of
           None \<Rightarrow> None
         | Some w \<Rightarrow> Some (0, w))"

definition omap2_mcbsp_init :: "mcbsp_hw \<Rightarrow> bcall device \<Rightarrow> (int \<Rightarrow> u32) \<Rightarrow> mcbsp_world \<Rightarrow> (int \<times> mcbsp_world) option" where
  "omap2_mcbsp_init hw D mem w =
     (if test_mcbsp_smp w \<noteq> 0 then Some (- ENOSYS, w)
      else
        let w = snd (create_proc_file_entries D w);
            w = configure_mcbsp_rx (configure_mcbsp_tx (configure_mcbsp_interface mem w))
        in if test_mcbsp_smp w = 0 then
             case omap2_mcbsp_request_interface hw D 0 w of None \<Rightarrow> None | Some (_, w) \<Rightarrow> Some (0, w)
           else Some (0, w))"

definition omap2_mcbsp_exit :: "bcall device \<Rightarrow> nat \<Rightarrow> mcbsp_world \<Rightarrow> mcbsp_world" where
  "omap2_mcbsp_exit D i w =
     (let t = mcbsptest_info w ! i;
          w = (if rx_buf_dma_virt t \<noteq> 0 \<or> tx_buf_dma_virt t \<noteq> 0 then
                 tell D (Dma_free_coherent (buffer_size w) (tx_buf_dma_virt t) (tx_buf_dma_phys t))
                   (tell D (Dma_free_coherent (buffer_size w) (rx_buf_dma_virt t) (rx_buf_dma_phys t)) w)
               else w)
      in tell D (Mcbsp_free (mcbsp_id t)) w)"

definition omap_mcbsp_exit :: "bcall device \<Rightarrow> mcbsp_world \<Rightarrow> mcbsp_world" where
  "omap_mcbsp_exit D w =
     (let w = (if test_mcbsp_smp w \<noteq> 0 then omap2_mcbsp_exit D 1 (omap2_mcbsp_exit D 0 w) else omap2_mcbsp_exit D 0 w)
      in remove_proc_file_entries D w)"

end
