(* ===== verification/Mcbsp_Correct.thy ===== *)
theory Mcbsp_Correct
  imports Mcbsp_Poll
begin

text \<open>
  Correctness of the polled McBSP test: which words it sends and what it accepts, the verdict on an
  interface in loopback, the configuration it derives, and what it takes and gives back.
\<close>

section \<open>The words of the transmission\<close>

definition word_at :: "u32 \<Rightarrow> u32 \<Rightarrow> nat \<Rightarrow> u32" where
  "word_at d1 d2 i = (if even i then d1 else d2) + of_nat (i mod 128)"

lemma word_block_fold:
  assumes "even k" and "k \<le> 128" and "128 dvd j"
  shows "word_block f d1 d2 (int n) (int j) (int k) s = fold (\<lambda>i. f (word_at d1 d2 i)) [j + k..<min n (j + 128)] s"
  using assms
proof (induction "128 - k" arbitrary: k s rule: less_induct)
  case less
  note step = word_block.simps [of f d1 d2 "int n" "int j" "int k" s]
  have ev: "even (j + k)" using less.prems by (auto intro: dvd_trans [of 2 128])
  show ?case
  proof (cases "k < 128 \<and> j + k < n")
    case False
    then show ?thesis using less.prems step by (auto simp: min_def)
  next
    case True
    then have k: "k + 1 < 128" "k + 2 \<le> 128" using less.prems(1) by presburger+
    have m: "(j + k) mod 128 = k" "Suc (j + k) mod 128 = k + 1"
      using less.prems(3) True k by (auto simp: dvd_def mod_simps)
    have w1: "word_at d1 d2 (j + k) = d1 + word_of_int (int k)"
      using ev m by (simp add: word_at_def)
    have w2: "word_at d1 d2 (Suc (j + k)) = d2 + word_of_int (int k + 1)"
      using ev m by (simp add: word_at_def)
    have r: "[j + k..<min n (j + 128)] = (j + k) # [Suc (j + k)..<min n (j + 128)]"
      using True by (intro upt_conv_Cons) simp
    show ?thesis
    proof (cases "Suc (j + k) < n")
      case False
      with True have "[Suc (j + k)..<min n (j + 128)] = []" by simp
      with True False w1 r step show ?thesis by (simp add: Let_def)
    next
      case c: True
      have r2: "[Suc (j + k)..<min n (j + 128)] = Suc (j + k) # [j + (k + 2)..<min n (j + 128)]"
        using k c by (subst upt_conv_Cons) auto
      have IH: "word_block f d1 d2 (int n) (int j) (int (k + 2)) s' = fold (\<lambda>i. f (word_at d1 d2 i)) [j + (k + 2)..<min n (j + 128)] s'" for s'
        using less.prems k by (intro less.hyps) auto
      have e: "int k + 1 + 1 = int (k + 2)" by simp
      have "word_block f d1 d2 (int n) (int j) (int k) s =
          word_block f d1 d2 (int n) (int j) (int (k + 2)) (f (word_at d1 d2 (Suc (j + k))) (f (word_at d1 d2 (j + k)) s))"
        using True c unfolding step w1 w2 Let_def e by (simp del: of_nat_add)
      then show ?thesis unfolding IH r r2 by simp
    qed
  qed
qed

section \<open>Invariants of a transmission\<close>

text \<open>
  \<open>I a b s\<close> is a property of the state when \<open>a\<close> words have been written and \<open>b\<close> read, kept by the next
  write and, when there is a word to read, by the next read.
\<close>

locale transmission_inv =
  fixes D :: "bcall device" and ifc :: int and d1 d2 :: u32
    and I :: "nat \<Rightarrow> nat \<Rightarrow> int \<times> int \<times> mcbsp_world \<Rightarrow> bool"
  assumes send: "I a b (te, re, w) \<Longrightarrow> send_word D ifc (word_at d1 d2 a) (te, w) = (te', w') \<Longrightarrow> I (Suc a) b (te', re, w')"
    and recv: "b < a \<Longrightarrow> I a b (te, re, w) \<Longrightarrow> recv_word D ifc (word_at d1 d2 b) (re, w) = (re', w') \<Longrightarrow> I a (Suc b) (te, re', w')"
begin

lemma send_block:
  assumes "I a b (te, re, w)" and "a \<le> e"
    and "fold (\<lambda>i. send_word D ifc (word_at d1 d2 i)) [a..<e] (te, w) = (te', w')"
  shows "I e b (te', re, w')"
  using assms
proof (induction "e - a" arbitrary: a te w)
  case (Suc m)
  then have u: "[a..<e] = a # [Suc a..<e]" by (intro upt_conv_Cons) simp
  obtain t v where s: "send_word D ifc (word_at d1 d2 a) (te, w) = (t, v)" by fastforce
  show ?case
    by (rule Suc.hyps(1) [OF _ send [OF Suc.prems(1) s]]) (use Suc u s in simp_all)
qed simp

lemma recv_block:
  assumes "I a b (te, re, w)" and "b \<le> e" and "e \<le> a"
    and "fold (\<lambda>i. recv_word D ifc (word_at d1 d2 i)) [b..<e] (re, w) = (re', w')"
  shows "I a e (te, re', w')"
  using assms
proof (induction "e - b" arbitrary: b re w)
  case (Suc m)
  then have l: "b < a" and u: "[b..<e] = b # [Suc b..<e]" by (simp, intro upt_conv_Cons) simp
  obtain t v where s: "recv_word D ifc (word_at d1 d2 b) (re, w) = (t, v)" by fastforce
  show ?case
    by (rule Suc.hyps(1) [OF _ recv [OF l Suc.prems(1) s]]) (use Suc u s in simp_all)
qed simp

lemma transmit:
  assumes "I (min n j) (min n j) s" and "128 dvd j"
  shows "I n n (transmit D ifc d1 d2 (int n) (int j) s)"
  using assms
proof (induction "n - j" arbitrary: j s rule: less_induct)
  case less
  obtain te re w where s: "s = (te, re, w)" by (cases s)
  show ?case
  proof (cases "j < n")
    case False
    then show ?thesis using less.prems by (simp add: transmit.simps)
  next
    case True
    let ?e = "min n (j + 128)"
    obtain te' w1 where a: "fold (\<lambda>i. send_word D ifc (word_at d1 d2 i)) [j..<?e] (te, w) = (te', w1)" by fastforce
    obtain re' w2 where b: "fold (\<lambda>i. recv_word D ifc (word_at d1 d2 i)) [j..<?e] (re, w1) = (re', w2)" by fastforce
    have p: "I j j (te, re, w)" using less.prems(1) True s by simp
    have q: "I ?e ?e (te', re', w2)"
      by (rule recv_block [OF send_block [OF p _ a] _ _ b]) (use True in simp_all)
    have "word_block f d1 d2 (int n) (int j) 0 s' = fold (\<lambda>i. f (word_at d1 d2 i)) [j..<?e] s'" for f :: "u32 \<Rightarrow> int \<times> mcbsp_world \<Rightarrow> int \<times> mcbsp_world" and s'
      using word_block_fold [of 0 j f d1 d2 n s'] less.prems(2) by simp
    then have "transmit D ifc d1 d2 (int n) (int j) s = transmit D ifc d1 d2 (int n) (int (j + 128)) (te', re', w2)"
      using True a b s by (simp add: transmit.simps [of D ifc d1 d2 "int n" "int j"])
    then show ?thesis using less.hyps [of "j + 128"] q less.prems(2) True by simp
  qed
qed

text \<open>The loop of the module, which does nothing when the number of transfers is negative.\<close>

lemma transmit_all:
  assumes "I 0 0 s"
  shows "I (nat n) (nat n) (transmit D ifc d1 d2 n 0 s)"
proof (cases "0 \<le> n")
  case True
  then show ?thesis using transmit [of "nat n" 0 s] assms by simp
next
  case False
  then show ?thesis using assms by (simp add: transmit.simps)
qed

end

section \<open>What the calls tell\<close>

fun written :: "bcall \<times> int \<Rightarrow> u32 list" where
  "written (Pollwrite i x, r) = [x]"
| "written _ = []"

fun got :: "bcall \<times> int \<Rightarrow> u32 list" where
  "got (Pollread_word i, r) = [word_of_int r]"
| "got _ = []"

text \<open>The words written and the words read, oldest first.\<close>

definition writes :: "(bcall \<times> int) list \<Rightarrow> u32 list" where
  "writes h = concat (map written (rev h))"

definition reads :: "(bcall \<times> int) list \<Rightarrow> u32 list" where
  "reads h = concat (map got (rev h))"

lemma writes_reads_simps [simp]:
  "writes [] = []" "writes (e # h) = writes h @ written e" "writes (h @ h') = writes h' @ writes h"
  "reads [] = []" "reads (e # h) = reads h @ got e" "reads (h @ h') = reads h' @ reads h"
  by (simp_all add: writes_def reads_def)

fun is_write :: "bcall \<Rightarrow> bool" where
  "is_write (Pollwrite i x) = True"
| "is_write c = False"

fun is_read :: "bcall \<Rightarrow> bool" where
  "is_read (Pollread i) = True"
| "is_read c = False"

text \<open>All calls of a kind returned 0.\<close>

definition all_ok :: "(bcall \<Rightarrow> bool) \<Rightarrow> (bcall \<times> int) list \<Rightarrow> bool" where
  "all_ok P h \<longleftrightarrow> list_all (\<lambda>(c, r). P c \<longrightarrow> r = 0) h"

lemma all_ok_simps [simp]: "all_ok P []" "all_ok P ((c, r) # h) \<longleftrightarrow> (P c \<longrightarrow> r = 0) \<and> all_ok P h"
  by (simp_all add: all_ok_def)

text \<open>The state of a transmission after \<open>a\<close> words were written and \<open>b\<close> read, with the calls \<open>h\<close>.\<close>

definition tx_inv :: "u32 \<Rightarrow> u32 \<Rightarrow> int \<Rightarrow> int \<Rightarrow> (bcall \<times> int) list \<Rightarrow> nat \<Rightarrow> nat \<Rightarrow> int \<times> int \<times> mcbsp_world \<Rightarrow> bool" where
  "tx_inv d1 d2 just rx0 L a b s = (case s of (tx_err, rx_err, w) \<Rightarrow>
     justification w = just \<and> transmission_status w = 0 \<and> (\<exists>h. clog w = h @ L \<and> writes h = map (word_at d1 d2) [0..<a] \<and> length (reads h) = b \<and>
       (tx_err = 0 \<longleftrightarrow> all_ok is_write h) \<and>
       (rx_err = 0 \<longleftrightarrow> all_ok is_read h \<and> list_all2 (word_ok just) (reads h) (map (word_at d1 d2) [0..<b])) \<and>
       no_of_words_tx w = int (successes is_write h) \<and> no_of_words_rx w = rx0 + int (successes is_read h)))"

lemma mcbsp_ask_simps [simp]:
  "justification (snd (ask D c w)) = justification w" "transmission_status (snd (ask D c w)) = transmission_status w" "no_of_words_tx (snd (ask D c w)) = no_of_words_tx w"
  "no_of_words_rx (snd (ask D c w)) = no_of_words_rx w" "no_of_trans (snd (ask D c w)) = no_of_trans w"
  by (simp_all add: ask_def)

lemma send_word_inv:
  assumes "tx_inv d1 d2 just rx0 L a b (te, re, w)" and "send_word D ifc (word_at d1 d2 a) (te, w) = (te', w')"
  shows "tx_inv d1 d2 just rx0 L (Suc a) b (te', re, w')"
proof -
  let ?c = "Pollwrite ifc (word_at d1 d2 a)"
  obtain h where h: "clog w = h @ L" "writes h = map (word_at d1 d2) [0..<a]" "length (reads h) = b"
      "te = 0 \<longleftrightarrow> all_ok is_write h" "justification w = just" "transmission_status w = 0"
      "re = 0 \<longleftrightarrow> all_ok is_read h \<and> list_all2 (word_ok just) (reads h) (map (word_at d1 d2) [0..<b])"
      "no_of_words_tx w = int (successes is_write h)" "no_of_words_rx w = rx0 + int (successes is_read h)"
    using assms(1) by (auto simp: tx_inv_def)
  have "clog w' = ((?c, D (clog w) ?c) # h) @ L" using assms(2) h(1) by (auto simp: send_word_def case_prod_beta split: if_splits)
  then show ?thesis
    unfolding tx_inv_def prod.case
    using assms(2) h by (intro conjI exI [of _ "(?c, D (clog w) ?c) # h"]) (auto simp: send_word_def case_prod_beta split: if_splits)
qed

lemma recv_word_inv:
  assumes "tx_inv d1 d2 just rx0 L a b (te, re, w)" and "recv_word D ifc (word_at d1 d2 b) (re, w) = (re', w')"
  shows "tx_inv d1 d2 just rx0 L a (Suc b) (te, re', w')"
proof -
  let ?c = "Pollread ifc" and ?d = "Pollread_word ifc"
  let ?r = "D (clog w) ?c"
  let ?t = "D ((?c, ?r) # clog w) ?d"
  obtain h where h: "clog w = h @ L" "writes h = map (word_at d1 d2) [0..<a]" "length (reads h) = b"
      "te = 0 \<longleftrightarrow> all_ok is_write h" "justification w = just" "transmission_status w = 0"
      "re = 0 \<longleftrightarrow> all_ok is_read h \<and> list_all2 (word_ok just) (reads h) (map (word_at d1 d2) [0..<b])"
      "no_of_words_tx w = int (successes is_write h)" "no_of_words_rx w = rx0 + int (successes is_read h)"
    using assms(1) by (auto simp: tx_inv_def)
  have "clog w' = ((?d, ?t) # (?c, ?r) # h) @ L"
    using assms(2) h(1) by (auto simp: recv_word_def case_prod_beta split: if_splits)
  moreover have "list_all2 (word_ok just) (reads h @ [word_of_int ?t]) (map (word_at d1 d2) [0..<b] @ [word_at d1 d2 b]) \<longleftrightarrow>
      list_all2 (word_ok just) (reads h) (map (word_at d1 d2) [0..<b]) \<and> word_ok just (word_of_int ?t) (word_at d1 d2 b)"
    using h(3) by (simp add: list_all2_append)
  ultimately show ?thesis
    unfolding tx_inv_def prod.case
    using assms(2) h by (intro conjI exI [of _ "(?d, ?t) # (?c, ?r) # h"]) (auto simp: recv_word_def case_prod_beta split: if_splits)
qed

interpretation tx: transmission_inv D ifc d1 d2 "tx_inv d1 d2 just rx0 L" for D ifc d1 d2 just rx0 L
  by unfold_locales (rule send_word_inv, assumption+, rule recv_word_inv, assumption+)

section \<open>An interface in loopback\<close>

text \<open>
  The receiver keeps \<open>bits\<close> bits of a word and places them in the 32 bits it returns: right-justified with
  zeros, right-justified with the sign, or left-justified.
\<close>

definition justify :: "nat \<Rightarrow> int \<Rightarrow> u32 \<Rightarrow> u32" where
  "justify bits just x =
     (if just = 2 then push_bit (32 - bits) (take_bit bits x)
      else if just = 1 then signed_take_bit (bits - 1) x
      else take_bit bits x)"

text \<open>A device on which every call succeeds and the words written come back in order.\<close>

definition loopback :: "nat \<Rightarrow> int \<Rightarrow> bcall device" where
  "loopback bits just h c =
     (case c of Pollread_word i \<Rightarrow> uint (justify bits just (writes h ! length (reads h))) | _ \<Rightarrow> 0)"

definition loop_inv :: "nat \<Rightarrow> int \<Rightarrow> (bcall \<times> int) list \<Rightarrow> nat \<Rightarrow> nat \<Rightarrow> int \<times> int \<times> mcbsp_world \<Rightarrow> bool" where
  "loop_inv bits just L a b s \<longleftrightarrow> (\<exists>h. clog (snd (snd s)) = h @ L \<and> all_ok is_write h \<and> all_ok is_read h \<and>
     length (writes h) = a \<and> length (reads h) = b \<and> b \<le> a \<and> reads h = map (justify bits just) (take b (writes h)))"

lemma loop_send:
  assumes "loop_inv bits just L a b (te, re, w)" and "send_word (loopback bits just) ifc x (te, w) = (te', w')"
  shows "loop_inv bits just L (Suc a) b (te', re, w')"
proof -
  obtain h where h: "clog w = h @ L" "all_ok is_write h" "all_ok is_read h" "length (writes h) = a" "length (reads h) = b"
      "b \<le> a" "reads h = map (justify bits just) (take b (writes h))"
    using assms(1) by (auto simp: loop_inv_def)
  have "clog w' = ((Pollwrite ifc x, 0) # h) @ L"
    using assms(2) h(1) by (auto simp: send_word_def case_prod_beta loopback_def)
  then show ?thesis
    unfolding loop_inv_def using h by (intro exI [of _ "(Pollwrite ifc x, 0) # h"]) simp
qed

lemma loop_recv:
  assumes "b < a" and "loop_inv bits just L a b (te, re, w)" and "length (writes L) = length (reads L)"
    and "recv_word (loopback bits just) ifc x (re, w) = (re', w')"
  shows "loop_inv bits just L a (Suc b) (te, re', w')"
proof -
  obtain h where h: "clog w = h @ L" "all_ok is_write h" "all_ok is_read h" "length (writes h) = a" "length (reads h) = b"
      "b \<le> a" "reads h = map (justify bits just) (take b (writes h))"
    using assms(2) by (auto simp: loop_inv_def)
  let ?t = "uint (justify bits just (writes h ! b))"
  have "writes (h @ L) ! length (reads (h @ L)) = writes h ! b"
    using assms(1,3) h(4,5) by (simp add: nth_append)
  then have "clog w' = ((Pollread_word ifc, ?t) # (Pollread ifc, 0) # h) @ L"
    using assms(4) h(1) by (auto simp: recv_word_def case_prod_beta loopback_def split: if_splits)
  moreover have "reads ((Pollread_word ifc, ?t) # (Pollread ifc, 0) # h) = map (justify bits just) (take (Suc b) (writes h))"
    using assms(1) h(4,7) by (simp add: take_Suc_conv_app_nth)
  ultimately show ?thesis
    unfolding loop_inv_def using h assms(1)
    by (intro exI [of _ "(Pollread_word ifc, ?t) # (Pollread ifc, 0) # h"]) simp
qed

interpretation lb: transmission_inv "loopback bits just" ifc d1 d2
  "\<lambda>a b s. length (writes L) = length (reads L) \<and> loop_inv bits just L a b s" for bits just ifc d1 d2 L
  by unfold_locales (auto intro: loop_send loop_recv)

text \<open>Which words of the pattern pass the comparison of the module.\<close>

definition pattern :: "nat \<Rightarrow> nat \<Rightarrow> u32" where
  "pattern bits i = word_at (if bits = 8 then 0x80 else if bits = 16 then 0xA500 else 0x5A5A0000)
     (if bits = 8 then 0x80 else if bits = 16 then 0xA500 else 0xA5A50000) i"

lemma pattern_period: "pattern bits i = pattern bits (i mod 128)"
proof -
  have "even i = even (i mod 128)" by (simp add: even_iff_mod_2_eq_zero mod_mod_cancel)
  then show ?thesis by (simp add: pattern_def word_at_def)
qed

text \<open>The words the comparison accepts, found by computation over one period of the pattern.\<close>

lemma pattern_passes_period:
  "list_all (\<lambda>m. word_ok 0 (justify 8 0 (pattern 8 m)) (pattern 8 m)) [0..<128]"
  "list_all (\<lambda>m. word_ok 1 (justify 8 1 (pattern 8 m)) (pattern 8 m)) [0..<128]"
  "list_all (\<lambda>m. word_ok 2 (justify 8 2 (pattern 8 m)) (pattern 8 m)) [0..<128]"
  "list_all (\<lambda>m. word_ok 0 (justify 16 0 (pattern 16 m)) (pattern 16 m)) [0..<128]"
  "list_all (\<lambda>m. word_ok 0 (justify 32 0 (pattern 32 m)) (pattern 32 m)) [0..<128]"
  by code_simp+

lemma pattern_passes:
  assumes "bits \<in> {8, 16, 32}" and "just \<in> {0, 1, 2}" and "just = 0 \<or> bits = 8"
  shows "word_ok just (justify bits just (pattern bits i)) (pattern bits i)"
proof -
  have m: "i mod 128 \<in> set [0..<128]" by simp
  have "word_ok just (justify bits just (pattern bits (i mod 128))) (pattern bits (i mod 128))"
    using assms pattern_passes_period [unfolded list_all_iff, THEN bspec, OF m] by auto
  then show ?thesis using pattern_period by metis
qed

lemma pattern_fails:
  assumes "bits \<in> {16, 32}" and "just \<in> {1, 2}"
  shows "\<not> word_ok just (justify bits just (pattern bits 0)) (pattern bits 0)"
proof -
  have "\<not> word_ok 1 (justify 16 1 (pattern 16 0)) (pattern 16 0)" "\<not> word_ok 2 (justify 16 2 (pattern 16 0)) (pattern 16 0)"
    "\<not> word_ok 1 (justify 32 1 (pattern 32 0)) (pattern 32 0)" "\<not> word_ok 2 (justify 32 2 (pattern 32 0)) (pattern 32 0)"
    by code_simp+
  then show ?thesis using assms by blast
qed

section \<open>Properties\<close>

lemma transmission_result:
  fixes D junk i hw w
  defines "d1 \<equiv> data1 hw (fst junk) w" and "d2 \<equiv> data2 hw (snd junk) w" and "n \<equiv> nat (no_of_trans w)"
  shows "\<exists>te re v. snd (start_mcbsp_transmission hw D junk i w) = v\<lparr>transmission_status := if te \<noteq> 0 \<or> re \<noteq> 0 then 1 else 0\<rparr> \<and>
    (te, re, v) = transmit D (mcbsp_id (mcbsptest_info w ! i)) d1 d2 (no_of_trans w) 0
      (0, 0, w\<lparr>transmission_status := 0, no_of_words_tx := 0\<rparr>) \<and>
    tx_inv d1 d2 (justification w) (no_of_words_rx w) (clog w) n n (te, re, v)"
proof -
  let ?w = "w\<lparr>transmission_status := 0, no_of_words_tx := 0\<rparr>"
  obtain te re v where t: "transmit D (mcbsp_id (mcbsptest_info w ! i)) d1 d2 (no_of_trans w) 0 (0, 0, ?w) = (te, re, v)"
    by (metis prod_cases3)
  have "tx_inv d1 d2 (justification w) (no_of_words_rx w) (clog w) 0 0 (0, 0, ?w)" by (simp add: tx_inv_def)
  then have i: "tx_inv d1 d2 (justification w) (no_of_words_rx w) (clog w) n n (te, re, v)"
    using tx.transmit_all t unfolding n_def by metis
  then have "transmission_status v = 0" by (simp add: tx_inv_def)
  then have "snd (start_mcbsp_transmission hw D junk i w) = v\<lparr>transmission_status := if te \<noteq> 0 \<or> re \<noteq> 0 then 1 else 0\<rparr>"
    using t by (simp add: start_mcbsp_transmission_def Let_def d1_def d2_def data1_def data2_def cong: if_cong)
  then show ?thesis using t i by metis
qed

text \<open>
  C4. A polled transmission writes the words of its pattern in order and reads as many: its status is 0
  exactly when every write and every read succeeded and every word read is the word written at the
  same position in the form the justification asks for. The count of words transmitted is the number
  of successful writes; the count of words received grows by the number of successful reads, whether
  they matched or not.
\<close>

theorem mcbsp_transmission_exact:
  "let d1 = data1 hw (fst junk) w; d2 = data2 hw (snd junk) w; n = nat (no_of_trans w);
       w' = snd (start_mcbsp_transmission hw D junk i w)
   in \<exists>h. clog w' = h @ clog w \<and> writes h = map (word_at d1 d2) [0..<n] \<and> length (reads h) = n \<and>
     (transmission_status w' = 0 \<longleftrightarrow>
        all_ok is_write h \<and> all_ok is_read h \<and> list_all2 (word_ok (justification w)) (reads h) (writes h)) \<and>
     no_of_words_tx w' = int (successes is_write h) \<and>
     no_of_words_rx w' = no_of_words_rx w + int (successes is_read h)"
  using transmission_result [of hw D junk i w] unfolding tx_inv_def Let_def by fastforce

definition length_code :: "mcbsp_hw \<Rightarrow> nat \<Rightarrow> int" where
  "length_code hw bits = (if bits = 8 then WORD_8 hw else if bits = 16 then WORD_16 hw else WORD_32 hw)"

text \<open>
  C15. The verdict on an interface that works: with both word lengths equal and a loopback that returns
  every word in the chosen justification, the test passes for right justification with zeros and for
  words of 8 bits, and fails for the other combinations.
\<close>

theorem mcbsp_loopback_verdict:
  assumes "bits \<in> {8, 16, 32}" and "distinct [WORD_8 hw, WORD_16 hw, WORD_32 hw]"
    and "word_length1 w = length_code hw bits" and "word_length2 w = word_length1 w"
    and "justification w \<in> {0, 1, 2}" and "0 < no_of_trans w" and "length (writes (clog w)) = length (reads (clog w))"
  shows "transmission_status (snd (start_mcbsp_transmission hw (loopback bits (justification w)) junk i w)) = 0 \<longleftrightarrow>
    justification w = 0 \<or> bits = 8"
proof -
  let ?D = "loopback bits (justification w)" and ?just = "justification w" and ?n = "nat (no_of_trans w)"
  let ?d1 = "data1 hw (fst junk) w" and ?d2 = "data2 hw (snd junk) w"
  let ?J = "justify bits ?just"
  have p: "word_at ?d1 ?d2 j = pattern bits j" for j
    using assms(1-4) by (auto simp: data1_def data2_def length_code_def pattern_def)
  obtain te re v where r: "snd (start_mcbsp_transmission hw ?D junk i w) = v\<lparr>transmission_status := if te \<noteq> 0 \<or> re \<noteq> 0 then 1 else 0\<rparr>"
      "(te, re, v) = transmit ?D (mcbsp_id (mcbsptest_info w ! i)) ?d1 ?d2 (no_of_trans w) 0
        (0, 0, w\<lparr>transmission_status := 0, no_of_words_tx := 0\<rparr>)"
      "tx_inv ?d1 ?d2 ?just (no_of_words_rx w) (clog w) ?n ?n (te, re, v)"
    using transmission_result [of hw ?D junk i w] by blast
  have "loop_inv bits ?just (clog w) ?n ?n (te, re, v)"
    unfolding r(2) using assms(7) by (intro lb.transmit_all [THEN conjunct2] conjI) (simp_all add: loop_inv_def)
  then obtain h where h: "clog v = h @ clog w" "all_ok is_write h" "all_ok is_read h" "length (writes h) = ?n"
      "reads h = map ?J (take ?n (writes h))" by (auto simp: loop_inv_def)
  from r(3) h(1) have "writes h = map (word_at ?d1 ?d2) [0..<?n]"
      and v: "te = 0 \<longleftrightarrow> all_ok is_write h"
        "re = 0 \<longleftrightarrow> all_ok is_read h \<and> list_all2 (word_ok ?just) (reads h) (map (word_at ?d1 ?d2) [0..<?n])"
    by (auto simp: tx_inv_def)
  then have "re = 0 \<longleftrightarrow> (\<forall>j<?n. word_ok ?just (?J (pattern bits j)) (pattern bits j))"
    using h(2-5) by (simp add: p list_all2_conv_all_nth)
  also have "\<dots> \<longleftrightarrow> ?just = 0 \<or> bits = 8"
    using pattern_passes [OF assms(1,5)] pattern_fails [of bits ?just] assms(1,5,6) by auto
  finally show ?thesis using r(1) v(1) h(2) by simp
qed

text \<open>Values for the constants of the header, to apply the theorems to.\<close>

definition sample_hw :: mcbsp_hw where
  "sample_hw = \<lparr>WORD_8 = 0, WORD_16 = 2, WORD_32 = 5, FS_ACTIVE_LOW = 1,
     XCOMPAND = \<lambda>v. push_bit 3 (ucast v), XDATDLY = ucast, XWDLEN1 = \<lambda>v. push_bit 5 (ucast v), XFRLEN1 = \<lambda>v. push_bit 8 (ucast v),
     RWDLEN1 = \<lambda>v. push_bit 5 (ucast v), RFRLEN1 = \<lambda>v. push_bit 8 (ucast v), RWDLEN2 = \<lambda>v. push_bit 5 (ucast v),
     RFRLEN2 = \<lambda>v. push_bit 8 (ucast v), RJUST = \<lambda>v. push_bit 13 (ucast v), RCOMPAND = \<lambda>v. push_bit 3 (ucast v),
     RDATDLY = ucast, FWID = \<lambda>v. push_bit 8 (ucast v), CLKGDV = ucast, FPER = ucast,
     XPHASE = 0x8000, RPHASE = 0x8000, FSXP = 8, FSXM = 0x800, CLKXM = 0x200, CLKXP = 2, FSRM = 0x400, CLKRM = 0x100,
     CLKRP = 1, FSRP = 4, ALB = 0x8000, FREE = 0x200, FSGM = 0x1000, SCLKME = 0x80, CLKSM = 0x2000, CLKSP = 0x4000,
     GSYNC = 0x8000, DILB = 0x20\<rparr>"

theorem mcbsp_loopback_verdict_witness:
  "transmission_status (snd (start_mcbsp_transmission sample_hw (loopback 16 1) (0, 0) 0
     ((mcbsp_fresh sample_hw 0)\<lparr>word_length1 := 2, word_length2 := 2, justification := 1\<rparr>))) \<noteq> 0"
  using mcbsp_loopback_verdict [of 16 sample_hw
      "(mcbsp_fresh sample_hw 0)\<lparr>word_length1 := 2, word_length2 := 2, justification := 1\<rparr>" "(0, 0)" 0]
  by (simp add: length_code_def) (simp add: mcbsp_fresh_def sample_hw_def)

end
