(* ===== verification/Mcbsp_Setup_Correct.thy ===== *)
theory Mcbsp_Setup_Correct
  imports Mcbsp_Correct
begin

text \<open>
  Correctness of the setup of the polled McBSP test: the frame and the clock it configures, loading and
  unloading the module, and the commands of its proc file.
\<close>

section \<open>Configuration\<close>

lemma bits_of_length:
  assumes "l \<in> {0..5}"
  shows "bits_per_sample mem l \<in> {8, 12, 16, 20, 24, 32}"
proof -
  have "l = 0 \<or> l = 1 \<or> l = 2 \<or> l = 3 \<or> l = 4 \<or> l = 5" using assms by auto
  then show ?thesis by (elim disjE) (simp_all add: bits_per_sample_def)
qed

text \<open>The bits of a frame: two words in two phases, or the words of the frame in one.\<close>

definition frame_bits :: "mcbsp_world \<Rightarrow> int" where
  "frame_bits w = (if phase w = 2 then uint (bits_per_sample (\<lambda>_. 0) (word_length1 w)) + uint (bits_per_sample (\<lambda>_. 0) (word_length2 w))
     else words_per_frame w * uint (bits_per_sample (\<lambda>_. 0) (word_length1 w)))"

text \<open>
  The frame period that the module configures holds the bits of a frame exactly when the frame has two
  phases, or one word, or words of 8 bits: two longer words in a frame of one phase do not fit.
\<close>

theorem mcbsp_frame_fits:
  assumes "phase w \<in> {1, 2}" and "words_per_frame w \<in> {1, 2}" and "word_length1 w \<in> {0..5}" and "word_length2 w \<in> {0..5}"
  shows "frame_bits w \<le> uint (period (cfg (configure_mcbsp_interface mem w))) \<longleftrightarrow>
    phase w = 2 \<or> words_per_frame w = 1 \<or> word_length1 w = 0"
proof -
  have l: "word_length1 w = 0 \<longleftrightarrow> bits_per_sample (\<lambda>_. 0) (word_length1 w) = 8"
  proof -
    have "word_length1 w = 0 \<or> word_length1 w = 1 \<or> word_length1 w = 2 \<or> word_length1 w = 3 \<or> word_length1 w = 4 \<or> word_length1 w = 5"
      using assms(3) by auto
    then show ?thesis by (elim disjE) (simp_all add: bits_per_sample_def)
  qed
  have m: "bits_per_sample mem (word_length1 w) = bits_per_sample (\<lambda>_. 0) (word_length1 w)"
    "bits_per_sample mem (word_length2 w) = bits_per_sample (\<lambda>_. 0) (word_length2 w)"
    using assms(3,4) by (auto simp: bits_per_sample_def)
  show ?thesis
    using bits_of_length [OF assms(3), of "\<lambda>_. 0"] bits_of_length [OF assms(4), of "\<lambda>_. 0"] assms(1,2)
    unfolding l by (auto simp: configure_mcbsp_interface_def Let_def m frame_bits_def)
qed

theorem mcbsp_frame_fits_witness:
  "\<not> frame_bits ((mcbsp_fresh sample_hw 0)\<lparr>word_length1 := 2, words_per_frame := 2\<rparr>) \<le>
    uint (period (cfg (configure_mcbsp_interface (\<lambda>_. 0) ((mcbsp_fresh sample_hw 0)\<lparr>word_length1 := 2, words_per_frame := 2\<rparr>))))"
  using mcbsp_frame_fits [of "(mcbsp_fresh sample_hw 0)\<lparr>word_length1 := 2, words_per_frame := 2\<rparr>" "\<lambda>_. 0"]
  by (simp add: mcbsp_fresh_def sample_hw_def)

lemma odd_factor_zero:
  fixes x b :: u32
  assumes "b \<in> {8, 12, 16, 20, 24, 32}"
  shows "x * (b - 1) = 0 \<longleftrightarrow> x = 0"
proof
  assume z: "x * (b - 1) = 0"
  have "(b - 1) * c = 1" if "(b, c) \<in> {(8, 0xB6DB6DB7), (12, 0xBA2E8BA3), (16, 0xEEEEEEEF), (20, 0x286BCA1B), (24, 0xE9BD37A7), (32, 0xBDEF7BDF)}" for c
    using that by auto
  then obtain c where "(b - 1) * c = 1" using assms by blast
  then have "x = x * (b - 1) * c" by (simp add: mult.assoc)
  then show "x = 0" using z by simp
qed simp

lemma uint_mult32: "uint (x * y :: u32) = uint x * uint y mod 4294967296"
  by (simp add: uint_word_ariths)

lemma divider_fits:
  assumes "0 < (r :: int)"
  shows "96000000 div r < 256 \<longleftrightarrow> 375000 < r"
proof -
  have "nat 96000000 div nat r < 256 \<longleftrightarrow> nat 96000000 < 256 * nat r"
    using assms by (subst div_less_iff_less_mult) auto
  moreover have "96000000 div r = int (nat 96000000 div nat r)"
    using assms by (simp add: zdiv_int)
  ultimately show ?thesis using assms by linarith
qed

lemma config_bits:
  assumes "word_length1 w \<in> {0..5}" and "word_length2 w \<in> {0..5}"
  shows "g_bits_per_sample (cfg (configure_mcbsp_interface mem w)) \<in> {8, 12, 16, 20, 24, 32}"
    "g_sample_rate (cfg (configure_mcbsp_interface mem w)) = word_of_int (sample_rate w)"
  using bits_of_length [OF assms(1), of mem] bits_of_length [OF assms(2), of mem]
  by (simp_all add: configure_mcbsp_interface_def Let_def)

text \<open>
  The clock divider is the input clock divided by the bits per second, and it fits the eight bits of
  its register field exactly when that rate is above 375000: at the default 8000 samples per second it
  never does.
\<close>

theorem mcbsp_clock_divider:
  assumes "word_length1 w \<in> {0..5}" and "word_length2 w \<in> {0..5}" and "0 < sample_rate w" and "sample_rate w \<le> 100000000"
  shows "let g = cfg (configure_mcbsp_interface mem w); rate = sample_rate w * (uint (g_bits_per_sample g) - 1)
    in \<exists>d. clkgdv g = Some d \<and> uint d = 96000000 div rate \<and> (uint d < 256 \<longleftrightarrow> 375000 < rate) \<and>
       (sample_rate w = 8000 \<longrightarrow> 256 \<le> uint d)"
proof -
  let ?g = "cfg (configure_mcbsp_interface mem w)"
  let ?b = "g_bits_per_sample ?g" and ?s = "sample_rate w"
  let ?rate = "?s * (uint ?b - 1)" and ?p = "g_sample_rate ?g * (?b - 1)"
  have b: "uint (?b - 1) = uint ?b - 1" "7 \<le> uint ?b - 1" "uint ?b - 1 \<le> 31"
    using config_bits(1) [OF assms(1,2), of mem] by auto
  have s: "uint (g_sample_rate ?g) = ?s"
    using assms(3,4) config_bits(2) [OF assms(1,2), of mem] by (simp add: uint_word_of_int_eq take_bit_int_eq_self)
  have r: "0 < ?rate" "?rate \<le> 100000000 * 31"
    using assms(3,4) b(2,3) by (simp, intro mult_mono) simp_all
  have u: "uint ?p = ?rate"
    using r by (simp add: uint_mult32 s b(1))
  have d: "96000000 div ?rate < 256 \<longleftrightarrow> 375000 < ?rate"
    by (rule divider_fits [OF r(1)])
  have "?p \<noteq> 0" using u r(1) by auto
  then have c: "clkgdv ?g = Some (96000000 div ?p)" by (simp add: clkgdv_def)
  have q: "uint (96000000 div ?p) = 96000000 div ?rate" by (simp add: uint_div u)
  show ?thesis unfolding Let_def c
    by (rule exI [of _ "96000000 div ?p"]) (use d b q in auto)
qed

theorem mcbsp_clock_divider_witness:
  "\<exists>d. clkgdv (cfg (configure_mcbsp_interface (\<lambda>_. 0) (mcbsp_fresh sample_hw 0))) = Some d \<and> 256 \<le> uint d"
proof -
  have "word_length1 (mcbsp_fresh sample_hw 0) \<in> {0..5}" "word_length2 (mcbsp_fresh sample_hw 0) \<in> {0..5}"
    "0 < sample_rate (mcbsp_fresh sample_hw 0)" "sample_rate (mcbsp_fresh sample_hw 0) \<le> 100000000"
    and r: "sample_rate (mcbsp_fresh sample_hw 0) = 8000" by (simp_all add: mcbsp_fresh_def sample_hw_def)
  from mcbsp_clock_divider [OF this(1-4), of "\<lambda>_. 0"] r show ?thesis unfolding Let_def by blast
qed

section \<open>Loading and unloading\<close>

fun is_mrequest :: "bcall \<Rightarrow> bool" where
  "is_mrequest (Mcbsp_request i) = True"
| "is_mrequest c = False"

fun is_mfree :: "bcall \<Rightarrow> bool" where
  "is_mfree (Mcbsp_free i) = True"
| "is_mfree c = False"

lemma mcbsp_tell_simps [simp]:
  "test_mcbsp_smp (tell D c w) = test_mcbsp_smp w" "test_mcbsp_smp (snd (ask D c w)) = test_mcbsp_smp w"
  "test_mcbsp_id (tell D c w) = test_mcbsp_id w" "test_mcbsp_id (snd (ask D c w)) = test_mcbsp_id w"
  "mcbsptest_info (tell D c w) = mcbsptest_info w" "mcbsptest_info (snd (ask D c w)) = mcbsptest_info w"
  "cfg (tell D c w) = cfg w" "cfg (snd (ask D c w)) = cfg w" "mcbsp_cfg (snd (ask D c w)) = mcbsp_cfg w"
  "word_length1 (tell D c w) = word_length1 w" "word_length1 (snd (ask D c w)) = word_length1 w"
  "word_length2 (tell D c w) = word_length2 w" "word_length2 (snd (ask D c w)) = word_length2 w"
  "sample_rate (tell D c w) = sample_rate w" "sample_rate (snd (ask D c w)) = sample_rate w"
  by (simp_all add: tell_def ask_def)

lemma proc_entries_frame [simp]:
  "test_mcbsp_smp (snd (create_proc_file_entries D w)) = test_mcbsp_smp w"
  "test_mcbsp_id (snd (create_proc_file_entries D w)) = test_mcbsp_id w"
  "word_length1 (snd (create_proc_file_entries D w)) = word_length1 w"
  "word_length2 (snd (create_proc_file_entries D w)) = word_length2 w"
  "sample_rate (snd (create_proc_file_entries D w)) = sample_rate w"
  "calls is_mrequest (clog (snd (create_proc_file_entries D w))) = calls is_mrequest (clog w)"
  "calls is_mfree (clog (snd (create_proc_file_entries D w))) = calls is_mfree (clog w)"
  by (simp_all add: create_proc_file_entries_def case_prod_beta)

lemma configure_frame [simp]:
  "test_mcbsp_smp (configure_mcbsp_rx w) = test_mcbsp_smp w" "test_mcbsp_smp (configure_mcbsp_tx w) = test_mcbsp_smp w"
  "test_mcbsp_smp (configure_mcbsp_interface mem w) = test_mcbsp_smp w"
  "test_mcbsp_id (configure_mcbsp_rx w) = test_mcbsp_id w" "test_mcbsp_id (configure_mcbsp_tx w) = test_mcbsp_id w"
  "test_mcbsp_id (configure_mcbsp_interface mem w) = test_mcbsp_id w"
  "clog (configure_mcbsp_rx w) = clog w" "clog (configure_mcbsp_tx w) = clog w" "clog (configure_mcbsp_interface mem w) = clog w"
  "cfg (configure_mcbsp_rx w) = cfg w" "cfg (configure_mcbsp_tx w) = cfg w"
  by (simp_all add: configure_mcbsp_rx_def configure_mcbsp_tx_def configure_mcbsp_interface_def Let_def)

lemma srg_trap:
  "params_regs hw 1 (Some tp) (Some rp) (Some g) r = None \<longleftrightarrow> clkgdv g = None"
  by (simp add: params_regs_def omap2_mcbsp_set_srg_cfg_param_def Let_def split: option.split)

lemma case_option_None:
  "(case x of None \<Rightarrow> None | Some w \<Rightarrow> Some (f w)) = None \<longleftrightarrow> x = None"
  "(case y of None \<Rightarrow> None | Some (r, w) \<Rightarrow> Some (g r w)) = None \<longleftrightarrow> y = None"
  by (cases x, simp_all) (cases y, auto)

lemma params_cfg_trap:
  "omap2_mcbsp_params_cfg hw D ifc 1 (Some tp) (Some rp) (Some g) w = None \<longleftrightarrow> clkgdv g = None"
  using srg_trap [of hw tp rp g "mcbsp_cfg w"]
  by (cases "params_regs hw 1 (Some tp) (Some rp) (Some g) (mcbsp_cfg w)") (auto simp: omap2_mcbsp_params_cfg_def Let_def)

lemma request_interface_trap:
  "omap2_mcbsp_request_interface hw D i w = None \<longleftrightarrow>
     clkgdv (cfg w) = None \<and>
     D (clog (tell D (Set_io_type (mcbsp_id (mcbsptest_info (fill_global_structure i w) ! i)) 0) (fill_global_structure i w)))
       (Mcbsp_request (mcbsp_id (mcbsptest_info (fill_global_structure i w) ! i))) = 0"
proof -
  have "cfg (fill_global_structure i w) = cfg w" by (simp add: fill_global_structure_def)
  then show ?thesis
    by (auto simp: omap2_mcbsp_request_interface_def case_prod_beta Let_def case_option_None params_cfg_trap)
qed

text \<open>
  When the interface is granted, loading the module divides by zero exactly when the sample rate,
  taken in 32 bits, is 0; the factors of the table are odd and cannot make the product vanish.
\<close>

theorem mcbsp_init_trap:
  assumes "word_length1 w \<in> {0..5}" and "word_length2 w \<in> {0..5}" and "test_mcbsp_smp w = 0"
    and "\<And>h i. D h (Mcbsp_request i) = 0"
  shows "omap2_mcbsp_init hw D mem w = None \<longleftrightarrow> (word_of_int (sample_rate w) :: u32) = 0"
proof -
  let ?v = "snd (create_proc_file_entries D w)"
  have l: "word_length1 ?v \<in> {0..5}" "word_length2 ?v \<in> {0..5}" using assms(1,2) by simp_all
  have "clkgdv (cfg (configure_mcbsp_interface mem ?v)) = None \<longleftrightarrow> (word_of_int (sample_rate w) :: u32) = 0"
    using odd_factor_zero [OF config_bits(1) [OF l]] config_bits(2) [OF l] by (simp add: clkgdv_def Let_def)
  moreover have "omap2_mcbsp_init hw D mem w = None \<longleftrightarrow> clkgdv (cfg (configure_mcbsp_interface mem ?v)) = None"
    using assms(3,4) by (simp add: omap2_mcbsp_init_def Let_def case_prod_beta case_option_None request_interface_trap)
  ultimately show ?thesis by simp
qed

theorem mcbsp_init_trap_witness:
  "omap2_mcbsp_init sample_hw (\<lambda>h c. 0) (\<lambda>_. 0) ((mcbsp_fresh sample_hw 0)\<lparr>sample_rate := 0\<rparr>) = None \<and>
   omap2_mcbsp_init sample_hw (\<lambda>h c. 0) (\<lambda>_. 0) (mcbsp_fresh sample_hw 0) \<noteq> None"
  using mcbsp_init_trap [of "(mcbsp_fresh sample_hw 0)\<lparr>sample_rate := 0\<rparr>" "\<lambda>h c. 0" sample_hw "\<lambda>_. 0"]
    mcbsp_init_trap [of "mcbsp_fresh sample_hw 0" "\<lambda>h c. 0" sample_hw "\<lambda>_. 0"]
  by (simp add: mcbsp_fresh_def sample_hw_def)

lemma request_interface_calls:
  assumes "omap2_mcbsp_request_interface hw D i w = Some (r, w')"
  shows "calls is_mrequest (clog w') = Suc (calls is_mrequest (clog w)) \<and> calls is_mfree (clog w') = calls is_mfree (clog w) \<and>
    test_mcbsp_smp w' = test_mcbsp_smp w"
proof -
  have f: "clog (fill_global_structure i w) = clog w" "test_mcbsp_smp (fill_global_structure i w) = test_mcbsp_smp w"
    by (simp_all add: fill_global_structure_def)
  show ?thesis
    using assms by (auto simp: omap2_mcbsp_request_interface_def omap2_mcbsp_params_cfg_def case_prod_beta Let_def f
      split: if_splits option.splits)
qed

text \<open>
  The module loads and stays loaded whether or not the interface was granted, and unloading it frees
  the interface all the same: one request and one free, whatever the request returned.
\<close>

theorem mcbsp_refusal_ignored:
  assumes "test_mcbsp_smp w = 0" and "omap2_mcbsp_init hw D mem w = Some (r, w')"
  shows "r = 0 \<and> calls is_mrequest (clog (omap_mcbsp_exit D w')) = Suc (calls is_mrequest (clog w)) \<and>
    calls is_mfree (clog (omap_mcbsp_exit D w')) = Suc (calls is_mfree (clog w))"
proof -
  let ?v = "configure_mcbsp_rx (configure_mcbsp_tx (configure_mcbsp_interface mem (snd (create_proc_file_entries D w))))"
  obtain q where q: "omap2_mcbsp_request_interface hw D 0 ?v = Some (q, w')" and r: "r = 0"
    using assms by (auto simp: omap2_mcbsp_init_def Let_def case_prod_beta split: option.splits)
  have i: "calls is_mrequest (clog w') = Suc (calls is_mrequest (clog w))" "calls is_mfree (clog w') = calls is_mfree (clog w)"
    "test_mcbsp_smp w' = 0"
    using request_interface_calls [OF q] assms(1) by simp_all
  have e: "calls is_mrequest (clog (omap_mcbsp_exit D w')) = calls is_mrequest (clog w') \<and>
      calls is_mfree (clog (omap_mcbsp_exit D w')) = Suc (calls is_mfree (clog w'))"
    using i(3) by (simp add: omap_mcbsp_exit_def omap2_mcbsp_exit_def remove_proc_file_entries_def Let_def)
  with i r show ?thesis by simp
qed

theorem mcbsp_refusal_ignored_witness:
  "\<exists>w. omap2_mcbsp_init sample_hw (\<lambda>h c. - 16) (\<lambda>_. 0) (mcbsp_fresh sample_hw 0) = Some (0, w) \<and>
     successes is_mrequest (clog w) = 0 \<and> calls is_mfree (clog (omap_mcbsp_exit (\<lambda>h c. - 16) w)) = 1"
proof -
  let ?D = "\<lambda>h c. - 16 :: int" and ?w = "mcbsp_fresh sample_hw 0"
  have s: "test_mcbsp_smp ?w = 0" by (simp add: mcbsp_fresh_def)
  obtain r w where i: "omap2_mcbsp_init sample_hw ?D (\<lambda>_. 0) ?w = Some (r, w)" and z: "successes is_mrequest (clog w) = 0"
    by (simp add: omap2_mcbsp_init_def s Let_def case_prod_beta omap2_mcbsp_request_interface_def)
      (simp add: fill_global_structure_def create_proc_file_entries_def case_prod_beta mcbsp_fresh_def)
  have "clog ?w = []" by (simp add: mcbsp_fresh_def)
  with mcbsp_refusal_ignored [OF s i] i z show ?thesis by simp
qed

text \<open>
  A command written to the proc file is known by its first four characters alone; start and stop
  report all characters as written, suspend and resume none, and everything else is refused.
\<close>

theorem mcbsp_command_prefix:
  "write_proc_entry hw D junk (Some b) w =
     (if b = [] then (0, w)
      else if take 4 b = ''star'' then (int (length b), snd (start_mcbsp_transmission hw D junk 0 w))
      else if take 4 b = ''stop'' then (int (length b), tell D (Mcbsp_stop (mcbsp_id (mcbsptest_info w ! 0)) 1 1) w)
      else if take 4 b = ''susp'' \<or> take 4 b = ''resu'' then (0, w)
      else (- EINVAL, w))"
proof -
  have p: "take 4 (takeWhile (\<lambda>c. c \<noteq> CHR 0x00) (take 7 b)) = s \<longleftrightarrow> take 4 b = s"
    if "length s = 4" and "CHR 0x00 \<notin> set s" for s
  proof
    assume l: "take 4 (takeWhile (\<lambda>c. c \<noteq> CHR 0x00) (take 7 b)) = s"
    obtain m where m: "takeWhile (\<lambda>c. c \<noteq> CHR 0x00) (take 7 b) = take m (take 7 b)" by (metis takeWhile_eq_take)
    show "take 4 b = s" using l that(1) unfolding m by (auto simp: min_def split: if_splits)
  next
    assume r: "take 4 b = s"
    have f: "take 4 (take 7 b) = s" using r by (simp add: min_def)
    have "take 7 b = s @ drop 4 (take 7 b)" using append_take_drop_id [of 4 "take 7 b"] unfolding f by simp
    moreover have "takeWhile (\<lambda>c. c \<noteq> CHR 0x00) (s @ t) = s @ takeWhile (\<lambda>c. c \<noteq> CHR 0x00) t" for t
      using that(2) by (intro takeWhile_append2) auto
    ultimately have "takeWhile (\<lambda>c. c \<noteq> CHR 0x00) (take 7 b) = s @ takeWhile (\<lambda>c. c \<noteq> CHR 0x00) (drop 4 (take 7 b))"
      by (rule ssubst [where P = "\<lambda>x. takeWhile _ x = _"])
    then show "take 4 (takeWhile (\<lambda>c. c \<noteq> CHR 0x00) (take 7 b)) = s" using that(1) by simp
  qed
  show ?thesis
    by (simp add: write_proc_entry_def same4_def Let_def p)
qed

end
