(* ===== verification/Mcbsp_Threads.thy ===== *)
theory Mcbsp_Threads
  imports Mcbsp_Correct DDT_Threads
begin

text \<open>
  The build of the polled McBSP test with \<^verbatim>\<open>CONFIG_ARCH_OMAP4\<close>: loaded with \<^verbatim>\<open>test_mcbsp_smp\<close>, the module
  starts two threads, each of which requests an interface and runs a transmission on it. Both write the
  variables of the module without a lock. A step of a thread is the setup of its interface, one word
  written or read, or a stretch of code in between that writes a variable of the module.
\<close>

section \<open>The threads\<close>

text \<open>The local variables of \<^verbatim>\<open>start_mcbsp_transmission\<close>.\<close>

record tx_locals =
  l_data1 :: u32
  l_data2 :: u32
  l_j :: int
  l_k :: int
  l_tx_err :: int
  l_rx_err :: int

text \<open>
  Where a thread is: before its interface is requested, before the transmission, in the loop that writes
  a block, in the loop that reads it, before the verdict, at its end, or stopped by the division by zero
  in the clock setup (whose world is the one before the setup).
\<close>

datatype mcbsp_thread =
    Requesting
  | Starting
  | Sending tx_locals
  | Receiving tx_locals
  | Judging tx_locals
  | Ended tx_locals
  | Trapped

text \<open>The head of the outer loop.\<close>

definition next_block :: "tx_locals \<Rightarrow> mcbsp_world \<Rightarrow> mcbsp_thread" where
  "next_block l w = (if l_j l < no_of_trans w then Sending (l\<lparr>l_k := 0\<rparr>) else Judging l)"

text \<open>The inner loops take a word of \<^verbatim>\<open>data1\<close> and of \<^verbatim>\<open>data2\<close> in turn.\<close>

definition more_words :: "tx_locals \<Rightarrow> mcbsp_world \<Rightarrow> bool" where
  "more_words l w \<longleftrightarrow> l_k l < 128 \<and> l_j l + l_k l < no_of_trans w"

definition next_word :: "tx_locals \<Rightarrow> u32" where
  "next_word l = (if even (l_k l) then l_data1 l else l_data2 l) + word_of_int (l_k l)"

fun mcbsp_step :: "mcbsp_hw \<Rightarrow> bcall device \<Rightarrow> u32 \<times> u32 \<Rightarrow> nat \<Rightarrow> mcbsp_thread \<Rightarrow> mcbsp_world \<Rightarrow> mcbsp_thread \<times> mcbsp_world" where
  "mcbsp_step hw D junk i Requesting w =
     (case omap2_mcbsp_request_interface hw D i w of None \<Rightarrow> (Trapped, w) | Some (_, w) \<Rightarrow> (Starting, w))"
| "mcbsp_step hw D junk i Starting w =
     (let w = w\<lparr>transmission_status := 0, no_of_words_tx := 0\<rparr>
      in (next_block \<lparr>l_data1 = data1 hw (fst junk) w, l_data2 = data2 hw (snd junk) w, l_j = 0, l_k = 0,
            l_tx_err = 0, l_rx_err = 0\<rparr> w, w))"
| "mcbsp_step hw D junk i (Sending l) w =
     (if more_words l w then
        case send_word D (mcbsp_id (mcbsptest_info w ! i)) (next_word l) (l_tx_err l, w) of (e, w) \<Rightarrow>
          (Sending (l\<lparr>l_tx_err := e, l_k := l_k l + 1\<rparr>), w)
      else (Receiving (l\<lparr>l_k := 0\<rparr>), w))"
| "mcbsp_step hw D junk i (Receiving l) w =
     (if more_words l w then
        case recv_word D (mcbsp_id (mcbsptest_info w ! i)) (next_word l) (l_rx_err l, w) of (e, w) \<Rightarrow>
          (Receiving (l\<lparr>l_rx_err := e, l_k := l_k l + 1\<rparr>), w)
      else (next_block (l\<lparr>l_j := l_j l + 128\<rparr>) w, w))"
| "mcbsp_step hw D junk i (Judging l) w =
     (Ended l, if l_tx_err l \<noteq> 0 \<or> l_rx_err l \<noteq> 0 then w\<lparr>transmission_status := 1\<rparr> else w)"
| "mcbsp_step hw D junk i (Ended l) w = (Ended l, w)"
| "mcbsp_step hw D junk i Trapped w = (Trapped, w)"

text \<open>\<^verbatim>\<open>omap2_mcbsp_init\<close> of this build, and the threads it starts; None is again the division by zero.\<close>

definition omap2_mcbsp_init_smp ::
    "mcbsp_hw \<Rightarrow> bcall device \<Rightarrow> (int \<Rightarrow> u32) \<Rightarrow> mcbsp_world \<Rightarrow> (int \<times> mcbsp_thread list \<times> mcbsp_world) option" where
  "omap2_mcbsp_init_smp hw D mem w =
     (let w = snd (create_proc_file_entries D w);
          w = configure_mcbsp_rx (configure_mcbsp_tx (configure_mcbsp_interface mem w))
      in if test_mcbsp_smp w = 0 then
           case omap2_mcbsp_request_interface hw D 0 w of None \<Rightarrow> None | Some (_, w) \<Rightarrow> Some (0, [], w)
         else Some (0, [Requesting, Requesting], w))"

section \<open>A thread alone\<close>

text \<open>A thread that is not interrupted.\<close>

definition solo :: "mcbsp_hw \<Rightarrow> bcall device \<Rightarrow> u32 \<times> u32 \<Rightarrow> nat \<Rightarrow> mcbsp_thread \<times> mcbsp_world \<Rightarrow> mcbsp_thread \<times> mcbsp_world \<Rightarrow> bool" where
  "solo hw D junk i s s' \<longleftrightarrow> s' = mcbsp_step hw D junk i (fst s) (snd s)"

lemma solo_stepI: "mcbsp_step hw D junk i p w = s' \<Longrightarrow> (solo hw D junk i)\<^sup>*\<^sup>* s' s'' \<Longrightarrow> (solo hw D junk i)\<^sup>*\<^sup>* (p, w) s''"
  by (auto intro: converse_rtranclp_into_rtranclp simp: solo_def)

lemma word_step_keeps [simp]:
  "no_of_trans (snd (send_word D ifc x s)) = no_of_trans (snd s)"
  "mcbsptest_info (snd (send_word D ifc x s)) = mcbsptest_info (snd s)"
  "no_of_trans (snd (recv_word D ifc x s)) = no_of_trans (snd s)"
  "mcbsptest_info (snd (recv_word D ifc x s)) = mcbsptest_info (snd s)"
  by (simp_all add: send_word_def recv_word_def case_prod_beta ask_def)

text \<open>A loop over the words of a block, whichever operation it does; \<open>pc\<close> is the position of the thread.\<close>

lemma solo_block:
  assumes step: "\<And>e k v. k < 128 \<Longrightarrow> j + k < n \<Longrightarrow> Q v \<Longrightarrow>
      (\<exists>e' v'. f ((if even k then d1 else d2) + word_of_int k) (e, v) = (e', v') \<and> Q v' \<and> solo hw D junk i (pc e k, v) (pc e' (k + 1), v'))"
    and "even k" and "Q (snd s)"
  shows "\<exists>k' s'. word_block f d1 d2 n j k s = s' \<and> Q (snd s') \<and> (k' \<ge> 128 \<or> j + k' \<ge> n) \<and>
     (solo hw D junk i)\<^sup>*\<^sup>* (pc (fst s) k, snd s) (pc (fst s') k', snd s')"
  using assms(2,3)
proof (induction "nat (128 - k)" arbitrary: k s rule: less_induct)
  case less
  note ws = word_block.simps [of f d1 d2 n j k s]
  show ?case
  proof (cases "k < 128 \<and> j + k < n")
    case False
    then have "word_block f d1 d2 n j k s = s" by (auto simp: ws)
    moreover have "k \<ge> 128 \<or> j + k \<ge> n" using False by auto
    ultimately show ?thesis using less.prems by blast
  next
    case True
    have k: "k + 1 < 128" using less.prems(1) True by presburger
    from step [of k "snd s" "fst s"] True less.prems obtain s1 where
      s1: "f (d1 + word_of_int k) s = s1" "Q (snd s1)" "solo hw D junk i (pc (fst s) k, snd s) (pc (fst s1) (k + 1), snd s1)" by force
    show ?thesis
    proof (cases "j + (k + 1) < n")
      case False
      with True s1 have "word_block f d1 d2 n j k s = s1" by (simp add: ws Let_def)
      with False s1 show ?thesis by (intro exI [of _ "k + 1"]) auto
    next
      case c: True
      from step [of "k + 1" "snd s1" "fst s1"] k c less.prems s1 obtain s2 where
        s2: "f (d2 + word_of_int (k + 1)) s1 = s2" "Q (snd s2)" "solo hw D junk i (pc (fst s1) (k + 1), snd s1) (pc (fst s2) (k + 1 + 1), snd s2)" by force
      have w: "word_block f d1 d2 n j k s = word_block f d1 d2 n j (k + 1 + 1) s2"
        using True c s1 s2 by (simp only: ws Let_def) simp
      have "\<exists>k' s'. word_block f d1 d2 n j (k + 1 + 1) s2 = s' \<and> Q (snd s') \<and> (k' \<ge> 128 \<or> j + k' \<ge> n) \<and>
          (solo hw D junk i)\<^sup>*\<^sup>* (pc (fst s2) (k + 1 + 1), snd s2) (pc (fst s') k', snd s')"
        using less.prems k s2 by (intro less.hyps) auto
      with w s1(3) s2(3) show ?thesis by (metis converse_rtranclp_into_rtranclp)
    qed
  qed
qed

text \<open>What the steps of a thread leave alone.\<close>

definition at_interface :: "int \<Rightarrow> int \<Rightarrow> nat \<Rightarrow> mcbsp_world \<Rightarrow> bool" where
  "at_interface n ifc i w \<longleftrightarrow> no_of_trans w = n \<and> mcbsp_id (mcbsptest_info w ! i) = ifc"

lemma solo_sends:
  assumes "at_interface n ifc i w"
  shows "\<exists>te w'. word_block (send_word D ifc) (l_data1 l) (l_data2 l) n (l_j l) 0 (l_tx_err l, w) = (te, w') \<and>
     at_interface n ifc i w' \<and> (solo hw D junk i)\<^sup>*\<^sup>* (Sending (l\<lparr>l_k := 0\<rparr>), w) (Receiving (l\<lparr>l_tx_err := te, l_k := 0\<rparr>), w')"
proof -
  let ?pc = "\<lambda>e k. Sending (l\<lparr>l_tx_err := e, l_k := k\<rparr>)"
  have step: "\<exists>e' v'. send_word D ifc ((if even k then l_data1 l else l_data2 l) + word_of_int k) (e, v) = (e', v') \<and>
      at_interface n ifc i v' \<and> solo hw D junk i (?pc e k, v) (?pc e' (k + 1), v')"
    if "k < 128" "l_j l + k < n" "at_interface n ifc i v" for e k v
  proof -
    obtain e' v' where s: "send_word D ifc ((if even k then l_data1 l else l_data2 l) + word_of_int k) (e, v) = (e', v')" by fastforce
    have "at_interface n ifc i v'"
      using that(3) word_step_keeps(1,2) [of D ifc _ "(e, v)"] s unfolding at_interface_def by (metis snd_conv)
    with s that show ?thesis by (auto simp: solo_def more_words_def next_word_def at_interface_def)
  qed
  from solo_block [OF step, where k = 0 and s = "(l_tx_err l, w)"] assms obtain k te w' where
    b: "word_block (send_word D ifc) (l_data1 l) (l_data2 l) n (l_j l) 0 (l_tx_err l, w) = (te, w')" "at_interface n ifc i w'"
      "k \<ge> 128 \<or> l_j l + k \<ge> n" "(solo hw D junk i)\<^sup>*\<^sup>* (Sending (l\<lparr>l_k := 0\<rparr>), w) (?pc te k, w')"
    by fastforce
  from b(2,3) have "solo hw D junk i (?pc te k, w') (Receiving (l\<lparr>l_tx_err := te, l_k := 0\<rparr>), w')"
    by (auto simp: solo_def more_words_def at_interface_def)
  with b show ?thesis by (blast intro: rtranclp.rtrancl_into_rtrancl)
qed

lemma solo_receives:
  assumes "at_interface n ifc i w"
  shows "\<exists>re w'. word_block (recv_word D ifc) (l_data1 l) (l_data2 l) n (l_j l) 0 (l_rx_err l, w) = (re, w') \<and>
     at_interface n ifc i w' \<and> (\<exists>k. (solo hw D junk i)\<^sup>*\<^sup>* (Receiving (l\<lparr>l_k := 0\<rparr>), w)
       (next_block (l\<lparr>l_rx_err := re, l_k := k, l_j := l_j l + 128\<rparr>) w', w'))"
proof -
  let ?pc = "\<lambda>e k. Receiving (l\<lparr>l_rx_err := e, l_k := k\<rparr>)"
  have step: "\<exists>e' v'. recv_word D ifc ((if even k then l_data1 l else l_data2 l) + word_of_int k) (e, v) = (e', v') \<and>
      at_interface n ifc i v' \<and> solo hw D junk i (?pc e k, v) (?pc e' (k + 1), v')"
    if "k < 128" "l_j l + k < n" "at_interface n ifc i v" for e k v
  proof -
    obtain e' v' where s: "recv_word D ifc ((if even k then l_data1 l else l_data2 l) + word_of_int k) (e, v) = (e', v')" by fastforce
    have "at_interface n ifc i v'"
      using that(3) word_step_keeps(3,4) [of D ifc _ "(e, v)"] s unfolding at_interface_def by (metis snd_conv)
    with s that show ?thesis by (auto simp: solo_def more_words_def next_word_def at_interface_def)
  qed
  from solo_block [OF step, where k = 0 and s = "(l_rx_err l, w)"] assms obtain k re w' where
    b: "word_block (recv_word D ifc) (l_data1 l) (l_data2 l) n (l_j l) 0 (l_rx_err l, w) = (re, w')" "at_interface n ifc i w'"
      "k \<ge> 128 \<or> l_j l + k \<ge> n" "(solo hw D junk i)\<^sup>*\<^sup>* (Receiving (l\<lparr>l_k := 0\<rparr>), w) (?pc re k, w')"
    by fastforce
  from b(2,3) have "solo hw D junk i (?pc re k, w') (next_block (l\<lparr>l_rx_err := re, l_k := k, l_j := l_j l + 128\<rparr>) w', w')"
    by (auto simp: solo_def more_words_def at_interface_def)
  with b show ?thesis by (blast intro: rtranclp.rtrancl_into_rtrancl)
qed

lemma solo_transmit:
  assumes "at_interface n ifc i w"
  shows "\<exists>l' w'. transmit D ifc (l_data1 l) (l_data2 l) n (l_j l) (l_tx_err l, l_rx_err l, w) = (l_tx_err l', l_rx_err l', w') \<and>
     (solo hw D junk i)\<^sup>*\<^sup>* (next_block l w, w) (Judging l', w')"
  using assms
proof (induction "nat (n - l_j l)" arbitrary: l w rule: less_induct)
  case less
  note tr = transmit.simps [of D ifc "l_data1 l" "l_data2 l" n "l_j l"]
  show ?case
  proof (cases "l_j l < n")
    case False
    then have "next_block l w = Judging l" using less.prems by (simp add: next_block_def at_interface_def)
    with False tr show ?thesis by auto
  next
    case True
    then have nb: "next_block l w = Sending (l\<lparr>l_k := 0\<rparr>)" using less.prems by (simp add: next_block_def at_interface_def)
    from solo_sends [OF less.prems, of D l hw junk] obtain te w1 where
      a: "word_block (send_word D ifc) (l_data1 l) (l_data2 l) n (l_j l) 0 (l_tx_err l, w) = (te, w1)" "at_interface n ifc i w1"
        "(solo hw D junk i)\<^sup>*\<^sup>* (Sending (l\<lparr>l_k := 0\<rparr>), w) (Receiving (l\<lparr>l_tx_err := te, l_k := 0\<rparr>), w1)" by blast
    from solo_receives [OF a(2), of D "l\<lparr>l_tx_err := te\<rparr>" hw junk] obtain re w2 k where
      b: "word_block (recv_word D ifc) (l_data1 l) (l_data2 l) n (l_j l) 0 (l_rx_err l, w1) = (re, w2)" "at_interface n ifc i w2"
        "(solo hw D junk i)\<^sup>*\<^sup>* (Receiving (l\<lparr>l_tx_err := te, l_k := 0\<rparr>), w1)
           (next_block (l\<lparr>l_tx_err := te, l_rx_err := re, l_k := k, l_j := l_j l + 128\<rparr>) w2, w2)" by auto
    let ?l = "l\<lparr>l_tx_err := te, l_rx_err := re, l_k := k, l_j := l_j l + 128\<rparr>"
    from less.hyps [of ?l w2] b(2) True obtain l' w' where
      c: "transmit D ifc (l_data1 l) (l_data2 l) n (l_j l + 128) (te, re, w2) = (l_tx_err l', l_rx_err l', w')"
        "(solo hw D junk i)\<^sup>*\<^sup>* (next_block ?l w2, w2) (Judging l', w')" by auto
    from a(1) b(1) c(1) True have "transmit D ifc (l_data1 l) (l_data2 l) n (l_j l) (l_tx_err l, l_rx_err l, w) = (l_tx_err l', l_rx_err l', w')"
      by (simp add: tr)
    moreover from a(3) b(3) c(2) nb have "(solo hw D junk i)\<^sup>*\<^sup>* (next_block l w, w) (Judging l', w')"
      by (metis rtranclp_trans)
    ultimately show ?thesis by blast
  qed
qed

definition found_error :: "mcbsp_thread \<Rightarrow> bool" where
  "found_error p \<longleftrightarrow> (case p of Ended l \<Rightarrow> l_tx_err l \<noteq> 0 \<or> l_rx_err l \<noteq> 0 | _ \<Rightarrow> False)"

text \<open>Uninterrupted, the steps of a thread are the transmission.\<close>

lemma solo_is_transmission:
  "\<exists>l'. (solo hw D junk i)\<^sup>*\<^sup>* (Starting, w) (Ended l', snd (start_mcbsp_transmission hw D junk i w)) \<and>
     transmission_status (snd (start_mcbsp_transmission hw D junk i w)) = (if found_error (Ended l') then 1 else 0)"
proof -
  let ?w = "w\<lparr>transmission_status := 0, no_of_words_tx := 0\<rparr>"
  let ?l = "\<lparr>l_data1 = data1 hw (fst junk) w, l_data2 = data2 hw (snd junk) w, l_j = 0, l_k = 0, l_tx_err = 0, l_rx_err = 0\<rparr>"
  let ?v = "snd (start_mcbsp_transmission hw D junk i w)"
  have d: "data1 hw j ?w = data1 hw j w" "data2 hw j ?w = data2 hw j w" for j by (simp_all add: data1_def data2_def cong: if_cong)
  have "at_interface (no_of_trans w) (mcbsp_id (mcbsptest_info w ! i)) i ?w" by (simp add: at_interface_def)
  from solo_transmit [OF this, of D ?l hw junk] obtain l' v where
    t: "transmit D (mcbsp_id (mcbsptest_info w ! i)) (data1 hw (fst junk) w) (data2 hw (snd junk) w) (no_of_trans w) 0 (0, 0, ?w) = (l_tx_err l', l_rx_err l', v)"
      "(solo hw D junk i)\<^sup>*\<^sup>* (next_block ?l ?w, ?w) (Judging l', v)"
    by auto
  from transmission_result [of hw D junk i w] t(1) have
    r: "?v = v\<lparr>transmission_status := if l_tx_err l' \<noteq> 0 \<or> l_rx_err l' \<noteq> 0 then 1 else 0\<rparr>" and z: "transmission_status v = 0"
    by (auto simp: tx_inv_def)
  have "mcbsp_step hw D junk i (Judging l') v = (Ended l', ?v)" unfolding r using z by simp
  then have "(solo hw D junk i)\<^sup>*\<^sup>* (Judging l', v) (Ended l', ?v)" by (auto intro: solo_stepI)
  with t(2) have "(solo hw D junk i)\<^sup>*\<^sup>* (next_block ?l ?w, ?w) (Ended l', ?v)" by (rule rtranclp_trans)
  then have "(solo hw D junk i)\<^sup>*\<^sup>* (Starting, w) (Ended l', ?v)" by (rule solo_stepI [rotated]) (simp add: Let_def d)
  with r show ?thesis by (auto simp: found_error_def)
qed

section \<open>Two threads\<close>

lemma solo_multi:
  assumes "(solo hw D junk t)\<^sup>*\<^sup>* (p, w) (p', w')" and "t < length ps" and "ps ! t = p"
  shows "(multi_step (mcbsp_step hw D junk))\<^sup>*\<^sup>* (ps, w) (ps[t := p'], w')"
  using assms
proof (induction rule: rtranclp_induct2)
  case refl
  then show ?case by (auto simp: list_update_id)
next
  case (step p1 w1 p2 w2)
  have "multi_step (mcbsp_step hw D junk) (ps[t := p1], w1) ((ps[t := p1])[t := p2], w2)"
    using step.hyps(2) step.prems(1) by (intro multi_step.sched) (simp_all add: solo_def)
  with step show ?case by simp
qed

text \<open>
  C16. Whatever the first thread found: when the second thread starts behind it, the status that the module
  reports is that of the second transmission alone.
\<close>

theorem mcbsp_smp_verdict_lost:
  "let v = snd (start_mcbsp_transmission hw D junk 0 w); v' = snd (start_mcbsp_transmission hw D junk 1 v)
   in \<exists>l0 l1. (multi_step (mcbsp_step hw D junk))\<^sup>*\<^sup>* ([Starting, Starting], w) ([Ended l0, Ended l1], v') \<and>
     (transmission_status v = 1 \<longleftrightarrow> found_error (Ended l0)) \<and> (transmission_status v' = 1 \<longleftrightarrow> found_error (Ended l1))"
proof -
  let ?v = "snd (start_mcbsp_transmission hw D junk 0 w)"
  let ?v' = "snd (start_mcbsp_transmission hw D junk 1 ?v)"
  obtain l0 where a: "(solo hw D junk 0)\<^sup>*\<^sup>* (Starting, w) (Ended l0, ?v)" "transmission_status ?v = (if found_error (Ended l0) then 1 else 0)"
    using solo_is_transmission by blast
  obtain l1 where b: "(solo hw D junk 1)\<^sup>*\<^sup>* (Starting, ?v) (Ended l1, ?v')" "transmission_status ?v' = (if found_error (Ended l1) then 1 else 0)"
    using solo_is_transmission by blast
  have "(multi_step (mcbsp_step hw D junk))\<^sup>*\<^sup>* ([Starting, Starting], w) ([Ended l0, Ended l1], ?v')"
    using solo_multi [OF a(1), of "[Starting, Starting]"] solo_multi [OF b(1), of "[Ended l0, Starting]"] by (auto intro: rtranclp_trans)
  with a(2) b(2) show ?thesis unfolding Let_def by (auto split: if_splits)
qed

text \<open>A status of failure is never made up, in any interleaving: some thread has found an error.\<close>

lemma request_keeps_status:
  assumes "omap2_mcbsp_request_interface hw D i w = Some (r, w')"
  shows "transmission_status w' = transmission_status w"
  using assms
  by (auto simp: omap2_mcbsp_request_interface_def omap2_mcbsp_params_cfg_def fill_global_structure_def Let_def case_prod_beta
      tell_def ask_def split: if_splits option.splits)

lemma mcbsp_step_status:
  assumes "mcbsp_step hw D junk i p w = (p', w')"
  shows "transmission_status w' \<in> {0, transmission_status w} \<or> transmission_status w' = 1 \<and> found_error p'"
    and "found_error p \<Longrightarrow> p' = p"
  using assms
  by (cases p; auto simp: found_error_def send_word_def recv_word_def case_prod_beta ask_def Let_def
      dest: request_keeps_status split: if_splits option.splits)+

theorem mcbsp_smp_failure_sound:
  assumes "(multi_step (mcbsp_step hw D junk))\<^sup>*\<^sup>* (ps, w) (ps', w')" and "transmission_status w = 0"
  shows "transmission_status w' = 0 \<or> transmission_status w' = 1 \<and> (\<exists>p \<in> set ps'. found_error p)"
  using assms
proof (induction rule: rtranclp_induct2)
  case (step ps1 w1 ps2 w2)
  from step.hyps(2) show ?case
  proof (rule multi_stepE)
    fix t p' v
    assume u: "(ps2, w2) = (ps1[t := p'], v)" "t < length ps1" "mcbsp_step hw D junk t (ps1 ! t) w1 = (p', v)"
    note st = mcbsp_step_status [OF u(3)]
    have "p' \<in> set ps2" using u(1,2) by (simp add: set_update_memI)
    moreover have "p \<in> set ps2" if "p \<in> set ps1" "found_error p" for p
      using that st(2) u(1,2) by (metis in_set_conv_nth length_list_update nth_list_update nth_mem prod.inject)
    ultimately show ?thesis using step.IH step.prems st(1) u(1) by auto
  qed
qed simp

end
