(* ===== verification/Rtc_Set.thy ===== *)
theory Rtc_Set
  imports Call_Env "HOL-Library.Signed_Division"
begin

text \<open>
  The programs \<^verbatim>\<open>alarm_set.c\<close> and \<^verbatim>\<open>time_set.c\<close> of the real-time clock tests: the parsing of a date and a
  time, the computation of an alarm some seconds ahead, and the sequence of device calls. What is
  printed is left out.
\<close>

section \<open>Data\<close>

text \<open>The fields of \<^verbatim>\<open>struct rtc_time\<close> that the programs use.\<close>

record rtc_time =
  tm_sec :: int
  tm_min :: int
  tm_hour :: int
  tm_mday :: int
  tm_mon :: int
  tm_year :: int

datatype rcall =
    Open_dev string
  | Rtc_rd_time
  | Rtc_alm_set rtc_time
  | Rtc_alm_read
  | Rtc_aie_on
  | Rtc_set_time rtc_time
  | Close_dev

text \<open>How a program ends: \<^verbatim>\<open>return\<close>, \<^verbatim>\<open>_exit\<close>, or a write behind a buffer, after which nothing is said.\<close>

datatype ending = Returned int | Exited int | Overrun

text \<open>
  What is typed: the numbers and words that \<^verbatim>\<open>scanf\<close> stores. \<open>clk\<close> is the time the device stores for
  \<^verbatim>\<open>RTC_RD_TIME\<close>, \<open>err\<close> the value of \<^verbatim>\<open>errno\<close>, both after the calls made so far.
\<close>

record typed =
  t_choice :: int
  t_secs :: int
  t_date :: string
  t_time :: string

type_synonym rlog = "(rcall \<times> int) list"
type_synonym rtc_world = "rcall dev_world"

text \<open>A value stored in an \<^verbatim>\<open>int\<close> of 32 bits.\<close>

definition to_int32 :: "int \<Rightarrow> int" where
  "to_int32 x = (x + 2 ^ 31) mod 2 ^ 32 - 2 ^ 31"

section \<open>Date and time\<close>

definition is_digit :: "char \<Rightarrow> bool" where
  "is_digit c \<longleftrightarrow> c \<in> set ''0123456789''"

fun digits_value :: "int \<Rightarrow> string \<Rightarrow> int" where
  "digits_value acc [] = acc"
| "digits_value acc (c # cs) =
     (if is_digit c then digits_value (acc * 10 + int (of_char c) - 48) cs else acc)"

text \<open>\<^verbatim>\<open>atoi\<close> of a word without leading blanks.\<close>

definition atoi :: "string \<Rightarrow> int" where
  "atoi cs = (if take 1 cs = ''-'' then - digits_value 0 (tl cs)
     else if take 1 cs = ''+'' then digits_value 0 (tl cs)
     else digits_value 0 cs)"

text \<open>One round of the loops that take a number apart: the byte and what is left.\<close>

definition two_digits :: "int \<Rightarrow> u8 \<times> int" where
  "two_digits num =
     (let d = (word_of_int (num smod 10) :: u8);
          num = num sdiv 10;
          d = d + word_of_int ((num smod 10) * 10);
          num = num sdiv 10
      in (d, num))"

text \<open>
  \<^verbatim>\<open>get_timedate\<close> (in \<^verbatim>\<open>time_set.c\<close> \<^verbatim>\<open>get_time_date\<close>): \<^verbatim>\<open>scanf\<close> stores the words in buffers of seven characters;
  None is a longer word. The bytes are \<^verbatim>\<open>data[0]\<close> to \<^verbatim>\<open>data[5]\<close>.
\<close>

definition get_timedate :: "string \<Rightarrow> string \<Rightarrow> rtc_time option" where
  "get_timedate date_str time_str =
     (if length date_str \<ge> 7 \<or> length time_str \<ge> 7 then None
      else
        case two_digits (atoi date_str) of (data0, num) \<Rightarrow>
        case two_digits num of (data1, num) \<Rightarrow>
        case two_digits num of (data2, num) \<Rightarrow>
        case two_digits (atoi time_str) of (data3, num) \<Rightarrow>
        case two_digits num of (data4, num) \<Rightarrow>
        case two_digits num of (data5, num) \<Rightarrow>
          Some \<lparr>tm_sec = uint data3, tm_min = uint data4, tm_hour = uint data5,
            tm_mday = uint data1, tm_mon = uint data2 - 1, tm_year = uint data0 + 100\<rparr>)"

section \<open>The alarm\<close>

text \<open>\<^verbatim>\<open>while (low >= limit) { low -= limit; high++; }\<close> with a positive limit.\<close>

function roll :: "int \<Rightarrow> int \<Rightarrow> int \<Rightarrow> int \<times> int" where
  "roll limit low high = (if 0 < limit \<and> low \<ge> limit then roll limit (low - limit) (high + 1) else (low, high))"
  by pat_completeness auto
termination by (relation "measure (\<lambda>(limit, low, high). nat low)") auto

declare roll.simps [simp del]

definition alarm_after :: "int \<Rightarrow> rtc_time \<Rightarrow> rtc_time" where
  "alarm_after secs t =
     (let t = t\<lparr>tm_sec := to_int32 (tm_sec t + secs)\<rparr>
      in case roll 60 (tm_sec t) (tm_min t) of (s, m) \<Rightarrow>
         case roll 60 m (tm_hour t) of (m, h) \<Rightarrow>
         case roll 24 h (tm_mday t) of (h, d) \<Rightarrow>
           t\<lparr>tm_sec := s, tm_min := m, tm_hour := h, tm_mday := d\<rparr>)"

definition nosecs :: "rtc_time \<Rightarrow> int" where
  "nosecs t = tm_sec t + tm_min t * 60 + tm_hour t * 24 + 365 * tm_year t"

text \<open>\<^verbatim>\<open>validate_data\<close>: \<open>Inl\<close> is the exit when the time cannot be read.\<close>

definition validate_data :: "rcall device \<Rightarrow> (rlog \<Rightarrow> rtc_time) \<Rightarrow> (rlog \<Rightarrow> int) \<Rightarrow> rtc_time \<Rightarrow> rtc_world \<Rightarrow>
    (ending + int) \<times> rtc_world" where
  "validate_data D clk err almtm w =
     (case ask D Rtc_rd_time w of (retval, w) \<Rightarrow>
        if retval = - 1 then (Inl (Exited (err (clog w))), w)
        else (Inr (if nosecs almtm \<le> nosecs (clk (clog w)) then - 1 else 0), w))"

text \<open>The end of \<^verbatim>\<open>main\<close>, shared by the choices: enable the interrupt, close, return.\<close>

definition alarm_finish :: "rcall device \<Rightarrow> rtc_world \<Rightarrow> ending \<times> rtc_world" where
  "alarm_finish D w = (Returned 0, tell D Close_dev (tell D Rtc_aie_on w))"

text \<open>Set the alarm and read it back.\<close>

definition set_and_read :: "rcall device \<Rightarrow> (rlog \<Rightarrow> int) \<Rightarrow> rtc_time \<Rightarrow> rtc_world \<Rightarrow> ending \<times> rtc_world" where
  "set_and_read D err t w =
     (case ask D (Rtc_alm_set t) w of (retval, w) \<Rightarrow>
      if retval = - 1 then (Exited (err (clog w)), w)
      else case ask D Rtc_alm_read w of (retval, w) \<Rightarrow>
      if retval = - 1 then (Exited (err (clog w)), w)
      else alarm_finish D w)"

definition alarm_set_main :: "rcall device \<Rightarrow> (rlog \<Rightarrow> rtc_time) \<Rightarrow> (rlog \<Rightarrow> int) \<Rightarrow> string \<Rightarrow> typed \<Rightarrow> rtc_world \<Rightarrow>
    ending \<times> rtc_world" where
  "alarm_set_main D clk err dev inp w =
     (case ask D (Open_dev dev) w of (fd, w) \<Rightarrow>
      if fd = - 1 then (Exited (err (clog w)), w)
      else if t_choice inp = 0 \<or> t_choice inp = 1 then
        if t_choice inp = 1 \<and> t_secs inp \<le> 0 then (Exited (- 1), w)
        else case ask D Rtc_rd_time w of (retval, w) \<Rightarrow>
          if retval = - 1 then (Exited (err (clog w)), w)
          else set_and_read D err (alarm_after (if t_choice inp = 0 then 5 else t_secs inp) (clk (clog w))) w
      else if t_choice inp = 2 then
        case get_timedate (t_date inp) (t_time inp) of
          None \<Rightarrow> (Overrun, w)
        | Some almtm \<Rightarrow>
            (case validate_data D clk err almtm w of
               (Inl e, w) \<Rightarrow> (e, w)
             | (Inr _, w) \<Rightarrow> set_and_read D err almtm w)
      else (Exited (- 1), w))"

section \<open>Setting the time\<close>

definition default_time :: rtc_time where
  "default_time = \<lparr>tm_sec = 45, tm_min = 59, tm_hour = 23, tm_mday = 31, tm_mon = 11, tm_year = 104\<rparr>"

definition time_set_main :: "rcall device \<Rightarrow> (rlog \<Rightarrow> int) \<Rightarrow> string \<Rightarrow> typed \<Rightarrow> rtc_world \<Rightarrow> ending \<times> rtc_world" where
  "time_set_main D err dev inp w =
     (case ask D (Open_dev dev) w of (fd, w) \<Rightarrow>
      if fd = - 1 then (Exited (err (clog w)), w)
      else case (if t_choice inp \<noteq> 0 then Some default_time else get_timedate (t_date inp) (t_time inp)) of
        None \<Rightarrow> (Overrun, w)
      | Some t \<Rightarrow>
          (case ask D (Rtc_set_time t) w of (retval, w) \<Rightarrow>
           if retval = - 1 then (Exited (err (clog w)), w)
           else case ask D Rtc_rd_time w of (retval, w) \<Rightarrow>
           if retval = - 1 then (Exited (err (clog w)), w)
           else (Returned 0, tell D Close_dev w)))"

section \<open>Lemmas\<close>

text \<open>A number below 100 written with two digits.\<close>

definition dd :: "nat \<Rightarrow> string" where
  "dd n = [char_of (48 + n div 10), char_of (48 + n mod 10)]"

lemma digit_char:
  assumes "d < 10"
  shows "is_digit (char_of (48 + d :: nat))" "char_of (48 + d :: nat) \<noteq> CHR ''-''" "char_of (48 + d :: nat) \<noteq> CHR ''+''"
proof -
  have "\<forall>d \<in> set [0..<10]. is_digit (char_of (48 + d :: nat)) \<and> char_of (48 + d :: nat) \<noteq> CHR ''-'' \<and> char_of (48 + d :: nat) \<noteq> CHR ''+''"
    by code_simp
  then show "is_digit (char_of (48 + d :: nat))" "char_of (48 + d :: nat) \<noteq> CHR ''-''" "char_of (48 + d :: nat) \<noteq> CHR ''+''"
    using assms by auto
qed

lemma digits_value_digit:
  assumes "d < 10"
  shows "digits_value acc (char_of (48 + d :: nat) # cs) = digits_value (acc * 10 + int d) cs"
  using digit_char(1) [OF assms] assms by simp

lemma digits_value_dd:
  assumes "n < 100"
  shows "digits_value acc (dd n @ cs) = digits_value (acc * 100 + int n) cs"
proof -
  have "n div 10 < 10" "n mod 10 < 10" using assms by auto
  then have "digits_value acc (dd n @ cs) = digits_value ((acc * 10 + int (n div 10)) * 10 + int (n mod 10)) cs"
    by (simp only: dd_def append.simps digits_value_digit)
  moreover have "(acc * 10 + int (n div 10)) * 10 + int (n mod 10) = acc * 100 + int n"
  proof -
    have "int n = int (n div 10) * 10 + int (n mod 10)"
      by (metis div_mult_mod_eq of_nat_add of_nat_mult of_nat_numeral)
    moreover obtain a b where "int (n div 10) = a" "int (n mod 10) = b" by blast
    ultimately show ?thesis by simp
  qed
  ultimately show ?thesis by (simp only:)
qed

lemma atoi_dd:
  assumes "n < 100"
  shows "atoi (dd n @ cs) = digits_value 0 (dd n @ cs)"
proof -
  have "n div 10 < 10" using assms by auto
  then show ?thesis using digit_char(2,3) [of "n div 10"] by (simp add: atoi_def dd_def)
qed

lemma two_digits_last:
  assumes "r < 100" and "0 \<le> q"
  shows "two_digits (q * 100 + int r) = (word_of_int (int r), q)"
proof -
  let ?n = "q * 100 + int r"
  have n: "0 \<le> ?n" using assms by simp
  have m: "?n smod 10 = ?n mod 10" "?n sdiv 10 = ?n div 10" "?n div 10 smod 10 = ?n div 10 mod 10" "?n div 10 sdiv 10 = ?n div 10 div 10"
    using n by (auto simp: signed_modulo_int_def signed_divide_int_def sgn_if)
  have e: "?n mod 10 + ?n div 10 mod 10 * 10 = int r" "?n div 10 div 10 = q"
    using zmod_zmult2_eq [of 10 ?n 10] zdiv_zmult2_eq [of 10 ?n 10] assms by simp_all
  have "word_of_int (?n mod 10) + word_of_int (?n div 10 mod 10 * 10) = (word_of_int (int r) :: u8)"
    by (simp only: wi_hom_add e(1))
  then show ?thesis by (simp only: two_digits_def Let_def m e(2))
qed

lemma roll_exact:
  assumes "0 < limit" and "0 \<le> low"
  shows "roll limit low high = (low mod limit, high + low div limit)"
  using assms(2)
proof (induction "nat low" arbitrary: low high rule: less_induct)
  case less
  show ?case
  proof (cases "low \<ge> limit")
    case True
    have "roll limit low high = roll limit (low - limit) (high + 1)"
      using roll.simps [of limit low high] True assms(1) by argo
    also have "\<dots> = ((low - limit) mod limit, high + 1 + (low - limit) div limit)"
      by (rule less.hyps) (use True assms(1) in simp_all)
    finally show ?thesis by (simp add: mod_pos_geq [OF assms(1) True, symmetric] div_pos_geq [OF assms(1) True])
  next
    case False
    then show ?thesis using roll.simps [of limit low high] less.prems by simp
  qed
qed

lemma parts_unique:
  assumes "x = q * 86400 + r" and "0 \<le> r" and "r < (86400 :: int)"
  shows "x mod 86400 = r" "x div 86400 = q"
  using assms by simp_all

lemma to_int32_id: "- (2 ^ 31) \<le> x \<Longrightarrow> x < 2 ^ 31 \<Longrightarrow> to_int32 x = x"
  by (simp add: to_int32_def)

section \<open>Properties\<close>

text \<open>
  C17. A date MMDDYY and a time HHMMSS written with two digits each are read back as they were meant, the
  month counted from 0 and the year from 1900.
\<close>

theorem rtc_date_roundtrip:
  assumes "mm < 100" and "md < 100" and "yy < 100" and "hh < 100" and "mi < 100" and "ss < 100"
  shows "get_timedate (dd mm @ dd md @ dd yy) (dd hh @ dd mi @ dd ss) =
    Some \<lparr>tm_sec = int ss, tm_min = int mi, tm_hour = int hh, tm_mday = int md, tm_mon = int mm - 1, tm_year = int yy + 100\<rparr>"
proof -
  have v: "atoi (dd a @ dd b @ dd c) = (int a * 100 + int b) * 100 + int c" if "a < 100" "b < 100" "c < 100" for a b c
    using digits_value_dd [OF that(3), of "(int a * 100 + int b)" "[]"] that
    by (simp add: atoi_dd digits_value_dd)
  have t: "two_digits ((int a * 100 + int b) * 100 + int c) = (word_of_int (int c), int a * 100 + int b)"
    "two_digits (int a * 100 + int b) = (word_of_int (int b), int a)" "two_digits (int a) = (word_of_int (int a), 0)"
    if "a < 100" "b < 100" "c < 100" for a b c
    using two_digits_last [of c "int a * 100 + int b"] two_digits_last [of b "int a"] two_digits_last [of a 0] that by simp_all
  have u: "uint (word_of_nat a :: u8) = int a" if "a < 100" for a
    using that by (simp add: unsigned_of_nat take_bit_nat_eq_self)
  have c: "\<not> (length (dd mm @ dd md @ dd yy) \<ge> 7 \<or> length (dd hh @ dd mi @ dd ss) \<ge> 7)" by (simp add: dd_def)
  show ?thesis
    unfolding get_timedate_def if_not_P [OF c] using assms by (simp only: v t prod.case) (simp add: u)
qed

theorem rtc_date_roundtrip_witness:
  "get_timedate ''123104'' ''235945'' = Some default_time"
proof -
  have "dd 12 @ dd 31 @ dd 4 = ''123104''" "dd 23 @ dd 59 @ dd 45 = ''235945''" by code_simp+
  with rtc_date_roundtrip [of 12 31 4 23 59 45] show ?thesis by (simp add: default_time_def)
qed

definition seconds_of_day :: "rtc_time \<Rightarrow> int" where
  "seconds_of_day t = tm_hour t * 3600 + tm_min t * 60 + tm_sec t"

definition valid_tod :: "rtc_time \<Rightarrow> bool" where
  "valid_tod t \<longleftrightarrow> 0 \<le> tm_sec t \<and> tm_sec t < 60 \<and> 0 \<le> tm_min t \<and> tm_min t < 60 \<and> 0 \<le> tm_hour t \<and> tm_hour t < 24"

text \<open>
  C38. The alarm is exactly the given seconds after the current time: a time of day in range, and as many
  days later as the seconds fill. Month and year stay as they are, so the day may run past the end of
  the month.
\<close>

theorem rtc_alarm_after_exact:
  assumes "valid_tod t" and "0 \<le> secs" and "tm_sec t + secs < 2 ^ 31"
  shows "let a = alarm_after secs t
    in valid_tod a \<and> seconds_of_day a = (seconds_of_day t + secs) mod 86400 \<and>
       tm_mday a = tm_mday t + (seconds_of_day t + secs) div 86400 \<and> tm_mon a = tm_mon t \<and> tm_year a = tm_year t"
proof -
  let ?s = "tm_sec t + secs"
  let ?m = "tm_min t + ?s div 60"
  let ?h = "tm_hour t + ?m div 60"
  have v: "0 \<le> ?s" "0 \<le> ?m" "0 \<le> ?h" using assms(1,2) by (auto simp: valid_tod_def)
  have a: "alarm_after secs t = t\<lparr>tm_sec := ?s mod 60, tm_min := ?m mod 60, tm_hour := ?h mod 24, tm_mday := tm_mday t + ?h div 24\<rparr>"
    using v assms(3) by (simp add: alarm_after_def to_int32_id roll_exact)
  have p: "seconds_of_day t + secs = (?h div 24) * 86400 + ((?h mod 24) * 3600 + (?m mod 60) * 60 + ?s mod 60)"
    using div_mult_mod_eq [of ?s 60] div_mult_mod_eq [of ?m 60] div_mult_mod_eq [of ?h 24]
    unfolding seconds_of_day_def by linarith
  have b: "(?h mod 24) * 3600 + (?m mod 60) * 60 + ?s mod 60 < 86400" "0 \<le> (?h mod 24) * 3600 + (?m mod 60) * 60 + ?s mod 60"
  proof -
    have "?h mod 24 \<le> 23" "?m mod 60 \<le> 59" "?s mod 60 \<le> 59" "0 \<le> ?h mod 24" "0 \<le> ?m mod 60" "0 \<le> ?s mod 60" by simp_all
    then show "(?h mod 24) * 3600 + (?m mod 60) * 60 + ?s mod 60 < 86400" "0 \<le> (?h mod 24) * 3600 + (?m mod 60) * 60 + ?s mod 60" by linarith+
  qed
  note parts_unique [OF p b(2,1)]
  moreover have "valid_tod (alarm_after secs t)" unfolding a valid_tod_def by simp
  moreover have "seconds_of_day (alarm_after secs t) = (?h mod 24) * 3600 + (?m mod 60) * 60 + ?s mod 60"
    "tm_mday (alarm_after secs t) = tm_mday t + ?h div 24" "tm_mon (alarm_after secs t) = tm_mon t"
    "tm_year (alarm_after secs t) = tm_year t"
    unfolding a seconds_of_day_def by simp_all
  ultimately show ?thesis unfolding Let_def by (simp only: simp_thms)
qed

theorem rtc_alarm_after_exact_witness:
  "tm_mday (alarm_after 30 default_time) = 32 \<and> seconds_of_day (alarm_after 30 default_time) = 15"
proof -
  have "valid_tod default_time" "(0 :: int) \<le> 30" "tm_sec default_time + 30 < 2 ^ 31"
    by (simp_all add: valid_tod_def default_time_def)
  from rtc_alarm_after_exact [OF this] show ?thesis
    by (simp add: Let_def) (simp add: default_time_def seconds_of_day_def)
qed

text \<open>
  When the device accepts every call, \<^verbatim>\<open>alarm_set\<close> makes its six calls and returns 0. A date that was
  typed is programmed as it is, whatever the comparison with the current time said.
\<close>

theorem rtc_validation_ignored:
  assumes "\<And>h c. D h c \<noteq> - 1"
    and "t_choice inp = 0 \<or> t_choice inp = 1 \<and> 0 < t_secs inp \<or> t_choice inp = 2 \<and> get_timedate (t_date inp) (t_time inp) = Some typed_time"
  shows "let opened = (Open_dev dev, D (clog w) (Open_dev dev)) # clog w;
      now = clk ((Rtc_rd_time, D opened Rtc_rd_time) # opened);
      alarm = (if t_choice inp = 2 then typed_time else alarm_after (if t_choice inp = 0 then 5 else t_secs inp) now)
    in \<exists>w'. alarm_set_main D clk err dev inp w = (Returned 0, w') \<and>
      map fst (clog w') = [Close_dev, Rtc_aie_on, Rtc_alm_read, Rtc_alm_set alarm, Rtc_rd_time, Open_dev dev] @ map fst (clog w)"
  using assms
  by (auto simp: Let_def alarm_set_main_def validate_data_def set_and_read_def alarm_finish_def case_prod_beta)

theorem rtc_validation_ignored_witness:
  "\<exists>w'. alarm_set_main (\<lambda>h c. 3) (\<lambda>h. default_time) (\<lambda>h. 0) ''/dev/rtc0''
      \<lparr>t_choice = 2, t_secs = 0, t_date = ''123104'', t_time = ''235945''\<rparr> \<lparr>clog = []\<rparr> = (Returned 0, w') \<and>
    Rtc_alm_set default_time \<in> set (map fst (clog w'))"
proof -
  have "get_timedate ''123104'' ''235945'' = Some default_time" by code_simp
  then show ?thesis
    using rtc_validation_ignored [of "\<lambda>h c. 3" "\<lparr>t_choice = 2, t_secs = 0, t_date = ''123104'', t_time = ''235945''\<rparr>" default_time
      "''/dev/rtc0''" "\<lparr>clog = []\<rparr>" "\<lambda>h. default_time" "\<lambda>h. 0"]
    by (auto simp: Let_def)
qed

text \<open>
  The comparison weighs an hour as 24 seconds and does not look at the day: on one day it accepts an
  alarm in the past and refuses one in the future.
\<close>

theorem rtc_validate_unsound:
  "\<exists>now early late. valid_tod now \<and> valid_tod early \<and> valid_tod late \<and>
     tm_mday early = tm_mday now \<and> tm_mon early = tm_mon now \<and> tm_year early = tm_year now \<and>
     tm_mday late = tm_mday now \<and> tm_mon late = tm_mon now \<and> tm_year late = tm_year now \<and>
     seconds_of_day early < seconds_of_day now \<and> seconds_of_day now < seconds_of_day late \<and>
     fst (validate_data (\<lambda>h c. 0) (\<lambda>h. now) err early w) = Inr 0 \<and>
     fst (validate_data (\<lambda>h c. 0) (\<lambda>h. now) err late w) = Inr (- 1)"
proof -
  let ?t = "\<lambda>h m. \<lparr>tm_sec = 0, tm_min = m, tm_hour = h, tm_mday = 1, tm_mon = 0, tm_year = 110\<rparr>"
  show ?thesis
    by (rule exI [of _ "?t 12 30"], rule exI [of _ "?t 11 59"], rule exI [of _ "?t 13 0"])
      (simp add: valid_tod_def seconds_of_day_def validate_data_def nosecs_def case_prod_beta)
qed

text \<open>A long wait overflows the seconds: the alarm is then programmed with negative seconds.\<close>

theorem rtc_alarm_overflow:
  assumes "0 \<le> tm_sec t" and "tm_sec t < 60" and "secs < 2 ^ 31" and "2 ^ 31 \<le> tm_sec t + secs" and "valid_tod t"
  shows "tm_sec (alarm_after secs t) < 0"
proof -
  let ?s = "to_int32 (tm_sec t + secs)"
  have "?s = tm_sec t + secs - 2 ^ 32"
    using assms(1-4) unfolding to_int32_def by (simp add: mod_pos_geq)
  then have "?s < 0" using assms(2,3) by simp
  moreover from this have "roll 60 ?s m = (?s, m)" for m by (simp add: roll.simps)
  ultimately show ?thesis using assms(5) by (simp add: alarm_after_def roll_exact valid_tod_def)
qed

end
