(* ===== verification/Uart.thy ===== *)
theory Uart
  imports Call_Env
begin

text \<open>
  The high-speed UART test program: \<^verbatim>\<open>common.c\<close> (the port and its configuration) and \<^verbatim>\<open>ts_uart.c\<close> (sending a
  file of a known pattern, or receiving until a break). What is printed and the times measured are left
  out.
\<close>

section \<open>Terminal attributes\<close>

text \<open>The constants of \<^verbatim>\<open>termios.h\<close>; \<open>baud r\<close> is the code \<^verbatim>\<open>B<r>\<close> of a rate.\<close>

record tty =
  baud :: "int \<Rightarrow> u32"
  CBAUD :: u32
  CBAUDEX :: u32
  CRTSCTS :: u32
  PARENB :: u32
  CSTOPB :: u32
  CSIZE :: u32
  CS8 :: u32
  CLOCAL :: u32
  CREAD :: u32
  IXON :: u32
  IXOFF :: u32
  IXANY :: u32
  ICRNL :: u32
  INPCK :: u32
  ISTRIP :: u32
  BRKINT :: u32
  ICANON :: u32
  IEXTEN :: u32
  ECHO :: u32
  ISIG :: u32
  OPOST :: u32
  VSTART :: nat
  VSTOP :: nat
  VMIN :: nat
  VTIME :: nat

record termios =
  c_iflag :: u32
  c_oflag :: u32
  c_cflag :: u32
  c_lflag :: u32
  c_cc :: "nat \<Rightarrow> u8"

text \<open>The speed is the field of \<^verbatim>\<open>c_cflag\<close> under \<^verbatim>\<open>CBAUD | CBAUDEX\<close>.\<close>

definition speed_mask :: "tty \<Rightarrow> u32" where
  "speed_mask C = CBAUD C OR CBAUDEX C"

definition cfsetspeed :: "tty \<Rightarrow> u32 \<Rightarrow> termios \<Rightarrow> termios" where
  "cfsetspeed C code t = t\<lparr>c_cflag := (c_cflag t AND NOT (speed_mask C)) OR code\<rparr>"

definition cfgetispeed :: "tty \<Rightarrow> termios \<Rightarrow> u32" where
  "cfgetispeed C t = c_cflag t AND speed_mask C"

section \<open>State\<close>

text \<open>How the program ends: \<^verbatim>\<open>exit\<close>, or a write behind a buffer or a null pointer, after which nothing is said.\<close>

datatype uart_end = Exit int | Undefined

datatype ucall =
    Signal
  | Open_port string
  | Fcntl
  | Tcgetattr
  | Tcflush
  | Tcsetattr termios
  | Loopback
  | Port_write "u8 list" int
  | Port_read
  | Tcdrain
  | Tcsendbreak
  | Select
  | Fd_isset
  | Open_file string
  | Read_file
  | Write_file "u8 list"
  | Lseek
  | Unlink string
  | Md5sum string
  | Close_file
  | Close

text \<open>The attributes the port has, and those saved by the program.\<close>

record uart_world = "ucall dev_world" +
  attr :: termios
  oldtio :: termios

definition bufsize :: nat where
  "bufsize = 4095"

definition MB :: nat where
  "MB = 1024 * 1024"

section \<open>The port\<close>

definition writeport :: "ucall device \<Rightarrow> u8 list \<Rightarrow> int \<Rightarrow> uart_world \<Rightarrow> int \<times> uart_world" where
  "writeport D chars len w =
     (case ask D (Port_write chars len) w of (n, w) \<Rightarrow> if n < 0 then (0, w) else (1, w))"

text \<open>\<open>rx\<close> gives the bytes that a read stores in the buffer after the calls made so far.\<close>

type_synonym bytes_in = "(ucall \<times> int) list \<Rightarrow> u8 list"

definition readport :: "ucall device \<Rightarrow> bytes_in \<Rightarrow> uart_world \<Rightarrow> int \<times> u8 list \<times> uart_world" where
  "readport D rx w =
     (case ask D Port_read w of (iIn, w) \<Rightarrow>
      let buf = rx (clog w)
      in if iIn < 0 then (0, buf, w)
         else if iIn = 1 \<and> take 1 buf = [0] then (0, buf, w)
         else (iIn, buf, w))"

text \<open>The rates of the switch of \<^verbatim>\<open>getbaud\<close>, and how \<^verbatim>\<open>initport\<close> groups them.\<close>

definition low_rates :: "int list" where
  "low_rates = [300, 600, 1200, 1800, 2400, 4800, 9600, 19200, 38400]"

definition high_rates :: "int list" where
  "high_rates = [115200, 230400, 460800, 500000, 576000, 921600, 1000000, 1152000, 1500000, 2000000, 2500000, 3000000, 3500000]"

text \<open>\<open>junk\<close> is the uninitialised structure when \<^verbatim>\<open>tcgetattr\<close> fails.\<close>

definition getbaud :: "tty \<Rightarrow> ucall device \<Rightarrow> termios \<Rightarrow> uart_world \<Rightarrow> int \<times> uart_world" where
  "getbaud C D junk w =
     (case ask D Tcgetattr w of (r, w) \<Rightarrow>
      let termAttr = (if r = - 1 then junk else attr w)
      in (case find (\<lambda>r. baud C r = cfgetispeed C termAttr) (low_rates @ high_rates) of Some r \<Rightarrow> r | None \<Rightarrow> - 1, w))"

definition set_speed :: "tty \<Rightarrow> int \<Rightarrow> termios \<Rightarrow> termios" where
  "set_speed C baudrate t =
     (if baudrate \<in> set low_rates then
        let t = cfsetspeed C (baud C baudrate) (cfsetspeed C (baud C baudrate) t)
        in t\<lparr>c_cflag := c_cflag t OR baud C baudrate OR CBAUD C\<rparr>
      else
        let r = (if baudrate \<in> set high_rates then baudrate else 115200);
            t = cfsetspeed C (baud C r) (cfsetspeed C (baud C r) t)
        in t\<lparr>c_cflag := c_cflag t OR baud C r OR CBAUDEX C\<rparr>)"

definition set_flow :: "tty \<Rightarrow> int \<Rightarrow> termios \<Rightarrow> termios" where
  "set_flow C flow_ctrl t =
     (if flow_ctrl = 0 then
        t\<lparr>c_cflag := c_cflag t AND NOT (CRTSCTS C), c_iflag := c_iflag t AND NOT (IXON C OR IXOFF C OR IXANY C)\<rparr>
      else if flow_ctrl = 1 then
        t\<lparr>c_cflag := c_cflag t OR CRTSCTS C, c_iflag := c_iflag t AND NOT (IXON C OR IXOFF C OR IXANY C)\<rparr>
      else if flow_ctrl = 2 then
        t\<lparr>c_cflag := c_cflag t AND NOT (CRTSCTS C), c_iflag := c_iflag t OR (IXON C OR IXOFF C OR IXANY C),
          c_cc := (c_cc t)(VSTART C := 0x11, VSTOP C := 0x13)\<rparr>
      else t)"

definition set_raw :: "tty \<Rightarrow> termios \<Rightarrow> termios" where
  "set_raw C t =
     (let t = t\<lparr>c_cflag := c_cflag t AND NOT (PARENB C)\<rparr>;
          t = t\<lparr>c_cflag := c_cflag t AND NOT (CSTOPB C)\<rparr>;
          t = t\<lparr>c_cflag := c_cflag t AND NOT (CSIZE C)\<rparr>;
          t = t\<lparr>c_cflag := c_cflag t OR CS8 C\<rparr>;
          t = t\<lparr>c_cflag := c_cflag t OR (CLOCAL C OR CREAD C)\<rparr>;
          t = t\<lparr>c_lflag := c_lflag t AND NOT (ICANON C OR IEXTEN C OR ECHO C OR ISIG C)\<rparr>;
          t = t\<lparr>c_iflag := c_iflag t AND NOT (ICRNL C OR INPCK C OR ISTRIP C OR BRKINT C)\<rparr>;
          t = t\<lparr>c_oflag := c_oflag t AND NOT (OPOST C)\<rparr>
      in t\<lparr>c_cc := (c_cc t)(VMIN C := 0, VTIME C := 3)\<rparr>)"

text \<open>The port has the attributes of a \<^verbatim>\<open>tcsetattr\<close> that succeeded.\<close>

definition tcsetattr :: "ucall device \<Rightarrow> termios \<Rightarrow> uart_world \<Rightarrow> int \<times> uart_world" where
  "tcsetattr D t w =
     (case ask D (Tcsetattr t) w of (r, w) \<Rightarrow> (r, if r = - 1 then w else w\<lparr>attr := t\<rparr>))"

definition initport :: "tty \<Rightarrow> ucall device \<Rightarrow> int \<Rightarrow> int \<Rightarrow> uart_world \<Rightarrow> int \<times> uart_world" where
  "initport C D baudrate flow_ctrl w =
     (case ask D Tcgetattr w of (r, w) \<Rightarrow>
      if r = - 1 then (- 1, w)
      else
        let options = set_raw C (set_flow C flow_ctrl (set_speed C baudrate (attr w)))
        in case ask D Tcflush w of (r, w) \<Rightarrow>
           if r = - 1 then (- 1, w)
           else case tcsetattr D options w of (r, w) \<Rightarrow>
           if r = - 1 then (- 1, w) else (1, w))"

section \<open>The program\<close>

text \<open>\<^verbatim>\<open>close_port\<close> restores the attributes, closes both files and ends the program with status 1.\<close>

definition close_port :: "ucall device \<Rightarrow> uart_world \<Rightarrow> uart_end \<times> uart_world" where
  "close_port D w = (Exit 1, tell D Close (tell D Close_file (snd (tcsetattr D (oldtio w) w))))"

text \<open>The handler of \<^verbatim>\<open>SIGINT\<close>: its clock only serves what it prints.\<close>

definition signalHandler :: "ucall device \<Rightarrow> uart_world \<Rightarrow> uart_end \<times> uart_world" where
  "signalHandler D w = close_port D w"

definition create_sample_send_file :: "ucall device \<Rightarrow> string \<Rightarrow> uart_world \<Rightarrow> int \<times> uart_world" where
  "create_sample_send_file D filename w =
     (case ask D (Open_file filename) w of (fds, w) \<Rightarrow>
      if fds = - 1 then (- 1, w)
      else (fds, tell D Lseek (for_each (\<lambda>_. tell D (Write_file [0xAA])) 0 MB w)))"

text \<open>The variables of the receiving loop.\<close>

record rx_state =
  rd :: int
  rx_size :: int
  read_flag :: int
  output_buf :: "u8 list"
  rx_w :: uart_world

datatype rx_result = Go rx_state | Break rx_state | Stop "uart_end \<times> uart_world"

definition rx_round :: "ucall device \<Rightarrow> bytes_in \<Rightarrow> string \<Rightarrow> rx_state \<Rightarrow> rx_result" where
  "rx_round D rx filename s =
     (let s = s\<lparr>rx_w := tell D Select (rx_w s)\<rparr>
      in case ask D Fd_isset (rx_w s) of (ready, w) \<Rightarrow>
         let s = s\<lparr>rx_w := w\<rparr>;
             s = (if ready \<noteq> 0 then
                    case readport D rx (rx_w s) of (n, buf, w) \<Rightarrow> s\<lparr>read_flag := 1, rd := n, output_buf := buf, rx_w := w\<rparr>
                  else s)
         in if ready \<noteq> 0 \<and> rd s = - 1 then Stop (close_port D (rx_w s))
            else if read_flag s = 0 then Stop (close_port D (tell D (Unlink filename) (rx_w s)))
            else if rd s = 0 then Break s
            else Go (s\<lparr>rx_size := rx_size s + rd s,
                       rx_w := tell D (Write_file (take (nat (rd s)) (output_buf s))) (rx_w s),
                       output_buf := replicate bufsize 0\<rparr>))"

text \<open>The loop with a bound on its rounds: None when they do not suffice.\<close>

fun rx_loop :: "ucall device \<Rightarrow> bytes_in \<Rightarrow> string \<Rightarrow> nat \<Rightarrow> rx_state \<Rightarrow> rx_result option" where
  "rx_loop D rx filename 0 s = None"
| "rx_loop D rx filename (Suc fuel) s =
     (case rx_round D rx filename s of Go s \<Rightarrow> rx_loop D rx filename fuel s | r \<Rightarrow> Some r)"

text \<open>
  The loop with its interrupts, which here come between two rounds: a session runs or has ended, and the
  result Inl is an end by the handler.
\<close>

datatype rx_session = Running rx_state | Over "(uart_end \<times> uart_world) + rx_result"

inductive rx_step :: "ucall device \<Rightarrow> bytes_in \<Rightarrow> string \<Rightarrow> rx_session \<Rightarrow> rx_session \<Rightarrow> bool" for D rx filename where
  again: "rx_round D rx filename s = Go s' \<Longrightarrow> rx_step D rx filename (Running s) (Running s')"
| over: "rx_round D rx filename s = r \<Longrightarrow> (\<And>s'. r \<noteq> Go s') \<Longrightarrow> rx_step D rx filename (Running s) (Over (Inr r))"
| interrupt: "rx_step D rx filename (Running s) (Over (Inl (signalHandler D (rx_w s))))"

inductive_cases rx_stepE: "rx_step D rx filename (Running s) t"
inductive_cases rx_overE: "rx_step D rx filename (Over r) t"

text \<open>The sending loop: \<open>rx\<close> also gives the bytes read from the file. The result is the size, or the exit.\<close>

fun tx_loop :: "ucall device \<Rightarrow> bytes_in \<Rightarrow> nat \<Rightarrow> int \<Rightarrow> uart_world \<Rightarrow> ((uart_end \<times> uart_world) + int \<times> uart_world) option" where
  "tx_loop D rx 0 sz w = None"
| "tx_loop D rx (Suc fuel) sz w =
     (case ask D Read_file w of (n, w) \<Rightarrow>
      if n = 0 then Some (Inr (sz, w))
      else
        let buf = rx (clog w);
            w = tell D Fcntl w
        in case writeport D (take (nat n) buf) n w of (ok, w) \<Rightarrow>
           if ok = 0 then Some (Inl (close_port D w))
           else tx_loop D rx fuel (sz + n) (tell D Tcdrain w))"

text \<open>
  The end of a transfer: the command \<^verbatim>\<open>md5sum <file>\<close> (with a blank behind it after receiving) is written to
  a buffer of 20 characters; then \<^verbatim>\<open>close_port\<close>.
\<close>

definition finish :: "ucall device \<Rightarrow> string \<Rightarrow> string \<Rightarrow> uart_world \<Rightarrow> uart_end \<times> uart_world" where
  "finish D filename blank w =
     (let cmd_buf = ''md5sum '' @ filename @ blank
      in if length cmd_buf + 1 > 20 then (Undefined, w)
         else close_port D (tell D (Md5sum filename) w))"

definition rx_filename :: "string \<Rightarrow> string" where
  "rx_filename port = ''uart_rx_file_'' @ port"

definition tx_filename :: "string \<Rightarrow> string" where
  "tx_filename port = ''uart_tx_file_'' @ port"

definition receive :: "ucall device \<Rightarrow> bytes_in \<Rightarrow> nat \<Rightarrow> string \<Rightarrow> uart_world \<Rightarrow> (uart_end \<times> uart_world) option" where
  "receive D rx fuel port w =
     (let filename = rx_filename port
      in if length filename + 1 > 20 then Some (Undefined, w)
         else case ask D (Open_file filename) w of (fd2, w) \<Rightarrow>
         if fd2 = - 1 then Some (Exit 1, tell D Close w)
         else case rx_loop D rx filename fuel \<lparr>rd = 0, rx_size = 0, read_flag = 0, output_buf = replicate bufsize 0, rx_w = w\<rparr> of
           None \<Rightarrow> None
         | Some (Stop r) \<Rightarrow> Some r
         | Some (Break s) \<Rightarrow> Some (finish D filename '' '' (rx_w s))
         | Some (Go s) \<Rightarrow> None)"

definition send :: "ucall device \<Rightarrow> bytes_in \<Rightarrow> nat \<Rightarrow> string \<Rightarrow> uart_world \<Rightarrow> (uart_end \<times> uart_world) option" where
  "send D rx fuel port w =
     (let filename = tx_filename port
      in if length filename + 1 > 20 then Some (Undefined, w)
         else case create_sample_send_file D filename w of (fd1, w) \<Rightarrow>
         if fd1 = - 1 then Some (Exit 1, tell D Close w)
         else case tx_loop D rx fuel 0 w of
           None \<Rightarrow> None
         | Some (Inl r) \<Rightarrow> Some r
         | Some (Inr (_, w)) \<Rightarrow> Some (finish D filename [] (tell D Tcsendbreak w)))"

text \<open>
  \<^verbatim>\<open>main\<close> behind the registration of the signal handler: the arguments as they are after \<^verbatim>\<open>sscanf\<close> (None when it fails); None as a result is a transfer
  that does not end within \<open>fuel\<close> rounds. An unknown operation ends in \<^verbatim>\<open>pclose\<close> of a null pointer.
\<close>

definition ts_uart_body :: "tty \<Rightarrow> ucall device \<Rightarrow> bytes_in \<Rightarrow> termios \<Rightarrow> nat \<Rightarrow> nat \<Rightarrow> char \<Rightarrow> string \<Rightarrow> int option \<Rightarrow> int option \<Rightarrow>
    uart_world \<Rightarrow> (uart_end \<times> uart_world) option" where
  "ts_uart_body C D rx junk fuel argc tx_rx port baudrate flow w =
     (if argc \<noteq> 5 then Some (Exit 1, w)
      else case (baudrate, flow) of
        (Some b, Some f) \<Rightarrow>
          if f < 0 \<or> f > 2 then Some (Exit 1, w)
          else if length port + 6 > 20 then Some (Undefined, w)
          else case ask D (Open_port (''/dev/'' @ port)) w of (fd, w) \<Rightarrow>
            if fd = - 1 then Some (Exit 1, w)
            else
              let w = tell D Fcntl w;
                  w = snd (getbaud C D junk w);
                  w = (case ask D Tcgetattr w of (r, w) \<Rightarrow> if r = - 1 then w else w\<lparr>oldtio := attr w\<rparr>);
                  w = snd (initport C D b f w);
                  w = snd (getbaud C D junk w)
              in case ask D Loopback w of (error, w) \<Rightarrow>
                 if error \<noteq> 0 then Some (Exit 1, w)
                 else if tx_rx = CHR ''r'' then receive D rx fuel port w
                 else if tx_rx = CHR ''s'' then send D rx fuel port w
                 else Some (Undefined, w)
      | _ \<Rightarrow> Some (Exit 1, w))"

definition ts_uart_main :: "tty \<Rightarrow> ucall device \<Rightarrow> bytes_in \<Rightarrow> termios \<Rightarrow> nat \<Rightarrow> nat \<Rightarrow> char \<Rightarrow> string \<Rightarrow> int option \<Rightarrow> int option \<Rightarrow>
    uart_world \<Rightarrow> (uart_end \<times> uart_world) option" where
  "ts_uart_main C D rx junk fuel argc tx_rx port baudrate flow w =
     (case ask D Signal w of (r, w) \<Rightarrow>
      if r = - 1 then Some (Exit 1, w) else ts_uart_body C D rx junk fuel argc tx_rx port baudrate flow w)"

end
