(* ===== verification/Uart_Correct.thy ===== *)
theory Uart_Correct
  imports Uart
begin

text \<open>
  Correctness of the UART test program: the rate a port has after it was configured, how the program can
  end, and what the receiving loop does when the line falls silent.
\<close>

section \<open>Speed\<close>

text \<open>
  The layout of \<^verbatim>\<open>c_cflag\<close> on Linux: \<^verbatim>\<open>CBAUDEX\<close> is one of the bits of \<^verbatim>\<open>CBAUD\<close>, the codes of the rates are
  different values of that field, those of the high rates contain \<^verbatim>\<open>CBAUDEX\<close>, none has all its bits, and
  the other flags lie outside.
\<close>

definition tty_ok :: "tty \<Rightarrow> bool" where
  "tty_ok C \<longleftrightarrow> CBAUD C OR CBAUDEX C = CBAUD C \<and>
     list_all (\<lambda>r. baud C r AND CBAUD C = baud C r) (low_rates @ high_rates) \<and>
     distinct (map (baud C) (low_rates @ high_rates)) \<and>
     list_all (\<lambda>r. baud C r OR CBAUDEX C = baud C r) high_rates \<and>
     CBAUD C \<notin> set (map (baud C) (low_rates @ high_rates)) \<and>
     list_all (\<lambda>m. m AND CBAUD C = 0) [CRTSCTS C, PARENB C, CSTOPB C, CSIZE C, CS8 C, CLOCAL C, CREAD C]"

lemma mask_keeps:
  fixes x m S :: u32
  assumes "m AND S = 0"
  shows "(x OR m) AND S = x AND S" "(x AND NOT m) AND S = x AND S"
proof -
  show "(x OR m) AND S = x AND S" using assms by (simp add: and.commute [of _ S] bit.conj_disj_distrib)
  have "bit x n \<and> \<not> bit m n \<and> bit S n \<longleftrightarrow> bit x n \<and> bit S n" for n
  proof -
    have "\<not> bit (m AND S) n" using assms by simp
    then show ?thesis by (auto simp: bit_and_iff)
  qed
  then show "(x AND NOT m) AND S = x AND S"
    by (intro bit_word_eqI) (auto simp: bit_and_iff bit_not_iff)
qed

lemma raw_keeps_speed:
  assumes "tty_ok C"
  shows "c_cflag (set_raw C (set_flow C f t)) AND CBAUD C = c_cflag t AND CBAUD C"
proof -
  have m: "m AND CBAUD C = 0" if "m \<in> {CRTSCTS C, PARENB C, CSTOPB C, CSIZE C, CS8 C, CLOCAL C, CREAD C}" for m
    using assms that by (auto simp: tty_ok_def)
  have "(CLOCAL C OR CREAD C) AND CBAUD C = 0"
    using m [of "CLOCAL C"] m [of "CREAD C"] by (simp add: mask_keeps)
  then show ?thesis
    using m by (simp add: set_raw_def set_flow_def Let_def mask_keeps)
qed

text \<open>The rate that a request ends up with.\<close>

definition effective_rate :: "int \<Rightarrow> int" where
  "effective_rate b = (if b \<in> set low_rates then - 1 else if b \<in> set high_rates then b else 115200)"

lemma find_inj: "inj_on f (set xs) \<Longrightarrow> r \<in> set xs \<Longrightarrow> find (\<lambda>q. f q = f r) xs = Some r"
  by (induction xs) (auto simp: inj_on_def)

lemma set_speed_code:
  assumes "tty_ok C"
  shows "c_cflag (set_speed C b t) AND CBAUD C =
    (if b \<in> set low_rates then CBAUD C else baud C (if b \<in> set high_rates then b else 115200))"
proof -
  have S: "speed_mask C = CBAUD C" using assms by (simp add: tty_ok_def speed_mask_def)
  show ?thesis
  proof (cases "b \<in> set low_rates")
    case True
    have "(x OR CBAUD C) AND CBAUD C = CBAUD C" for x
      by (intro bit_word_eqI) (auto simp: bit_and_iff bit_or_iff)
    with True show ?thesis by (simp add: set_speed_def Let_def or.assoc [symmetric])
  next
    case False
    define r where "r = (if b \<in> set high_rates then b else 115200)"
    have "r \<in> set high_rates" by (simp add: r_def high_rates_def)
    then have h: "baud C r AND CBAUD C = baud C r" "baud C r OR CBAUDEX C = baud C r"
      using assms by (auto simp: tty_ok_def list_all_iff)
    have "((x AND NOT (CBAUD C)) OR baud C r) AND CBAUD C = baud C r" for x
      using h(1) by (simp add: and.commute [of _ "CBAUD C"] bit.conj_disj_distrib)
        (simp add: and.left_commute)
    moreover have "x OR baud C r OR baud C r OR CBAUDEX C = x OR baud C r" for x
      using h(2) by (simp add: or.assoc)
    ultimately show ?thesis
      using False by (simp add: set_speed_def Let_def cfsetspeed_def S r_def [symmetric] or.assoc)
  qed
qed

lemma initport_attr:
  assumes "initport C D b f w = (1, w')"
  shows "attr w' = set_raw C (set_flow C f (set_speed C b (attr w)))"
  using assms by (auto simp: initport_def tcsetattr_def case_prod_beta Let_def ask_def split: if_splits)

text \<open>
  C19. The rate a port reports after it was configured: the one requested for the high rates, 115200 for a
  rate that is not in the table, and no known rate for the rates up to 38400, whose code is covered by
  all the bits of \<^verbatim>\<open>CBAUD\<close>.
\<close>

theorem uart_baud_roundtrip:
  assumes "tty_ok C" and "initport C D b f w = (1, w')" and "D (clog w') Tcgetattr \<noteq> - 1"
  shows "fst (getbaud C D junk w') = effective_rate b"
proof -
  let ?all = "low_rates @ high_rates"
  have S: "speed_mask C = CBAUD C" using assms(1) by (simp add: tty_ok_def speed_mask_def)
  have a: "attr (snd (ask D Tcgetattr w')) = attr w'" by (simp add: ask_def)
  have "cfgetispeed C (attr w') = (if b \<in> set low_rates then CBAUD C else baud C (if b \<in> set high_rates then b else 115200))"
    unfolding cfgetispeed_def S initport_attr [OF assms(2)] raw_keeps_speed [OF assms(1)] by (rule set_speed_code [OF assms(1)])
  moreover have "find (\<lambda>r. baud C r = CBAUD C) ?all = None"
    using assms(1) unfolding tty_ok_def find_None_iff by (metis image_eqI set_map)
  moreover have "find (\<lambda>q. baud C q = baud C r) ?all = Some r" if "r \<in> set ?all" for r
    using assms(1) that unfolding tty_ok_def distinct_map by (intro find_inj) blast+
  moreover have "(115200 :: int) \<in> set ?all" "b \<in> set high_rates \<Longrightarrow> b \<in> set ?all"
    by (simp add: high_rates_def) simp
  ultimately show ?thesis
    using assms(3) unfolding getbaud_def effective_rate_def by (auto simp: case_prod_beta Let_def a)
qed

text \<open>The values of Linux.\<close>

definition linux_tty :: tty where
  "linux_tty = \<lparr>baud = (\<lambda>r. case map_of (zip (low_rates @ high_rates)
       [7, 8, 9, 10, 11, 12, 13, 14, 15, 0x1002, 0x1003, 0x1004, 0x1005, 0x1006, 0x1007, 0x1008, 0x1009, 0x100A, 0x100B, 0x100C, 0x100D, 0x100E]) r
       of Some c \<Rightarrow> c | None \<Rightarrow> 0),
     CBAUD = 0x100F, CBAUDEX = 0x1000, CRTSCTS = 0x80000000, PARENB = 0x100, CSTOPB = 0x40, CSIZE = 0x30, CS8 = 0x30,
     CLOCAL = 0x800, CREAD = 0x80, IXON = 0x400, IXOFF = 0x1000, IXANY = 0x800, ICRNL = 0x100, INPCK = 0x10, ISTRIP = 0x20,
     BRKINT = 2, ICANON = 2, IEXTEN = 0x8000, ECHO = 8, ISIG = 1, OPOST = 1, VSTART = 8, VSTOP = 9, VMIN = 6, VTIME = 5\<rparr>"

definition idle_port :: uart_world where
  "idle_port = (let t = \<lparr>c_iflag = 0, c_oflag = 0, c_cflag = 0x100D, c_lflag = 0, c_cc = (\<lambda>_. 0)\<rparr>
     in \<lparr>clog = [], attr = t, oldtio = t\<rparr>)"

theorem uart_baud_roundtrip_witness:
  "\<exists>w1 w2. initport linux_tty (\<lambda>h c. 0) 9600 0 idle_port = (1, w1) \<and> fst (getbaud linux_tty (\<lambda>h c. 0) (attr idle_port) w1) = - 1 \<and>
     initport linux_tty (\<lambda>h c. 0) 921600 1 idle_port = (1, w2) \<and> fst (getbaud linux_tty (\<lambda>h c. 0) (attr idle_port) w2) = 921600"
proof -
  have c: "tty_ok linux_tty" by code_simp
  have i: "\<exists>w'. initport linux_tty (\<lambda>h c. 0) b f idle_port = (1, w')" for b f
    by (simp add: initport_def tcsetattr_def case_prod_beta Let_def)
  then obtain w1 w2 where w: "initport linux_tty (\<lambda>h c. 0) 9600 0 idle_port = (1, w1)"
      "initport linux_tty (\<lambda>h c. 0) 921600 1 idle_port = (1, w2)" by blast
  have "fst (getbaud linux_tty (\<lambda>h c. 0) (attr idle_port) w1) = effective_rate 9600" "fst (getbaud linux_tty (\<lambda>h c. 0) (attr idle_port) w2) = effective_rate 921600"
    by (rule uart_baud_roundtrip [OF c w(1)], simp) (rule uart_baud_roundtrip [OF c w(2)], simp)
  with w show ?thesis by (auto simp: effective_rate_def low_rates_def high_rates_def)
qed

section \<open>How the program ends\<close>

fun is_md5 :: "ucall \<Rightarrow> bool" where
  "is_md5 (Md5sum f) = True"
| "is_md5 c = False"

lemma no_md5 [simp]:
  "calls is_md5 (clog (snd (tcsetattr D t w))) = calls is_md5 (clog w)"
  "calls is_md5 (clog (snd (close_port D w))) = calls is_md5 (clog w)"
  "calls is_md5 (clog (snd (writeport D cs n w))) = calls is_md5 (clog w)"
  "calls is_md5 (clog (snd (snd (readport D rx w)))) = calls is_md5 (clog w)"
  "calls is_md5 (clog (snd (getbaud C D junk w))) = calls is_md5 (clog w)"
  "calls is_md5 (clog (snd (initport C D b f w))) = calls is_md5 (clog w)"
  by (simp_all add: tcsetattr_def close_port_def writeport_def readport_def getbaud_def initport_def case_prod_beta Let_def)

lemma fst_close_port [simp]: "fst (close_port D w) = Exit 1"
  by (simp add: close_port_def)

lemma create_file_no_md5 [simp]:
  "calls is_md5 (clog (snd (create_sample_send_file D name w))) = calls is_md5 (clog w)"
proof -
  have "calls is_md5 (clog (for_each (\<lambda>_. tell D (Write_file [0xAA])) 0 n v)) = calls is_md5 (clog v)" for n and v :: uart_world
    by (rule for_each_keeps [where P = "\<lambda>u. calls is_md5 (clog u) = calls is_md5 (clog v)"]) simp_all
  then show ?thesis by (simp add: create_sample_send_file_def case_prod_beta)
qed

text \<open>What a transfer may end with: status 1 or a memory error, and no checksum.\<close>

definition ends_ok :: "uart_world \<Rightarrow> uart_end \<times> uart_world \<Rightarrow> bool" where
  "ends_ok w r \<longleftrightarrow> (fst r = Exit 1 \<or> fst r = Undefined) \<and> calls is_md5 (clog (snd r)) = calls is_md5 (clog w)"

lemma ends_okI [intro]:
  "calls is_md5 (clog v) = calls is_md5 (clog w) \<Longrightarrow> ends_ok w (Exit 1, v)"
  "calls is_md5 (clog v) = calls is_md5 (clog w) \<Longrightarrow> ends_ok w (Undefined, v)"
  "calls is_md5 (clog v) = calls is_md5 (clog w) \<Longrightarrow> ends_ok w (close_port D v)"
  by (simp_all add: ends_ok_def)

lemma rx_round_ends:
  "case rx_round D rx f s of Go s' \<Rightarrow> calls is_md5 (clog (rx_w s')) = calls is_md5 (clog (rx_w s))
   | Break s' \<Rightarrow> calls is_md5 (clog (rx_w s')) = calls is_md5 (clog (rx_w s))
   | Stop r \<Rightarrow> ends_ok (rx_w s) r"
  by (simp add: rx_round_def Let_def case_prod_beta ends_ok_def)

lemma rx_loop_ends:
  assumes "rx_loop D rx f fuel s = Some r"
  shows "case r of Go s' \<Rightarrow> False | Break s' \<Rightarrow> calls is_md5 (clog (rx_w s')) = calls is_md5 (clog (rx_w s)) | Stop e \<Rightarrow> ends_ok (rx_w s) e"
  using assms
proof (induction fuel arbitrary: s)
  case (Suc fuel)
  then show ?case
    using rx_round_ends [where D = D and rx = rx and f = f and s = s]
    by (cases "rx_round D rx f s") (force simp: ends_ok_def split: rx_result.splits)+
qed simp

lemma tx_loop_ends:
  assumes "tx_loop D rx fuel sz w = Some r"
  shows "case r of Inl e \<Rightarrow> ends_ok w e | Inr (n, w') \<Rightarrow> calls is_md5 (clog w') = calls is_md5 (clog w)"
  using assms
proof (induction fuel arbitrary: sz w)
  case (Suc fuel)
  define n where "n = D (clog w) Read_file"
  define v where "v = tell D Fcntl (snd (ask D Read_file w))"
  define u where "u = snd (writeport D (take (nat n) (rx (clog (snd (ask D Read_file w))))) n v)"
  have c: "calls is_md5 (clog (snd (ask D Read_file w))) = calls is_md5 (clog w)" "calls is_md5 (clog u) = calls is_md5 (clog w)"
    by (simp_all add: u_def v_def)
  have step: "tx_loop D rx (Suc fuel) sz w = (if n = 0 then Some (Inr (sz, snd (ask D Read_file w)))
      else if fst (writeport D (take (nat n) (rx (clog (snd (ask D Read_file w))))) n v) = 0 then Some (Inl (close_port D u))
      else tx_loop D rx fuel (sz + n) (tell D Tcdrain u))"
    by (simp add: n_def u_def v_def case_prod_beta Let_def)
  show ?case
  proof (cases "n = 0")
    case True
    with Suc.prems step c show ?thesis by auto
  next
    case nz: False
    show ?thesis
    proof (cases "fst (writeport D (take (nat n) (rx (clog (snd (ask D Read_file w))))) n v) = 0")
      case True
      with Suc.prems step c nz show ?thesis by (auto simp: ends_ok_def)
    next
      case False
      with Suc.prems step nz have "tx_loop D rx fuel (sz + n) (tell D Tcdrain u) = Some r" by simp
      from Suc.IH [OF this] c show ?thesis by (auto simp: ends_ok_def split: sum.splits)
    qed
  qed
qed simp

lemma finish_overflows:
  "finish D (rx_filename port) b w = (Undefined, w)" "finish D (tx_filename port) b w = (Undefined, w)"
  by (simp_all add: finish_def rx_filename_def tx_filename_def)

lemma receive_ends:
  assumes "receive D rx fuel port w = Some r"
  shows "ends_ok w r"
proof -
  let ?f = "rx_filename port"
  define v where "v = snd (ask D (Open_file ?f) w)"
  define s where "s = \<lparr>rd = 0, rx_size = 0, read_flag = 0, output_buf = replicate bufsize 0, rx_w = v\<rparr>"
  have v: "calls is_md5 (clog v) = calls is_md5 (clog w)" "rx_w s = v" by (simp_all add: v_def s_def)
  have step: "receive D rx fuel port w = (if length ?f + 1 > 20 then Some (Undefined, w)
      else if D (clog w) (Open_file ?f) = - 1 then Some (Exit 1, tell D Close v)
      else case rx_loop D rx ?f fuel s of None \<Rightarrow> None | Some (Stop r) \<Rightarrow> Some r
        | Some (Break s) \<Rightarrow> Some (finish D ?f '' '' (rx_w s)) | Some (Go s) \<Rightarrow> None)"
    by (simp add: receive_def Let_def case_prod_beta v_def s_def)
  show ?thesis
  proof (cases "length ?f + 1 > 20 \<or> D (clog w) (Open_file ?f) = - 1")
    case True
    with assms step v show ?thesis by (auto simp: ends_ok_def split: if_splits)
  next
    case False
    then obtain x where x: "rx_loop D rx ?f fuel s = Some x" using assms step by (cases "rx_loop D rx ?f fuel s") auto
    from rx_loop_ends [OF x] x False assms step v show ?thesis
      by (cases x) (auto simp: ends_ok_def finish_overflows)
  qed
qed

lemma send_ends:
  assumes "send D rx fuel port w = Some r"
  shows "ends_ok w r"
proof -
  let ?f = "tx_filename port"
  define v where "v = snd (create_sample_send_file D ?f w)"
  have v: "calls is_md5 (clog v) = calls is_md5 (clog w)" by (simp add: v_def)
  have step: "send D rx fuel port w = (if length ?f + 1 > 20 then Some (Undefined, w)
      else if fst (create_sample_send_file D ?f w) = - 1 then Some (Exit 1, tell D Close v)
      else case tx_loop D rx fuel 0 v of None \<Rightarrow> None | Some (Inl r) \<Rightarrow> Some r
        | Some (Inr (_, w)) \<Rightarrow> Some (finish D ?f [] (tell D Tcsendbreak w)))"
    by (simp add: send_def Let_def case_prod_beta v_def)
  show ?thesis
  proof (cases "length ?f + 1 > 20 \<or> fst (create_sample_send_file D ?f w) = - 1")
    case True
    with assms step v show ?thesis by (auto simp: ends_ok_def split: if_splits)
  next
    case False
    then obtain x where x: "tx_loop D rx fuel 0 v = Some x" using assms step by (cases "tx_loop D rx fuel 0 v") auto
    from tx_loop_ends [OF x] x False assms step v show ?thesis
      by (cases x) (auto simp: ends_ok_def finish_overflows)
  qed
qed

lemma body_ends:
  assumes "ts_uart_body C D rx junk fuel argc tx_rx port baudrate flow w = Some (e, w')"
  shows "ends_ok w (e, w')"
proof (cases "argc = 5 \<and> (\<exists>b f. baudrate = Some b \<and> flow = Some f \<and> 0 \<le> f \<and> f \<le> 2) \<and> length port + 6 \<le> 20")
  case False
  then show ?thesis
    using assms by (force simp: ts_uart_body_def ends_ok_def split: option.splits if_splits)
next
  case True
  then obtain b f where bf: "baudrate = Some b" "flow = Some f" "0 \<le> f" "f \<le> 2" "argc = 5" "length port + 6 \<le> 20" by blast
  define v where "v = snd (ask D (Open_port (''/dev/'' @ port)) w)"
  define u0 where "u0 = snd (ask D Tcgetattr (snd (getbaud C D junk (tell D Fcntl v))))"
  define u1 where "u1 = (if D (clog (snd (getbaud C D junk (tell D Fcntl v)))) Tcgetattr = - 1 then u0 else u0\<lparr>oldtio := attr u0\<rparr>)"
  define u where "u = snd (ask D Loopback (snd (getbaud C D junk (snd (initport C D b f u1)))))"
  have c: "calls is_md5 (clog u) = calls is_md5 (clog w)" "calls is_md5 (clog v) = calls is_md5 (clog w)"
    by (simp_all add: u_def u1_def u0_def v_def)
  have step: "ts_uart_body C D rx junk fuel argc tx_rx port baudrate flow w =
      (if D (clog w) (Open_port (''/dev/'' @ port)) = - 1 then Some (Exit 1, v)
       else if D (clog (snd (getbaud C D junk (snd (initport C D b f u1))))) Loopback \<noteq> 0 then Some (Exit 1, u)
       else if tx_rx = CHR ''r'' then receive D rx fuel port u
       else if tx_rx = CHR ''s'' then send D rx fuel port u
       else Some (Undefined, u))"
    using bf by (simp add: ts_uart_body_def v_def u0_def u1_def u_def Let_def case_prod_beta)
  have "receive D rx fuel port u = Some (e, w') \<Longrightarrow> ends_ok w (e, w')" "send D rx fuel port u = Some (e, w') \<Longrightarrow> ends_ok w (e, w')"
    using receive_ends [of D rx fuel port u "(e, w')"] send_ends [of D rx fuel port u "(e, w')"] c by (simp_all add: ends_ok_def)
  with assms step c show ?thesis by (auto simp: ends_ok_def split: if_splits)
qed

subsection \<open>When the loops end\<close>

text \<open>
  After \<open>N\<close> rounds the line is ready and a read delivers nothing (or fails), and the file is at its end.
\<close>

definition transfer_ends :: "ucall device \<Rightarrow> nat \<Rightarrow> bool" where
  "transfer_ends D N \<longleftrightarrow>
     (\<forall>h. N \<le> calls (\<lambda>c. c = Select) h \<longrightarrow> D h Fd_isset \<noteq> 0 \<and> D h Port_read \<le> 0) \<and>
     (\<forall>h. N \<le> calls (\<lambda>c. c = Read_file) h \<longrightarrow> D h Read_file = 0)"

lemma rx_round_select:
  "rx_round D rx f s = Go s' \<Longrightarrow> calls (\<lambda>c. c = Select) (clog (rx_w s')) = Suc (calls (\<lambda>c. c = Select) (clog (rx_w s)))"
  by (auto simp: rx_round_def readport_def case_prod_beta Let_def split: if_splits)

lemma readport_nothing: "D (clog w) Port_read \<le> 0 \<Longrightarrow> fst (readport D rx w) = 0"
  by (simp add: readport_def case_prod_beta Let_def)

lemma rx_round_last:
  assumes "transfer_ends D N" and "N \<le> Suc (calls (\<lambda>c. c = Select) (clog (rx_w s)))"
  shows "rx_round D rx f s \<noteq> Go s'"
proof -
  define v where "v = tell D Select (rx_w s)"
  define u where "u = snd (ask D Fd_isset v)"
  have "N \<le> calls (\<lambda>c. c = Select) (clog v)" "N \<le> calls (\<lambda>c. c = Select) (clog u)" using assms(2) by (simp_all add: u_def v_def)
  with assms(1) have "D (clog v) Fd_isset \<noteq> 0" "fst (readport D rx u) = 0"
    by (simp_all add: transfer_ends_def readport_nothing)
  then show ?thesis by (simp add: rx_round_def Let_def case_prod_beta v_def u_def)
qed

lemma rx_loop_returns:
  assumes "transfer_ends D N" and "N \<le> Suc fuel + calls (\<lambda>c. c = Select) (clog (rx_w s))"
  shows "rx_loop D rx f (Suc fuel) s \<noteq> None"
  using assms(2)
proof (induction fuel arbitrary: s)
  case 0
  then have "rx_round D rx f s \<noteq> Go s'" for s' using rx_round_last [OF assms(1)] by simp
  then show ?case by (auto split: rx_result.split)
next
  case (Suc fuel)
  show ?case
  proof (cases "rx_round D rx f s")
    case (Go s')
    with Suc rx_round_select [OF Go] show ?thesis by simp
  qed simp_all
qed

lemma tx_loop_returns:
  assumes "transfer_ends D N" and "N \<le> fuel + calls (\<lambda>c. c = Read_file) (clog w)"
  shows "tx_loop D rx (Suc fuel) sz w \<noteq> None"
  using assms(2)
proof (induction fuel arbitrary: sz w)
  case 0
  with assms(1) have "D (clog w) Read_file = 0" by (simp add: transfer_ends_def)
  then show ?case by (simp add: case_prod_beta)
next
  case (Suc fuel)
  have "tx_loop D rx (Suc fuel) sz' (tell D Tcdrain (snd (writeport D cs n (tell D Fcntl (snd (ask D Read_file w)))))) \<noteq> None" for sz' cs n
    by (rule Suc.IH) (use Suc.prems in \<open>simp add: writeport_def case_prod_beta\<close>)
  then show ?case by (subst tx_loop.simps) (simp add: case_prod_beta Let_def del: tx_loop.simps)
qed

lemma receive_returns:
  assumes "transfer_ends D N" and "N < fuel"
  shows "receive D rx fuel port w \<noteq> None"
proof -
  obtain k where k: "fuel = Suc k" using assms(2) by (cases fuel) auto
  let ?s = "\<lambda>v. \<lparr>rd = 0, rx_size = 0, read_flag = 0, output_buf = replicate bufsize 0, rx_w = v\<rparr>"
  let ?f = "rx_filename port" and ?v = "snd (ask D (Open_file (rx_filename port)) w)"
  obtain x where x: "rx_loop D rx ?f fuel (?s ?v) = Some x"
    using rx_loop_returns [OF assms(1), of k "?s ?v" rx ?f] assms(2) k by (cases "rx_loop D rx ?f fuel (?s ?v)") auto
  with rx_loop_ends [OF x] show ?thesis
    by (cases x) (simp_all add: receive_def Let_def case_prod_beta)
qed

lemma send_returns:
  assumes "transfer_ends D N" and "N < fuel"
  shows "send D rx fuel port w \<noteq> None"
proof -
  obtain k where k: "fuel = Suc k" using assms(2) by (cases fuel) auto
  have "tx_loop D rx fuel 0 v \<noteq> None" for v
    unfolding k by (rule tx_loop_returns [OF assms(1)]) (use assms(2) k in simp)
  then obtain x where x: "tx_loop D rx fuel 0 (snd (create_sample_send_file D (tx_filename port) w)) = Some x" by fastforce
  then show ?thesis by (simp add: send_def Let_def case_prod_beta split: sum.split)
qed

text \<open>
  C18. For every device and every bound on the rounds of the loops: when the UART test ends, it ends with status 1
  or in a memory error, and the checksum is never computed (a complete transfer always overruns the 20
  characters of the command); and it does end once the line has nothing more to deliver and the file is
  at its end.
\<close>

theorem uart_never_succeeds:
  "let r = ts_uart_main C D rx junk fuel argc tx_rx port baudrate flow w
   in (\<forall>e w'. r = Some (e, w') \<longrightarrow> (e = Exit 1 \<or> e = Undefined) \<and> calls is_md5 (clog w') = calls is_md5 (clog w)) \<and>
      (transfer_ends D N \<and> N < fuel \<longrightarrow> r \<noteq> None)"
proof (cases "D (clog w) Signal = - 1")
  case True
  then show ?thesis by (simp add: ts_uart_main_def case_prod_beta)
next
  case False
  define r where "r = ts_uart_main C D rx junk fuel argc tx_rx port baudrate flow w"
  with False have r: "r = ts_uart_body C D rx junk fuel argc tx_rx port baudrate flow (snd (ask D Signal w))"
    by (simp add: ts_uart_main_def case_prod_beta)
  have "ends_ok (snd (ask D Signal w)) (e, w')" if "r = Some (e, w')" for e w'
    using that unfolding r by (rule body_ends)
  moreover have "r \<noteq> None" if "transfer_ends D N" "N < fuel"
    using receive_returns [OF that] send_returns [OF that]
    by (simp add: r ts_uart_body_def case_prod_beta Let_def split: option.split)
  ultimately show ?thesis unfolding r_def [symmetric] Let_def by (simp add: ends_ok_def)
qed

text \<open>A device on which every call succeeds, the line is ready but has nothing, and the file is empty.\<close>

definition quiet_dev :: "ucall device" where
  "quiet_dev h c = (case c of Port_read \<Rightarrow> 0 | Read_file \<Rightarrow> 0 | Fd_isset \<Rightarrow> 1 | Loopback \<Rightarrow> 0 | _ \<Rightarrow> 3)"

theorem uart_never_succeeds_witness:
  "transfer_ends quiet_dev 0 \<and>
   (\<exists>e w. ts_uart_main linux_tty quiet_dev (\<lambda>h. [0]) (attr idle_port) 1 5 (CHR ''r'') ''ttyO1'' (Some 115200) (Some 1) idle_port =
      Some (e, w) \<and> (e = Exit 1 \<or> e = Undefined) \<and> calls is_md5 (clog w) = 0)"
proof -
  let ?m = "ts_uart_main linux_tty quiet_dev (\<lambda>h. [0]) (attr idle_port) 1 5 (CHR ''r'') ''ttyO1'' (Some 115200) (Some 1) idle_port"
  have q: "transfer_ends quiet_dev 0" by (simp add: transfer_ends_def quiet_dev_def)
  note u = uart_never_succeeds [where C = linux_tty and D = quiet_dev and rx = "\<lambda>h. [0]" and junk = "attr idle_port" and fuel = 1
      and argc = 5 and tx_rx = "CHR ''r''" and port = "''ttyO1''" and baudrate = "Some 115200" and flow = "Some 1" and w = idle_port and N = 0]
  from u [unfolded Let_def] q obtain e w where m: "?m = Some (e, w)" by (cases ?m) auto
  with u [unfolded Let_def] have "(e = Exit 1 \<or> e = Undefined) \<and> calls is_md5 (clog w) = 0" by (simp add: idle_port_def Let_def)
  with m q show ?thesis by blast
qed

section \<open>A line that falls silent\<close>

text \<open>The state of the receiving loop after some rounds, while it goes on.\<close>

fun rx_rounds :: "ucall device \<Rightarrow> bytes_in \<Rightarrow> string \<Rightarrow> nat \<Rightarrow> rx_state \<Rightarrow> rx_state option" where
  "rx_rounds D rx f 0 s = Some s"
| "rx_rounds D rx f (Suc k) s = (case rx_round D rx f s of Go s' \<Rightarrow> rx_rounds D rx f k s' | _ \<Rightarrow> None)"

fun file_bytes :: "(ucall \<times> int) list \<Rightarrow> u8 list" where
  "file_bytes [] = []"
| "file_bytes ((c, r) # h) = file_bytes h @ (case c of Write_file bs \<Rightarrow> bs | _ \<Rightarrow> [])"

definition silent :: "nat \<Rightarrow> rx_state \<Rightarrow> bool" where
  "silent n s \<longleftrightarrow> rd s = int n \<and> 0 < n \<and> n \<le> bufsize \<and> read_flag s \<noteq> 0 \<and> output_buf s = replicate bufsize 0"

lemma silent_round:
  assumes "\<And>h. D h Fd_isset = 0" and "silent n s"
  shows "\<exists>s'. rx_round D rx f s = Go s' \<and> silent n s' \<and> rx_size s' = rx_size s + int n \<and>
    file_bytes (clog (rx_w s')) = file_bytes (clog (rx_w s)) @ replicate n 0"
  using assms by (auto simp: rx_round_def silent_def case_prod_beta Let_def min_def)

lemma silent_rounds:
  assumes "\<And>h. D h Fd_isset = 0" and "silent n s"
  shows "\<exists>s'. rx_rounds D rx f k s = Some s' \<and> rx_size s' = rx_size s + int (k * n) \<and>
    file_bytes (clog (rx_w s')) = file_bytes (clog (rx_w s)) @ replicate (k * n) 0"
  using assms(2)
proof (induction k arbitrary: s)
  case (Suc k)
  from silent_round [of D n s rx f, OF assms(1) Suc.prems] obtain s' where s: "rx_round D rx f s = Go s'" "silent n s'"
      "rx_size s' = rx_size s + int n" "file_bytes (clog (rx_w s')) = file_bytes (clog (rx_w s)) @ replicate n 0" by blast
  from Suc.IH [OF s(2)] s show ?case by (auto simp: replicate_add algebra_simps)
qed simp

lemma silent_loop:
  assumes "\<And>h. D h Fd_isset = 0" and "silent n s"
  shows "rx_loop D rx f fuel s = None"
  using assms(2)
proof (induction fuel arbitrary: s)
  case (Suc fuel)
  from silent_round [of D n s rx f, OF assms(1) Suc.prems] Suc.IH show ?case by auto
qed simp

text \<open>
  When the line falls silent after a block of \<open>n\<close> bytes, the receiving loop never ends: every timeout
  counts the last block again and appends \<open>n\<close> zeros to the file.
\<close>

theorem uart_silent_line:
  assumes "\<And>h. D h Fd_isset = 0" and "rd s = int n" and "0 < n" and "n \<le> bufsize" and "read_flag s \<noteq> 0"
    and "output_buf s = replicate bufsize 0"
  shows "rx_loop D rx f fuel s = None \<and>
    (\<exists>s'. rx_rounds D rx f k s = Some s' \<and> rx_size s' = rx_size s + int (k * n) \<and>
      file_bytes (clog (rx_w s')) = file_bytes (clog (rx_w s)) @ replicate (k * n) 0)"
proof -
  have "silent n s" using assms(2-6) by (simp add: silent_def)
  from silent_loop [of D, OF assms(1) this] silent_rounds [of D, OF assms(1) this] show ?thesis by blast
qed

theorem uart_silent_line_witness:
  "let s = \<lparr>rd = 2, rx_size = 2, read_flag = 1, output_buf = replicate bufsize 0, rx_w = idle_port\<rparr>
   in rx_loop (\<lambda>h c. 0) (\<lambda>h. []) ''f'' 1000 s = None \<and>
     (\<exists>s'. rx_rounds (\<lambda>h c. 0) (\<lambda>h. []) ''f'' 3 s = Some s' \<and> rx_size s' = 8)"
proof -
  let ?s = "\<lparr>rd = 2, rx_size = 2, read_flag = 1, output_buf = replicate bufsize 0, rx_w = idle_port\<rparr>"
  have "2 \<le> bufsize" by (simp add: bufsize_def)
  then show ?thesis
    using uart_silent_line [where D = "\<lambda>h c. 0" and s = ?s and n = 2 and rx = "\<lambda>h. []" and f = "''f''" and fuel = 1000 and k = 3]
    unfolding Let_def by (simp del: rx_loop.simps rx_rounds.simps) blast
qed

lemma rx_rounds_snoc:
  "rx_rounds D rx f k s = Some v \<Longrightarrow> rx_round D rx f v = Go v' \<Longrightarrow> rx_rounds D rx f (Suc k) s = Some v'"
proof (induction k arbitrary: s)
  case (Suc k)
  then show ?case by (cases "rx_round D rx f s") simp_all
qed simp

lemma rx_round_oldtio:
  "rx_round D rx f s = Go s' \<Longrightarrow> oldtio (rx_w s') = oldtio (rx_w s)"
  by (auto simp: rx_round_def readport_def tell_def ask_def case_prod_beta Let_def split: if_splits)

lemma rx_rounds_oldtio:
  "rx_rounds D rx f k s = Some s' \<Longrightarrow> oldtio (rx_w s') = oldtio (rx_w s)"
  by (induction k arbitrary: s) (auto dest: rx_round_oldtio split: rx_result.splits)

text \<open>The last calls of the program: the attributes \<open>t\<close> are set again and both files are closed.\<close>

definition is_restore :: "termios \<Rightarrow> uart_world \<Rightarrow> bool" where
  "is_restore t w \<longleftrightarrow> map fst (take 3 (clog w)) = [Close, Close_file, Tcsetattr t]"

text \<open>
  With interrupts the session has an end after all, but only the handler's: it has status 1 and asks for the
  attributes that the program found to be restored, behind some number of blocks of zeros; the loop itself
  never says that it is over.
\<close>

lemma silent_running:
  assumes "\<And>h. D h Fd_isset = 0" and "silent n s" and "(rx_step D rx f)\<^sup>*\<^sup>* (Running s) t"
  shows "\<exists>k v. rx_rounds D rx f k s = Some v \<and> silent n v \<and> (t = Running v \<or> t = Over (Inl (signalHandler D (rx_w v))))"
  using assms(3)
proof (induction rule: rtranclp_induct)
  case base
  show ?case using assms(2) by (intro exI [of _ 0]) simp
next
  case (step t u)
  then obtain k v where v: "rx_rounds D rx f k s = Some v" "silent n v" "t = Running v \<or> t = Over (Inl (signalHandler D (rx_w v)))" by blast
  from v(3) show ?case
  proof
    assume t: "t = Running v"
    from silent_round [of D n v rx f, OF assms(1) v(2)] obtain v' where r: "rx_round D rx f v = Go v'" "silent n v'" by blast
    then have "rx_rounds D rx f (Suc k) s = Some v'"
      using v(1) rx_rounds_snoc by metis
    moreover have "u = Running v' \<or> u = Over (Inl (signalHandler D (rx_w v)))"
      using step.hyps(2) r(1) unfolding t by (auto elim!: rx_stepE)
    ultimately show ?thesis using r(2) v(1,2) by blast
  qed (use step.hyps(2) v in \<open>auto elim: rx_overE\<close>)
qed

theorem uart_interrupt_only_end:
  assumes "\<And>h. D h Fd_isset = 0" and "rd s = int n" and "0 < n" and "n \<le> bufsize" and "read_flag s \<noteq> 0"
    and "output_buf s = replicate bufsize 0" and "(rx_step D rx f)\<^sup>*\<^sup>* (Running s) (Over r)"
  shows "\<exists>k w. r = Inl (Exit 1, w) \<and> is_restore (oldtio (rx_w s)) w \<and>
    file_bytes (clog w) = file_bytes (clog (rx_w s)) @ replicate (k * n) 0"
proof -
  have s: "silent n s" using assms(2-6) by (simp add: silent_def)
  from silent_running [of D, OF assms(1) s assms(7)] obtain k v where v: "rx_rounds D rx f k s = Some v" "r = Inl (signalHandler D (rx_w v))" by blast
  with silent_rounds [of D n s rx f k, OF assms(1) s] have
    b: "file_bytes (clog (rx_w v)) = file_bytes (clog (rx_w s)) @ replicate (k * n) 0" by auto
  have "oldtio (rx_w v) = oldtio (rx_w s)" using rx_rounds_oldtio v(1) by metis
  with b v(2) show ?thesis
    by (intro exI [of _ k] exI [of _ "snd (signalHandler D (rx_w v))"])
      (simp add: signalHandler_def close_port_def is_restore_def tcsetattr_def case_prod_beta)
qed

end
