(* ===== verification/Halting_Prog.thy ===== *)
theory Halting_Prog
  imports Call_Env
begin

text \<open>
  Programs that may stop before they return: a failed \<^verbatim>\<open>assert\<close> aborts the process, a NULL
  pointer that is followed kills it, \<^verbatim>\<open>exit\<close> ends it with a status; of a run that has copied past the
  end of a buffer nothing more is said. A program maps its world to
  the way it ended and the world it left, or to \<open>None\<close> when one of its loops never ends.
\<close>

datatype stop = Abort | Segv | Overrun | Exit int

type_synonym ('w, 'a) prog = "'w \<Rightarrow> ((stop + 'a) \<times> 'w) option"

definition give :: "'a \<Rightarrow> ('w, 'a) prog" where
  "give x w = Some (Inr x, w)"

definition halt :: "stop \<Rightarrow> ('w, 'a) prog" where
  "halt e w = Some (Inl e, w)"

definition and_then :: "('w, 'a) prog \<Rightarrow> ('a \<Rightarrow> ('w, 'b) prog) \<Rightarrow> ('w, 'b) prog" where
  "and_then m f w =
     (case m w of
        None \<Rightarrow> None
      | Some (Inl e, w') \<Rightarrow> Some (Inl e, w')
      | Some (Inr x, w') \<Rightarrow> f x w')"

text \<open>\<^verbatim>\<open>assert(c)\<close>, and an expression that reads the world.\<close>

definition assert_that :: "('w \<Rightarrow> bool) \<Rightarrow> ('w, unit) prog" where
  "assert_that c w = (if c w then Some (Inr (), w) else Some (Inl Abort, w))"

definition look :: "('w \<Rightarrow> 'a) \<Rightarrow> ('w, 'a) prog" where
  "look f w = Some (Inr (f w), w)"

definition change :: "('w \<Rightarrow> 'w) \<Rightarrow> ('w, unit) prog" where
  "change f w = Some (Inr (), f w)"

text \<open>\<^verbatim>\<open>exit(n)\<close>: the parent sees the low eight bits.\<close>

definition exit_with :: "int \<Rightarrow> ('w, 'a) prog" where
  "exit_with n = halt (Exit (n mod 256))"

text \<open>A call of the system.\<close>

definition sys :: "'c device \<Rightarrow> 'c \<Rightarrow> (('c, 'e) dev_world_scheme, int) prog" where
  "sys D c w = Some (Inr (D (clog w) c), w\<lparr>clog := (c, D (clog w) c) # clog w\<rparr>)"

text \<open>\<^verbatim>\<open>for (i = i0; i < i0 + k; i++) body(i);\<close>\<close>

fun for_prog :: "(nat \<Rightarrow> ('w, unit) prog) \<Rightarrow> nat \<Rightarrow> nat \<Rightarrow> ('w, unit) prog" where
  "for_prog body i 0 = give ()"
| "for_prog body i (Suc k) = and_then (body i) (\<lambda>_. for_prog body (Suc i) k)"

section \<open>Total correctness\<close>

text \<open>
  \<open>yields m w Q\<close>: started in \<open>w\<close> the program comes to an end, and its end satisfies \<open>Q\<close>. The
  rules follow the program text.
\<close>

definition yields :: "('w, 'a) prog \<Rightarrow> 'w \<Rightarrow> (stop + 'a \<Rightarrow> 'w \<Rightarrow> bool) \<Rightarrow> bool" where
  "yields m w Q = (\<exists>r w'. m w = Some (r, w') \<and> Q r w')"

named_theorems prog_simps \<open>programs that do not loop, computed\<close>
named_theorems wp \<open>what a program needs to yield a postcondition\<close>

lemma and_then_simps [prog_simps]:
  "and_then (give x) f w = f x w"
  "and_then (halt e) f w = Some (Inl e, w)"
  "and_then (assert_that c) g w = (if c w then g () w else Some (Inl Abort, w))"
  "and_then (look h) k w = k (h w) w"
  "and_then (change t) g w = g () (t w)"
  by (simp_all add: and_then_def give_def halt_def assert_that_def look_def change_def)

lemma and_then_sys [prog_simps]:
  "and_then (sys D c) f w = f (D (clog w) c) (w\<lparr>clog := (c, D (clog w) c) # clog w\<rparr>)"
  by (simp add: and_then_def sys_def)

lemma and_then_give: "and_then (give x) f = f x"
  by (rule ext) (simp add: and_then_def give_def)

lemma and_then_halt: "and_then (halt e) f = halt e"
  by (rule ext) (simp add: and_then_def halt_def)

lemma and_then_Inr: "m w = Some (Inr x, w') \<Longrightarrow> and_then m f w = f x w'"
  by (simp add: and_then_def)

lemma and_then_Inl: "m w = Some (Inl e, w') \<Longrightarrow> and_then m f w = Some (Inl e, w')"
  by (simp add: and_then_def)

lemma and_then_assoc: "and_then (and_then m f) g = and_then m (\<lambda>x. and_then (f x) g)"
  by (rule ext) (auto simp: and_then_def split: option.splits sum.splits)

lemma yieldsE:
  assumes "yields m w Q"
  obtains r w' where "m w = Some (r, w')" "Q r w'"
  using assms by (auto simp: yields_def)

lemma yields_and_then [wp]:
  "yields (and_then m f) w Q \<longleftrightarrow>
     yields m w (\<lambda>r w'. case r of Inl e \<Rightarrow> Q (Inl e) w' | Inr x \<Rightarrow> yields (f x) w' Q)"
  by (auto simp: yields_def and_then_def split: option.splits sum.splits)

lemma yields_simps [wp]:
  "yields (give x) w Q \<longleftrightarrow> Q (Inr x) w"
  "yields (halt e) w Q \<longleftrightarrow> Q (Inl e) w"
  "yields (assert_that c) w P \<longleftrightarrow> (if c w then P (Inr ()) w else P (Inl Abort) w)"
  "yields (look h) w R \<longleftrightarrow> R (Inr (h w)) w"
  "yields (change t) w P \<longleftrightarrow> P (Inr ()) (t w)"
  by (simp_all add: yields_def give_def halt_def assert_that_def look_def change_def)

lemma yields_sys [wp]:
  "yields (sys D c) w Q \<longleftrightarrow> Q (Inr (D (clog w) c)) (w\<lparr>clog := (c, D (clog w) c) # clog w\<rparr>)"
  by (simp add: yields_def sys_def)

lemma yields_mono: "yields m w Q \<Longrightarrow> (\<And>r w'. Q r w' \<Longrightarrow> R r w') \<Longrightarrow> yields m w R"
  by (auto simp: yields_def)

lemma yields_conj: "yields m w Q \<Longrightarrow> yields m w R \<Longrightarrow> yields m w (\<lambda>r w'. Q r w' \<and> R r w')"
  by (auto simp: yields_def)

lemma yields_for_prog:
  assumes "\<And>j w. i \<le> j \<Longrightarrow> j < i + k \<Longrightarrow> I j w \<Longrightarrow> yields (body j) w (\<lambda>r w'. r = Inr () \<and> I (Suc j) w')"
    and "I i w"
  shows "yields (for_prog body i k) w (\<lambda>r w'. r = Inr () \<and> I (i + k) w')"
  using assms
proof (induction k arbitrary: i w)
  case 0
  then show ?case by (simp add: wp)
next
  case (Suc k)
  have "yields (body i) w (\<lambda>r w'. r = Inr () \<and> I (Suc i) w')"
    using Suc.prems by simp
  moreover have "yields (for_prog body (Suc i) k) w' (\<lambda>r w'. r = Inr () \<and> I (Suc i + k) w')"
    if "I (Suc i) w'" for w'
    using that Suc.prems(1) by (intro Suc.IH) simp_all
  ultimately show ?case
    by (auto simp: yields_and_then elim!: yields_mono)
qed

text \<open>A loop whose body may stop the program.\<close>

lemma yields_for_or_stop:
  assumes "\<And>j w. I w \<Longrightarrow> yields (body j) w (\<lambda>r w'. case r of Inl e \<Rightarrow> X e w' | Inr _ \<Rightarrow> I w')"
    and "I w"
  shows "yields (for_prog body i k) w (\<lambda>r w'. case r of Inl e \<Rightarrow> X e w' | Inr _ \<Rightarrow> I w')"
  using assms(2)
proof (induction k arbitrary: i w)
  case 0
  then show ?case by (simp add: wp)
next
  case (Suc k)
  show ?case
    unfolding for_prog.simps yields_and_then
  proof (rule yields_mono [OF assms(1) [OF Suc.prems]])
    fix r w' assume "case r of Inl e \<Rightarrow> X e w' | Inr _ \<Rightarrow> I w'"
    then show "case r of Inl e \<Rightarrow> case Inl e of Inl e \<Rightarrow> X e w' | Inr _ \<Rightarrow> I w'
        | Inr x \<Rightarrow> yields (for_prog body (Suc i) k) w' (\<lambda>r w'. case r of Inl e \<Rightarrow> X e w' | Inr _ \<Rightarrow> I w')"
      by (cases r) (simp_all add: Suc.IH)
  qed
qed

end
