(* ===== verification/Log_List.thy ===== *)
theory Log_List
  imports DDT_Prelude
begin

text \<open>
  The list of the test log library (\<^verbatim>\<open>list.c\<close>): nodes linked by their \<^verbatim>\<open>next\<close> pointers and a
  cursor for traversals. Node \<open>k\<close> of the store has address \<open>k + 1\<close>; address \<open>0\<close> is NULL. The
  element of a node is what its \<^verbatim>\<open>data\<close> pointer refers to.
\<close>

record 'a clist =
  nodes :: "('a \<times> nat) list"
  head :: nat
  currentp :: nat

definition data_of :: "('a \<times> nat) list \<Rightarrow> nat \<Rightarrow> 'a" where
  "data_of ns p = fst (ns ! (p - 1))"

definition next_of :: "('a \<times> nat) list \<Rightarrow> nat \<Rightarrow> nat" where
  "next_of ns p = snd (ns ! (p - 1))"

definition set_next :: "nat \<Rightarrow> nat \<Rightarrow> ('a \<times> nat) list \<Rightarrow> ('a \<times> nat) list" where
  "set_next p q ns = ns[p - 1 := (data_of ns p, q)]"

text \<open>The first argument says whether \<^verbatim>\<open>malloc\<close> returned memory.\<close>

definition list_create :: "bool \<Rightarrow> 'a clist option" where
  "list_create ok = (if ok then Some \<lparr>nodes = [], head = 0, currentp = 0\<rparr> else None)"

definition list_reset :: "'a clist \<Rightarrow> 'a clist" where
  "list_reset l = l\<lparr>currentp := head l\<rparr>"

text \<open>\<^verbatim>\<open>while (p->next != NULL) p = p->next;\<close> does not end on a cyclic chain.\<close>

partial_function (option) last_node :: "('a \<times> nat) list \<Rightarrow> nat \<Rightarrow> nat option" where
  "last_node ns p = (if next_of ns p \<noteq> 0 then last_node ns (next_of ns p) else Some p)"

definition list_insert :: "bool \<Rightarrow> 'a \<Rightarrow> 'a clist \<Rightarrow> (int \<times> 'a clist) option" where
  "list_insert ok d l =
     (if \<not> ok then Some (- 1, l)
      else
        (let n = Suc (length (nodes l)); l' = l\<lparr>nodes := nodes l @ [(d, 0)]\<rparr> in
         if head l = 0 then Some (1, l'\<lparr>head := n\<rparr>)
         else
           (case last_node (nodes l') (head l) of
              None \<Rightarrow> None
            | Some p \<Rightarrow> Some (1, list_reset (l'\<lparr>nodes := set_next p n (nodes l')\<rparr>)))))"

definition list_getnext :: "'a clist \<Rightarrow> 'a option \<times> 'a clist" where
  "list_getnext l =
     (if currentp l \<noteq> 0
      then (Some (data_of (nodes l) (currentp l)), l\<lparr>currentp := next_of (nodes l) (currentp l)\<rparr>)
      else (None, l))"

section \<open>The contract of a list with a cursor\<close>

text \<open>
  What the library relies on: an insertion that finds memory returns and appends, a reset goes back
  to the first element, and each \<^verbatim>\<open>list_getnext\<close> gives the next element until there is none.
\<close>

locale cursor_list =
  fixes ok :: "'l \<Rightarrow> bool"
    and elems :: "'l \<Rightarrow> 'a list"
    and ahead :: "'l \<Rightarrow> 'a list"
    and insert_at_end :: "'a \<Rightarrow> 'l \<Rightarrow> (int \<times> 'l) option"
    and get_next :: "'l \<Rightarrow> 'a option \<times> 'l"
    and rewind :: "'l \<Rightarrow> 'l"
  assumes insert_ok: "ok l \<Longrightarrow> \<exists>l'. insert_at_end x l = Some (1, l') \<and> ok l' \<and> elems l' = elems l @ [x]"
    and rewind_ok: "ok l \<Longrightarrow> ok (rewind l) \<and> elems (rewind l) = elems l \<and> ahead (rewind l) = elems l"
    and get_next_end: "ok l \<Longrightarrow> ahead l = [] \<Longrightarrow> get_next l = (None, l)"
    and get_next_more: "ok l \<Longrightarrow> ahead l = x # xs \<Longrightarrow>
      \<exists>l'. get_next l = (Some x, l') \<and> ok l' \<and> elems l' = elems l \<and> ahead l' = xs"
begin

text \<open>Inserting a sequence, and asking for the next element a number of times.\<close>

primrec insert_all :: "'a list \<Rightarrow> 'l \<Rightarrow> 'l option" where
  "insert_all [] l = Some l"
| "insert_all (x # xs) l = (case insert_at_end x l of None \<Rightarrow> None | Some (r, l') \<Rightarrow> insert_all xs l')"

primrec take_next :: "nat \<Rightarrow> 'l \<Rightarrow> 'a option list" where
  "take_next 0 l = []"
| "take_next (Suc k) l = (case get_next l of (r, l') \<Rightarrow> r # take_next k l')"

lemma insert_all_appends:
  "ok l \<Longrightarrow> \<exists>l'. insert_all xs l = Some l' \<and> ok l' \<and> elems l' = elems l @ xs"
proof (induction xs arbitrary: l)
  case (Cons x xs)
  obtain l1 where l1: "insert_at_end x l = Some (1, l1)" "ok l1" "elems l1 = elems l @ [x]"
    using insert_ok [OF Cons.prems] by blast
  then show ?case using Cons.IH [OF l1(2)] by auto
qed simp

lemma take_next_ahead:
  "ok l \<Longrightarrow> take_next k l = map Some (take k (ahead l)) @ replicate (k - length (ahead l)) None"
proof (induction k arbitrary: l)
  case (Suc k)
  show ?case
  proof (cases "ahead l")
    case Nil
    then show ?thesis using Suc.IH [OF Suc.prems] get_next_end [OF Suc.prems Nil] by simp
  next
    case (Cons x xs)
    obtain l' where "get_next l = (Some x, l')" "ok l'" "ahead l' = xs"
      using get_next_more [OF Suc.prems Cons] by blast
    then show ?thesis using Suc.IH [of l'] Cons by simp
  qed
qed simp

lemma traversal:
  assumes "ok l" "elems l = []"
  shows "\<exists>l'. insert_all xs l = Some l' \<and>
    take_next k (rewind l') = map Some (take k xs) @ replicate (k - length xs) None"
proof -
  obtain l' where "insert_all xs l = Some l'" "ok l'" "elems l' = xs"
    using insert_all_appends [OF assms(1)] assms(2) by auto
  then show ?thesis using rewind_ok [of l'] take_next_ahead [of "rewind l'"] by auto
qed

end

section \<open>The linked list meets it\<close>

text \<open>The chain of the nodes: each is linked to the one allocated after it, the last to none.\<close>

definition list_ok :: "'a clist \<Rightarrow> bool" where
  "list_ok l \<longleftrightarrow> head l = (if nodes l = [] then 0 else 1) \<and> currentp l \<le> length (nodes l)
     \<and> (\<forall>i < length (nodes l). snd (nodes l ! i) = (if Suc i = length (nodes l) then 0 else i + 2))"

definition list_elems :: "'a clist \<Rightarrow> 'a list" where
  "list_elems l = map fst (nodes l)"

definition list_ahead :: "'a clist \<Rightarrow> 'a list" where
  "list_ahead l = (if currentp l = 0 then [] else drop (currentp l - 1) (list_elems l))"

lemma last_node_chain:
  assumes "\<And>i. i < n \<Longrightarrow> snd (ns ! i) = (if Suc i = n then 0 else i + 2)"
    and "0 < p" "p \<le> n"
  shows "last_node ns p = Some n"
  using assms(2,3)
proof (induction "n - p" arbitrary: p)
  case 0
  then have "next_of ns p = 0" using assms(1) [of "p - 1"] by (simp add: next_of_def)
  then show ?case using 0 by (subst last_node.simps) simp
next
  case (Suc k)
  then have "next_of ns p = Suc p" using assms(1) [of "p - 1"] by (auto simp: next_of_def)
  moreover have "last_node ns (Suc p) = Some n" using Suc by (intro Suc.hyps(1)) linarith+
  ultimately show ?case by (subst last_node.simps) simp
qed

lemma list_insert_ok:
  assumes l: "list_ok l"
  shows "\<exists>l'. list_insert True d l = Some (1, l') \<and> list_ok l' \<and> list_elems l' = list_elems l @ [d]"
proof (cases "nodes l = []")
  case True
  then show ?thesis
    using l by (simp add: list_insert_def Let_def list_ok_def list_elems_def)
next
  case False
  let ?n = "length (nodes l)" and ?ns = "nodes l @ [(d, 0)]"
  have h: "head l = 1" and n: "0 < ?n" using l False by (auto simp: list_ok_def)
  have old: "snd (?ns ! i) = (if Suc i = ?n then 0 else i + 2)" if "i < ?n" for i
    using that l by (simp add: list_ok_def nth_append)
  have last: "last_node ?ns (head l) = Some ?n"
    using last_node_chain [OF old, of 1] n h by (simp add: Suc_le_eq)
  let ?ns' = "set_next ?n (Suc ?n) ?ns"
  have ns': "?ns' = (nodes l)[?n - 1 := (fst (nodes l ! (?n - 1)), Suc ?n)] @ [(d, 0)]"
    using n by (simp add: set_next_def data_of_def nth_append list_update_append)
  have "map fst ?ns' = map fst ?ns"
    using n by (simp add: ns' map_update list_update_same_conv)
  moreover have "snd (?ns' ! i) = (if Suc i = length ?ns' then 0 else i + 2)" if "i < length ?ns'" for i
    using that n l by (auto simp: ns' nth_append nth_list_update list_ok_def)
  moreover have "length ?ns' = Suc ?n" by (simp add: ns')
  ultimately show ?thesis
    using h last n
    by (auto simp: list_insert_def Let_def list_reset_def list_ok_def list_elems_def)
qed

lemma list_reset_ok:
  assumes "list_ok l"
  shows "list_ok (list_reset l) \<and> list_elems (list_reset l) = list_elems l
    \<and> list_ahead (list_reset l) = list_elems l"
  using assms by (auto simp: list_reset_def list_ok_def list_elems_def list_ahead_def Suc_le_eq)

lemma list_getnext_end:
  assumes "list_ok l" "list_ahead l = []"
  shows "list_getnext l = (None, l)"
proof -
  have "currentp l = 0"
    using assms by (auto simp: list_ahead_def list_ok_def list_elems_def split: if_splits)
  then show ?thesis by (simp add: list_getnext_def)
qed

lemma list_getnext_more:
  assumes l: "list_ok l" and a: "list_ahead l = x # xs"
  shows "\<exists>l'. list_getnext l = (Some x, l') \<and> list_ok l' \<and> list_elems l' = list_elems l
    \<and> list_ahead l' = xs"
proof -
  let ?p = "currentp l"
  have p: "?p \<noteq> 0" and d: "drop (?p - 1) (map fst (nodes l)) = x # xs"
    using a by (auto simp: list_ahead_def list_elems_def split: if_splits)
  have lt: "?p - 1 < length (nodes l)" using l p by (simp add: list_ok_def) linarith
  have x: "fst (nodes l ! (?p - 1)) = x"
    using d lt by (metis Cons_nth_drop_Suc length_map list.inject nth_map)
  have xs: "xs = drop ?p (map fst (nodes l))"
    using d lt p by (metis Cons_nth_drop_Suc Suc_pred' bot_nat_0.not_eq_extremum length_map list.inject)
  have nx: "snd (nodes l ! (?p - 1)) = (if ?p = length (nodes l) then 0 else Suc ?p)"
    using l lt p by (auto simp: list_ok_def)
  show ?thesis
    using p l x nx xs lt
    by (auto simp: list_getnext_def data_of_def next_of_def list_ok_def list_elems_def list_ahead_def)
qed

interpretation cl: cursor_list list_ok list_elems list_ahead "list_insert True" list_getnext list_reset
  by unfold_locales
    (rule list_insert_ok list_reset_ok list_getnext_end list_getnext_more; assumption)+

text \<open>A sequence of insertions, and of steps of a traversal.\<close>

primrec list_inserts :: "'a list \<Rightarrow> 'a clist \<Rightarrow> 'a clist option" where
  "list_inserts [] l = Some l"
| "list_inserts (x # xs) l =
     (case list_insert True x l of None \<Rightarrow> None | Some (r, l') \<Rightarrow> list_inserts xs l')"

primrec list_getnexts :: "nat \<Rightarrow> 'a clist \<Rightarrow> 'a option list" where
  "list_getnexts 0 l = []"
| "list_getnexts (Suc k) l = (case list_getnext l of (r, l') \<Rightarrow> r # list_getnexts k l')"

lemma list_inserts_eq: "list_inserts xs l = cl.insert_all xs l"
  by (induction xs arbitrary: l) (simp_all split: option.splits)

lemma list_getnexts_eq: "list_getnexts k l = cl.take_next k l"
  by (induction k arbitrary: l) (simp_all split: prod.splits)

lemma list_create_ok:
  assumes "list_create ok = Some l"
  shows "list_ok l" "list_elems l = []"
  using assms by (auto simp: list_create_def list_ok_def list_elems_def split: if_splits)

text \<open>
  Whatever sequence is inserted into a fresh list, a traversal from its start gives the elements
  in the order of their insertion, each once, and NULL from then on, for any number of steps.
\<close>

theorem list_traversal:
  assumes "list_create ok = Some l"
  shows "\<exists>l'. list_inserts xs l = Some l' \<and>
    list_getnexts k (list_reset l') = map Some (take k xs) @ replicate (k - length xs) None"
  unfolding list_inserts_eq list_getnexts_eq
  by (rule cl.traversal) (fact list_create_ok [OF assms])+

theorem list_traversal_witness:
  "\<exists>l'. list_inserts [4, 5, 6 :: nat] \<lparr>nodes = [], head = 0, currentp = 0\<rparr> = Some l' \<and>
    list_getnexts 4 (list_reset l') = [Some 4, Some 5, Some 6, None]"
  using list_traversal [of True "\<lparr>nodes = [], head = 0, currentp = 0\<rparr>" "[4, 5, 6]" 4]
  by (simp add: list_create_def)

end
