(* ===== verification/Testlog.thy ===== *)
theory Testlog
  imports Halting_Prog Log_List
begin

text \<open>
  The logging library of the C test programs (\<^verbatim>\<open>testlog.c\<close>, \<^verbatim>\<open>testlog.h\<close>) and the program that
  drives it from the command line (\<^verbatim>\<open>testtestlog5.c\<close>). The system answers every call with a
  number that is an arbitrary function of the calls before; the texts of time stamps and errors and the
  fields of \<^verbatim>\<open>struct utsname\<close> are parameters as well. A C string that may be NULL is a \<open>string option\<close>.
\<close>

section \<open>Data\<close>

datatype msgtype = ERRORL | INFO | PASS | FAIL | WARN | START | END | CASE_START | CASE_PASS
  | CASE_FAIL | SYSINFO | DESC | SCEN | CASE_ID | VALID

record lfile =
  lfd :: int
  loglevel :: int

record testlog =
  loglist :: "lfile clist option"
  passes :: int
  failures :: int
  errors :: int
  logging :: int
  case_started :: int

text \<open>
  The calls a program makes. \<open>Errno\<close> reads \<^verbatim>\<open>errno\<close>, \<open>St_mtime\<close> the field that \<^verbatim>\<open>stat\<close> filled,
  \<open>Field\<close> a field of a structure that an \<^verbatim>\<open>ioctl\<close> filled.
\<close>

datatype sys_call = Malloc | Write int string | Open string int | Fchmod int int | Lseek int int int
  | Close int | Time | Uname | Stat string | St_mtime string | Rename string string | Errno
  | Geteuid | Ioctl int string string | Field string nat | Mmap int int | Put_cell int int

record utsname =
  sysname :: string
  nodename :: string
  release :: string
  version :: string

record log_env =
  dev :: "sys_call device"
  ctime :: "int \<Rightarrow> string"
  strerror :: "int \<Rightarrow> string"
  udata :: utsname

text \<open>The world of a program: its calls and the log it created, if any.\<close>

record log_world = "sys_call dev_world" +
  tlog :: "testlog option"

type_synonym 'a log_prog = "(log_world, 'a) prog"

definition ERROR :: int where "ERROR = 0"
definition WARNING :: int where "WARNING = 1"
definition INFORMATION :: int where "INFORMATION = 2"
definition VERBOSE :: int where "VERBOSE = 3"
definition STDOUTFD :: int where "STDOUTFD = 1"
definition STRSIZE :: nat where "STRSIZE = 256"
definition LOG_BUFF_SIZE :: nat where "LOG_BUFF_SIZE = 512"
definition ENOENT :: int where "ENOENT = 2"

definition newline :: string where "newline = [CHR 0x0A]"

text \<open>\<^verbatim>\<open>snprintf\<close> into a buffer of \<open>n\<close> bytes, and what \<^verbatim>\<open>%s\<close> and \<^verbatim>\<open>%d\<close> print.\<close>

definition snprintf :: "nat \<Rightarrow> string \<Rightarrow> string" where
  "snprintf n s = take (n - 1) s"

definition c_str :: "string option \<Rightarrow> string" where
  "c_str s = (case s of None \<Rightarrow> ''(null)'' | Some t \<Rightarrow> t)"

fun dec_nat :: "nat \<Rightarrow> string" where
  "dec_nat n = (if n < 10 then [char_of (48 + n)] else dec_nat (n div 10) @ [char_of (48 + n mod 10)])"

declare dec_nat.simps [simp del]

definition dec :: "int \<Rightarrow> string" where
  "dec i = (if i < 0 then ''-'' @ dec_nat (nat (- i)) else dec_nat (nat i))"

section \<open>Writing and renaming files\<close>

text \<open>\<^verbatim>\<open>while (cur < len)\<close>: a call that accepts no byte is repeated.\<close>

partial_function (option) mywrite_loop ::
    "log_env \<Rightarrow> int \<Rightarrow> string \<Rightarrow> int \<Rightarrow> log_world \<Rightarrow> ((stop + int) \<times> log_world) option" where
  "mywrite_loop E fd str cur w =
     (if cur < int (length str)
      then
        (let c = Write fd (drop (nat cur) str); r = dev E (clog w) c; w' = w\<lparr>clog := (c, r) # clog w\<rparr> in
         if r < 0 then Some (Inr (- 1), w') else mywrite_loop E fd str (cur + r) w')
      else Some (Inr (int (length str)), w))"

definition mywrite :: "log_env \<Rightarrow> int \<Rightarrow> string \<Rightarrow> int log_prog" where
  "mywrite E fd str = mywrite_loop E fd str 0"

definition file_not_exist :: "log_env \<Rightarrow> string option \<Rightarrow> int log_prog" where
  "file_not_exist E fname =
     (case fname of
        None \<Rightarrow> halt Abort
      | Some f \<Rightarrow>
          and_then (sys (dev E) (Stat f)) (\<lambda>ret.
          if ret \<noteq> 0
          then and_then (sys (dev E) Errno) (\<lambda>errno. give (if errno = ENOENT then 1 else 0))
          else give 0))"

definition rename_file :: "log_env \<Rightarrow> string option \<Rightarrow> int log_prog" where
  "rename_file E fname =
     (case fname of
        None \<Rightarrow> halt Abort
      | Some f \<Rightarrow>
          and_then (sys (dev E) (Stat f)) (\<lambda>ret.
          if ret \<noteq> 0 then sys (dev E) Errno
          else
            and_then (sys (dev E) (St_mtime f)) (\<lambda>mtime.
            and_then (sys (dev E) (Rename f (snprintf STRSIZE (f @ ''_'' @ dec mtime)))) (\<lambda>r.
            if r \<noteq> 0 then sys (dev E) Errno else give 0))))"

section \<open>Creating a log\<close>

text \<open>A field of the log; a log that was never created is a NULL pointer.\<close>

definition log_field :: "(testlog \<Rightarrow> 'a) \<Rightarrow> 'a log_prog" where
  "log_field f w = (case tlog w of None \<Rightarrow> Some (Inl Segv, w) | Some l \<Rightarrow> Some (Inr (f l), w))"

definition log_set :: "(testlog \<Rightarrow> testlog) \<Rightarrow> unit log_prog" where
  "log_set f w =
     (case tlog w of None \<Rightarrow> Some (Inl Segv, w) | Some l \<Rightarrow> Some (Inr (), w\<lparr>tlog := Some (f l)\<rparr>))"

text \<open>\<^verbatim>\<open>list_insert(log->loglist, p)\<close>: it reads \<^verbatim>\<open>l->head\<close> before it allocates.\<close>

definition insert_file :: "log_env \<Rightarrow> lfile \<Rightarrow> int log_prog" where
  "insert_file E p =
     and_then (log_field loglist) (\<lambda>ll.
     case ll of
       None \<Rightarrow> halt Segv
     | Some l \<Rightarrow>
         and_then (sys (dev E) Malloc) (\<lambda>n.
         case list_insert (n \<noteq> 0) p l of
           None \<Rightarrow> (\<lambda>w. None)
         | Some (r, l') \<Rightarrow> and_then (log_set (loglist_update (\<lambda>_. Some l'))) (\<lambda>_. give r)))"

definition addfilebytype :: "log_env \<Rightarrow> int \<Rightarrow> int \<Rightarrow> int log_prog" where
  "addfilebytype E fd dlevel =
     and_then (sys (dev E) Malloc) (\<lambda>p.
     if p = 0 then give (- 1)
     else
       and_then (log_field logging) (\<lambda>lg.
       if lg \<noteq> 0 then halt Abort
       else
         and_then (insert_file E \<lparr>lfd = fd, loglevel = dlevel\<rparr>) (\<lambda>ret.
         if ret \<noteq> 1 then give (- 1) else give 1)))"

text \<open>The result says whether the log pointer is not NULL.\<close>

definition test_create :: "log_env \<Rightarrow> bool log_prog" where
  "test_create E =
     and_then (sys (dev E) Malloc) (\<lambda>p.
     if p = 0 then and_then (change (tlog_update (\<lambda>_. None))) (\<lambda>_. give False)
     else
       and_then (sys (dev E) Malloc) (\<lambda>q.
       and_then (change (tlog_update (\<lambda>_. Some \<lparr>loglist = list_create (q \<noteq> 0), passes = 0, failures = 0,
         errors = 0, logging = 0, case_started = 0\<rparr>))) (\<lambda>_.
       and_then (addfilebytype E STDOUTFD VERBOSE) (\<lambda>_. give True))))"

text \<open>\<^verbatim>\<open>0666\<close> is the mode of the six permission flags; \<^verbatim>\<open>0x441\<close> is \<^verbatim>\<open>O_WRONLY | O_CREAT | O_APPEND\<close>.\<close>

definition log_mode :: int where "log_mode = 438"
definition log_open_flags :: int where "log_open_flags = 1089"

definition addfilebyname :: "log_env \<Rightarrow> string option \<Rightarrow> int \<Rightarrow> int log_prog" where
  "addfilebyname E fname dlevel =
     and_then (log_field logging) (\<lambda>lg.
     case (lg = 0, fname) of
       (True, Some f) \<Rightarrow>
         and_then (sys (dev E) (Open f log_open_flags)) (\<lambda>fd.
         if fd < 0 then give fd
         else
           and_then (sys (dev E) (Fchmod fd log_mode)) (\<lambda>ret.
           if ret < 0 then give ret
           else and_then (sys (dev E) (Lseek fd 2 0)) (\<lambda>_. addfilebytype E fd dlevel)))
     | _ \<Rightarrow> halt Abort)"

section \<open>Messages\<close>

primrec type_label :: "msgtype \<Rightarrow> string" where
  "type_label ERRORL = ''ERROR''"
| "type_label INFO = ''INFO''"
| "type_label PASS = ''PASS''"
| "type_label FAIL = ''FAIL''"
| "type_label WARN = ''WARN''"
| "type_label START = ''START''"
| "type_label CASE_START = ''CASE_START''"
| "type_label CASE_PASS = ''CASE_PASS''"
| "type_label CASE_FAIL = ''CASE_FAIL''"
| "type_label SYSINFO = ''SYSINFO''"
| "type_label SCEN = ''SCEN''"
| "type_label DESC = ''DESC''"
| "type_label CASE_ID = ''CASE_ID''"
| "type_label VALID = ''VALIDATION''"
| "type_label END = ''END''"

text \<open>What follows the type on a line: the delimiter, the message and the end of the line.\<close>

definition log_tail :: "string option \<Rightarrow> string" where
  "log_tail msg = snprintf STRSIZE (''|'' @ c_str msg @ newline)"

text \<open>\<^verbatim>\<open>list_getnext(l->loglist)\<close> and \<^verbatim>\<open>list_reset(l->loglist)\<close>.\<close>

definition next_file :: "lfile option log_prog" where
  "next_file =
     and_then (log_field loglist) (\<lambda>ll.
     case ll of
       None \<Rightarrow> halt Abort
     | Some l \<Rightarrow>
         and_then (log_set (loglist_update (\<lambda>_. Some (snd (list_getnext l))))) (\<lambda>_.
         give (fst (list_getnext l))))"

definition rewind_files :: "unit log_prog" where
  "rewind_files =
     and_then (log_field loglist) (\<lambda>ll.
     case ll of
       None \<Rightarrow> halt Abort
     | Some l \<Rightarrow> log_set (loglist_update (\<lambda>_. Some (list_reset l))))"

definition log_file :: "log_env \<Rightarrow> msgtype \<Rightarrow> string option \<Rightarrow> string \<Rightarrow> lfile \<Rightarrow> unit log_prog" where
  "log_file E type msg timestr lf =
     and_then (sys (dev E) (Write (lfd lf) (take (length timestr - 1) timestr))) (\<lambda>_.
     and_then (mywrite E (lfd lf) (snprintf STRSIZE ''|'')) (\<lambda>_.
     and_then (mywrite E (lfd lf) (type_label type)) (\<lambda>_.
     and_then (mywrite E (lfd lf) (log_tail msg)) (\<lambda>_. give ()))))"

lemma and_then_mono [partial_function_mono]:
  fixes m :: "('q \<Rightarrow> 'r option) \<Rightarrow> ('w, 'a) prog" and g :: "('q \<Rightarrow> 'r option) \<Rightarrow> 'a \<Rightarrow> ('w, 'b) prog"
  assumes "\<And>w. mono_option (\<lambda>f. m f w)" "\<And>x w. mono_option (\<lambda>f. g f x w)"
  shows "mono_option (\<lambda>f. and_then (m f) (g f) w)"
proof (rule monotoneI)
  fix f f' :: "'q \<Rightarrow> 'r option"
  assume le: "fun_ord option_ord f f'"
  have 1: "option_ord (m f v) (m f' v)" for v using assms(1) le by (blast dest: monotoneD)
  have 2: "option_ord (g f x v) (g f' x v)" for x v using assms(2) le by (blast dest: monotoneD)
  show "option_ord (and_then (m f) (g f) w) (and_then (m f') (g f') w)"
  proof (cases "m f w")
    case None
    then show ?thesis by (simp add: and_then_def flat_ord_def)
  next
    case (Some p)
    then have eq: "m f' w = Some p" using 1 [of w] by (simp add: flat_ord_def)
    show ?thesis
      using 2 [of "projr (fst p)" "snd p"]
      by (cases p; cases "fst p") (simp_all add: and_then_def Some eq flat_ord_def)
  qed
qed

partial_function (option) log_loop ::
    "log_env \<Rightarrow> msgtype \<Rightarrow> string option \<Rightarrow> int \<Rightarrow> string \<Rightarrow> log_world \<Rightarrow> ((stop + int) \<times> log_world) option" where
  "log_loop E type msg dlevel timestr w =
     and_then next_file (\<lambda>lf.
     case lf of
       None \<Rightarrow> give 1
     | Some f \<Rightarrow>
         and_then (if dlevel \<le> loglevel f then log_file E type msg timestr f else give ()) (\<lambda>_ w'.
         log_loop E type msg dlevel timestr w')) w"

definition log_msg :: "log_env \<Rightarrow> msgtype \<Rightarrow> string option \<Rightarrow> int \<Rightarrow> int log_prog" where
  "log_msg E type msg dlevel =
     and_then (log_field logging) (\<lambda>lg.
     if lg = 0 then halt Abort
     else
       and_then (sys (dev E) Time) (\<lambda>timep.
       and_then rewind_files (\<lambda>_. log_loop E type msg dlevel (ctime E timep))))"

text \<open>\<^verbatim>\<open>assert((l != NULL) && (msg != NULL) && (l->logging))\<close>\<close>

definition assert_logging :: "string option \<Rightarrow> unit log_prog" where
  "assert_logging msg =
     assert_that (\<lambda>w. msg \<noteq> None \<and> (case tlog w of None \<Rightarrow> False | Some l \<Rightarrow> logging l \<noteq> 0))"

text \<open>The macros with the suffix \<^verbatim>\<open>_f\<close> format into the buffer of the log first.\<close>

definition log_buff :: "string \<Rightarrow> string option log_prog" where
  "log_buff s = log_field (\<lambda>_. Some (snprintf LOG_BUFF_SIZE s))"

definition test_sysinfo :: "log_env \<Rightarrow> string option \<Rightarrow> int log_prog" where
  "test_sysinfo E msg = and_then (assert_logging msg) (\<lambda>_. log_msg E SYSINFO msg ERROR)"

definition test_sysinfo_f :: "log_env \<Rightarrow> string \<Rightarrow> int log_prog" where
  "test_sysinfo_f E s = and_then (log_buff s) (test_sysinfo E)"

definition test_warn :: "log_env \<Rightarrow> string option \<Rightarrow> int log_prog" where
  "test_warn E msg = and_then (assert_logging msg) (\<lambda>_. log_msg E WARN msg WARNING)"

definition case_start :: "log_env \<Rightarrow> string option \<Rightarrow> int log_prog" where
  "case_start E name =
     and_then (assert_logging name) (\<lambda>_.
     and_then (log_set (case_started_update (\<lambda>_. 1))) (\<lambda>_. log_msg E CASE_START name ERROR))"

text \<open>\<^verbatim>\<open>assert(l->case_start)\<close>\<close>

definition assert_case :: "unit log_prog" where
  "assert_case = and_then (log_field case_started) (\<lambda>c. if c = 0 then halt Abort else give ())"

definition case_pass :: "log_env \<Rightarrow> string option \<Rightarrow> int log_prog" where
  "case_pass E msg =
     and_then (assert_logging msg) (\<lambda>_.
     and_then assert_case (\<lambda>_.
     and_then (log_set (\<lambda>l. l\<lparr>passes := passes l + 1, case_started := 0\<rparr>)) (\<lambda>_.
     log_msg E CASE_PASS msg INFORMATION)))"

definition case_fail :: "log_env \<Rightarrow> string option \<Rightarrow> int log_prog" where
  "case_fail E msg =
     and_then (assert_logging msg) (\<lambda>_.
     and_then assert_case (\<lambda>_.
     and_then (log_set (\<lambda>l. l\<lparr>case_started := 0, failures := failures l + 1\<rparr>)) (\<lambda>_.
     log_msg E CASE_FAIL msg ERROR)))"

definition test_info :: "log_env \<Rightarrow> string option \<Rightarrow> int log_prog" where
  "test_info E msg = and_then (assert_logging msg) (\<lambda>_. log_msg E INFO msg INFORMATION)"

definition test_info_f :: "log_env \<Rightarrow> string \<Rightarrow> int log_prog" where
  "test_info_f E s = and_then (log_buff s) (test_info E)"

definition case_description :: "log_env \<Rightarrow> string option \<Rightarrow> int log_prog" where
  "case_description E str = and_then (assert_logging str) (\<lambda>_. log_msg E DESC str INFORMATION)"

definition case_scenario :: "log_env \<Rightarrow> string option \<Rightarrow> int log_prog" where
  "case_scenario E scenario = and_then (assert_logging scenario) (\<lambda>_. log_msg E SCEN scenario INFORMATION)"

definition case_validation :: "log_env \<Rightarrow> string option \<Rightarrow> int log_prog" where
  "case_validation E vstr = and_then (assert_logging vstr) (\<lambda>_. log_msg E VALID vstr INFORMATION)"

definition test_error :: "log_env \<Rightarrow> string option \<Rightarrow> int log_prog" where
  "test_error E msg =
     and_then (assert_logging msg) (\<lambda>_.
     and_then (log_set (\<lambda>l. l\<lparr>errors := errors l + 1\<rparr>)) (\<lambda>_. log_msg E ERRORL msg ERROR))"

text \<open>
  The fields of \<^verbatim>\<open>struct utsname\<close> are what the buffer holds after the call, also when the call failed.
\<close>

definition test_init :: "log_env \<Rightarrow> string option \<Rightarrow> int log_prog" where
  "test_init E name =
     and_then (assert_that (\<lambda>w. tlog w \<noteq> None \<and> name \<noteq> None)) (\<lambda>_.
     and_then (log_set (logging_update (\<lambda>_. 1))) (\<lambda>_.
     and_then (log_msg E START name INFORMATION) (\<lambda>_.
     and_then (sys (dev E) Uname) (\<lambda>r.
     and_then (if r < 0 then test_error E (Some ''uname call failed'') else give 0) (\<lambda>_.
     and_then (test_sysinfo_f E (''system name: '' @ sysname (udata E))) (\<lambda>_.
     and_then (test_sysinfo_f E (''node name: '' @ nodename (udata E))) (\<lambda>_.
     and_then (test_sysinfo_f E (''release: '' @ release (udata E))) (\<lambda>_.
     and_then (test_sysinfo_f E (''version: '' @ version (udata E))) (\<lambda>_.
     and_then (test_sysinfo_f E (''machine: '' @ version (udata E))) (\<lambda>_.
     give 1))))))))))"

section \<open>Ending a test\<close>

partial_function (option) close_loop :: "log_env \<Rightarrow> log_world \<Rightarrow> ((stop + unit) \<times> log_world) option" where
  "close_loop E w =
     and_then next_file (\<lambda>lf.
     case lf of
       None \<Rightarrow> give ()
     | Some f \<Rightarrow> and_then (sys (dev E) (Close (lfd f))) (\<lambda>_ w'. close_loop E w')) w"

definition test_close :: "log_env \<Rightarrow> unit log_prog" where
  "test_close E =
     and_then (assert_that (\<lambda>w. tlog w \<noteq> None)) (\<lambda>_.
     and_then rewind_files (\<lambda>_. close_loop E))"

definition test_exit :: "log_env \<Rightarrow> string option \<Rightarrow> unit log_prog" where
  "test_exit E msg =
     and_then (assert_that (\<lambda>w. tlog w \<noteq> None)) (\<lambda>_.
     and_then (log_field passes) (\<lambda>p.
     and_then (log_msg E INFO (Some (snprintf (STRSIZE - 1) (''CASES PASSED : '' @ dec p))) ERROR) (\<lambda>_.
     and_then (log_field failures) (\<lambda>f.
     and_then (log_msg E INFO (Some (snprintf (STRSIZE - 1) (''CASES FAILED : '' @ dec f))) ERROR) (\<lambda>_.
     and_then (log_field errors) (\<lambda>e.
     and_then (log_msg E INFO (Some (snprintf (STRSIZE - 1) (''ERRORS : '' @ dec e))) ERROR) (\<lambda>_.
     and_then (if 0 < f \<or> 0 < e then log_msg E FAIL (Some ''TESTFAILED'') ERROR
               else log_msg E PASS (Some ''TESTPASSED'') ERROR) (\<lambda>_.
     and_then (log_msg E END msg INFORMATION) (\<lambda>_.
     and_then (test_close E) (\<lambda>_.
     exit_with (f + e)))))))))))"

definition test_error_exit :: "log_env \<Rightarrow> string option \<Rightarrow> unit log_prog" where
  "test_error_exit E msg = and_then (test_error E msg) (\<lambda>_. test_exit E msg)"

definition test_pass :: "log_env \<Rightarrow> string option \<Rightarrow> unit log_prog" where
  "test_pass E msg = and_then (assert_that (\<lambda>w. tlog w \<noteq> None)) (\<lambda>_. test_exit E msg)"

definition test_fail :: "log_env \<Rightarrow> string option \<Rightarrow> unit log_prog" where
  "test_fail E msg =
     and_then (log_field case_started) (\<lambda>c.
     and_then (if c \<noteq> 0 then case_fail E msg else give 0) (\<lambda>_.
     test_exit E msg))"

end
