(* ===== verification/Testlog_Correct.thy ===== *)
theory Testlog_Correct
  imports Testlog
begin

text \<open>
  Correctness of the test log library: what a message leaves in the log files, that every operation
  returns, that the counters follow an abstract tally, and the status a test exits with.
\<close>

section \<open>What the system promises\<close>

text \<open>
  A \<^verbatim>\<open>write\<close> of at least one byte accepts at least one of them or fails, and never more than it was
  given; a file that takes everything accepts each write whole.
\<close>

definition writes_progress :: "log_env \<Rightarrow> bool" where
  "writes_progress E \<longleftrightarrow> (\<forall>h fd s. dev E h (Write fd s) \<le> int (length s)
     \<and> (s \<noteq> [] \<longrightarrow> dev E h (Write fd s) \<noteq> 0))"

definition writes_whole :: "log_env \<Rightarrow> bool" where
  "writes_whole E \<longleftrightarrow> (\<forall>h fd s. dev E h (Write fd s) = int (length s))"

lemma writes_whole_progress: "writes_whole E \<Longrightarrow> writes_progress E"
  by (simp add: writes_whole_def writes_progress_def)

text \<open>The bytes that a descriptor has accepted.\<close>

fun outp :: "int \<Rightarrow> (sys_call \<times> int) list \<Rightarrow> string" where
  "outp fd ((Write fd' s, r) # h) = outp fd h @ (if fd' = fd then take (nat r) s else [])"
| "outp fd (c # h) = outp fd h"
| "outp fd [] = []"

text \<open>The calls of a history that are not the logging of messages or the closing of files.\<close>

definition others :: "(sys_call \<times> int) list \<Rightarrow> (sys_call \<times> int) list" where
  "others h = filter (\<lambda>(c, r). case c of Write fd s \<Rightarrow> False | Time \<Rightarrow> False
     | Close fd \<Rightarrow> False | _ \<Rightarrow> True) h"

lemma others_simps [simp]:
  "others ((Write fd s, r) # h) = others h" "others ((Time, r) # h) = others h"
  "others ((Close fd, r) # h) = others h"
  by (simp_all add: others_def)

section \<open>Writing a string\<close>

lemma mywrite_loop_exact:
  assumes E: "writes_progress E" and c: "0 \<le> cur" "cur \<le> int (length s)"
  shows "\<exists>r w'. mywrite_loop E fd s cur w = Some (Inr r, w') \<and> tlog w' = tlog w
    \<and> others (clog w') = others (clog w)
    \<and> (\<forall>fd'. fd' \<noteq> fd \<longrightarrow> outp fd' (clog w') = outp fd' (clog w))
    \<and> (\<exists>n \<ge> nat cur. outp fd (clog w') = outp fd (clog w) @ take (n - nat cur) (drop (nat cur) s)
        \<and> (r = int (length s) \<and> n = length s \<or> r = - 1 \<and> n < length s))"
  using c
proof (induction "length s - nat cur" arbitrary: cur w rule: less_induct)
  case less
  show ?case
  proof (cases "cur < int (length s)")
    case False
    then show ?thesis
      using less.prems by (subst mywrite_loop.simps) (auto intro!: exI [of _ "length s"])
  next
    case True
    define c where "c = Write fd (drop (nat cur) s)"
    define k where "k = dev E (clog w) c"
    define w1 where "w1 = w\<lparr>clog := (c, k) # clog w\<rparr>"
    have step: "mywrite_loop E fd s cur w
        = (if k < 0 then Some (Inr (- 1), w1) else mywrite_loop E fd s (cur + k) w1)"
      using True by (subst mywrite_loop.simps) (simp add: Let_def c_def k_def w1_def)
    have ne: "drop (nat cur) s \<noteq> []" using True less.prems by simp
    have "k \<noteq> 0 \<and> k \<le> int (length (drop (nat cur) s))"
      using E ne unfolding writes_progress_def k_def c_def by blast
    then have k: "k \<noteq> 0" "k \<le> int (length s) - cur"
      using less.prems True by auto
    have w1: "tlog w1 = tlog w" "outp fd (clog w1) = outp fd (clog w) @ take (nat k) (drop (nat cur) s)"
      "\<And>fd'. fd' \<noteq> fd \<Longrightarrow> outp fd' (clog w1) = outp fd' (clog w)" "others (clog w1) = others (clog w)"
      by (simp_all add: w1_def c_def)
    show ?thesis
    proof (cases "k < 0")
      case True
      then show ?thesis
        using w1 step \<open>cur < int (length s)\<close> less.prems by (auto intro!: exI [of _ "nat cur"])
    next
      case False
      have lt: "length s - nat (cur + k) < length s - nat cur"
        using False k less.prems True by linarith
      obtain r w' n where r: "mywrite_loop E fd s (cur + k) w1 = Some (Inr r, w')" "tlog w' = tlog w1"
        "others (clog w') = others (clog w1)" "\<And>fd'. fd' \<noteq> fd \<Longrightarrow> outp fd' (clog w') = outp fd' (clog w1)"
        and n: "nat (cur + k) \<le> n"
        "outp fd (clog w') = outp fd (clog w1) @ take (n - nat (cur + k)) (drop (nat (cur + k)) s)"
        "r = int (length s) \<and> n = length s \<or> r = - 1 \<and> n < length s"
        using less.hyps [OF lt, of w1] False k less.prems by auto
      have sum: "nat (cur + k) = nat cur + nat k" using False less.prems by simp
      have "take (nat k) (drop (nat cur) s) @ take (n - nat (cur + k)) (drop (nat (cur + k)) s)
          = take (nat k + (n - nat (cur + k))) (drop (nat cur) s)"
        by (simp add: sum take_add add.commute)
      moreover have "nat k + (n - nat (cur + k)) = n - nat cur" using n(1) by (simp add: sum)
      ultimately have "outp fd (clog w') = outp fd (clog w) @ take (n - nat cur) (drop (nat cur) s)"
        using w1 n(2) by simp
      then show ?thesis
        using r n w1 step False sum by (auto intro!: exI [of _ n])
    qed
  qed
qed

lemma mywrite_whole:
  assumes "writes_whole E"
  shows "yields (mywrite E fd s) w (\<lambda>r w'. (\<exists>n. r = Inr n) \<and> tlog w' = tlog w \<and>
    (\<forall>fd'. outp fd' (clog w') = outp fd' (clog w) @ (if fd' = fd then s else [])))"
proof (cases "s = []")
  case True
  then show ?thesis by (simp add: mywrite_def yields_def mywrite_loop.simps)
next
  case False
  let ?w1 = "w\<lparr>clog := (Write fd s, int (length s)) # clog w\<rparr>"
  have "mywrite_loop E fd s 0 w = mywrite_loop E fd s (int (length s)) ?w1"
    using False assms by (subst mywrite_loop.simps) (simp add: Let_def writes_whole_def)
  also have "\<dots> = Some (Inr (int (length s)), ?w1)"
    by (subst mywrite_loop.simps) simp
  finally show ?thesis by (simp add: mywrite_def yields_def)
qed

lemma mywrite_returns:
  assumes "writes_progress E"
  shows "yields (mywrite E fd s) w (\<lambda>r w'. (\<exists>n. r = Inr n) \<and> tlog w' = tlog w \<and> others (clog w') = others (clog w))"
  using mywrite_loop_exact [OF assms, of 0 s fd w] by (auto simp: mywrite_def yields_def)

section \<open>The files of a log\<close>

text \<open>
  \<open>log_at fs t xs w\<close>: the log has the files \<open>fs\<close>, the fields of \<open>t\<close> (a log without its list), and
  its traversal has \<open>xs\<close> before it.
\<close>

definition log_at :: "lfile list \<Rightarrow> testlog \<Rightarrow> lfile list \<Rightarrow> log_world \<Rightarrow> bool" where
  "log_at fs t xs w \<longleftrightarrow> (\<exists>ll. tlog w = Some (t\<lparr>loglist := Some ll\<rparr>)
     \<and> list_ok ll \<and> list_elems ll = fs \<and> list_ahead ll = xs)"

definition log_has :: "lfile list \<Rightarrow> testlog \<Rightarrow> log_world \<Rightarrow> bool" where
  "log_has fs t w \<longleftrightarrow> (\<exists>xs. log_at fs t xs w)"

lemma log_at_tlog: "tlog w' = tlog w \<Longrightarrow> log_at fs t xs w' = log_at fs t xs w"
  by (simp add: log_at_def)

lemma log_has_tlog: "tlog w' = tlog w \<Longrightarrow> log_has fs t w' = log_has fs t w"
  by (simp add: log_has_def log_at_def)

lemma log_has_clog [simp]: "log_has fs t (w\<lparr>clog := h\<rparr>) = log_has fs t w"
  by (rule log_has_tlog) simp

lemma log_has_not_NULL: "log_has fs t w \<Longrightarrow> tlog w \<noteq> None"
  by (auto simp: log_has_def log_at_def)

lemma next_file_more:
  assumes "log_at fs t (x # xs) w"
  shows "\<exists>w'. next_file w = Some (Inr (Some x), w') \<and> log_at fs t xs w' \<and> clog w' = clog w"
proof -
  obtain ll where ll: "tlog w = Some (t\<lparr>loglist := Some ll\<rparr>)" "list_ok ll" "list_elems ll = fs"
    "list_ahead ll = x # xs"
    using assms by (auto simp: log_at_def)
  then obtain l' where "list_getnext ll = (Some x, l')" "list_ok l'" "list_elems l' = fs" "list_ahead l' = xs"
    using cl.get_next_more [OF ll(2,4)] by auto
  then show ?thesis
    using ll by (auto simp: next_file_def and_then_def log_field_def log_set_def give_def log_at_def)
qed

lemma next_file_end:
  assumes "log_at fs t [] w"
  shows "\<exists>w'. next_file w = Some (Inr None, w') \<and> log_at fs t [] w' \<and> clog w' = clog w"
proof -
  obtain ll where ll: "tlog w = Some (t\<lparr>loglist := Some ll\<rparr>)" "list_ok ll" "list_elems ll = fs"
    "list_ahead ll = []"
    using assms by (auto simp: log_at_def)
  then show ?thesis
    using cl.get_next_end [OF ll(2,4)]
    by (auto simp: next_file_def and_then_def log_field_def log_set_def give_def log_at_def)
qed

lemma rewind_files_ok:
  assumes "log_has fs t w"
  shows "yields rewind_files w (\<lambda>r w'. r = Inr () \<and> log_at fs t fs w' \<and> clog w' = clog w)"
proof -
  obtain ll where "tlog w = Some (t\<lparr>loglist := Some ll\<rparr>)" "list_ok ll" "list_elems ll = fs"
    using assms by (auto simp: log_has_def log_at_def)
  then show ?thesis
    using cl.rewind_ok [of ll]
    by (auto simp: rewind_files_def yields_def and_then_def log_field_def log_set_def log_at_def)
qed

text \<open>
  The rule for the two loops over the files of a log: what holds of the files still ahead and the
  calls made so far is carried to the end of the list.
\<close>

lemma file_loop:
  assumes L: "\<And>w. L w = and_then next_file (\<lambda>lf. case lf of None \<Rightarrow> give z
      | Some f \<Rightarrow> and_then (body f) (\<lambda>_ w'. L w')) w"
    and body: "\<And>f xs w. Q (f # xs) (clog w) \<Longrightarrow> tlog w \<noteq> None
      \<Longrightarrow> yields (body f) w (\<lambda>r w'. (\<exists>v. r = Inr v) \<and> tlog w' = tlog w \<and> Q xs (clog w'))"
    and start: "log_at fs t xs w" "Q xs (clog w)"
  shows "yields L w (\<lambda>r w'. r = Inr z \<and> log_has fs t w' \<and> Q [] (clog w'))"
  using start
proof (induction xs arbitrary: w)
  case Nil
  obtain w' where w': "next_file w = Some (Inr None, w')" "log_at fs t [] w'" "clog w' = clog w"
    using next_file_end [OF Nil(1)] by blast
  have "L w = Some (Inr z, w')"
    by (subst L) (simp add: and_then_def w'(1) give_def)
  then show ?case using w' Nil(2) by (auto simp: yields_def log_has_def)
next
  case (Cons f xs)
  obtain w1 where w1: "next_file w = Some (Inr (Some f), w1)" "log_at fs t xs w1" "clog w1 = clog w"
    using next_file_more [OF Cons.prems(1)] by blast
  have "tlog w1 \<noteq> None" using w1(2) by (auto simp: log_at_def)
  then obtain v w2 where w2: "body f w1 = Some (Inr v, w2)" "tlog w2 = tlog w1" "Q xs (clog w2)"
    using body [of f xs w1] Cons.prems(2) w1(3) by (auto simp: yields_def)
  have "L w = L w2"
    by (subst L) (simp add: and_then_def w1(1) w2(1))
  then show ?case
    using Cons.IH [of w2] w1(2) w2 log_at_tlog [OF w2(2)] by (simp add: yields_def)
qed

section \<open>One message\<close>

text \<open>The line a message makes: a time stamp without its newline, the type, the text.\<close>

definition log_line :: "msgtype \<Rightarrow> string option \<Rightarrow> string \<Rightarrow> string" where
  "log_line type msg timestr =
     take (length timestr - 1) timestr @ snprintf STRSIZE ''|'' @ type_label type @ log_tail msg"

text \<open>How often a message of a level is written to a descriptor.\<close>

definition copies :: "int \<Rightarrow> int \<Rightarrow> lfile list \<Rightarrow> nat" where
  "copies fd dlevel fs = length (filter (\<lambda>f. lfd f = fd \<and> dlevel \<le> loglevel f) fs)"

lemma copies_Nil [simp]: "copies fd dlevel [] = 0"
  by (simp add: copies_def)

lemma copies_Cons [simp]:
  "copies fd dlevel (f # fs) = (if lfd f = fd \<and> dlevel \<le> loglevel f then Suc (copies fd dlevel fs)
     else copies fd dlevel fs)"
  by (simp add: copies_def)

lemma log_file_returns:
  assumes "writes_progress E"
  shows "yields (log_file E type msg timestr f) w
    (\<lambda>r w'. r = Inr () \<and> tlog w' = tlog w \<and> others (clog w') = others (clog w))"
  unfolding log_file_def
  by (auto simp: wp intro!: yields_mono [OF mywrite_returns [OF assms]])

lemma log_file_whole:
  assumes "writes_whole E"
  shows "yields (log_file E type msg timestr f) w (\<lambda>r w'. r = Inr () \<and> tlog w' = tlog w \<and>
    (\<forall>fd. outp fd (clog w') = outp fd (clog w) @ (if fd = lfd f then log_line type msg timestr else [])))"
  unfolding log_file_def
  using assms
  by (auto simp: wp log_line_def writes_whole_def intro!: yields_mono [OF mywrite_whole [OF assms]])

lemma log_msg_by_files:
  assumes h: "log_has fs t w" and lg: "logging t \<noteq> 0"
    and start: "\<And>n. Q fs ((Time, n) # clog w)"
    and body: "\<And>f xs v. Q (f # xs) (clog v) \<Longrightarrow>
      yields (if dlevel \<le> loglevel f then log_file E type msg (ctime E (dev E (clog w) Time)) f else give ()) v
        (\<lambda>r v'. r = Inr () \<and> tlog v' = tlog v \<and> Q xs (clog v'))"
  shows "yields (log_msg E type msg dlevel) w (\<lambda>r w'. r = Inr 1 \<and> log_has fs t w' \<and> Q [] (clog w'))"
proof -
  define w1 where "w1 = w\<lparr>clog := (Time, dev E (clog w) Time) # clog w\<rparr>"
  have w1: "log_has fs t w1" "clog w1 = (Time, dev E (clog w) Time) # clog w"
    using h by (simp_all add: w1_def)
  have "log_msg E type msg dlevel w =
      and_then rewind_files (\<lambda>_. log_loop E type msg dlevel (ctime E (dev E (clog w) Time))) w1"
    using h lg
    by (auto simp: log_msg_def log_has_def log_at_def and_then_def log_field_def sys_def w1_def)
  moreover have "yields (and_then rewind_files (\<lambda>_. log_loop E type msg dlevel (ctime E (dev E (clog w) Time)))) w1
     (\<lambda>r w'. r = Inr 1 \<and> log_has fs t w' \<and> Q [] (clog w'))"
    unfolding yields_and_then
  proof (rule yields_mono [OF rewind_files_ok [OF w1(1)]], elim conjE)
    fix r :: "stop + unit" and w2 assume r: "r = Inr ()" and w2: "log_at fs t fs w2" "clog w2 = clog w1"
    have "yields (log_loop E type msg dlevel (ctime E (dev E (clog w) Time))) w2
      (\<lambda>r w'. r = Inr 1 \<and> log_has fs t w' \<and> Q [] (clog w'))"
    proof (rule file_loop [where Q = Q and body = "\<lambda>f. if dlevel \<le> loglevel f
        then log_file E type msg (ctime E (dev E (clog w) Time)) f else give ()", OF log_loop.simps _ w2(1)])
      show "Q fs (clog w2)" using start w1 w2 by simp
    next
      fix f xs and v :: log_world assume "Q (f # xs) (clog v)"
      from body [OF this] show "yields (if dlevel \<le> loglevel f
          then log_file E type msg (ctime E (dev E (clog w) Time)) f else give ()) v
        (\<lambda>r v'. (\<exists>u. r = Inr u) \<and> tlog v' = tlog v \<and> Q xs (clog v'))"
        by (rule yields_mono) auto
    qed
    then show "case r of Inl e \<Rightarrow> (Inl e :: stop + int) = Inr 1 \<and> log_has fs t w2 \<and> Q [] (clog w2)
        | Inr x \<Rightarrow> yields (log_loop E type msg dlevel (ctime E (dev E (clog w) Time))) w2
            (\<lambda>r w'. r = Inr 1 \<and> log_has fs t w' \<and> Q [] (clog w'))"
      using r by simp
  qed
  ultimately show ?thesis by (simp add: yields_def)
qed

lemma log_msg_returns:
  assumes "writes_progress E" "log_has fs t w" "logging t \<noteq> 0"
  shows "yields (log_msg E type msg dlevel) w
    (\<lambda>r w'. r = Inr 1 \<and> log_has fs t w' \<and> others (clog w') = others (clog w))"
  by (rule log_msg_by_files [OF assms(2,3), where Q = "\<lambda>_ h. others h = others (clog w)"])
    (auto simp: wp intro: yields_mono [OF log_file_returns [OF assms(1)]])

lemma log_msg_whole:
  assumes "writes_whole E" "log_has fs t w" "logging t \<noteq> 0"
  shows "yields (log_msg E type msg dlevel) w (\<lambda>r w'. r = Inr 1 \<and> log_has fs t w' \<and>
    (\<forall>fd. outp fd (clog w') = outp fd (clog w)
       @ concat (replicate (copies fd dlevel fs) (log_line type msg (ctime E (dev E (clog w) Time))))))"
proof -
  define line where "line = log_line type msg (ctime E (dev E (clog w) Time))"
  define Q where "Q xs h \<longleftrightarrow> (\<forall>fd. outp fd h @ concat (replicate (copies fd dlevel xs) line)
      = outp fd (clog w) @ concat (replicate (copies fd dlevel fs) line))" for xs h
  have "yields (log_msg E type msg dlevel) w (\<lambda>r w'. r = Inr 1 \<and> log_has fs t w' \<and> Q [] (clog w'))"
  proof (rule log_msg_by_files [OF assms(2,3)])
    fix f xs and v :: log_world assume q: "Q (f # xs) (clog v)"
    show "yields (if dlevel \<le> loglevel f then log_file E type msg (ctime E (dev E (clog w) Time)) f else give ()) v
        (\<lambda>r v'. r = Inr () \<and> tlog v' = tlog v \<and> Q xs (clog v'))"
    proof (cases "dlevel \<le> loglevel f")
      case True
      have "Q xs (clog v')"
        if "\<forall>fd. outp fd (clog v') = outp fd (clog v) @ (if fd = lfd f then line else [])" for v' :: log_world
        unfolding Q_def
      proof
        fix fd
        show "outp fd (clog v') @ concat (replicate (copies fd dlevel xs) line)
            = outp fd (clog w) @ concat (replicate (copies fd dlevel fs) line)"
          using q [unfolded Q_def, rule_format, of fd] that [rule_format, of fd] True
          by (simp split: if_splits)
      qed
      then show ?thesis
        using True by (auto intro!: yields_mono [OF log_file_whole [OF assms(1)]] simp: line_def [symmetric])
    next
      case False
      then show ?thesis using q by (simp add: wp Q_def)
    qed
  qed (simp add: Q_def)
  then show ?thesis by (rule yields_mono) (simp add: Q_def line_def)
qed

section \<open>Properties\<close>

text \<open>A system that accepts everything at once and has memory.\<close>

definition plain_device :: "sys_call device" where
  "plain_device h c = (case c of Write fd s \<Rightarrow> int (length s) | Malloc \<Rightarrow> 1 | Open f m \<Rightarrow> 3 | _ \<Rightarrow> 0)"

definition plain_system :: log_env where
  "plain_system = \<lparr>dev = plain_device, ctime = (\<lambda>t. ''noon'' @ newline),
     strerror = (\<lambda>e. ''No such device''),
     udata = \<lparr>sysname = ''Linux'', nodename = ''omap'', release = ''2.6.32'', version = ''#1''\<rparr>\<rparr>"

lemma plain_system_whole [simp]: "writes_whole plain_system"
  by (simp add: writes_whole_def plain_system_def plain_device_def)

lemma plain_system_progress [simp]: "writes_progress plain_system"
  by (simp add: writes_whole_progress)

text \<open>
  C39. A string written through the library: if each write accepts a byte or fails, \<^verbatim>\<open>mywrite\<close> returns,
  whatever the pieces; the file has received exactly a prefix of the string, the whole of it if the
  length is returned and less of it if \<open>-1\<close> is, and no other file has changed.
\<close>

theorem mywrite_exact:
  assumes "writes_progress E"
  shows "\<exists>r w' n. mywrite E fd s w = Some (Inr r, w') \<and> tlog w' = tlog w
    \<and> outp fd (clog w') = outp fd (clog w) @ take n s
    \<and> (r = int (length s) \<and> n = length s \<or> r = - 1 \<and> n < length s)
    \<and> (\<forall>fd'. fd' \<noteq> fd \<longrightarrow> outp fd' (clog w') = outp fd' (clog w))"
  using mywrite_loop_exact [OF assms, of 0 s fd w] unfolding mywrite_def
  by (simp only: nat_0 drop_0 diff_zero of_nat_0_le_iff simp_thms) blast

theorem mywrite_exact_witness:
  "\<exists>r w' n. mywrite plain_system 2 ''abc'' \<lparr>clog = [], tlog = None\<rparr> = Some (Inr r, w') \<and> tlog w' = None
    \<and> outp 2 (clog w') = take n ''abc'' \<and> (r = 3 \<and> n = length ''abc'' \<or> r = - 1 \<and> n < length ''abc'')"
proof -
  obtain r w' n where "mywrite plain_system 2 ''abc'' \<lparr>clog = [], tlog = None\<rparr> = Some (Inr r, w')"
    "tlog w' = tlog \<lparr>clog = [], tlog = None\<rparr>"
    "outp 2 (clog w') = outp 2 (clog \<lparr>clog = [], tlog = None\<rparr>) @ take n ''abc''"
    "r = int (length ''abc'') \<and> n = length ''abc'' \<or> r = - 1 \<and> n < length ''abc''"
    using mywrite_exact [OF plain_system_progress, of 2 "''abc''" "\<lparr>clog = [], tlog = None\<rparr>"] by blast
  then show ?thesis by (intro exI [of _ r] exI [of _ w'] exI [of _ n]) simp
qed

text \<open>
  C8. A message of the library, on a log in order and a system that accepts writes whole: it returns, and
  each file whose level admits the message has gained exactly one line, the time stamp without its
  newline, the type and the text cut to 255 characters, once for every entry of the file in the list;
  the other files and the counters are as before.
\<close>

theorem log_message_exact:
  assumes "writes_whole E" "log_has fs t w" "logging t \<noteq> 0"
  shows "\<exists>w'. log_msg E type msg dlevel w = Some (Inr 1, w') \<and> log_has fs t w' \<and>
    (\<forall>fd. outp fd (clog w') = outp fd (clog w) @ concat (replicate (copies fd dlevel fs)
      (take (length (ctime E (dev E (clog w) Time)) - 1) (ctime E (dev E (clog w) Time))
        @ ''|'' @ type_label type @ take 255 (''|'' @ c_str msg @ newline))))"
  using log_msg_whole [OF assms, of type msg dlevel]
  by (auto simp: yields_def log_line_def log_tail_def snprintf_def STRSIZE_def)

definition one_file_log :: log_world where
  "one_file_log = \<lparr>clog = [], tlog = Some \<lparr>loglist = Some \<lparr>nodes = [(\<lparr>lfd = 1, loglevel = 3\<rparr>, 0)], head = 1,
     currentp = 0\<rparr>, passes = 0, failures = 0, errors = 0, logging = 1, case_started = 0\<rparr>\<rparr>"

definition started_log :: testlog where
  "started_log = \<lparr>loglist = None, passes = 0, failures = 0, errors = 0, logging = 1, case_started = 0\<rparr>"

lemma one_file_log_has: "log_has [\<lparr>lfd = 1, loglevel = 3\<rparr>] started_log one_file_log"
  by (auto simp: log_has_def log_at_def one_file_log_def started_log_def list_ok_def list_elems_def)

theorem log_message_exact_witness:
  "\<exists>w'. log_msg plain_system WARN (Some ''hot'') WARNING one_file_log = Some (Inr 1, w') \<and>
    outp 1 (clog w') = ''noon|WARN|hot'' @ newline"
proof -
  have "logging started_log \<noteq> 0" by (simp add: started_log_def)
  from log_message_exact [OF plain_system_whole one_file_log_has this, of WARN "Some ''hot''" WARNING]
  obtain w' where "log_msg plain_system WARN (Some ''hot'') WARNING one_file_log = Some (Inr 1, w')"
    "outp 1 (clog w') = outp 1 (clog one_file_log) @ concat (replicate (copies 1 WARNING [\<lparr>lfd = 1, loglevel = 3\<rparr>])
      (take (length (ctime plain_system (dev plain_system (clog one_file_log) Time)) - 1)
        (ctime plain_system (dev plain_system (clog one_file_log) Time))
        @ ''|'' @ type_label WARN @ take 255 (''|'' @ c_str (Some ''hot'') @ newline)))"
    by blast
  then show ?thesis
    by (auto simp: WARNING_def one_file_log_def plain_system_def c_str_def newline_def)
qed

end
