(* ===== verification/Testlog_Session.thy ===== *)
theory Testlog_Session
  imports Testlog_Correct
begin

text \<open>
  Sessions with the test log library: the operations between \<^verbatim>\<open>test_init\<close> and \<^verbatim>\<open>test_exit\<close> against an
  abstract tally of cases, the exit status, and the report a test leaves in its files.
\<close>

section \<open>The fields of a log in use\<close>

lemma log_field_has:
  assumes "log_has fs t w" "\<And>ll. f (t\<lparr>loglist := ll\<rparr>) = f t"
  shows "log_field f w = Some (Inr (f t), w)"
  using assms by (auto simp: log_field_def log_has_def log_at_def)

lemma log_set_has:
  assumes "log_has fs t w" "\<And>ll. f (t\<lparr>loglist := ll\<rparr>) = (f t)\<lparr>loglist := ll\<rparr>"
  shows "\<exists>w'. log_set f w = Some (Inr (), w') \<and> log_has fs (f t) w' \<and> clog w' = clog w"
  using assms by (auto simp: log_set_def log_has_def log_at_def)

lemma yields_log_field:
  assumes "log_has fs t w" "\<And>ll. f (t\<lparr>loglist := ll\<rparr>) = f t" "Q (Inr (f t)) w"
  shows "yields (log_field f) w Q"
  using assms by (simp add: yields_def log_field_has)

lemma yields_log_set:
  assumes "log_has fs t w" "\<And>ll. f (t\<lparr>loglist := ll\<rparr>) = (f t)\<lparr>loglist := ll\<rparr>"
    and "\<And>w'. log_has fs (f t) w' \<Longrightarrow> clog w' = clog w \<Longrightarrow> Q (Inr ()) w'"
  shows "yields (log_set f) w Q"
  using log_set_has [OF assms(1,2)] assms(3) by (auto simp: yields_def)

lemma yields_asserted:
  assumes "log_has fs t w" "logging t \<noteq> 0" "yields k w Q"
  shows "yields (and_then (assert_logging (Some m)) (\<lambda>_. k)) w Q"
  using assms by (auto simp: assert_logging_def yields_and_then yields_simps log_has_def log_at_def)

lemma yields_in_case:
  assumes "log_has fs t w" "case_started t \<noteq> 0 \<Longrightarrow> yields k w Q" "case_started t = 0 \<Longrightarrow> Q (Inl Abort) w"
  shows "yields (and_then assert_case (\<lambda>_. k)) w Q"
  using assms(2,3) unfolding assert_case_def and_then_assoc yields_and_then [of "log_field case_started"]
  by (intro yields_log_field [OF assms(1)]) (auto simp: yields_and_then yields_simps)

section \<open>The tally\<close>

text \<open>What a test writer counts: cases passed and failed, errors, and whether a case is running.\<close>

record tally =
  n_passed :: int
  n_failed :: int
  n_errors :: int
  running :: bool

datatype log_op = Warn string | Info string | Sysinfo string | Describe string | Scenario string
  | Validate string | Begin_case string | Pass_case string | Fail_case string | Report_error string

fun tally_op :: "log_op \<Rightarrow> tally \<Rightarrow> tally option" where
  "tally_op (Begin_case m) a = Some (a\<lparr>running := True\<rparr>)"
| "tally_op (Pass_case m) a = (if running a then Some (a\<lparr>n_passed := n_passed a + 1, running := False\<rparr>) else None)"
| "tally_op (Fail_case m) a = (if running a then Some (a\<lparr>n_failed := n_failed a + 1, running := False\<rparr>) else None)"
| "tally_op (Report_error m) a = Some (a\<lparr>n_errors := n_errors a + 1\<rparr>)"
| "tally_op _ a = Some a"

primrec tally_ops :: "log_op list \<Rightarrow> tally \<Rightarrow> tally option" where
  "tally_ops [] a = Some a"
| "tally_ops (p # ps) a = (case tally_op p a of None \<Rightarrow> None | Some a' \<Rightarrow> tally_ops ps a')"

text \<open>The calls of the library that they stand for.\<close>

primrec do_op :: "log_env \<Rightarrow> log_op \<Rightarrow> int log_prog" where
  "do_op E (Warn m) = test_warn E (Some m)"
| "do_op E (Info m) = test_info E (Some m)"
| "do_op E (Sysinfo m) = test_sysinfo E (Some m)"
| "do_op E (Describe m) = case_description E (Some m)"
| "do_op E (Scenario m) = case_scenario E (Some m)"
| "do_op E (Validate m) = case_validation E (Some m)"
| "do_op E (Begin_case m) = case_start E (Some m)"
| "do_op E (Pass_case m) = case_pass E (Some m)"
| "do_op E (Fail_case m) = case_fail E (Some m)"
| "do_op E (Report_error m) = test_error E (Some m)"

primrec do_ops :: "log_env \<Rightarrow> log_op list \<Rightarrow> unit log_prog" where
  "do_ops E [] = give ()"
| "do_ops E (p # ps) = and_then (do_op E p) (\<lambda>_. do_ops E ps)"

definition tally_of :: "testlog \<Rightarrow> tally" where
  "tally_of t = \<lparr>n_passed = passes t, n_failed = failures t, n_errors = errors t, running = (case_started t \<noteq> 0)\<rparr>"

text \<open>A log in use: its list is in order, logging is on, and its fields are those of the tally.\<close>

definition in_use :: "lfile list \<Rightarrow> tally \<Rightarrow> log_world \<Rightarrow> bool" where
  "in_use fs a w \<longleftrightarrow> (\<exists>t. log_has fs t w \<and> logging t \<noteq> 0 \<and> tally_of t = a)"

lemma in_useI: "log_has fs t w \<Longrightarrow> logging t \<noteq> 0 \<Longrightarrow> tally_of t = a \<Longrightarrow> in_use fs a w"
  by (auto simp: in_use_def)

lemmas message_defs = test_warn_def test_info_def test_sysinfo_def case_description_def case_scenario_def
  case_validation_def

lemma set_then_message:
  assumes E: "writes_progress E" and t: "log_has fs t w" "logging t \<noteq> 0"
    and f: "\<And>ll. f (t\<lparr>loglist := ll\<rparr>) = (f t)\<lparr>loglist := ll\<rparr>" "logging (f t) = logging t"
  shows "yields (and_then (log_set f) (\<lambda>_. log_msg E type msg dlevel)) w
    (\<lambda>r w'. r = Inr 1 \<and> in_use fs (tally_of (f t)) w' \<and> others (clog w') = others (clog w))"
  unfolding yields_and_then
proof (rule yields_log_set [OF t(1) f(1)], simp)
  fix v assume "log_has fs (f t) v" "clog v = clog w"
  then show "yields (log_msg E type msg dlevel) v
      (\<lambda>r w'. r = Inr 1 \<and> in_use fs (tally_of (f t)) w' \<and> others (clog w') = others (clog w))"
    using t(2) f(2) by (auto intro!: yields_mono [OF log_msg_returns [OF E]] intro: in_useI)
qed

lemma do_op_refines:
  assumes E: "writes_progress E" and w: "in_use fs a w"
  shows "yields (do_op E p) w (\<lambda>r w'. case tally_op p a of
      None \<Rightarrow> r = Inl Abort
    | Some a' \<Rightarrow> r = Inr 1 \<and> in_use fs a' w')"
proof -
  obtain t where t: "log_has fs t w" "logging t \<noteq> 0" and a: "a = tally_of t"
    using w by (auto simp: in_use_def)
  have quiet: "yields (and_then (assert_logging (Some m)) (\<lambda>_. log_msg E type (Some m) dlevel)) w
      (\<lambda>r w'. r = Inr 1 \<and> in_use fs a w')" for m type dlevel
    by (rule yields_asserted [OF t], rule yields_mono [OF log_msg_returns [OF E t]])
      (auto intro: in_useI [OF _ t(2) refl] simp: a)
  note set = set_then_message [OF E t]
  show ?thesis
  proof (cases p)
    case (Begin_case m)
    show ?thesis unfolding Begin_case do_op.simps case_start_def
      by (rule yields_asserted [OF t], rule yields_mono [OF set]) (auto simp: a tally_of_def)
  next
    case (Pass_case m)
    show ?thesis unfolding Pass_case do_op.simps case_pass_def
      by (rule yields_asserted [OF t], rule yields_in_case [OF t(1)], rule yields_mono [OF set])
        (auto simp: a tally_of_def)
  next
    case (Fail_case m)
    show ?thesis unfolding Fail_case do_op.simps case_fail_def
      by (rule yields_asserted [OF t], rule yields_in_case [OF t(1)], rule yields_mono [OF set])
        (auto simp: a tally_of_def)
  next
    case (Report_error m)
    show ?thesis unfolding Report_error do_op.simps test_error_def
      by (rule yields_asserted [OF t], rule yields_mono [OF set]) (auto simp: a tally_of_def)
  qed (simp_all add: message_defs quiet)
qed

lemma do_ops_refines:
  assumes E: "writes_progress E" and w: "in_use fs a w"
  shows "yields (do_ops E ps) w (\<lambda>r w'. case tally_ops ps a of
      None \<Rightarrow> r = Inl Abort
    | Some a' \<Rightarrow> r = Inr () \<and> in_use fs a' w')"
  using w
proof (induction ps arbitrary: a w)
  case Nil
  then show ?case by (simp add: wp)
next
  case (Cons p ps)
  show ?case
    unfolding do_ops.simps yields_and_then
    by (rule yields_mono [OF do_op_refines [OF E Cons.prems]])
      (auto split: option.splits intro: yields_mono [OF Cons.IH])
qed

section \<open>Ending a session\<close>

lemma test_close_returns:
  assumes "log_has fs t w"
  shows "yields (test_close E) w (\<lambda>r w'. r = Inr () \<and> log_has fs t w'
    \<and> (\<forall>f \<in> set fs. Close (lfd f) \<in> fst ` set (clog w')) \<and> (\<forall>fd. outp fd (clog w') = outp fd (clog w))
    \<and> others (clog w') = others (clog w))"
proof -
  define Q where "Q xs h \<longleftrightarrow> (\<forall>f \<in> set fs. f \<in> set xs \<or> Close (lfd f) \<in> fst ` set h)
    \<and> (\<forall>fd. outp fd h = outp fd (clog w)) \<and> others h = others (clog w)" for xs h
  have loop: "yields (close_loop E) w2 (\<lambda>r w'. r = Inr () \<and> log_has fs t w' \<and> Q [] (clog w'))"
    if "log_at fs t fs w2" "clog w2 = clog w" for w2
  proof (rule file_loop [where Q = Q, OF close_loop.simps _ that(1)])
    show "Q fs (clog w2)" by (simp add: Q_def that)
  next
    fix f xs and v :: log_world assume "Q (f # xs) (clog v)"
    then show "yields (sys (dev E) (Close (lfd f))) v
        (\<lambda>r v'. (\<exists>u. r = Inr u) \<and> tlog v' = tlog v \<and> Q xs (clog v'))"
      by (auto simp: wp Q_def)
  qed
  show ?thesis
    unfolding test_close_def yields_and_then
    using log_has_not_NULL [OF assms] loop
    by (auto simp: yields_simps Q_def intro!: yields_mono [OF rewind_files_ok [OF assms]] elim!: yields_mono)
qed

text \<open>The log together with the calls made outside it.\<close>

definition logged :: "lfile list \<Rightarrow> testlog \<Rightarrow> (sys_call \<times> int) list \<Rightarrow> log_world \<Rightarrow> bool" where
  "logged fs t h w \<longleftrightarrow> log_has fs t w \<and> others (clog w) = h"

lemma logged_has: "logged fs t h w \<Longrightarrow> log_has fs t w"
  by (simp add: logged_def)

lemma yields_then_logged:
  assumes "writes_progress E" "logged fs t h w" "logging t \<noteq> 0"
    and "\<And>w'. logged fs t h w' \<Longrightarrow> yields k w' Q"
  shows "yields (and_then (log_msg E type msg dlevel) (\<lambda>_. k)) w Q"
  unfolding yields_and_then
  by (rule yields_mono [OF log_msg_returns [OF assms(1) logged_has [OF assms(2)] assms(3)]])
    (use assms(2) in \<open>auto intro!: assms(4) simp: logged_def\<close>)

lemma yields_then_msg:
  assumes "writes_progress E" "log_has fs t w" "logging t \<noteq> 0"
    and "\<And>w'. log_has fs t w' \<Longrightarrow> yields k w' Q"
  shows "yields (and_then (log_msg E type msg dlevel) (\<lambda>_. k)) w Q"
  unfolding yields_and_then
  by (rule yields_mono [OF log_msg_returns [OF assms(1-3)]]) (auto intro: assms(4))

lemma yields_then_field:
  assumes "log_has fs t w" "\<And>ll. f (t\<lparr>loglist := ll\<rparr>) = f t" "yields (k (f t)) w Q"
  shows "yields (and_then (log_field f) k) w Q"
  unfolding yields_and_then using assms by (auto intro!: yields_log_field)

lemma yields_not_NULL:
  assumes "log_has fs t w" "yields k w Q"
  shows "yields (and_then (assert_that (\<lambda>w. tlog w \<noteq> None)) (\<lambda>_. k)) w Q"
  using assms log_has_not_NULL [OF assms(1)] by (auto simp: yields_and_then yields_simps)

lemma test_close_exit:
  assumes "logged fs t h w"
  shows "yields (and_then (test_close E) (\<lambda>_. exit_with n :: unit log_prog)) w
    (\<lambda>r w'. r = Inl (Exit (n mod 256)) \<and> (\<forall>f \<in> set fs. Close (lfd f) \<in> fst ` set (clog w')) \<and> logged fs t h w')"
  unfolding yields_and_then exit_with_def
  by (rule yields_mono [OF test_close_returns [OF logged_has [OF assms]]])
    (use assms in \<open>auto simp: wp logged_def\<close>)

lemma test_exit_logged:
  assumes E: "writes_progress E" and t: "logged fs t h w" "logging t \<noteq> 0"
  shows "yields (test_exit E msg) w (\<lambda>r w'. r = Inl (Exit ((failures t + errors t) mod 256))
    \<and> (\<forall>f \<in> set fs. Close (lfd f) \<in> fst ` set (clog w')) \<and> logged fs t h w')"
  unfolding test_exit_def if_distrib [of "\<lambda>p. and_then p _"]
  by (rule yields_not_NULL, rule logged_has, rule t, rule yields_then_field, rule logged_has, rule t, simp,
      rule yields_then_logged [OF E _ t(2)], rule t, rule yields_then_field, erule logged_has, simp,
      rule yields_then_logged [OF E _ t(2)], assumption, rule yields_then_field, erule logged_has, simp,
      rule yields_then_logged [OF E _ t(2)], assumption)
    (auto split: if_splits intro!: yields_then_logged [OF E _ t(2)] test_close_exit)

lemma test_exit_status:
  assumes E: "writes_progress E" and t: "log_has fs t w" "logging t \<noteq> 0"
  shows "yields (test_exit E msg) w (\<lambda>r w'. r = Inl (Exit ((failures t + errors t) mod 256))
    \<and> (\<forall>f \<in> set fs. Close (lfd f) \<in> fst ` set (clog w')) \<and> log_has fs t w')"
  by (rule yields_mono [OF test_exit_logged [OF E _ t(2)]]) (use t(1) in \<open>auto simp: logged_def\<close>)

section \<open>The report\<close>

text \<open>What a sequence of messages leaves on a descriptor; each has its type, text, level and time.\<close>

definition report :: "lfile list \<Rightarrow> int \<Rightarrow> (msgtype \<times> string option \<times> int \<times> string) list \<Rightarrow> string" where
  "report fs fd ms =
     concat (map (\<lambda>(type, msg, dlevel, s). concat (replicate (copies fd dlevel fs) (log_line type msg s))) ms)"

definition final_report :: "testlog \<Rightarrow> string option \<Rightarrow> (msgtype \<times> string option \<times> int) list" where
  "final_report t msg =
     [(INFO, Some (snprintf (STRSIZE - 1) (''CASES PASSED : '' @ dec (passes t))), ERROR),
      (INFO, Some (snprintf (STRSIZE - 1) (''CASES FAILED : '' @ dec (failures t))), ERROR),
      (INFO, Some (snprintf (STRSIZE - 1) (''ERRORS : '' @ dec (errors t))), ERROR),
      (if 0 < failures t \<or> 0 < errors t then (FAIL, Some ''TESTFAILED'', ERROR)
       else (PASS, Some ''TESTPASSED'', ERROR)),
      (END, msg, INFORMATION)]"

definition stamped :: "(msgtype \<times> string option \<times> int) list \<Rightarrow> string list
    \<Rightarrow> (msgtype \<times> string option \<times> int \<times> string) list" where
  "stamped ms ts = map2 (\<lambda>(type, msg, dlevel) s. (type, msg, dlevel, s)) ms ts"

text \<open>\<open>reported fs w ms w'\<close>: from \<open>w\<close> to \<open>w'\<close> the messages \<open>ms\<close> were written, each with some time.\<close>

definition reported :: "lfile list \<Rightarrow> log_world \<Rightarrow> (msgtype \<times> string option \<times> int) list \<Rightarrow> log_world \<Rightarrow> bool" where
  "reported fs w ms w' \<longleftrightarrow> (\<exists>ts. length ts = length ms
     \<and> (\<forall>fd. outp fd (clog w') = outp fd (clog w) @ report fs fd (stamped ms ts)))"

lemma reported_Nil: "(\<And>fd. outp fd (clog w') = outp fd (clog w)) \<Longrightarrow> reported fs w [] w'"
  by (simp add: reported_def report_def stamped_def)

lemma reported_Cons:
  assumes "\<forall>fd. outp fd (clog w1) = outp fd (clog w)
      @ concat (replicate (copies fd dlevel fs) (log_line type msg s))"
    and "reported fs w1 ms w'"
  shows "reported fs w ((type, msg, dlevel) # ms) w'"
proof -
  obtain ts where "length ts = length ms"
    "\<forall>fd. outp fd (clog w') = outp fd (clog w1) @ report fs fd (stamped ms ts)"
    using assms(2) by (auto simp: reported_def)
  then show ?thesis
    using assms(1) unfolding reported_def
    by (intro exI [of _ "s # ts"]) (simp add: stamped_def report_def)
qed

lemma yields_then_line:
  assumes "writes_whole E" "log_has fs t w" "logging t \<noteq> 0"
    and "\<And>w'. log_has fs t w' \<Longrightarrow> yields k w' (\<lambda>r w''. R r \<and> reported fs w' ms w'')"
  shows "yields (and_then (log_msg E type msg dlevel) (\<lambda>_. k)) w
    (\<lambda>r w''. R r \<and> reported fs w ((type, msg, dlevel) # ms) w'')"
  unfolding yields_and_then
  by (rule yields_mono [OF log_msg_whole [OF assms(1-3)]])
    (auto intro!: yields_mono [OF assms(4)] elim: reported_Cons)

lemma close_exit_reported:
  assumes "log_has fs t w"
  shows "yields (and_then (test_close E) (\<lambda>_. exit_with n :: unit log_prog)) w
    (\<lambda>r w'. r = Inl (Exit (n mod 256)) \<and> reported fs w [] w')"
  unfolding yields_and_then exit_with_def
  by (rule yields_mono [OF test_close_returns [OF assms]]) (auto simp: wp intro: reported_Nil)

lemma test_exit_reported:
  assumes E: "writes_whole E" and t: "log_has fs t w" "logging t \<noteq> 0"
  shows "yields (test_exit E msg) w
    (\<lambda>r w'. r = Inl (Exit ((failures t + errors t) mod 256)) \<and> reported fs w (final_report t msg) w')"
  unfolding test_exit_def if_distrib [of "\<lambda>p. and_then p _"] final_report_def
  by (rule yields_not_NULL, rule t, rule yields_then_field, rule t, simp,
      rule yields_then_line [OF E _ t(2)], rule t, rule yields_then_field, assumption, simp,
      rule yields_then_line [OF E _ t(2)], assumption, rule yields_then_field, assumption, simp,
      rule yields_then_line [OF E _ t(2)], assumption)
    (auto split: if_splits intro!: yields_then_line [OF E _ t(2)] close_exit_reported)

section \<open>A whole session\<close>

definition fresh_log :: testlog where
  "fresh_log = \<lparr>loglist = None, passes = 0, failures = 0, errors = 0, logging = 0, case_started = 0\<rparr>"

definition memory :: "log_env \<Rightarrow> bool" where
  "memory E \<longleftrightarrow> (\<forall>h. dev E h Malloc \<noteq> 0)"

lemma insert_file_ok:
  assumes "memory E" "log_has fs t w"
  shows "yields (insert_file E p) w (\<lambda>r w'. r = Inr 1 \<and> log_has (fs @ [p]) t w')"
proof -
  obtain ll where ll: "tlog w = Some (t\<lparr>loglist := Some ll\<rparr>)" "list_ok ll" "list_elems ll = fs"
    using assms(2) by (auto simp: log_has_def log_at_def)
  obtain l' where "list_insert True p ll = Some (1, l')" "list_ok l'" "list_elems l' = fs @ [p]"
    using cl.insert_ok [OF ll(2), of p] ll(3) by auto
  then show ?thesis
    using ll(1) assms(1)
    by (auto simp: insert_file_def yields_def and_then_def log_field_def sys_def log_set_def give_def memory_def
        log_has_def log_at_def)
qed

lemma addfilebytype_ok:
  assumes "memory E" "log_has fs t w" "logging t = 0"
  shows "yields (addfilebytype E fd dlevel) w
    (\<lambda>r w'. r = Inr 1 \<and> log_has (fs @ [\<lparr>lfd = fd, loglevel = dlevel\<rparr>]) t w')"
  using assms unfolding addfilebytype_def
  by (auto simp: yields_and_then yields_sys yields_simps memory_def
      intro!: yields_log_field [of fs t] yields_mono [OF insert_file_ok])

lemma test_create_ok:
  assumes "memory E"
  shows "yields (test_create E) w
    (\<lambda>r w'. r = Inr True \<and> log_has [\<lparr>lfd = STDOUTFD, loglevel = VERBOSE\<rparr>] fresh_log w')"
proof -
  have "log_has [] fresh_log (w\<lparr>clog := h, tlog := Some \<lparr>loglist = list_create True, passes = 0,
      failures = 0, errors = 0, logging = 0, case_started = 0\<rparr>\<rparr>)" for h
    by (auto simp: log_has_def log_at_def fresh_log_def list_create_def list_ok_def list_elems_def)
  then show ?thesis
    using assms addfilebytype_ok [OF assms, of "[]" fresh_log] unfolding test_create_def
    by (auto simp: yields_and_then yields_sys yields_simps memory_def fresh_log_def
        intro!: yields_mono [OF addfilebytype_ok [OF assms, of "[]" fresh_log]])
qed

lemma log_has_longer:
  "log_has fs t w \<Longrightarrow> \<exists>fs'. log_has (fs @ fs') t w" "log_has (fs @ xs) t w \<Longrightarrow> \<exists>fs'. log_has (fs @ fs') t w"
  by (metis append_Nil2, blast)

lemma addfilebyname_ok:
  assumes "memory E" "log_has fs t w" "logging t = 0"
  shows "yields (addfilebyname E (Some f) dlevel) w
    (\<lambda>r w'. (\<exists>n. r = Inr n) \<and> (\<exists>fs'. log_has (fs @ fs') t w'))"
  using assms(2,3) unfolding addfilebyname_def
  by (auto simp: yields_and_then yields_sys yields_simps intro: log_has_longer
      intro!: yields_log_field [of fs t] yields_mono [OF addfilebytype_ok [OF assms(1)]])

lemma test_sysinfo_f_ok:
  assumes "writes_progress E" "log_has fs t w" "logging t \<noteq> 0"
    and "\<And>w'. log_has fs t w' \<Longrightarrow> yields k w' Q"
  shows "yields (and_then (test_sysinfo_f E m) (\<lambda>_. k)) w Q"
  unfolding test_sysinfo_f_def log_buff_def test_sysinfo_def and_then_assoc
  by (rule yields_then_field [OF assms(2)], simp,
      rule yields_asserted [OF assms(2,3)], rule yields_then_msg [OF assms])

lemma test_init_ok:
  assumes E: "writes_progress E" "\<And>h. 0 \<le> dev E h Uname" and t: "log_has fs t w"
  shows "yields (test_init E (Some name)) w (\<lambda>r w'. r = Inr 1 \<and> log_has fs (t\<lparr>logging := 1\<rparr>) w')"
proof -
  let ?t = "t\<lparr>logging := 1\<rparr>" and ?Q = "\<lambda>r w'. r = Inr 1 \<and> log_has fs (t\<lparr>logging := 1\<rparr>) w'"
  have lg: "logging ?t \<noteq> 0" by simp
  have set: "yields (and_then (log_set (logging_update (\<lambda>_. 1))) (\<lambda>_. k)) w ?Q"
    if "\<And>v. log_has fs ?t v \<Longrightarrow> yields k v ?Q" for k
    unfolding yields_and_then by (rule yields_log_set [OF t]) (auto intro: that)
  have uname: "yields (and_then (sys (dev E) Uname) k) v ?Q"
    if "log_has fs ?t v" "\<And>r u. 0 \<le> r \<Longrightarrow> log_has fs ?t u \<Longrightarrow> yields (k r) u ?Q" for v k
    unfolding yields_and_then yields_sys using that E(2) by simp
  have skip: "yields (and_then (if r < 0 then k' else give 0) (\<lambda>_. k)) u ?Q"
    if "0 \<le> r" "yields k u ?Q" for r :: int and k k' u
    using that by (simp add: yields_and_then yields_simps)
  have start: "yields (and_then (assert_that (\<lambda>w. tlog w \<noteq> None \<and> Some name \<noteq> None)) (\<lambda>_. k)) w ?Q"
    if "yields k w ?Q" for k
    using that log_has_not_NULL [OF t] by (auto simp: yields_and_then yields_simps)
  show ?thesis
    unfolding test_init_def
    by (rule start, rule set, rule yields_then_msg [OF E(1) _ lg], assumption, rule uname, assumption,
        rule skip, assumption, (rule test_sysinfo_f_ok [OF E(1) _ lg], assumption)+)
      (simp add: yields_simps)
qed

text \<open>The order of calls that the library asks for.\<close>

definition log_session :: "log_env \<Rightarrow> string \<Rightarrow> string \<Rightarrow> log_op list \<Rightarrow> string \<Rightarrow> unit log_prog" where
  "log_session E fname name ps msg =
     and_then (test_create E) (\<lambda>_.
     and_then (addfilebyname E (Some fname) VERBOSE) (\<lambda>_.
     and_then (test_init E (Some name)) (\<lambda>_.
     and_then (do_ops E ps) (\<lambda>_.
     test_exit E (Some msg)))))"

lemma yields_seq:
  assumes "yields m w P" "\<And>r w'. P r w' \<Longrightarrow> \<exists>v. r = Inr v \<and> yields (k v) w' Q"
  shows "yields (and_then m k) w Q"
  unfolding yields_and_then by (rule yields_mono [OF assms(1)]) (use assms(2) in fastforce)

lemma session_opens:
  assumes E: "memory E" "writes_progress E" "\<And>h. 0 \<le> dev E h Uname"
    and k: "\<And>fs v. log_has (\<lparr>lfd = STDOUTFD, loglevel = VERBOSE\<rparr> # fs) (fresh_log\<lparr>logging := 1\<rparr>) v \<Longrightarrow> yields k v Q"
  shows "yields (and_then (test_create E) (\<lambda>_. and_then (addfilebyname E (Some fname) VERBOSE) (\<lambda>_.
    and_then (test_init E (Some name)) (\<lambda>_. k)))) w Q"
proof (rule yields_seq [OF test_create_ok [OF E(1)]], elim conjE, intro exI conjI, assumption)
  fix w1 assume w1: "log_has [\<lparr>lfd = STDOUTFD, loglevel = VERBOSE\<rparr>] fresh_log w1"
  have lg: "logging fresh_log = 0" by (simp add: fresh_log_def)
  show "yields (and_then (addfilebyname E (Some fname) VERBOSE) (\<lambda>_. and_then (test_init E (Some name)) (\<lambda>_. k))) w1 Q"
  proof (rule yields_seq [OF addfilebyname_ok [OF E(1) w1 lg]], elim conjE exE, intro exI conjI, assumption)
    fix w2 fs' assume w2: "log_has ([\<lparr>lfd = STDOUTFD, loglevel = VERBOSE\<rparr>] @ fs') fresh_log w2"
    show "yields (and_then (test_init E (Some name)) (\<lambda>_. k)) w2 Q"
      by (rule yields_seq [OF test_init_ok [OF E(2,3) w2]]) (auto intro: k)
  qed
qed

lemma session_status:
  assumes E: "memory E" "writes_progress E" "\<And>h. 0 \<le> dev E h Uname"
  shows "yields (log_session E fname name ps msg) w (\<lambda>r w'.
    r = (case tally_ops ps \<lparr>n_passed = 0, n_failed = 0, n_errors = 0, running = False\<rparr> of
           None \<Rightarrow> Inl Abort
         | Some a \<Rightarrow> Inl (Exit ((n_failed a + n_errors a) mod 256))))"
  unfolding log_session_def
proof (rule session_opens [OF E])
  fix fs v
  let ?fs = "\<lparr>lfd = STDOUTFD, loglevel = VERBOSE\<rparr> # fs" and ?a = "\<lparr>n_passed = 0, n_failed = 0, n_errors = 0, running = False\<rparr>"
  assume "log_has ?fs (fresh_log\<lparr>logging := 1\<rparr>) v"
  then have v: "in_use ?fs ?a v"
    by (rule in_useI) (simp_all add: fresh_log_def tally_of_def)
  have exit: "yields (test_exit E (Some msg)) u (\<lambda>r w'. r = Inl (Exit ((n_failed a + n_errors a) mod 256)))"
    if "in_use ?fs a u" for a u
    using that test_exit_status [OF E(2)] by (fastforce simp: in_use_def tally_of_def elim: yields_mono)
  show "yields (and_then (do_ops E ps) (\<lambda>_. test_exit E (Some msg))) v (\<lambda>r w'.
    r = (case tally_ops ps ?a of None \<Rightarrow> Inl Abort | Some a \<Rightarrow> Inl (Exit ((n_failed a + n_errors a) mod 256))))"
    unfolding yields_and_then
    by (rule yields_mono [OF do_ops_refines [OF E(2) v]]) (auto split: option.splits intro: exit)
qed

section \<open>Properties\<close>

lemma plain_system_memory [simp]: "memory plain_system" "0 \<le> dev plain_system h Uname"
  by (simp_all add: memory_def plain_system_def plain_device_def)

text \<open>
  C5. Refinement of the library by the tally: whatever file name, test name, operations and messages,
  a session (create, add a file, init, operations, exit) comes to an end on a system with memory whose
  writes accept a byte or fail. It aborts by an assertion exactly when a case is passed or failed that
  was not started; otherwise it exits, and its status is the number of failed cases plus errors modulo
  256. A session with 256 failures is therefore a success to its parent.
\<close>

theorem log_session_status:
  assumes "memory E" "writes_progress E" "\<And>h. 0 \<le> dev E h Uname"
  shows "\<exists>w'. log_session E fname name ps msg w =
    Some (case tally_ops ps \<lparr>n_passed = 0, n_failed = 0, n_errors = 0, running = False\<rparr> of
            None \<Rightarrow> Inl Abort
          | Some a \<Rightarrow> Inl (Exit ((n_failed a + n_errors a) mod 256)), w')"
  using session_status [OF assms] by (auto simp: yields_def)

theorem log_session_status_witness:
  "(\<exists>w'. log_session plain_system ''f'' ''t'' [Begin_case ''a'', Fail_case ''b'', Report_error ''c''] ''m''
      \<lparr>clog = [], tlog = None\<rparr> = Some (Inl (Exit 2), w'))
   \<and> (\<exists>w'. log_session plain_system ''f'' ''t'' [Pass_case ''b''] ''m'' \<lparr>clog = [], tlog = None\<rparr> = Some (Inl Abort, w'))"
  using log_session_status [OF plain_system_memory(1) plain_system_progress plain_system_memory(2), of "''f''" "''t''"
      "[Begin_case ''a'', Fail_case ''b'', Report_error ''c'']" "''m''" "\<lparr>clog = [], tlog = None\<rparr>"]
    log_session_status [OF plain_system_memory(1) plain_system_progress plain_system_memory(2), of "''f''" "''t''"
      "[Pass_case ''b'']" "''m''" "\<lparr>clog = [], tlog = None\<rparr>"]
  by simp

lemma test_fail_cases:
  assumes E: "writes_whole E" and t: "log_has fs t w" "logging t \<noteq> 0"
  defines "u \<equiv> (if case_started t \<noteq> 0 then t\<lparr>case_started := 0, failures := failures t + 1\<rparr> else t)"
  shows "yields (test_fail E (Some m)) w (\<lambda>r w'. r = Inl (Exit ((failures u + errors u) mod 256))
    \<and> reported fs w ((if case_started t \<noteq> 0 then [(CASE_FAIL, Some m, ERROR)] else []) @ final_report u (Some m)) w')"
proof (cases "case_started t = 0")
  case True
  then show ?thesis
    unfolding test_fail_def u_def
    by (intro yields_then_field [OF t(1)]) (simp_all add: yields_and_then yields_simps test_exit_reported [OF E t])
next
  case False
  let ?f = "\<lambda>l. l\<lparr>case_started := 0, failures := failures l + 1\<rparr>"
  have u: "u = ?f t" "logging u \<noteq> 0" using False t(2) by (simp_all add: u_def)
  let ?Q = "\<lambda>r w'. r = Inl (Exit ((failures u + errors u) mod 256))
    \<and> reported fs w ((CASE_FAIL, Some m, ERROR) # final_report u (Some m)) w'"
  have "yields (and_then (log_set ?f) (\<lambda>_. and_then (log_msg E CASE_FAIL (Some m) ERROR) (\<lambda>_. test_exit E (Some m)))) w ?Q"
    unfolding yields_and_then [of "log_set _"]
  proof (rule yields_log_set [OF t(1)], simp, simp)
    fix v assume v: "log_has fs (?f t) v" and c: "clog v = clog w"
    have "yields (and_then (log_msg E CASE_FAIL (Some m) ERROR) (\<lambda>_. test_exit E (Some m))) v
        (\<lambda>r w'. r = Inl (Exit ((failures u + errors u) mod 256))
          \<and> reported fs v ((CASE_FAIL, Some m, ERROR) # final_report u (Some m)) w')"
      by (rule yields_then_line [OF E v [folded u(1)] u(2)]) (rule test_exit_reported [OF E _ u(2)])
    then show "yields (and_then (log_msg E CASE_FAIL (Some m) ERROR) (\<lambda>_. test_exit E (Some m))) v ?Q"
      by (simp add: reported_def c)
  qed
  then have "yields (and_then (case_fail E (Some m)) (\<lambda>_. test_exit E (Some m))) w ?Q"
    unfolding case_fail_def and_then_assoc
    by (intro yields_asserted [OF t] yields_in_case [OF t(1)]) (simp_all add: False)
  then show ?thesis
    unfolding test_fail_def using False
    by (intro yields_then_field [OF t(1)]) simp_all
qed

text \<open>
  C9. \<^verbatim>\<open>test_fail\<close>, documented to exit with a failure: it ends the test, and the final report and the status
  count one more failure only if a case was running. Between cases, with no failure before, the test
  that reports its own failure leaves \<open>TESTPASSED\<close> in the log and exits with status 0.
\<close>

theorem test_fail_exact:
  assumes "writes_whole E" "log_has fs t w" "logging t \<noteq> 0"
    and "u = (if case_started t \<noteq> 0 then t\<lparr>case_started := 0, failures := failures t + 1\<rparr> else t)"
  shows "\<exists>w'. test_fail E (Some m) w = Some (Inl (Exit ((failures u + errors u) mod 256)), w')
    \<and> reported fs w ((if case_started t \<noteq> 0 then [(CASE_FAIL, Some m, ERROR)] else []) @ final_report u (Some m)) w'"
  using test_fail_cases [OF assms(1-3), of m] unfolding assms(4) by (auto simp: yields_def)

theorem test_fail_exact_witness:
  "\<exists>w'. test_fail plain_system (Some ''broken'') one_file_log = Some (Inl (Exit 0), w')
    \<and> reported [\<lparr>lfd = 1, loglevel = 3\<rparr>] one_file_log (final_report started_log (Some ''broken'')) w'
    \<and> (PASS, Some ''TESTPASSED'', ERROR) \<in> set (final_report started_log (Some ''broken''))"
proof -
  have s: "logging started_log \<noteq> 0" "case_started started_log = 0" "failures started_log = 0" "errors started_log = 0"
    by (simp_all add: started_log_def)
  show ?thesis
    using test_fail_exact [OF plain_system_whole one_file_log_has s(1), of started_log "''broken''"] s
    by (simp add: final_report_def)
qed

end
