(* ===== verification/Testlog_Programs.thy ===== *)
theory Testlog_Programs
  imports Testlog_Session
begin

text \<open>
  The programs that exercise the test log library: \<^verbatim>\<open>testtestlog5.c\<close>, which gives the shell scripts of
  the flash tests one library call per process, and \<^verbatim>\<open>testtestlog.c\<close> to \<^verbatim>\<open>testtestlog4.c\<close> of the
  framebuffer tests, with the operations in which the framebuffer copy of the library differs.
\<close>

section \<open>The library of the framebuffer tests\<close>

definition fb_addfilebyname :: "log_env \<Rightarrow> string option \<Rightarrow> int \<Rightarrow> int log_prog" where
  "fb_addfilebyname E fname dlevel =
     and_then (log_field logging) (\<lambda>lg.
     case (lg = 0, fname) of
       (True, Some f) \<Rightarrow>
         and_then (file_not_exist E fname) (\<lambda>gone.
         and_then (if gone = 0 then rename_file E fname else give 0) (\<lambda>ret.
         if ret \<noteq> 0 then give ret
         else
           and_then (sys (dev E) (Open f log_open_flags)) (\<lambda>fd.
           if fd < 0 then give fd
           else
             and_then (sys (dev E) (Fchmod fd log_mode)) (\<lambda>ret.
             if ret < 0 then give ret else addfilebytype E fd dlevel))))
     | _ \<Rightarrow> halt Abort)"

definition fb_case_pass :: "log_env \<Rightarrow> string option \<Rightarrow> int log_prog" where
  "fb_case_pass E msg =
     and_then (assert_logging msg) (\<lambda>_.
     and_then assert_case (\<lambda>_.
     and_then (log_set (\<lambda>l. l\<lparr>passes := passes l + 1, case_started := 0\<rparr>)) (\<lambda>_.
     log_msg E PASS msg INFORMATION)))"

definition fb_case_fail :: "log_env \<Rightarrow> string option \<Rightarrow> int log_prog" where
  "fb_case_fail E msg =
     and_then (assert_logging msg) (\<lambda>_.
     and_then assert_case (\<lambda>_.
     and_then (log_set (\<lambda>l. l\<lparr>case_started := 0, failures := failures l + 1\<rparr>)) (\<lambda>_.
     log_msg E FAIL msg ERROR)))"

definition fb_test_fail :: "log_env \<Rightarrow> string option \<Rightarrow> unit log_prog" where
  "fb_test_fail E msg =
     and_then (log_field case_started) (\<lambda>c.
     and_then (if c \<noteq> 0 then fb_case_fail E msg else give 0) (\<lambda>_.
     test_exit E msg))"

section \<open>Its own tests\<close>

definition testtestlog_main :: "log_env \<Rightarrow> int log_prog" where
  "testtestlog_main E =
     and_then (test_create E) (\<lambda>_.
     and_then (fb_addfilebyname E (Some ''testout.dat'') VERBOSE) (\<lambda>_.
     and_then (test_init E (Some ''starting'')) (\<lambda>_.
     and_then (test_warn E (Some ''this is a warning'')) (\<lambda>_.
     and_then (test_info E (Some ''info message'')) (\<lambda>_.
     and_then (test_error E (Some ''this is an error'')) (\<lambda>_.
     and_then (case_start E (Some ''starting case'')) (\<lambda>_.
     and_then (fb_case_pass E (Some ''test case passed'')) (\<lambda>_.
     and_then (test_exit E (Some ''test exit'')) (\<lambda>_. give 0)))))))))"

definition testtestlog2_main :: "log_env \<Rightarrow> int log_prog" where
  "testtestlog2_main E =
     and_then (test_create E) (\<lambda>_.
     and_then (fb_addfilebyname E (Some ''testout2.dat'') VERBOSE) (\<lambda>_.
     and_then (test_init E (Some ''test case #2'')) (\<lambda>_.
     and_then (test_info E (Some ''this is a test2 info mesage'')) (\<lambda>_.
     and_then (test_warn E (Some ''this is going to exit with an error'')) (\<lambda>_.
     and_then (test_error_exit E (Some ''I told you so!!!'')) (\<lambda>_. give (- 1)))))))"

definition testtestlog3_main :: "log_env \<Rightarrow> int log_prog" where
  "testtestlog3_main E =
     and_then (test_create E) (\<lambda>_.
     and_then (fb_addfilebyname E (Some ''testout3.dat'') VERBOSE) (\<lambda>_.
     and_then (test_init E (Some ''test case #3'')) (\<lambda>_.
     and_then (test_info E (Some ''this is a test3 info mesage'')) (\<lambda>_.
     and_then (test_warn E (Some ''this is going to fail'')) (\<lambda>_.
     and_then (fb_test_fail E (Some ''Test 3 failed, cause it is supposed to test test_fail'')) (\<lambda>_.
     give (- 1)))))))"

definition testtestlog4_main :: "log_env \<Rightarrow> int log_prog" where
  "testtestlog4_main E =
     and_then (test_create E) (\<lambda>_.
     and_then (fb_addfilebyname E (Some ''testout4.dat'') VERBOSE) (\<lambda>_.
     and_then (and_then (log_buff ''test case #4'') (test_init E)) (\<lambda>_.
     and_then (test_info_f E ''this tests the *_f macros 4'') (\<lambda>_.
     and_then (and_then (log_buff ''testtestlog4'') (case_start E)) (\<lambda>_.
     and_then (and_then (log_buff ''this case passes case 4'') (fb_case_pass E)) (\<lambda>_.
     and_then (and_then (log_buff ''Test 4 failed, cause it is supposed to'') (fb_test_fail E)) (\<lambda>_.
     give 0)))))))"

section \<open>One call per process\<close>

definition to_lower :: "char \<Rightarrow> char" where
  "to_lower c = (let n = of_char c :: nat in if 65 \<le> n \<and> n \<le> 90 then char_of (n + 32) else c)"

definition strcaseeq :: "string \<Rightarrow> string \<Rightarrow> bool" where
  "strcaseeq s t \<longleftrightarrow> map to_lower s = map to_lower t"

definition argv_at :: "string list \<Rightarrow> nat \<Rightarrow> string option" where
  "argv_at argv i = (if i < length argv then Some (argv ! i) else None)"

definition LOGSZ :: nat where "LOGSZ = 512"

text \<open>\<^verbatim>\<open>strcpy(logbuf, src)\<close>\<close>

definition strcpy_logbuf :: "string option \<Rightarrow> string log_prog" where
  "strcpy_logbuf src =
     (case src of None \<Rightarrow> halt Segv | Some s \<Rightarrow> if length s < LOGSZ then give s else halt Overrun)"

definition set_logging :: "unit log_prog" where
  "set_logging = log_set (logging_update (\<lambda>_. 1))"

definition set_case_start :: "unit log_prog" where
  "set_case_start = log_set (case_started_update (\<lambda>_. 1))"

definition testlog5_command :: "log_env \<Rightarrow> string list \<Rightarrow> string \<Rightarrow> unit log_prog" where
  "testlog5_command E argv cmd =
     (let void = (\<lambda>m :: int log_prog. and_then m (\<lambda>_. give ()));
          arg = argv_at argv 3;
          logged = (\<lambda>m. and_then set_logging (\<lambda>_. void m));
          in_case = (\<lambda>m. and_then set_logging (\<lambda>_. and_then set_case_start (\<lambda>_. void m))) in
      if strcaseeq cmd ''ADDFILE'' then void (addfilebyname E (argv_at argv 1) VERBOSE)
      else if strcaseeq cmd ''INIT'' then void (test_init E arg)
      else if strcaseeq cmd ''INFO'' then
        logged (and_then (strcpy_logbuf arg) (\<lambda>b. test_info_f E (''this tests '' @ b)))
      else if strcaseeq cmd ''START'' then logged (case_start E arg)
      else if strcaseeq cmd ''SCEN'' then logged (case_scenario E arg)
      else if strcaseeq cmd ''VALID'' then logged (case_validation E arg)
      else if strcaseeq cmd ''DESC'' then
        logged (and_then (strcpy_logbuf arg) (\<lambda>b. and_then (log_buff b) (case_description E)))
      else if strcaseeq cmd ''PASS'' then in_case (case_pass E arg)
      else if strcaseeq cmd ''FAIL'' then in_case (case_fail E arg)
      else if strcaseeq cmd ''FAIL-RES'' then
        and_then set_logging (\<lambda>_. test_fail E (Some ''Test  failed as it is supposed to''))
      else if strcaseeq cmd ''TEXIT'' then and_then set_logging (\<lambda>_. test_exit E arg)
      else give ())"

definition testlog5_main :: "log_env \<Rightarrow> string list \<Rightarrow> int log_prog" where
  "testlog5_main E argv =
     and_then (test_create E) (\<lambda>_.
     and_then (addfilebyname E (argv_at argv 1) VERBOSE) (\<lambda>_.
     case argv_at argv 2 of
       None \<Rightarrow> halt Segv
     | Some cmd \<Rightarrow>
         and_then (testlog5_command E argv cmd) (\<lambda>_.
         and_then (change (tlog_update (\<lambda>_. None))) (\<lambda>_. give 0))))"

section \<open>What the processes report\<close>

definition testlog5_outcome :: "string \<Rightarrow> string \<Rightarrow> stop + int" where
  "testlog5_outcome cmd a =
     (if (strcaseeq cmd ''INFO'' \<or> strcaseeq cmd ''DESC'') \<and> LOGSZ \<le> length a then Inl Overrun
      else if strcaseeq cmd ''FAIL-RES'' \<or> strcaseeq cmd ''TEXIT'' then Inl (Exit 0)
      else Inr 0)"

lemma lower_commands:
  "map to_lower ''ADDFILE'' = ''addfile''" "map to_lower ''INIT'' = ''init''"
  "map to_lower ''INFO'' = ''info''" "map to_lower ''START'' = ''start''"
  "map to_lower ''SCEN'' = ''scen''" "map to_lower ''VALID'' = ''valid''"
  "map to_lower ''DESC'' = ''desc''" "map to_lower ''PASS'' = ''pass''"
  "map to_lower ''FAIL'' = ''fail''" "map to_lower ''FAIL-RES'' = ''fail-res''"
  "map to_lower ''TEXIT'' = ''texit''"
  by code_simp+

definition logging_on :: "lfile list \<Rightarrow> log_world \<Rightarrow> bool" where
  "logging_on fs w \<longleftrightarrow> log_has fs (fresh_log\<lparr>logging := 1\<rparr>) w"

definition no_cases :: tally where
  "no_cases = \<lparr>n_passed = 0, n_failed = 0, n_errors = 0, running = False\<rparr>"

lemma logging_on_in_use: "logging_on fs w \<Longrightarrow> in_use fs no_cases w"
  unfolding logging_on_def by (erule in_useI) (simp_all add: fresh_log_def tally_of_def no_cases_def)

lemma set_logging_ok:
  assumes "log_has fs fresh_log w" "\<And>v. logging_on fs v \<Longrightarrow> yields k v Q"
  shows "yields (and_then set_logging (\<lambda>_. k)) w Q"
  unfolding yields_and_then set_logging_def
  by (rule yields_log_set [OF assms(1)]) (auto intro: assms(2) simp: logging_on_def)

lemma set_case_start_ok:
  assumes "logging_on fs w" "\<And>v. in_use fs (no_cases\<lparr>running := True\<rparr>) v \<Longrightarrow> yields k v Q"
  shows "yields (and_then set_case_start (\<lambda>_. k)) w Q"
  unfolding yields_and_then set_case_start_def
proof (rule yields_log_set [OF assms(1) [unfolded logging_on_def]], simp_all)
  fix v assume "log_has fs (fresh_log\<lparr>logging := 1, case_started := 1\<rparr>) v"
  then show "yields k v Q"
    by (intro assms(2), elim in_useI) (simp_all add: fresh_log_def tally_of_def no_cases_def)
qed

lemma void_op:
  assumes "writes_progress E" "in_use fs a w" "tally_op p a \<noteq> None"
  shows "yields (and_then (do_op E p) (\<lambda>_. give ())) w (\<lambda>r w'. r = Inr ())"
  unfolding yields_and_then
  by (rule yields_mono [OF do_op_refines [OF assms(1,2)]]) (use assms(3) in \<open>auto simp: yields_simps\<close>)

lemma log_buff_op:
  assumes "in_use fs a w" "yields (k (Some (snprintf LOG_BUFF_SIZE s))) w Q"
  shows "yields (and_then (log_buff s) k) w Q"
  using assms unfolding log_buff_def in_use_def by (auto intro: yields_then_field)

lemma test_exit_unused:
  assumes "writes_progress E" "logging_on fs w"
  shows "yields (test_exit E msg) w (\<lambda>r w'. r = Inl (Exit 0))"
  using test_exit_status [OF assms(1) assms(2) [unfolded logging_on_def], of msg]
  by (auto simp: fresh_log_def elim: yields_mono)

lemma test_fail_unused:
  assumes "writes_progress E" "logging_on fs w"
  shows "yields (test_fail E msg) w (\<lambda>r w'. r = Inl (Exit 0))"
  unfolding test_fail_def
  by (rule yields_then_field [OF assms(2) [unfolded logging_on_def]])
    (simp_all add: fresh_log_def yields_and_then yields_simps test_exit_unused [OF assms])

lemma yields_if: "(c \<Longrightarrow> yields m w Q) \<Longrightarrow> (\<not> c \<Longrightarrow> yields m' w Q) \<Longrightarrow> yields (if c then m else m') w Q"
  by simp

lemma yields_eq: "yields m w (\<lambda>r w'. r = x) \<Longrightarrow> x = y \<Longrightarrow> yields m w (\<lambda>r w'. r = y)"
  by simp

lemma testlog5_command_ok:
  assumes E: "memory E" "writes_progress E" "\<And>h. 0 \<le> dev E h Uname" and w: "log_has fs fresh_log w"
  shows "yields (testlog5_command E [p, f, cmd, a] cmd) w
    (\<lambda>r w'. r = (case testlog5_outcome cmd a of Inl e \<Rightarrow> Inl e | Inr _ \<Rightarrow> Inr ()))"
proof -
  let ?Q = "\<lambda>r w'. r = (case testlog5_outcome cmd a of Inl e \<Rightarrow> Inl e | Inr _ \<Rightarrow> Inr ())"
  have lg: "logging fresh_log = 0" by (simp add: fresh_log_def)
  have args: "argv_at [p, f, cmd, a] 3 = Some a" "argv_at [p, f, cmd, a] 1 = Some f"
    by (simp_all add: argv_at_def)
  note on = set_logging_ok [OF w]
  have quiet: "yields (and_then (do_op E p) (\<lambda>_. give ())) v (\<lambda>r w'. r = Inr ())"
    if "logging_on fs v" "tally_op p no_cases \<noteq> None" for p v
    by (rule void_op [OF E(2) logging_on_in_use [OF that(1)] that(2)])
  have add: "yields (and_then (addfilebyname E (Some f) VERBOSE) (\<lambda>_. give ())) w (\<lambda>r w'. r = Inr ())"
    by (rule yields_seq [OF addfilebyname_ok [OF E(1) w lg]]) (auto simp: yields_simps)
  have init: "yields (and_then (test_init E (Some a)) (\<lambda>_. give ())) w (\<lambda>r w'. r = Inr ())"
    by (rule yields_seq [OF test_init_ok [OF E(2,3) w]]) (auto simp: yields_simps)
  have copied: "yields (and_then set_logging (\<lambda>_. and_then (and_then (strcpy_logbuf (Some a)) k) (\<lambda>_. give ()))) w
      (\<lambda>r w'. r = (if LOGSZ \<le> length a then Inl Overrun else Inr ()))"
    if "\<And>v. logging_on fs v \<Longrightarrow> yields (and_then (k a) (\<lambda>_. give ())) v (\<lambda>r w'. r = Inr ())" for k
    by (rule on) (auto simp: strcpy_logbuf_def and_then_assoc yields_and_then [of "give _"] yields_and_then [of "halt _"]
        yields_simps that not_le)
  have info: "yields (and_then (test_info_f E m) (\<lambda>_. give ())) v (\<lambda>r w'. r = Inr ())"
    and desc: "yields (and_then (and_then (log_buff m) (case_description E)) (\<lambda>_. give ())) v (\<lambda>r w'. r = Inr ())"
    if "logging_on fs v" for m v
    using quiet [OF that, of "Info _"] quiet [OF that, of "Describe _"]
    by (auto simp: test_info_f_def and_then_assoc intro!: log_buff_op [OF logging_on_in_use [OF that]])
  have message: "yields (and_then set_logging (\<lambda>_. and_then (do_op E p) (\<lambda>_. give ()))) w (\<lambda>r w'. r = Inr ())"
    if "tally_op p no_cases \<noteq> None" for p
    by (rule on) (rule quiet [OF _ that])
  have verdict: "yields (and_then set_logging (\<lambda>_. and_then set_case_start (\<lambda>_. and_then (do_op E p) (\<lambda>_. give ()))))
      w (\<lambda>r w'. r = Inr ())" if "tally_op p (no_cases\<lparr>running := True\<rparr>) \<noteq> None" for p
    by (rule on, erule set_case_start_ok) (rule void_op [OF E(2) _ that])
  note messages = message [of "Begin_case a"] message [of "Scenario a"] message [of "Validate a"]
    verdict [of "Pass_case a"] verdict [of "Fail_case a"]
  note ops = messages [simplified do_op.simps tally_op.simps, simplified]
  have ends: "yields (and_then set_logging (\<lambda>_. test_fail E m)) w (\<lambda>r w'. r = Inl (Exit 0))"
    "yields (and_then set_logging (\<lambda>_. test_exit E m)) w (\<lambda>r w'. r = Inl (Exit 0))" for m
    by (auto intro: on test_fail_unused [OF E(2)] test_exit_unused [OF E(2)])
  have other: "yields (give ()) w (\<lambda>r w'. r = Inr ())" by (simp add: yields_simps)
  note out = testlog5_outcome_def strcaseeq_def lower_commands
  show ?thesis
    unfolding testlog5_command_def Let_def args
    by (intro yields_if;
        (rule yields_eq [OF add] yields_eq [OF init] yields_eq [OF copied [OF info]] yields_eq [OF copied [OF desc]]
            yields_eq [OF ends(1)] yields_eq [OF ends(2)] yields_eq [OF other] ops [THEN yields_eq]);
        unfold out, simp)
qed

lemma testlog5_opens:
  assumes E: "memory E" and k: "\<And>fs v. log_has fs fresh_log v \<Longrightarrow> yields k v Q"
  shows "yields (and_then (test_create E) (\<lambda>_. and_then (addfilebyname E (Some f) VERBOSE) (\<lambda>_. k))) w Q"
proof (rule yields_seq [OF test_create_ok [OF E]], elim conjE, intro exI conjI, assumption)
  fix w1 assume w1: "log_has [\<lparr>lfd = STDOUTFD, loglevel = VERBOSE\<rparr>] fresh_log w1"
  have lg: "logging fresh_log = 0" by (simp add: fresh_log_def)
  show "yields (and_then (addfilebyname E (Some f) VERBOSE) (\<lambda>_. k)) w1 Q"
    by (rule yields_seq [OF addfilebyname_ok [OF E w1 lg]]) (auto intro: k)
qed

text \<open>
  The command-line program of the flash scripts, with a file, a command and an argument, on a system
  with memory whose writes accept a byte or fail: an argument of 512 characters or more to INFO or DESC
  overruns its buffer; otherwise the process reports success for every command, in any case of
  letters, FAIL, FAIL-RES and TEXIT included. Every process starts a new tally, so no failure that
  a script logs through it can reach an exit status.
\<close>

theorem testlog5_status:
  assumes "memory E" "writes_progress E" "\<And>h. 0 \<le> dev E h Uname"
  shows "\<exists>w'. testlog5_main E [p, f, cmd, a] w =
    Some (if (strcaseeq cmd ''INFO'' \<or> strcaseeq cmd ''DESC'') \<and> 512 \<le> length a then Inl Overrun
          else if strcaseeq cmd ''FAIL-RES'' \<or> strcaseeq cmd ''TEXIT'' then Inl (Exit 0)
          else Inr 0, w')"
proof -
  have args: "argv_at [p, f, cmd, a] 1 = Some f" "argv_at [p, f, cmd, a] 2 = Some cmd"
    by (simp_all add: argv_at_def)
  have "yields (testlog5_main E [p, f, cmd, a]) w (\<lambda>r w'. r = testlog5_outcome cmd a)"
    unfolding testlog5_main_def args option.case
  proof (rule testlog5_opens [OF assms(1)])
    fix fs v assume "log_has fs fresh_log v"
    from testlog5_command_ok [OF assms this, of p f cmd a]
    show "yields (and_then (testlog5_command E [p, f, cmd, a] cmd)
        (\<lambda>_. and_then (change (tlog_update (\<lambda>_. None))) (\<lambda>_. give 0))) v (\<lambda>r w'. r = testlog5_outcome cmd a)"
      unfolding yields_and_then
      by (rule yields_mono) (auto simp: testlog5_outcome_def yields_simps split: sum.splits if_splits)
  qed
  then show ?thesis by (simp add: yields_def testlog5_outcome_def LOGSZ_def)
qed

theorem testlog5_status_witness:
  "\<exists>w'. testlog5_main plain_system [''testtestlog5'', ''log'', ''Fail-Res'', ''case1''] \<lparr>clog = [], tlog = None\<rparr>
    = Some (Inl (Exit 0), w')"
proof -
  have eqs: "strcaseeq ''Fail-Res'' ''INFO'' = False" "strcaseeq ''Fail-Res'' ''DESC'' = False"
    "strcaseeq ''Fail-Res'' ''FAIL-RES'' = True"
    by code_simp+
  show ?thesis
    using testlog5_status [OF plain_system_memory(1) plain_system_progress plain_system_memory(2),
        of "''testtestlog5''" "''log''" "''Fail-Res''" "''case1''" "\<lparr>clog = [], tlog = None\<rparr>"]
    unfolding eqs by simp
qed

section \<open>The tests of the framebuffer library\<close>

lemma fb_addfilebyname_ok:
  assumes "memory E" "log_has fs t w" "logging t = 0"
  shows "yields (fb_addfilebyname E (Some f) dlevel) w
    (\<lambda>r w'. (\<exists>n. r = Inr n) \<and> (\<exists>fs'. log_has (fs @ fs') t w'))"
proof -
  let ?open = "and_then (sys (dev E) (Open f log_open_flags)) (\<lambda>fd.
      if fd < 0 then give fd
      else and_then (sys (dev E) (Fchmod fd log_mode)) (\<lambda>ret. if ret < 0 then give ret else addfilebytype E fd dlevel))"
  let ?Q = "\<lambda>r w'. (\<exists>n. r = Inr n) \<and> (\<exists>fs'. log_has (fs @ fs') t w')"
  have exists: "yields (file_not_exist E (Some f)) w (\<lambda>r w'. (\<exists>n. r = Inr n) \<and> log_has fs t w')"
    using assms(2) by (simp add: file_not_exist_def yields_and_then yields_sys yields_simps)
  have rename: "yields (if gone = 0 then rename_file E (Some f) else give 0) v (\<lambda>r w'. (\<exists>n. r = Inr n) \<and> log_has fs t w')"
    if "log_has fs t v" for gone v
    using that by (simp add: rename_file_def yields_and_then yields_sys yields_simps)
  have opened: "yields (if ret \<noteq> 0 then give ret else ?open) v ?Q" if "log_has fs t v" for ret v
    using that assms(3)
    by (auto simp: yields_and_then yields_sys yields_simps intro: log_has_longer
        intro!: yields_mono [OF addfilebytype_ok [OF assms(1)]])
  have renamed: "yields (and_then (if gone = 0 then rename_file E (Some f) else give 0)
      (\<lambda>ret. if ret \<noteq> 0 then give ret else ?open)) v ?Q" if "log_has fs t v" for gone v
    by (rule yields_seq [OF rename [OF that]]) (use opened in blast)
  have "yields (and_then (file_not_exist E (Some f)) (\<lambda>gone. and_then (if gone = 0 then rename_file E (Some f) else give 0)
      (\<lambda>ret. if ret \<noteq> 0 then give ret else ?open))) w ?Q"
    by (rule yields_seq [OF exists]) (use renamed in blast)
  then show ?thesis
    unfolding fb_addfilebyname_def by (intro yields_then_field [OF assms(2)]) (simp_all add: assms(3))
qed

end
