(* ===== verification/Fb_User.thy ===== *)
theory Fb_User
  imports Testlog_Programs
begin

text \<open>
  The user-space test of the framebuffer driver (\<^verbatim>\<open>fb_user_tests.c\<close>), a client of the test log library.
  The device answers every call; what an \<^verbatim>\<open>ioctl\<close> stored in its structure is read through \<open>Field\<close>
  calls right after it. Output to the terminal by \<^verbatim>\<open>printf\<close> is left out.
\<close>

section \<open>Constants and messages\<close>

definition DEV_FILE :: string where "DEV_FILE = ''/dev/fb0''"
definition TST_BAD_IOCTL_CMD :: int where "TST_BAD_IOCTL_CMD = 1"
definition TST_SCREENINFO :: int where "TST_SCREENINFO = 2"
definition TST_CMAP :: int where "TST_CMAP = 3"
definition TST_DATA :: int where "TST_DATA = 4"

definition O_RDONLY :: int where "O_RDONLY = 0"
definition O_WRONLY :: int where "O_WRONLY = 1"
definition O_RDWR :: int where "O_RDWR = 2"
definition O_CREAT :: int where "O_CREAT = 64"

fun hex_nat :: "nat \<Rightarrow> string" where
  "hex_nat n =
     (let d = (\<lambda>k :: nat. if k < 10 then [char_of (48 + k)] else [char_of (87 + k)]) in
      if n < 16 then d n else hex_nat (n div 16) @ d (n mod 16))"

declare hex_nat.simps [simp del]

text \<open>\<^verbatim>\<open>%x\<close> of an unsigned short; the caller's values are non-negative.\<close>

definition hex :: "int \<Rightarrow> string" where
  "hex i = hex_nat (nat i)"

definition tab :: string where "tab = [CHR 0x09]"

text \<open>The formatting macros around the operations of the log.\<close>

definition fb_case_fail_f :: "log_env \<Rightarrow> string \<Rightarrow> int log_prog" where
  "fb_case_fail_f E s = and_then (log_buff s) (fb_case_fail E)"

definition fb_test_fail_f :: "log_env \<Rightarrow> string \<Rightarrow> unit log_prog" where
  "fb_test_fail_f E s = and_then (log_buff s) (fb_test_fail E)"

definition test_error_exit_f :: "log_env \<Rightarrow> string \<Rightarrow> unit log_prog" where
  "test_error_exit_f E s = and_then (log_buff s) (test_error_exit E)"

text \<open>\<^verbatim>\<open>case_fail_f(logfile, "...%s\n", strerror(errno))\<close>\<close>

definition fail_errno :: "log_env \<Rightarrow> string \<Rightarrow> string \<Rightarrow> int log_prog" where
  "fail_errno E pre post = and_then (sys (dev E) Errno) (\<lambda>e. fb_case_fail_f E (pre @ strerror E e @ post))"

text \<open>An \<^verbatim>\<open>ioctl\<close>, by its request and by what its argument is.\<close>

definition ioctl :: "log_env \<Rightarrow> int \<Rightarrow> string \<Rightarrow> string \<Rightarrow> int log_prog" where
  "ioctl E fd request arg = sys (dev E) (Ioctl fd request arg)"

section \<open>call_test_ioctl\<close>

text \<open>
  One step of a test: \<open>check E m bad pre post errs\<close> makes the call \<open>m\<close>; if its answer is \<open>bad\<close> the case
  fails and the counter of errors grows.
\<close>

definition check :: "log_env \<Rightarrow> int log_prog \<Rightarrow> (int \<Rightarrow> bool) \<Rightarrow> string \<Rightarrow> string \<Rightarrow> int \<Rightarrow> int log_prog" where
  "check E m bad pre post errs =
     and_then m (\<lambda>r.
     if bad r then and_then (fail_errno E pre post) (\<lambda>_. give (errs + 1)) else give errs)"

definition ioctl_bad_command :: "log_env \<Rightarrow> int \<Rightarrow> int log_prog" where
  "ioctl_bad_command E fd =
     and_then (ioctl E fd ''FBIOBADIOCTL'' ''0'') (\<lambda>ret.
     and_then (if ret \<noteq> - 1
               then and_then (fb_case_fail E (Some (''ioctl with command did not fail'' @ newline))) (\<lambda>_. give 1)
               else give 0) (\<lambda>errs.
     and_then (fb_case_pass E (Some ''test for invalid ioctl cmd'')) (\<lambda>_. give errs)))"

definition ioctl_screeninfo :: "log_env \<Rightarrow> int \<Rightarrow> int log_prog" where
  "ioctl_screeninfo E fd =
     and_then (check E (ioctl E fd ''FBIOGET_FSCREENINFO'' ''finfo'') (\<lambda>r. r \<noteq> 0)
       ''call_test_ioctl - FBIOGET_FSCREENINFO: '' newline 0) (\<lambda>errs.
     and_then (check E (ioctl E fd ''FBIOGET_FSCREENINFO'' ''NULL'') (\<lambda>r. r = 0)
       ''call_test_ioctl - FBIOGET_FSCREENINFO with null: '' newline errs) (\<lambda>errs.
     and_then (check E (ioctl E fd ''FBIOGET_VSCREENINFO'' ''vinfo'') (\<lambda>r. r \<noteq> 0)
       (''call_test_ioctl - FBIOGET_VSCREENINFO'' @ newline @ '':'') [] errs) (\<lambda>errs.
     and_then (check E (ioctl E fd ''FBIOGET_VSCREENINFO'' ''NULL'') (\<lambda>r. r = 0)
       ''call_test_ioctl - FBIOGET_VSCREENINFO with null: '' newline errs) (\<lambda>errs.
     if errs = 0
     then and_then (fb_case_pass E (Some ''test for screeninfo ioctl'')) (\<lambda>_. give errs)
     else give errs))))"

definition ioctl_cmap :: "log_env \<Rightarrow> int \<Rightarrow> int log_prog" where
  "ioctl_cmap E fd =
     and_then (check E (ioctl E fd ''FBIOGETCMAP'' ''cmap'') (\<lambda>r. r \<noteq> 0)
       ''call_test_ioctl - FBIOGETCMAP: '' newline 0) (\<lambda>errs.
     and_then (check E (ioctl E fd ''FBIOGETCMAP'' ''NULL'') (\<lambda>r. r = 0)
       ''call_test_ioctl - FBIOGETCMAP with null: '' newline errs) (\<lambda>errs.
     if errs = 0
     then and_then (fb_case_pass E (Some ''test for colormap ioctl'')) (\<lambda>_. give errs)
     else give errs))"

definition call_test_ioctl :: "log_env \<Rightarrow> int \<Rightarrow> int \<Rightarrow> int log_prog" where
  "call_test_ioctl E fd tst_type =
     (if tst_type = TST_BAD_IOCTL_CMD then ioctl_bad_command E fd
      else if tst_type = TST_SCREENINFO then ioctl_screeninfo E fd
      else if tst_type = TST_CMAP then ioctl_cmap E fd
      else
        and_then (fb_case_fail E (Some (''Switch statement in call_test_ioctl: Should never have reached here. '' @ newline)))
          (\<lambda>_. give 1))"

section \<open>call_test_write\<close>

text \<open>The first \<open>n\<close> cells of an array that an \<^verbatim>\<open>ioctl\<close> filled.\<close>

fun read_cells :: "log_env \<Rightarrow> string \<Rightarrow> nat \<Rightarrow> int list log_prog" where
  "read_cells E name 0 = give []"
| "read_cells E name (Suc n) =
     and_then (read_cells E name n) (\<lambda>xs. and_then (sys (dev E) (Field name n)) (\<lambda>x. give (xs @ [x])))"

definition cmap_len :: nat where "cmap_len = 16"

definition cmap_line :: "int \<Rightarrow> int \<Rightarrow> int \<Rightarrow> string" where
  "cmap_line r g b = ''r 0x'' @ hex r @ '', g 0x'' @ hex g @ '', b 0x'' @ hex b @ newline"

definition cmap_summary :: "string \<Rightarrow> int \<Rightarrow> int \<Rightarrow> int \<Rightarrow> int \<Rightarrow> string" where
  "cmap_summary title r g b t =
     title @ newline @ dec 0 @ tab @ dec (int cmap_len) @ tab @ ''0x'' @ hex r @ tab @ ''0x'' @ hex g
       @ tab @ ''0x'' @ hex b @ tab @ ''0x'' @ hex t @ newline"

text \<open>Log the cells \<open>i\<close> to \<open>i + k - 1\<close>, the tail of \<^verbatim>\<open>for (i = 0; i < cmap.len; i++)\<close>.\<close>

definition log_cells :: "log_env \<Rightarrow> int list \<Rightarrow> int list \<Rightarrow> int list \<Rightarrow> unit log_prog" where
  "log_cells E red green blue =
     for_prog (\<lambda>i. and_then (test_info_f E (cmap_line (red ! i) (green ! i) (blue ! i))) (\<lambda>_. give ())) 0 cmap_len"

text \<open>The colour the test stores, \<^verbatim>\<open>r << 12\<close>, \<^verbatim>\<open>g << 8\<close>, \<^verbatim>\<open>b << 4\<close> of 2 in 16 bits.\<close>

definition new_r :: int where "new_r = uint (push_bit 12 (2 :: u16))"
definition new_g :: int where "new_g = uint (push_bit 8 (2 :: u16))"
definition new_b :: int where "new_b = uint (push_bit 4 (2 :: u16))"

text \<open>A branch that fails the case and leaves the switch.\<close>

definition fail_break :: "log_env \<Rightarrow> string \<Rightarrow> string \<Rightarrow> int log_prog" where
  "fail_break E pre post = and_then (fail_errno E pre post) (\<lambda>_. give 1)"

text \<open>After the new colours were set: read back, log and compare.\<close>

definition cmap_readback :: "log_env \<Rightarrow> int \<Rightarrow> int log_prog" where
  "cmap_readback E fd =
     and_then (ioctl E fd ''FBIOGETCMAP'' ''cmap'') (\<lambda>ret.
     if ret \<noteq> 0 then fail_break E ''call_test_write - Could not get updated color map:'' newline
     else
       and_then (read_cells E ''red'' cmap_len) (\<lambda>red.
       and_then (read_cells E ''green'' cmap_len) (\<lambda>green.
       and_then (read_cells E ''blue'' cmap_len) (\<lambda>blue.
       and_then (sys (dev E) (Field ''transp'' 0)) (\<lambda>transp0.
       and_then (test_info_f E (''recd cmap'' @ newline @ '' '' @ dec (int cmap_len))) (\<lambda>_.
       and_then (log_cells E red green blue) (\<lambda>_.
       and_then (test_info_f E (cmap_summary ''call_test_write - changed color map'' (red ! 0) (green ! 0) (blue ! 0) transp0)) (\<lambda>_.
       if red ! 0 \<noteq> new_r \<or> green ! 0 \<noteq> new_g \<or> blue ! 0 \<noteq> new_b
       then fail_break E ''call_test_write - Update to color map was allowed unexpectedly:'' newline
       else and_then (fb_case_pass E (Some ''write test for colormap'')) (\<lambda>_. give 0)))))))))"

definition write_cmap :: "log_env \<Rightarrow> int \<Rightarrow> int log_prog" where
  "write_cmap E fd =
     and_then (ioctl E fd ''FBIOGETCMAP'' ''cmap'') (\<lambda>ret.
     if ret \<noteq> 0 then fail_break E ''call_test_write - Could not get current color map:'' newline
     else
       and_then (read_cells E ''red'' cmap_len) (\<lambda>red.
       and_then (read_cells E ''green'' cmap_len) (\<lambda>green.
       and_then (read_cells E ''blue'' cmap_len) (\<lambda>blue.
       and_then (sys (dev E) (Field ''transp'' 0)) (\<lambda>transp0.
       and_then (test_info_f E (cmap_summary ''call_test_write - current color map'' (red ! 0) (green ! 0) (blue ! 0) transp0)) (\<lambda>_.
       and_then (test_info_f E (''colormap for write test'' @ tab @ ''r:0x'' @ hex new_r @ tab @ ''g:0x'' @ hex new_g
         @ tab @ ''b:0x'' @ hex new_b @ newline)) (\<lambda>_.
       and_then (ioctl E fd ''FBIOPUTCMAP'' ''cmap'') (\<lambda>ret.
       if ret \<noteq> 0
       then
         and_then (fb_case_fail_f E (''call_test_write - Could not update color map'' @ newline)) (\<lambda>_. give 1)
       else
         and_then (test_info_f E (''new cmap to be set '' @ dec (int cmap_len) @ newline)) (\<lambda>_.
         and_then (log_cells E (red[0 := new_r]) (green[0 := new_g]) (blue[0 := new_b])) (\<lambda>_.
         cmap_readback E fd))))))))))"

definition write_screeninfo :: "log_env \<Rightarrow> int \<Rightarrow> int log_prog" where
  "write_screeninfo E fd =
     and_then (ioctl E fd ''FBIOGET_FSCREENINFO'' ''finfo'') (\<lambda>ret.
     if ret \<noteq> 0
     then and_then (fb_test_fail E (Some ''unable to read fixed screen info'')) (\<lambda>_. give 1)
     else
       and_then (ioctl E fd ''FBIOGET_VSCREENINFO'' ''vinfo'') (\<lambda>ret.
       if ret \<noteq> 0
       then fail_break E ''call_test_write - Could not get var screen info for write:'' newline
       else
         and_then (ioctl E fd ''FBIOPUT_VSCREENINFO'' ''xres=150 yres=329'') (\<lambda>ret.
         if ret \<noteq> 0
         then fail_break E ''call_test_write -  Could not put var screen info for write: '' newline
         else and_then (fb_case_pass E (Some ''write test for screen info'')) (\<lambda>_. give 0))))"

text \<open>
  The colour bars. \<^verbatim>\<open>colorarray\<close> has four entries; the index runs up to 4, and what is read there is
  whatever lies behind the array. A pointer that \<^verbatim>\<open>mmap\<close> did not return cannot be written.
\<close>

definition colorarray :: "int list" where "colorarray = [0x00, 0xff, 0x0f, 0xf0]"

definition next_color :: "nat \<Rightarrow> nat \<Rightarrow> nat" where
  "next_color row colorcount =
     (if row mod 20 = 0 then if colorcount = 4 then 0 else colorcount + 1 else colorcount)"

definition color_byte :: "log_env \<Rightarrow> nat \<Rightarrow> int log_prog" where
  "color_byte E colorcount =
     (if colorcount < length colorarray then give (colorarray ! colorcount)
      else sys (dev E) (Field ''colorarray'' colorcount))"

definition bar_row :: "log_env \<Rightarrow> int \<Rightarrow> int \<Rightarrow> nat \<Rightarrow> nat \<Rightarrow> unit log_prog" where
  "bar_row E data width row colorcount =
     for_prog (\<lambda>column.
       and_then (color_byte E colorcount) (\<lambda>c.
       if data = - 1 then halt Segv
       else and_then (sys (dev E) (Put_cell (int column + int row * width) (c mod 256))) (\<lambda>_. give ())))
     0 (nat width)"

primrec bar_rows :: "log_env \<Rightarrow> int \<Rightarrow> int \<Rightarrow> nat \<Rightarrow> nat \<Rightarrow> nat \<Rightarrow> unit log_prog" where
  "bar_rows E data width row colorcount 0 = give ()"
| "bar_rows E data width row colorcount (Suc k) =
     and_then (bar_row E data width row (next_color row colorcount)) (\<lambda>_.
     bar_rows E data width (Suc row) (next_color row colorcount) k)"

definition write_data :: "log_env \<Rightarrow> int \<Rightarrow> int log_prog" where
  "write_data E fd =
     and_then (ioctl E fd ''FBIOGET_FSCREENINFO'' ''finfo'') (\<lambda>ret.
     if ret \<noteq> 0
     then and_then (fb_test_fail E (Some ''unable to read fixed screen info'')) (\<lambda>_. give 1)
     else
       and_then (ioctl E fd ''FBIOGET_VSCREENINFO'' ''vinfo'') (\<lambda>ret.
       if ret \<noteq> 0
       then fail_break E ''call_test_write - Could not get var screen info for write: '' newline
       else
         and_then (sys (dev E) (Field ''xres'' 0)) (\<lambda>width.
         and_then (sys (dev E) (Field ''yres'' 0)) (\<lambda>height.
         and_then (sys (dev E) (Mmap fd (width * height * 2))) (\<lambda>data.
         if data = 0
         then fail_break E ''call_test_write - Unable to mmap: '' newline
         else
           and_then (bar_rows E data width 0 0 (nat (2 * height))) (\<lambda>_.
           and_then (fb_case_pass E (Some ''write test for framebuffer'')) (\<lambda>_. give 0)))))))"

definition call_test_write :: "log_env \<Rightarrow> int \<Rightarrow> int \<Rightarrow> int log_prog" where
  "call_test_write E fd flag =
     (if flag = TST_CMAP then write_cmap E fd
      else if flag = TST_SCREENINFO then write_screeninfo E fd
      else if flag = TST_DATA then write_data E fd
      else
        and_then (fb_test_fail E (Some (''Switch statement in call_test_write: Should never have reached here. '' @ newline)))
          (\<lambda>_. give 1))"

section \<open>call_test_open and main\<close>

definition flag_name :: "int \<Rightarrow> string option" where
  "flag_name flag =
     (if flag = O_WRONLY then Some ''O_WRONLY'' else if flag = O_RDONLY then Some ''O_RDONLY''
      else if flag = O_RDWR then Some ''O_RDWR'' else if flag = O_CREAT then Some ''O_CREAT'' else None)"

text \<open>\<^verbatim>\<open>err_case\<close> is 0 throughout, so the branch for an expected error is never taken.\<close>

definition call_test_open :: "log_env \<Rightarrow> int \<Rightarrow> int log_prog" where
  "call_test_open E flag =
     (case flag_name flag of
        None \<Rightarrow>
          and_then (fb_test_fail E (Some (''Switch statement in call_test_open: Should never have reached here. '' @ newline)))
            (\<lambda>_. give 1)
      | Some name \<Rightarrow>
          and_then (sys (dev E) (Open DEV_FILE flag)) (\<lambda>fd.
          and_then
            (if fd = - 1
             then and_then (fb_case_fail_f E (''call_test_open - Open of '' @ DEV_FILE @ '' file with flag: '' @ name
                    @ '', failed with: '' @ dec fd @ newline)) (\<lambda>_. give 1)
             else and_then (fb_case_pass E (Some ''open test'')) (\<lambda>_. give 0)) (\<lambda>errs.
          and_then (sys (dev E) (Close fd)) (\<lambda>ret.
          if ret \<noteq> 0
          then and_then (fb_test_fail_f E (''call_test_open - Problem closing '' @ DEV_FILE @ '': '' @ dec ret @ ''.'' @ newline))
                 (\<lambda>_. give (errs + 1))
          else give errs))))"

text \<open>A case of \<^verbatim>\<open>main\<close>: \<^verbatim>\<open>case_start(logfile, name); errors += test;\<close>\<close>

definition fb_case :: "log_env \<Rightarrow> string \<Rightarrow> int log_prog \<Rightarrow> int \<Rightarrow> int log_prog" where
  "fb_case E name test errs =
     and_then (case_start E (Some name)) (\<lambda>_. and_then test (\<lambda>n. give (errs + n)))"

definition fb_open_cases :: "log_env \<Rightarrow> int log_prog" where
  "fb_open_cases E =
     and_then (fb_case E ''open device file O_RDONLY'' (call_test_open E O_RDONLY) 0) (\<lambda>errs.
     and_then (fb_case E ''open device file O_WRONLY'' (call_test_open E O_WRONLY) errs) (\<lambda>errs.
     and_then (fb_case E ''open device file O_RDWR'' (call_test_open E O_RDWR) errs) (\<lambda>errs.
     fb_case E ''open device file O_CREAT'' (call_test_open E O_CREAT) errs)))"

definition fb_device_cases :: "log_env \<Rightarrow> int \<Rightarrow> int \<Rightarrow> int log_prog" where
  "fb_device_cases E fd errs =
     and_then (fb_case E ''test for invalid ioctl command'' (call_test_ioctl E fd TST_BAD_IOCTL_CMD) errs) (\<lambda>errs.
     and_then (fb_case E ''test for screeninfo ioctls'' (call_test_ioctl E fd TST_SCREENINFO) errs) (\<lambda>errs.
     and_then (fb_case E ''test for colormap ioctls'' (call_test_ioctl E fd TST_CMAP) errs) (\<lambda>errs.
     and_then (fb_case E ''write test for colormap'' (call_test_write E fd TST_CMAP) errs) (\<lambda>errs.
     and_then (fb_case E ''write test for screeninfo'' (call_test_write E fd TST_SCREENINFO) errs) (\<lambda>errs.
     fb_case E ''write test  for framebuffer'' (call_test_write E fd TST_DATA) errs)))))"

text \<open>The device is open with descriptor \<open>fd\<close>: its cases, its close, and the end of the test.\<close>

definition fb_with_device :: "log_env \<Rightarrow> int \<Rightarrow> int \<Rightarrow> int log_prog" where
  "fb_with_device E fd errs =
     and_then (fb_device_cases E fd errs) (\<lambda>errs.
     and_then (sys (dev E) (Close fd)) (\<lambda>ret.
     and_then
       (if ret \<noteq> 0
        then and_then (fb_test_fail_f E (''Problem closing '' @ DEV_FILE @ '': '' @ dec ret @ ''.'' @ newline))
               (\<lambda>_. give (errs + 1))
        else give errs) (\<lambda>errs.
     and_then
       (if errs \<noteq> 0
        then test_info_f E (''Exiting with errors value: '' @ dec errs @ ''.'' @ newline)
        else give 0) (\<lambda>_.
     and_then (test_exit E (Some ''Completed User Space tests for Framebuffer'')) (\<lambda>_. give errs)))))"

definition fb_run :: "log_env \<Rightarrow> int log_prog" where
  "fb_run E =
     and_then (fb_open_cases E) (\<lambda>errs.
     and_then (sys (dev E) (Open DEV_FILE O_RDWR)) (\<lambda>fd.
     if fd = - 1
     then
       and_then (test_error_exit_f E (''Open of '' @ DEV_FILE @ '' file failed with: '' @ dec fd @ ''.'' @ newline))
         (\<lambda>_. give (- 2))
     else fb_with_device E fd errs))"

definition fb_main :: "log_env \<Rightarrow> int log_prog" where
  "fb_main E =
     and_then (sys (dev E) Geteuid) (\<lambda>uid.
     if uid \<noteq> 0
     then
       and_then (test_error_exit_f E (''You have to be root, in order to be able to open the device file: '' @ DEV_FILE
           @ '' '' @ newline)) (\<lambda>_. give (- 1))
     else
       and_then (test_create E) (\<lambda>_.
       and_then (fb_addfilebyname E (Some ''fb_user_tests.dat'') VERBOSE) (\<lambda>_.
       and_then (test_init E (Some ''Starting User Space tests for Framebuffer'')) (\<lambda>_.
       fb_run E))))"

end
