(* ===== verification/Fb_User_Correct.thy ===== *)
theory Fb_User_Correct
  imports Fb_User
begin

text \<open>
  What a run of the framebuffer test means: it comes to an end, and when it exits with status 0 every
  request to the device was answered as the test demands.
\<close>

section \<open>The log operations as steps on the tally\<close>

text \<open>The tally of the log and the calls made outside it, newest first.\<close>

definition fb_at :: "lfile list \<Rightarrow> tally \<Rightarrow> (sys_call \<times> int) list \<Rightarrow> log_world \<Rightarrow> bool" where
  "fb_at fs a h w \<longleftrightarrow> (\<exists>t. logged fs t h w \<and> logging t \<noteq> 0 \<and> tally_of t = a)"

lemma fb_atE:
  assumes "fb_at fs a h w"
  obtains t where "logged fs t h w" "log_has fs t w" "logging t \<noteq> 0" "a = tally_of t" "others (clog w) = h"
  using assms by (auto simp: fb_at_def logged_def)

lemma fb_at_in_use: "fb_at fs a h w \<longleftrightarrow> in_use fs a w \<and> others (clog w) = h"
  by (auto simp: fb_at_def in_use_def logged_def)

text \<open>A call that is not part of the logging.\<close>

definition own_call :: "sys_call \<Rightarrow> bool" where
  "own_call c \<longleftrightarrow> (case c of Write fd s \<Rightarrow> False | Time \<Rightarrow> False | Close fd \<Rightarrow> False | _ \<Rightarrow> True)"

lemma own_call_simps [simp]:
  "own_call (Ioctl fd q a)" "own_call Errno" "own_call (Open f m)" "own_call (Field s n)" "own_call (Mmap fd len)"
  "own_call (Put_cell i v)"
  by (simp_all add: own_call_def)

lemma fb_sys:
  assumes "fb_at fs a h w" "own_call c" "\<And>v r. fb_at fs a ((c, r) # h) v \<Longrightarrow> yields (k r) v Q"
  shows "yields (and_then (sys (dev E) c) k) w Q"
proof -
  have "others ((c, r) # clog w) = (c, r) # others (clog w)" for r
    using assms(2) by (cases c) (simp_all add: others_def own_call_def)
  then show ?thesis
    using assms(1,3) by (auto simp: yields_and_then yields_sys fb_at_def logged_def)
qed

lemma fb_close:
  assumes "fb_at fs a h w" "\<And>v r. fb_at fs a h v \<Longrightarrow> \<exists>h0. r = dev E h0 (Close fd) \<Longrightarrow> yields (k r) v Q"
  shows "yields (and_then (sys (dev E) (Close fd)) k) w Q"
proof -
  let ?v = "w\<lparr>clog := (Close fd, dev E (clog w) (Close fd)) # clog w\<rparr>"
  have "fb_at fs a h ?v" using assms(1) by (auto simp: fb_at_def logged_def)
  then have "yields (k (dev E (clog w) (Close fd))) ?v Q" by (rule assms(2)) blast
  then show ?thesis by (simp add: yields_and_then yields_sys)
qed

lemma fb_message:
  assumes E: "writes_progress E" and w: "fb_at fs a h w" and k: "\<And>v. fb_at fs a h v \<Longrightarrow> yields (k 1) v Q"
  shows "yields (and_then (and_then (assert_logging (Some m)) (\<lambda>_. log_msg E type (Some m) dlevel)) k) w Q"
proof -
  obtain t where t: "log_has fs t w" "logging t \<noteq> 0" "a = tally_of t" "others (clog w) = h"
    using w by (rule fb_atE)
  have "yields (and_then (log_msg E type (Some m) dlevel) k) w Q"
    by (rule yields_seq [OF log_msg_returns [OF E t(1,2)]]) (use t in \<open>auto intro!: k simp: fb_at_in_use in_use_def\<close>)
  then show ?thesis
    unfolding and_then_assoc by (rule yields_asserted [OF t(1,2)])
qed

text \<open>An operation that changes the tally and logs it.\<close>

lemma fb_count:
  assumes E: "writes_progress E" and t: "logged fs t h w" "logging t \<noteq> 0"
    and f: "\<And>ll. f (t\<lparr>loglist := ll\<rparr>) = (f t)\<lparr>loglist := ll\<rparr>" "logging (f t) = logging t"
    and k: "\<And>v. fb_at fs (tally_of (f t)) h v \<Longrightarrow> yields (k 1) v Q"
  shows "yields (and_then (and_then (log_set f) (\<lambda>_. log_msg E type msg dlevel)) k) w Q"
  by (rule yields_seq [OF set_then_message [OF E logged_has [OF t(1)] t(2) f]])
    (use t(1) in \<open>auto intro!: k simp: fb_at_in_use logged_def\<close>)

definition one_passed :: "tally \<Rightarrow> tally" where
  "one_passed a = a\<lparr>n_passed := n_passed a + 1, running := False\<rparr>"

definition one_failed :: "tally \<Rightarrow> tally" where
  "one_failed a = a\<lparr>n_failed := n_failed a + 1, running := False\<rparr>"

lemma tally_changes [simp]:
  "n_passed (one_passed a) = n_passed a + 1" "n_failed (one_passed a) = n_failed a"
  "n_errors (one_passed a) = n_errors a" "\<not> running (one_passed a)"
  "n_passed (one_failed a) = n_passed a" "n_failed (one_failed a) = n_failed a + 1"
  "n_errors (one_failed a) = n_errors a" "\<not> running (one_failed a)"
  by (simp_all add: one_passed_def one_failed_def)

lemma fb_pass:
  assumes E: "writes_progress E" and w: "fb_at fs a h w"
    and k: "\<And>v. running a \<Longrightarrow> fb_at fs (one_passed a) h v \<Longrightarrow> yields (k 1) v Q"
    and abort: "\<not> running a \<Longrightarrow> Q (Inl Abort) w"
  shows "yields (and_then (fb_case_pass E (Some m)) k) w Q"
proof -
  obtain t where t: "logged fs t h w" "log_has fs t w" "logging t \<noteq> 0" "a = tally_of t"
    using w by (rule fb_atE)
  show ?thesis
    unfolding fb_case_pass_def and_then_assoc
    by (rule yields_asserted [OF t(2,3)], rule yields_in_case [OF t(2)],
        unfold and_then_assoc [symmetric], rule fb_count [OF E t(1,3)])
      (use abort k in \<open>auto simp: t(4) tally_of_def one_passed_def\<close>)
qed

lemma fb_fail:
  assumes E: "writes_progress E" and w: "fb_at fs a h w"
    and k: "\<And>v. running a \<Longrightarrow> fb_at fs (one_failed a) h v \<Longrightarrow> yields (k 1) v Q"
    and abort: "\<not> running a \<Longrightarrow> Q (Inl Abort) w"
  shows "yields (and_then (fb_case_fail E (Some m)) k) w Q"
proof -
  obtain t where t: "logged fs t h w" "log_has fs t w" "logging t \<noteq> 0" "a = tally_of t"
    using w by (rule fb_atE)
  show ?thesis
    unfolding fb_case_fail_def and_then_assoc
    by (rule yields_asserted [OF t(2,3)], rule yields_in_case [OF t(2)],
        unfold and_then_assoc [symmetric], rule fb_count [OF E t(1,3)])
      (use abort k in \<open>auto simp: t(4) tally_of_def one_failed_def\<close>)
qed

lemma fb_buff:
  assumes "fb_at fs a h w" "yields (and_then (k (Some (snprintf LOG_BUFF_SIZE s))) k') w Q"
  shows "yields (and_then (and_then (log_buff s) k) k') w Q"
  using assms unfolding log_buff_def and_then_assoc
  by (auto elim!: fb_atE intro: yields_then_field)

lemma fb_fail_f:
  assumes "writes_progress E" "fb_at fs a h w"
    and "\<And>v. running a \<Longrightarrow> fb_at fs (one_failed a) h v \<Longrightarrow> yields (k 1) v Q"
    and "\<not> running a \<Longrightarrow> Q (Inl Abort) w"
  shows "yields (and_then (fb_case_fail_f E s) k) w Q"
  unfolding fb_case_fail_f_def by (rule fb_buff [OF assms(2)]) (rule fb_fail [OF assms(1,2)]; rule assms; assumption)

lemma fb_fail_errno:
  assumes "writes_progress E" "fb_at fs a h w"
    and "\<And>v e. running a \<Longrightarrow> fb_at fs (one_failed a) ((Errno, e) # h) v \<Longrightarrow> yields (k 1) v Q"
    and "\<And>v. \<not> running a \<Longrightarrow> Q (Inl Abort) v"
  shows "yields (and_then (fail_errno E pre post) k) w Q"
  unfolding fail_errno_def and_then_assoc
  by (rule fb_sys [OF assms(2)], simp, rule fb_fail_f [OF assms(1)], assumption) (auto intro: assms(3,4))

lemma fb_info_f:
  assumes "writes_progress E" "fb_at fs a h w" "\<And>v. fb_at fs a h v \<Longrightarrow> yields (k 1) v Q"
  shows "yields (and_then (test_info_f E s) k) w Q"
  unfolding test_info_f_def test_info_def
  by (rule fb_buff [OF assms(2)]) (rule fb_message [OF assms(1,2)], rule assms(3))

lemma fb_start:
  assumes E: "writes_progress E" and w: "fb_at fs a h w"
    and k: "\<And>v. fb_at fs (a\<lparr>running := True\<rparr>) h v \<Longrightarrow> yields (k 1) v Q"
  shows "yields (and_then (case_start E (Some m)) k) w Q"
proof -
  obtain t where t: "logged fs t h w" "log_has fs t w" "logging t \<noteq> 0" "a = tally_of t"
    using w by (rule fb_atE)
  show ?thesis
    unfolding case_start_def and_then_assoc
    by (rule yields_asserted [OF t(2,3)], unfold and_then_assoc [symmetric], rule fb_count [OF E t(1,3)])
      (use k in \<open>auto simp: t(4) tally_of_def\<close>)
qed

text \<open>Ending the test: the continuation is never reached.\<close>

lemma fb_exit:
  assumes E: "writes_progress E" and w: "fb_at fs a h w"
    and Q: "\<And>v. fb_at fs a h v \<Longrightarrow> Q (Inl (Exit ((n_failed a + n_errors a) mod 256))) v"
  shows "yields (and_then (test_exit E msg) k) w Q"
proof -
  obtain t where t: "logged fs t h w" "log_has fs t w" "logging t \<noteq> 0" "a = tally_of t"
    using w by (rule fb_atE)
  show ?thesis
    unfolding yields_and_then
    by (rule yields_mono [OF test_exit_logged [OF E t(1,3)]])
      (use Q t in \<open>auto simp: fb_at_def tally_of_def\<close>)
qed

lemma fb_test_fail_ends:
  assumes E: "writes_progress E" and w: "fb_at fs a h w" and b: "b = (if running a then one_failed a else a)"
    and Q: "\<And>v. fb_at fs b h v \<Longrightarrow> Q (Inl (Exit ((n_failed b + n_errors b) mod 256))) v"
  shows "yields (and_then (fb_test_fail E (Some m)) k) w Q"
proof -
  obtain t where t: "logged fs t h w" "log_has fs t w" "logging t \<noteq> 0" "a = tally_of t"
    using w by (rule fb_atE)
  have r: "running a \<longleftrightarrow> case_started t \<noteq> 0" by (simp add: t(4) tally_of_def)
  show ?thesis
  proof (cases "running a")
    case True
    have "yields (and_then (fb_case_fail E (Some m)) (\<lambda>_. and_then (test_exit E (Some m)) k)) w Q"
      by (rule fb_fail [OF E w]) (use True b Q in \<open>auto intro!: fb_exit [OF E]\<close>)
    then show ?thesis
      unfolding fb_test_fail_def and_then_assoc
      by (intro yields_then_field [OF t(2)]) (use True r in simp_all)
  next
    case False
    have "yields (and_then (test_exit E (Some m)) k) w Q"
      by (rule fb_exit [OF E w]) (use False b Q in auto)
    then show ?thesis
      unfolding fb_test_fail_def and_then_assoc
      by (intro yields_then_field [OF t(2)]) (use False r in \<open>simp_all add: and_then_give\<close>)
  qed
qed

lemma fb_test_fail_f_ends:
  assumes "writes_progress E" "fb_at fs a h w" "b = (if running a then one_failed a else a)"
    and "\<And>v. fb_at fs b h v \<Longrightarrow> Q (Inl (Exit ((n_failed b + n_errors b) mod 256))) v"
  shows "yields (and_then (fb_test_fail_f E s) k) w Q"
  unfolding fb_test_fail_f_def by (rule fb_buff [OF assms(2)]) (rule fb_test_fail_ends [OF assms(1-3)], rule assms(4))

section \<open>What the test demands of the device\<close>

definition good_answer :: "sys_call \<Rightarrow> int \<Rightarrow> bool" where
  "good_answer c r \<longleftrightarrow> (case c of
      Ioctl fd request arg \<Rightarrow>
        if request = ''FBIOBADIOCTL'' then r = - 1 else if arg = ''NULL'' then r \<noteq> 0 else r = 0
    | _ \<Rightarrow> True)"

definition good_answers :: "(sys_call \<times> int) list \<Rightarrow> bool" where
  "good_answers h \<longleftrightarrow> list_all (\<lambda>(c, r). good_answer c r) h"

lemma good_answers_simps [simp]:
  "good_answers []" "good_answers ((c, r) # h) \<longleftrightarrow> good_answer c r \<and> good_answers h"
  "good_answer Errno r" "good_answer (Field s n) r" "good_answer (Mmap fd len) r" "good_answer (Put_cell i v) r"
  "good_answer (Open f m) r"
  by (simp_all add: good_answers_def good_answer_def)

lemma good_answers_others: "good_answers (others h) = good_answers h"
  unfolding good_answers_def
proof (induction h)
  case (Cons x h)
  then show ?case
    by (cases x; cases "fst x") (simp_all add: others_def good_answer_def)
qed (simp add: others_def)

definition closes_ok :: "log_env \<Rightarrow> bool" where
  "closes_ok E \<longleftrightarrow> (\<forall>h fd. dev E h (Close fd) = 0)"

text \<open>After \<open>i\<close> cases: each has passed or failed, and if none failed every answer was good.\<close>

definition after_cases :: "int \<Rightarrow> tally \<Rightarrow> (sys_call \<times> int) list \<Rightarrow> bool" where
  "after_cases i a h \<longleftrightarrow> n_passed a + n_failed a = i \<and> 0 \<le> n_passed a \<and> 0 \<le> n_failed a \<and> n_errors a = 0
     \<and> (n_failed a = 0 \<longrightarrow> good_answers h)"

text \<open>An early end: an exit with status 0 needs a \<^verbatim>\<open>close\<close> that failed.\<close>

definition early_end :: "log_env \<Rightarrow> stop \<Rightarrow> log_world \<Rightarrow> bool" where
  "early_end E e w \<longleftrightarrow> (case e of
      Exit s \<Rightarrow> s = 0 \<longrightarrow> good_answers (clog w) \<and> \<not> closes_ok E
    | Overrun \<Rightarrow> False
    | _ \<Rightarrow> True)"

definition case_done :: "log_env \<Rightarrow> lfile list \<Rightarrow> int \<Rightarrow> stop + int \<Rightarrow> log_world \<Rightarrow> bool" where
  "case_done E fs i r w \<longleftrightarrow> (case r of
      Inl e \<Rightarrow> early_end E e w
    | Inr n \<Rightarrow> \<exists>a h. fb_at fs a h w \<and> after_cases (i + 1) a h \<and> \<not> running a)"

lemma case_done_simps [simp]:
  "case_done E fs i (Inl Abort) w" "case_done E fs i (Inl Segv) w"
  by (simp_all add: case_done_def early_end_def)

lemma case_done_give:
  assumes "fb_at fs a h w" "after_cases (i + 1) a h" "\<not> running a"
  shows "yields (give n) w (case_done E fs i)"
  using assms by (auto simp: yields_simps case_done_def)

lemma case_done_exit:
  assumes "fb_at fs a h w" "s \<noteq> 0 \<or> good_answers h \<and> \<not> closes_ok E"
  shows "case_done E fs i (Inl (Exit s)) w"
  using assms by (auto simp: case_done_def early_end_def fb_at_in_use good_answers_others)

lemma after_cases_ends:
  assumes "after_cases i a h" "i \<le> 100"
  shows "(n_failed a + n_errors a) mod 256 = n_failed a"
    "(n_failed (one_failed a) + n_errors (one_failed a)) mod 256 \<noteq> 0"
proof -
  have "0 \<le> n_failed a" "n_failed a \<le> 100" "n_errors a = 0"
    using assms by (auto simp: after_cases_def)
  then show "(n_failed a + n_errors a) mod 256 = n_failed a"
    "(n_failed (one_failed a) + n_errors (one_failed a)) mod 256 \<noteq> 0"
    by simp_all
qed

lemma after_passed:
  "after_cases i a h \<Longrightarrow> n_failed a = 0 \<longrightarrow> good_answers h' \<Longrightarrow> after_cases (i + 1) (one_passed a) h'"
  by (simp add: after_cases_def)

lemma after_failed: "after_cases i a h \<Longrightarrow> after_cases (i + 1) (one_failed a) h'"
  by (simp add: after_cases_def)

lemma after_good: "after_cases i a h \<Longrightarrow> good_answer c r \<Longrightarrow> after_cases i a ((c, r) # h)"
  by (simp add: after_cases_def)

text \<open>Within a case that is running.\<close>

definition in_case :: "lfile list \<Rightarrow> int \<Rightarrow> tally \<Rightarrow> (sys_call \<times> int) list \<Rightarrow> log_world \<Rightarrow> bool" where
  "in_case fs i a h w \<longleftrightarrow> fb_at fs a h w \<and> running a \<and> after_cases i a h"

lemma case_passes:
  assumes "writes_progress E" "in_case fs i a h w"
  shows "yields (and_then (fb_case_pass E (Some m)) (\<lambda>_. give n)) w (case_done E fs i)"
  by (rule fb_pass [OF assms(1)])
    (use assms(2) in \<open>auto simp: in_case_def intro!: case_done_give after_passed simp: after_cases_def\<close>)

lemma case_fails:
  assumes "writes_progress E" "fb_at fs a h w" "running a" "after_cases i a h0"
  shows "yields (fail_break E pre post) w (case_done E fs i)"
  unfolding fail_break_def
  by (rule fb_fail_errno [OF assms(1,2)]) (auto intro: case_done_give after_failed [OF assms(4)])

lemma case_ends:
  assumes "writes_progress E" "fb_at fs a h w" "running a" "after_cases i a h0" "i \<le> 100"
  shows "yields (and_then (fb_test_fail E (Some m)) k) w (case_done E fs i)"
  by (rule fb_test_fail_ends [OF assms(1,2) refl])
    (use assms(3) after_cases_ends(2) [OF assms(4,5)] in \<open>auto intro: case_done_exit\<close>)

lemma case_call:
  assumes "in_case fs i a h w" "own_call c"
    and "\<And>v r. fb_at fs a ((c, r) # h) v \<Longrightarrow> (good_answer c r \<Longrightarrow> in_case fs i a ((c, r) # h) v) \<Longrightarrow> yields (k r) v Q"
  shows "yields (and_then (sys (dev E) c) k) w Q"
  by (rule fb_sys [of fs a h]) (use assms in \<open>auto simp: in_case_def intro: after_good\<close>)

section \<open>Each case\<close>

definition checked :: "lfile list \<Rightarrow> int \<Rightarrow> int \<Rightarrow> log_world \<Rightarrow> bool" where
  "checked fs i errs w \<longleftrightarrow> (\<exists>a h. fb_at fs a h w \<and>
     (if errs = 0 then running a \<and> after_cases i a h
      else 0 < errs \<and> \<not> running a \<and> after_cases (i + 1) a h \<and> n_failed a \<noteq> 0))"

lemma check_step:
  assumes E: "writes_progress E" and w: "checked fs i errs w" and c: "own_call c" "\<And>r. \<not> bad r \<Longrightarrow> good_answer c r"
    and k: "\<And>v e. checked fs i e v \<Longrightarrow> yields (k e) v Q" and Q: "\<And>v. Q (Inl Abort) v"
  shows "yields (and_then (check E (sys (dev E) c) bad pre post errs) k) w Q"
proof -
  obtain a h where a: "fb_at fs a h w" and s: "if errs = 0 then running a \<and> after_cases i a h
      else 0 < errs \<and> \<not> running a \<and> after_cases (i + 1) a h \<and> n_failed a \<noteq> 0"
    using w by (auto simp: checked_def)
  show ?thesis
    unfolding check_def and_then_assoc
  proof (rule fb_sys [OF a c(1)])
    fix v r assume v: "fb_at fs a ((c, r) # h) v"
    show "yields (and_then (if bad r then and_then (fail_errno E pre post) (\<lambda>_. give (errs + 1)) else give errs) k) v Q"
    proof (cases "bad r")
      case True
      have "yields (and_then (fail_errno E pre post) (\<lambda>_. k (errs + 1))) v Q"
      proof (rule fb_fail_errno [OF E v])
        fix u e assume "running a" and u: "fb_at fs (one_failed a) ((Errno, e) # (c, r) # h) u"
        then have "errs = 0" "after_cases i a h" using s by (auto split: if_splits)
        then have "checked fs i (errs + 1) u"
          unfolding checked_def
          by (intro exI [of _ "one_failed a"] exI [of _ "(Errno, e) # (c, r) # h"]) (use u in \<open>simp add: after_cases_def\<close>)
        then show "yields (k (errs + 1)) u Q" by (rule k)
      qed (rule Q)
      then show ?thesis using True by (simp add: and_then_assoc and_then_give)
    next
      case False
      then have "checked fs i errs v"
        unfolding checked_def
        by (intro exI [of _ a] exI [of _ "(c, r) # h"])
          (use v s c(2) [OF False] in \<open>auto simp: after_good split: if_splits\<close>)
      then show ?thesis using False k by (simp add: and_then_give)
    qed
  qed
qed

lemma checked_end:
  assumes E: "writes_progress E" and w: "checked fs i errs w"
  shows "yields (if errs = 0 then and_then (fb_case_pass E (Some m)) (\<lambda>_. give errs) else give errs) w (case_done E fs i)"
proof (cases "errs = 0")
  case True
  then obtain a h where "in_case fs i a h w" using w by (auto simp: checked_def in_case_def)
  then show ?thesis using True by (simp add: case_passes [OF E])
next
  case False
  then show ?thesis using w by (auto simp: checked_def intro: case_done_give)
qed

lemma in_case_checked: "in_case fs i a h w \<Longrightarrow> checked fs i 0 w"
  by (auto simp: in_case_def checked_def)

lemma ioctl_bad_command_done:
  assumes E: "writes_progress E" and w: "in_case fs i a h w"
  shows "yields (ioctl_bad_command E fd) w (case_done E fs i)"
  unfolding ioctl_bad_command_def ioctl_def
proof (rule case_call [OF w], simp)
  fix v r assume v: "fb_at fs a ((Ioctl fd ''FBIOBADIOCTL'' ''0'', r) # h) v"
    and g: "good_answer (Ioctl fd ''FBIOBADIOCTL'' ''0'') r \<Longrightarrow> in_case fs i a ((Ioctl fd ''FBIOBADIOCTL'' ''0'', r) # h) v"
  show "yields (and_then (if r \<noteq> - 1 then and_then (fb_case_fail E (Some (''ioctl with command did not fail'' @ newline)))
      (\<lambda>_. give 1) else give 0) (\<lambda>errs. and_then (fb_case_pass E (Some ''test for invalid ioctl cmd'')) (\<lambda>_. give errs))) v
      (case_done E fs i)"
  proof (cases "r = - 1")
    case True
    then have "in_case fs i a ((Ioctl fd ''FBIOBADIOCTL'' ''0'', r) # h) v" by (intro g) (simp add: good_answer_def)
    from case_passes [OF E this] show ?thesis using True by (simp add: and_then_give)
  next
    case False
    have "yields (and_then (fb_case_fail E (Some m)) (\<lambda>_. and_then (fb_case_pass E (Some m')) (\<lambda>_. give 1))) v
        (case_done E fs i)" for m m'
      by (rule fb_fail [OF E v], rule fb_pass [OF E], assumption) simp_all
    then show ?thesis using False by (simp add: and_then_assoc and_then_give del: append.simps)
  qed
qed

lemma call_test_ioctl_done:
  assumes E: "writes_progress E" and w: "in_case fs i a h w"
    and t: "t = TST_BAD_IOCTL_CMD \<or> t = TST_SCREENINFO \<or> t = TST_CMAP"
  shows "yields (call_test_ioctl E fd t) w (case_done E fs i)"
proof -
  have "yields (ioctl_screeninfo E fd) w (case_done E fs i)"
    unfolding ioctl_screeninfo_def ioctl_def
    by (rule check_step [OF E in_case_checked [OF w]]; (rule check_step [OF E])?) (auto simp: good_answer_def
        intro!: checked_end [OF E] check_step [OF E])
  moreover have "yields (ioctl_cmap E fd) w (case_done E fs i)"
    unfolding ioctl_cmap_def ioctl_def
    by (rule check_step [OF E in_case_checked [OF w]]) (auto simp: good_answer_def
        intro!: checked_end [OF E] check_step [OF E])
  ultimately show ?thesis
    using ioctl_bad_command_done [OF E w] t by (auto simp: call_test_ioctl_def TST_SCREENINFO_def TST_CMAP_def TST_BAD_IOCTL_CMD_def)
qed

text \<open>
  A case that is running with good answers so far, and one that is running after an answer that may
  have been bad.
\<close>

definition going :: "lfile list \<Rightarrow> int \<Rightarrow> log_world \<Rightarrow> bool" where
  "going fs i w \<longleftrightarrow> (\<exists>a h. in_case fs i a h w)"

definition spoilt :: "lfile list \<Rightarrow> int \<Rightarrow> log_world \<Rightarrow> bool" where
  "spoilt fs i w \<longleftrightarrow> (\<exists>a h h0. fb_at fs a h w \<and> running a \<and> after_cases i a h0)"

lemma goingI: "in_case fs i a h w \<Longrightarrow> going fs i w"
  by (auto simp: going_def)

lemma going_spoilt: "going fs i w \<Longrightarrow> spoilt fs i w"
  by (auto simp: going_def spoilt_def in_case_def)

lemma going_passes:
  assumes "writes_progress E" "going fs i w"
  shows "yields (and_then (fb_case_pass E (Some m)) (\<lambda>_. give n)) w (case_done E fs i)"
  using assms(2) unfolding going_def by (auto intro: case_passes [OF assms(1)])

lemma spoilt_fails:
  assumes "writes_progress E" "spoilt fs i w"
  shows "yields (fail_break E pre post) w (case_done E fs i)"
  using assms(2) unfolding spoilt_def by (auto intro: case_fails [OF assms(1)])

lemma spoilt_fails_f:
  assumes "writes_progress E" "spoilt fs i w"
  shows "yields (and_then (fb_case_fail_f E s) (\<lambda>_. give n)) w (case_done E fs i)"
proof -
  obtain a h h0 where a: "fb_at fs a h w" "running a" "after_cases i a h0"
    using assms(2) by (auto simp: spoilt_def)
  show ?thesis
    by (rule fb_fail_f [OF assms(1) a(1)]) (use a in \<open>auto intro: case_done_give after_failed\<close>)
qed

lemma spoilt_ends:
  assumes "writes_progress E" "spoilt fs i w" "i \<le> 100"
  shows "yields (and_then (fb_test_fail E (Some m)) k) w (case_done E fs i)"
  using assms(2) unfolding spoilt_def by (auto intro: case_ends [OF assms(1) _ _ _ assms(3)])

lemma going_sys:
  assumes "going fs i w" "own_call c" "\<And>r. good_answer c r" "\<And>v r. going fs i v \<Longrightarrow> yields (k r) v Q"
  shows "yields (and_then (sys (dev E) c) k) w Q"
proof -
  obtain a h where a: "in_case fs i a h w" using assms(1) by (auto simp: going_def)
  show ?thesis
    by (rule case_call [OF a assms(2)]) (blast intro: goingI assms(3,4))
qed

lemma going_ioctl:
  assumes "going fs i w" "request \<noteq> ''FBIOBADIOCTL''" "arg \<noteq> ''NULL''"
    and "\<And>v. spoilt fs i v \<Longrightarrow> yields m v Q" "\<And>v. going fs i v \<Longrightarrow> yields k v Q"
  shows "yields (and_then (ioctl E fd request arg) (\<lambda>ret. if ret \<noteq> 0 then m else k)) w Q"
proof -
  obtain a h where a: "in_case fs i a h w" using assms(1) by (auto simp: going_def)
  have good: "good_answer (Ioctl fd request arg) 0" using assms(2,3) by (simp add: good_answer_def)
  show ?thesis
    unfolding ioctl_def
  proof (rule case_call [OF a], simp)
    fix v r assume v: "fb_at fs a ((Ioctl fd request arg, r) # h) v"
      and g: "good_answer (Ioctl fd request arg) r \<Longrightarrow> in_case fs i a ((Ioctl fd request arg, r) # h) v"
    have "spoilt fs i v" using v a by (auto simp: spoilt_def in_case_def)
    then show "yields (if r \<noteq> 0 then m else k) v Q"
      using assms(4,5) g good by (auto simp: going_def)
  qed
qed

lemma going_info:
  assumes "writes_progress E" "going fs i w" "\<And>v. going fs i v \<Longrightarrow> yields (k 1) v Q"
  shows "yields (and_then (test_info_f E s) k) w Q"
proof -
  obtain a h where a: "in_case fs i a h w" using assms(2) by (auto simp: going_def)
  show ?thesis
    by (rule fb_info_f [OF assms(1), of fs a h])
      (use a in \<open>auto simp: in_case_def intro!: assms(3) goingI [of fs i a h]\<close>)
qed

lemma going_cells:
  assumes "going fs i w" "\<And>v xs. going fs i v \<Longrightarrow> yields (k xs) v Q"
  shows "yields (and_then (read_cells E name n) k) w Q"
  using assms(2)
proof (induction n arbitrary: k)
  case 0
  then show ?case using assms(1) by (simp add: and_then_give)
next
  case (Suc n)
  show ?case
    unfolding read_cells.simps and_then_assoc
    by (rule Suc.IH) (rule going_sys, assumption, simp, simp, simp add: and_then_give Suc.prems)
qed

lemma going_log_cells:
  assumes "writes_progress E" "going fs i w" "\<And>v. going fs i v \<Longrightarrow> yields (k ()) v Q"
  shows "yields (and_then (log_cells E red green blue) k) w Q"
proof (rule yields_seq)
  show "yields (log_cells E red green blue) w (\<lambda>r v. r = Inr () \<and> going fs i v)"
    unfolding log_cells_def
    by (rule yields_for_prog [where I = "\<lambda>_. going fs i"])
      (auto intro!: going_info [OF assms(1)] simp: yields_simps assms(2))
qed (use assms(3) in auto)

lemma cmap_readback_done:
  assumes E: "writes_progress E" and w: "going fs i w"
  shows "yields (cmap_readback E fd) w (case_done E fs i)"
  unfolding cmap_readback_def
  apply (rule going_ioctl [OF w], simp, simp, erule spoilt_fails [OF E])
  apply (rule going_cells, assumption)+
  apply (rule going_sys, assumption, simp, simp)
  apply (rule going_info [OF E], assumption)
  apply (rule going_log_cells [OF E], assumption)
  apply (rule going_info [OF E], assumption)
  apply (rule yields_if)
   apply (rule spoilt_fails [OF E], erule going_spoilt)
  apply (erule going_passes [OF E])
  done

lemma write_cmap_done:
  assumes E: "writes_progress E" and w: "going fs i w"
  shows "yields (write_cmap E fd) w (case_done E fs i)"
  unfolding write_cmap_def
  apply (rule going_ioctl [OF w], simp, simp, erule spoilt_fails [OF E])
  apply (rule going_cells, assumption)+
  apply (rule going_sys, assumption, simp, simp)
  apply (rule going_info [OF E], assumption)+
  apply (rule going_ioctl, assumption, simp, simp, erule spoilt_fails_f [OF E])
  apply (rule going_info [OF E], assumption)
  apply (rule going_log_cells [OF E], assumption)
  apply (erule cmap_readback_done [OF E])
  done

lemma write_screeninfo_done:
  assumes E: "writes_progress E" and w: "going fs i w" and i: "i \<le> 100"
  shows "yields (write_screeninfo E fd) w (case_done E fs i)"
  unfolding write_screeninfo_def
  apply (rule going_ioctl [OF w], simp, simp, erule spoilt_ends [OF E _ i])
  apply (rule going_ioctl, assumption, simp, simp, erule spoilt_fails [OF E])
  apply (rule going_ioctl, assumption, simp, simp, erule spoilt_fails [OF E])
  apply (erule going_passes [OF E])
  done

lemma going_color:
  assumes "going fs i w" "\<And>v c. going fs i v \<Longrightarrow> yields (k c) v Q"
  shows "yields (and_then (color_byte E n) k) w Q"
  unfolding color_byte_def
  by (cases "n < length colorarray") (use assms in \<open>auto simp: and_then_give intro: going_sys\<close>)

lemma going_bar_row:
  assumes "going fs i w"
  shows "yields (bar_row E data width row n) w (\<lambda>r v. case r of Inl e \<Rightarrow> e = Segv | Inr _ \<Rightarrow> going fs i v)"
  unfolding bar_row_def
  by (rule yields_for_or_stop [where I = "going fs i" and X = "\<lambda>e _. e = Segv"])
    (auto simp: yields_simps assms intro!: going_color going_sys [of fs i _ "Put_cell _ _"])

lemma going_bars:
  assumes "going fs i w" "\<And>v. going fs i v \<Longrightarrow> yields (k ()) v Q" "\<And>v. Q (Inl Segv) v"
  shows "yields (and_then (bar_rows E data width row n m) k) w Q"
  using assms(1)
proof (induction m arbitrary: row n w)
  case 0
  then show ?case using assms(2) by (simp add: and_then_give)
next
  case (Suc m)
  show ?case
    unfolding bar_rows.simps and_then_assoc yields_and_then [of "bar_row _ _ _ _ _"]
    by (rule yields_mono [OF going_bar_row [OF Suc.prems]])
      (auto simp: assms(3) Suc.IH split: sum.splits)
qed

lemma write_data_done:
  assumes E: "writes_progress E" and w: "going fs i w" and i: "i \<le> 100"
  shows "yields (write_data E fd) w (case_done E fs i)"
  unfolding write_data_def
  apply (rule going_ioctl [OF w], simp, simp, erule spoilt_ends [OF E _ i])
  apply (rule going_ioctl, assumption, simp, simp, erule spoilt_fails [OF E])
  apply (rule going_sys, assumption, simp, simp)+
  apply (rule yields_if)
   apply (rule spoilt_fails [OF E], erule going_spoilt)
  apply (rule going_bars, assumption, erule going_passes [OF E], simp)
  done

lemma call_test_write_done:
  assumes "writes_progress E" "going fs i w" "i \<le> 100" "t = TST_CMAP \<or> t = TST_SCREENINFO \<or> t = TST_DATA"
  shows "yields (call_test_write E fd t) w (case_done E fs i)"
  using assms(4) write_cmap_done [OF assms(1,2)] write_screeninfo_done [OF assms(1-3)] write_data_done [OF assms(1-3)]
  by (auto simp: call_test_write_def TST_SCREENINFO_def TST_CMAP_def TST_DATA_def)

section \<open>The run\<close>

definition resting :: "lfile list \<Rightarrow> int \<Rightarrow> log_world \<Rightarrow> bool" where
  "resting fs i w \<longleftrightarrow> (\<exists>a h. fb_at fs a h w \<and> after_cases i a h \<and> \<not> running a)"

lemma restingI: "fb_at fs a h w \<Longrightarrow> after_cases i a h \<Longrightarrow> \<not> running a \<Longrightarrow> resting fs i w"
  by (auto simp: resting_def)

lemma case_done_Inr: "case_done E fs i (Inr n) w \<longleftrightarrow> resting fs (i + 1) w"
  by (simp add: case_done_def resting_def)

lemma case_done_Inl: "case_done E fs i (Inl e) w \<longleftrightarrow> early_end E e w"
  by (simp add: case_done_def)

lemma resting_closes:
  assumes E: "writes_progress E" and w: "resting fs i w" and i: "i \<le> 100"
    and k: "\<And>v. resting fs i v \<Longrightarrow> yields k v Q" and Q: "\<And>e v. early_end E e v \<Longrightarrow> Q (Inl e) v"
  shows "yields (and_then (sys (dev E) (Close fd)) (\<lambda>ret. if ret \<noteq> 0 then and_then (fb_test_fail_f E (s ret)) k' else k)) w Q"
proof -
  obtain a h where a: "fb_at fs a h w" "after_cases i a h" "\<not> running a" using w by (auto simp: resting_def)
  show ?thesis
  proof (rule fb_close [OF a(1)])
    fix v r assume v: "fb_at fs a h v" and r: "\<exists>h0. r = dev E h0 (Close fd)"
    have "yields (and_then (fb_test_fail_f E (s r)) k') v Q" if "r \<noteq> 0"
    proof (rule fb_test_fail_f_ends [OF E v refl])
      fix u assume u: "fb_at fs (if running a then one_failed a else a) h u"
      have "\<not> closes_ok E" using r that by (auto simp: closes_ok_def)
      then have "early_end E (Exit ((n_failed a + n_errors a) mod 256)) u"
        using u a after_cases_ends(1) [OF a(2) i]
        by (auto simp: early_end_def after_cases_def fb_at_in_use good_answers_others)
      then show "Q (Inl (Exit ((n_failed (if running a then one_failed a else a)
          + n_errors (if running a then one_failed a else a)) mod 256))) u"
        using a(3) Q by simp
    qed
    moreover have "resting fs i v" using v a by (auto simp: resting_def)
    ultimately show "yields (if r \<noteq> 0 then and_then (fb_test_fail_f E (s r)) k' else k) v Q"
      using k by simp
  qed
qed

lemma call_test_open_done:
  assumes E: "writes_progress E" and w: "going fs i w" and i: "i \<le> 99"
    and flag: "flag_name flag = Some name"
  shows "yields (call_test_open E flag) w (case_done E fs i)"
proof -
  have rest: "yields (and_then (sys (dev E) (Close fd)) (\<lambda>ret. if ret \<noteq> 0 then and_then (fb_test_fail_f E (s ret))
      (\<lambda>_. give (n + 1)) else give n)) v (case_done E fs i)" if "resting fs (i + 1) v" for s n fd v
    by (rule resting_closes [OF E that]) (use i in \<open>auto simp: yields_simps case_done_Inr case_done_Inl\<close>)
  have fails: "yields (and_then (fb_case_fail_f E m) (\<lambda>_. k)) v (case_done E fs i)"
    if v: "going fs i v" and k: "\<And>u. resting fs (i + 1) u \<Longrightarrow> yields k u (case_done E fs i)" for v k m
  proof -
    obtain a h where a: "fb_at fs a h v" "running a" "after_cases i a h" using v by (auto simp: going_def in_case_def)
    show ?thesis
      by (rule fb_fail_f [OF E a(1)], rule k, erule restingI, rule after_failed [OF a(3)])
        (simp_all add: a(2))
  qed
  have passes: "yields (and_then (fb_case_pass E (Some m)) (\<lambda>_. k)) v (case_done E fs i)"
    if v: "going fs i v" and k: "\<And>u. resting fs (i + 1) u \<Longrightarrow> yields k u (case_done E fs i)" for v k m
  proof -
    obtain a h where a: "fb_at fs a h v" "running a" "after_cases i a h" using v by (auto simp: going_def in_case_def)
    have "after_cases (i + 1) (one_passed a) h" by (rule after_passed [OF a(3)]) (use a(3) in \<open>simp add: after_cases_def\<close>)
    then show ?thesis
      by (intro fb_pass [OF E a(1)]) (use a(2) in \<open>auto intro!: k elim: restingI\<close>)
  qed
  show ?thesis
    unfolding call_test_open_def flag option.case
    by (rule going_sys [OF w], simp, simp, rename_tac v fd, case_tac "fd = - 1")
      (simp_all add: and_then_assoc and_then_give fails passes rest del: append.simps)
qed

lemma fb_case_then:
  assumes E: "writes_progress E" and w: "resting fs i w"
    and test: "\<And>v. going fs i v \<Longrightarrow> yields test v (case_done E fs i)"
    and k: "\<And>v n. resting fs (i + 1) v \<Longrightarrow> yields (k n) v Q" and Q: "\<And>e v. early_end E e v \<Longrightarrow> Q (Inl e) v"
  shows "yields (and_then (fb_case E name test errs) k) w Q"
proof -
  obtain a h where a: "fb_at fs a h w" "after_cases i a h" using w by (auto simp: resting_def)
  show ?thesis
    unfolding fb_case_def and_then_assoc
  proof (rule fb_start [OF E a(1)])
    fix v assume "fb_at fs (a\<lparr>running := True\<rparr>) h v"
    then have "in_case fs i (a\<lparr>running := True\<rparr>) h v" using a(2) by (simp add: in_case_def after_cases_def)
    then have "going fs i v" by (rule goingI)
    then have "yields test v (case_done E fs i)" by (rule test)
    then show "yields (and_then test (\<lambda>x. and_then (give (errs + x)) k)) v Q"
      unfolding and_then_give yields_and_then
      by (rule yields_mono) (auto simp: case_done_Inr case_done_Inl intro: k Q split: sum.splits)
  qed
qed

text \<open>Ten cases passed, none failed, no error.\<close>

definition all_passed :: "log_world \<Rightarrow> bool" where
  "all_passed w \<longleftrightarrow> (\<exists>fs a. in_use fs a w \<and> n_passed a = 10 \<and> n_failed a = 0 \<and> n_errors a = 0)"

lemma all_passedI:
  "in_use fs a w \<Longrightarrow> n_passed a = 10 \<Longrightarrow> n_failed a = 0 \<Longrightarrow> n_errors a = 0 \<Longrightarrow> all_passed w"
  unfolding all_passed_def by blast

text \<open>How a run may end: always by an exit or a crash; with status 0 only after good answers.\<close>

definition sound_end :: "log_env \<Rightarrow> stop + int \<Rightarrow> log_world \<Rightarrow> bool" where
  "sound_end E r w \<longleftrightarrow> (case r of
      Inr n \<Rightarrow> False
    | Inl e \<Rightarrow> e \<noteq> Overrun \<and> (e = Exit 0 \<longrightarrow> good_answers (clog w) \<and>
        (closes_ok E \<longrightarrow> all_passed w)))"

lemma sound_early: "early_end E e w \<Longrightarrow> sound_end E (Inl e) w"
  by (cases e) (auto simp: early_end_def sound_end_def)

lemma ioctl_test:
  assumes "writes_progress E" "going fs i v" "t = TST_BAD_IOCTL_CMD \<or> t = TST_SCREENINFO \<or> t = TST_CMAP"
  shows "yields (call_test_ioctl E fd t) v (case_done E fs i)"
  using assms unfolding going_def by (auto intro: call_test_ioctl_done)

lemma fb_with_device_sound:
  assumes E: "writes_progress E" and w: "resting fs 4 w"
  shows "yields (fb_with_device E fd errs) w (sound_end E)"
proof -
  have finish: "yields (and_then (test_exit E m) (\<lambda>_. give n)) v (sound_end E)" if v: "resting fs 10 v" for m n v
  proof -
    obtain a h where a: "fb_at fs a h v" "after_cases 10 a h" using v by (auto simp: resting_def)
    show ?thesis
    proof (rule fb_exit [OF E a(1)])
      fix u assume "fb_at fs a h u"
      then show "sound_end E (Inl (Exit ((n_failed a + n_errors a) mod 256))) u"
        using a(2) after_cases_ends(1) [OF a(2)]
        by (auto simp: sound_end_def fb_at_in_use after_cases_def good_answers_others intro: all_passedI)
    qed
  qed
  have info: "yields (and_then (if n \<noteq> 0 then test_info_f E s else give 0) (\<lambda>_. and_then (test_exit E m) (\<lambda>_. give n'))) v (sound_end E)"
    if v: "resting fs 10 v" for n n' :: int and s m v
  proof -
    obtain a h where a: "fb_at fs a h v" "after_cases 10 a h" "\<not> running a" using v by (auto simp: resting_def)
    then have "yields (and_then (test_info_f E s) (\<lambda>_. and_then (test_exit E m) (\<lambda>_. give n'))) v (sound_end E)"
      by (intro fb_info_f [OF E a(1)] finish) (auto simp: resting_def)
    then show ?thesis using finish [OF v] by (simp add: and_then_give)
  qed
  have close: "yields (and_then (sys (dev E) (Close fd)) (\<lambda>ret. and_then (if ret \<noteq> 0 then and_then (fb_test_fail_f E (s ret)) (\<lambda>_. give (n + 1)) else give n)
      k)) v (sound_end E)" if v: "resting fs 10 v" and k: "\<And>u n. resting fs 10 u \<Longrightarrow> yields (k n) u (sound_end E)" for s n k v
    unfolding if_distrib [of "\<lambda>p. and_then p _"] and_then_give and_then_assoc
    by (rule resting_closes [OF E v]) (auto intro: k sound_early)
  note sound = sound_early
  show ?thesis
    unfolding fb_with_device_def fb_device_cases_def and_then_assoc
    apply (rule fb_case_then [OF E w], erule ioctl_test [OF E], simp)
    prefer 2 apply (erule sound_early)
    apply (rule fb_case_then [OF E], simp, erule ioctl_test [OF E], simp)
    prefer 2 apply (erule sound_early)
    apply (rule fb_case_then [OF E], simp, erule ioctl_test [OF E], simp)
    prefer 2 apply (erule sound_early)
    apply (rule fb_case_then [OF E], simp, erule call_test_write_done [OF E], simp, simp)
    prefer 2 apply (erule sound_early)
    apply (rule fb_case_then [OF E], simp, erule call_test_write_done [OF E], simp, simp)
    prefer 2 apply (erule sound_early)
    apply (rule fb_case_then [OF E], simp, erule call_test_write_done [OF E], simp, simp)
    prefer 2 apply (erule sound_early)
    apply (rule close, simp)
    apply (erule info)
    done
qed

section \<open>Programs that make no request to the device\<close>

definition no_request :: "'a log_prog \<Rightarrow> bool" where
  "no_request m \<longleftrightarrow> (\<forall>w r w'. m w = Some (r, w') \<longrightarrow> good_answers (clog w') = good_answers (clog w))"

named_theorems quiet \<open>programs that make no request\<close>

lemma no_request_and_then [quiet]:
  "no_request m \<Longrightarrow> (\<And>x. no_request (f x)) \<Longrightarrow> no_request (and_then m f)"
  unfolding no_request_def and_then_def by (fastforce split: option.splits sum.splits)

lemma no_request_basic [quiet]:
  "no_request (give x)" "no_request (halt e)" "no_request (log_field f)" "no_request (log_set g)"
  "no_request (assert_that c)" "no_request (\<lambda>w. None)"
  by (auto simp: no_request_def give_def halt_def log_field_def log_set_def assert_that_def split: option.splits)

lemma no_request_change [quiet]: "no_request (change (tlog_update g))"
  by (simp add: no_request_def change_def)

lemma no_request_sys [quiet]:
  "no_request (sys D Malloc)" "no_request (sys D Time)" "no_request (sys D Uname)" "no_request (sys D (Stat f))"
  "no_request (sys D (St_mtime f))" "no_request (sys D (Rename f g))" "no_request (sys D Errno)"
  "no_request (sys D (Open f m))" "no_request (sys D (Fchmod fd m))" "no_request (sys D (Write fd s))"
  "no_request (sys D Geteuid)"
  by (simp_all add: no_request_def sys_def good_answer_def)

lemma no_request_if [quiet]: "no_request m \<Longrightarrow> no_request m' \<Longrightarrow> no_request (if c then m else m')"
  by simp

lemma no_request_case [quiet]:
  "no_request m \<Longrightarrow> (\<And>x. no_request (f x)) \<Longrightarrow> no_request (case z of None \<Rightarrow> m | Some x \<Rightarrow> f x)"
  "(\<And>x y. no_request (g x y)) \<Longrightarrow> no_request (case p of (x, y) \<Rightarrow> g x y)"
  by (simp_all split: option.splits prod.splits)

lemma no_request_mywrite [quiet]: "no_request (mywrite E fd s)"
proof -
  have "good_answers (clog (snd y)) = good_answers (clog w)" if "mywrite_loop E fd s cur w = Some y" for cur w y
  proof (rule mywrite_loop.raw_induct [where P = "\<lambda>(E :: log_env) fd s cur w y. good_answers (clog (snd y)) = good_answers (clog w)",
        OF _ that])
    fix loop :: "log_env \<Rightarrow> int \<Rightarrow> string \<Rightarrow> int \<Rightarrow> log_world \<Rightarrow> ((stop + int) \<times> log_world) option" and E :: log_env and fd s cur
      and w :: log_world and y
    let ?c = "Write fd (drop (nat cur) s)"
    let ?w = "w\<lparr>clog := (?c, dev E (clog w) ?c) # clog w\<rparr>"
    assume IH: "\<And>(E :: log_env) fd s cur w y. loop E fd s cur w = Some y \<Longrightarrow> good_answers (clog (snd y)) = good_answers (clog w)"
      and y: "(if cur < int (length s) then let c = Write fd (drop (nat cur) s); r = dev E (clog w) c;
            w' = w\<lparr>clog := (c, r) # clog w\<rparr> in if r < 0 then Some (Inr (- 1), w') else loop E fd s (cur + r) w'
          else Some (Inr (int (length s)), w)) = Some y"
    have "good_answers (clog ?w) = good_answers (clog w)" by (simp add: good_answer_def)
    then show "good_answers (clog (snd y)) = good_answers (clog w)"
      using y IH [of E fd s "cur + dev E (clog w) ?c" ?w y] by (auto simp: Let_def split: if_splits)
  qed
  then show ?thesis by (fastforce simp: no_request_def mywrite_def)
qed

lemma no_request_next_file [quiet]: "no_request next_file" "no_request rewind_files"
  unfolding next_file_def rewind_files_def by (intro quiet)+

lemma no_request_log_file [quiet]: "no_request (log_file E type msg ts f)"
  unfolding log_file_def by (intro quiet)

lemma no_request_log_loop [quiet]: "no_request (log_loop E type msg dlevel ts)"
proof -
  have "good_answers (clog (snd y)) = good_answers (clog w)" if "log_loop E type msg dlevel ts w = Some y" for w y
  proof (rule log_loop.raw_induct [where P = "\<lambda>(E :: log_env) type msg dlevel ts w y. good_answers (clog (snd y)) = good_answers (clog w)",
        OF _ that])
    fix loop :: "log_env \<Rightarrow> msgtype \<Rightarrow> string option \<Rightarrow> int \<Rightarrow> string \<Rightarrow> log_world \<Rightarrow> ((stop + int) \<times> log_world) option"
      and E :: log_env and type msg dlevel ts and w :: log_world and y
    assume IH: "\<And>(E :: log_env) type msg dlevel ts w y. loop E type msg dlevel ts w = Some y
        \<Longrightarrow> good_answers (clog (snd y)) = good_answers (clog w)"
      and y: "and_then next_file (\<lambda>lf. case lf of None \<Rightarrow> give 1 | Some f \<Rightarrow>
        and_then (if dlevel \<le> loglevel f then log_file E type msg ts f else give ())
          (\<lambda>_ w'. loop E type msg dlevel ts w')) w = Some y"
    have "no_request (\<lambda>w. loop E type msg dlevel ts w)"
      unfolding no_request_def using IH by fastforce
    then have "no_request (and_then next_file (\<lambda>lf. case lf of None \<Rightarrow> give 1 | Some f \<Rightarrow>
        and_then (if dlevel \<le> loglevel f then log_file E type msg ts f else give ()) (\<lambda>_ w'. loop E type msg dlevel ts w')))"
      by (intro quiet)
    then show "good_answers (clog (snd y)) = good_answers (clog w)"
      using y unfolding no_request_def by (cases y) simp
  qed
  then show ?thesis by (fastforce simp: no_request_def)
qed

lemma no_request_log_msg [quiet]: "no_request (log_msg E type msg dlevel)"
  unfolding log_msg_def by (intro quiet)

lemma no_request_creation [quiet]:
  "no_request (test_create E)" "no_request (fb_addfilebyname E f dlevel)" "no_request (test_init E name)"
  unfolding test_create_def fb_addfilebyname_def addfilebytype_def insert_file_def file_not_exist_def rename_file_def
    test_init_def test_error_def test_sysinfo_f_def test_sysinfo_def log_buff_def assert_logging_def
  by (intro quiet | (split bool.split, intro conjI impI))+

lemma yields_quiet:
  assumes "yields m w Q" "no_request m"
  shows "yields m w (\<lambda>r w'. Q r w' \<and> good_answers (clog w') = good_answers (clog w))"
  using assms by (fastforce simp: yields_def no_request_def)

section \<open>The whole program\<close>

lemma fb_open_test:
  assumes "writes_progress E" "resting fs i w" "i \<le> 99" "flag_name flag = Some name"
    and "\<And>v n. resting fs (i + 1) v \<Longrightarrow> yields (k n) v Q" and Q: "\<And>e v. early_end E e v \<Longrightarrow> Q (Inl e) v"
  shows "yields (and_then (fb_case E m (call_test_open E flag) errs) k) w Q"
  by (rule fb_case_then [OF assms(1,2)]) (use assms in \<open>auto intro: call_test_open_done\<close>)

lemma fb_error_exit:
  assumes E: "writes_progress E" and w: "resting fs i w" and i: "i \<le> 99"
  shows "yields (and_then (test_error_exit_f E s) k) w (sound_end E)"
proof -
  obtain a h where a: "fb_at fs a h w" "after_cases i a h" using w by (auto simp: resting_def)
  obtain t where t: "logged fs t h w" "log_has fs t w" "logging t \<noteq> 0" "a = tally_of t"
    using a(1) by (rule fb_atE)
  have exit: "yields (and_then (test_exit E m) k) v (sound_end E)"
    if v: "fb_at fs (tally_of (t\<lparr>errors := errors t + 1\<rparr>)) h v" for m v
    by (rule fb_exit [OF E v]) (use a(2) i t(4) in \<open>auto simp: sound_end_def after_cases_def tally_of_def\<close>)
  show ?thesis
    unfolding test_error_exit_f_def test_error_exit_def test_error_def
    by (rule fb_buff [OF a(1)], unfold and_then_assoc, rule yields_asserted [OF t(2,3)],
        rule fb_count [OF E t(1,3), unfolded and_then_assoc])
      (auto intro: exit)
qed

lemma fb_run_sound:
  assumes E: "writes_progress E" and w: "resting fs 0 w"
  shows "yields (fb_run E) w (sound_end E)"
proof -
  have flags: "flag_name O_RDONLY = Some ''O_RDONLY''" "flag_name O_WRONLY = Some ''O_WRONLY''"
    "flag_name O_RDWR = Some ''O_RDWR''" "flag_name O_CREAT = Some ''O_CREAT''"
    by (simp_all add: flag_name_def O_RDONLY_def O_WRONLY_def O_RDWR_def O_CREAT_def)
  have rest: "yields (and_then (sys (dev E) (Open DEV_FILE O_RDWR)) (\<lambda>fd. if fd = - 1
      then and_then (test_error_exit_f E (s fd)) k else fb_with_device E fd errs)) v (sound_end E)"
    if v: "resting fs 4 v" for s k errs v
  proof -
    obtain a h where a: "fb_at fs a h v" "after_cases 4 a h" "\<not> running a" using v by (auto simp: resting_def)
    show ?thesis
    proof (rule fb_sys [OF a(1)], simp)
      fix u fd assume u: "fb_at fs a ((Open DEV_FILE O_RDWR, fd) # h) u"
      have "resting fs 4 u" by (rule restingI [OF u _ a(3)]) (use a(2) in \<open>simp add: after_good\<close>)
      then show "yields (if fd = - 1 then and_then (test_error_exit_f E (s fd)) k else fb_with_device E fd errs) u
          (sound_end E)"
        by (auto intro: fb_with_device_sound [OF E] fb_error_exit [OF E, of fs 4])
    qed
  qed
  show ?thesis
    unfolding fb_run_def fb_open_cases_def and_then_assoc
    apply (rule fb_open_test [OF E w], simp, rule flags)
    prefer 2 apply (erule sound_early)
    apply (rule fb_open_test [OF E], simp, simp, rule flags)
    prefer 2 apply (erule sound_early)
    apply (rule fb_open_test [OF E], simp, simp, rule flags)
    prefer 2 apply (erule sound_early)
    apply (rule fb_open_test [OF E], simp, simp, rule flags)
    prefer 2 apply (erule sound_early)
    apply (rule rest, simp)
    done
qed

lemma fb_opens:
  assumes E: "memory E" "writes_progress E" "\<And>h. 0 \<le> dev E h Uname" and w: "good_answers (clog w)"
    and k: "\<And>fs v. resting fs 0 v \<Longrightarrow> yields k v Q"
  shows "yields (and_then (test_create E) (\<lambda>_. and_then (fb_addfilebyname E (Some f) VERBOSE) (\<lambda>_.
    and_then (test_init E (Some name)) (\<lambda>_. k)))) w Q"
proof (rule yields_seq [OF yields_quiet [OF test_create_ok [OF E(1)]]], rule quiet, elim conjE, intro exI conjI, assumption)
  fix w1 assume w1: "log_has [\<lparr>lfd = STDOUTFD, loglevel = VERBOSE\<rparr>] fresh_log w1"
    and g1: "good_answers (clog w1) = good_answers (clog w)"
  have lg: "logging fresh_log = 0" by (simp add: fresh_log_def)
  show "yields (and_then (fb_addfilebyname E (Some f) VERBOSE) (\<lambda>_. and_then (test_init E (Some name)) (\<lambda>_. k))) w1 Q"
  proof (rule yields_seq [OF yields_quiet [OF fb_addfilebyname_ok [OF E(1) w1 lg]]], rule quiet,
      elim conjE exE, intro exI conjI, assumption)
    fix w2 fs' assume w2: "log_has ([\<lparr>lfd = STDOUTFD, loglevel = VERBOSE\<rparr>] @ fs') fresh_log w2"
      and g2: "good_answers (clog w2) = good_answers (clog w1)"
    have "resting ([\<lparr>lfd = STDOUTFD, loglevel = VERBOSE\<rparr>] @ fs') 0 v"
      if v: "log_has ([\<lparr>lfd = STDOUTFD, loglevel = VERBOSE\<rparr>] @ fs') (fresh_log\<lparr>logging := 1\<rparr>) v"
        and g: "good_answers (clog v) = good_answers (clog w2)" for v
    proof (rule restingI)
      show "fb_at ([\<lparr>lfd = STDOUTFD, loglevel = VERBOSE\<rparr>] @ fs') no_cases (others (clog v)) v"
        using logging_on_in_use [OF v [folded logging_on_def]] by (simp add: fb_at_in_use)
      show "after_cases 0 no_cases (others (clog v))" "\<not> running no_cases"
        using g g1 g2 w by (simp_all add: after_cases_def no_cases_def good_answers_others)
    qed
    then show "yields (and_then (test_init E (Some name)) (\<lambda>_. k)) w2 Q"
      by (intro yields_seq [OF yields_quiet [OF test_init_ok [OF E(2,3) w2]]], intro quiet) (auto intro: k)
  qed
qed

lemma fb_main_sound:
  assumes E: "memory E" "writes_progress E" "\<And>h. 0 \<le> dev E h Uname" and w: "clog w = []" "tlog w = None"
  shows "yields (fb_main E) w (sound_end E)"
proof -
  have "yields (and_then (test_error_exit_f E s) k) (w\<lparr>clog := h\<rparr>) (sound_end E)" for s k h
    by (simp add: test_error_exit_f_def log_buff_def log_field_def and_then_def yields_def w sound_end_def)
  moreover have "yields (and_then (test_create E) (\<lambda>_. and_then (fb_addfilebyname E (Some f) VERBOSE) (\<lambda>_.
      and_then (test_init E (Some name)) (\<lambda>_. fb_run E)))) (w\<lparr>clog := [(Geteuid, u)]\<rparr>) (sound_end E)" for f name u
    by (rule fb_opens [OF E]) (simp add: good_answer_def, erule fb_run_sound [OF E(2)])
  ultimately show ?thesis
    unfolding fb_main_def yields_and_then [of "sys _ _"] yields_sys by (simp add: w del: append.simps)
qed

section \<open>The colour bars\<close>

text \<open>The bytes of the frame buffer that were written, in order, and the reads behind the colour array.\<close>

fun put_cells :: "(sys_call \<times> int) list \<Rightarrow> int list" where
  "put_cells ((Put_cell i v, r) # h) = put_cells h @ [i]"
| "put_cells (c # h) = put_cells h"
| "put_cells [] = []"

definition past_array :: "sys_call \<Rightarrow> bool" where
  "past_array c \<longleftrightarrow> (case c of Field s n \<Rightarrow> s = ''colorarray'' \<and> length colorarray \<le> n | _ \<Rightarrow> False)"

lemma bar_row_exact:
  assumes "data \<noteq> - 1"
  shows "yields (bar_row E data width row n) w (\<lambda>r v. r = Inr ()
    \<and> put_cells (clog v) = put_cells (clog w) @ map (\<lambda>j. int j + int row * width) [0..<nat width]
    \<and> calls past_array (clog v) = calls past_array (clog w) + (if n < 4 then 0 else nat width))"
proof -
  define I where "I j v \<longleftrightarrow> put_cells (clog v) = put_cells (clog w) @ map (\<lambda>j. int j + int row * width) [0..<j]
    \<and> calls past_array (clog v) = calls past_array (clog w) + (if n < 4 then 0 else j)" for j and v :: log_world
  have "yields (bar_row E data width row n) w (\<lambda>r v. r = Inr () \<and> I (0 + nat width) v)"
    unfolding bar_row_def
  proof (rule yields_for_prog [where I = I])
    fix j and v :: log_world assume "I j v"
    then show "yields (and_then (color_byte E n) (\<lambda>c. if data = - 1 then halt Segv
        else and_then (sys (dev E) (Put_cell (int j + int row * width) (c mod 256))) (\<lambda>_. give ()))) v
        (\<lambda>r v. r = Inr () \<and> I (Suc j) v)"
      using assms
      by (auto simp: color_byte_def colorarray_def yields_and_then yields_sys yields_simps I_def past_array_def)
  qed (simp add: I_def)
  then show ?thesis by (simp add: I_def)
qed

text \<open>The colour index before a row.\<close>

definition color_at :: "nat \<Rightarrow> nat" where
  "color_at row = (if row = 0 then 0 else ((row - 1) div 20 + 1) mod 5)"

lemma next_color_at: "next_color row (color_at row) = (row div 20 + 1) mod 5"
proof (cases "row mod 20 = 0")
  case True
  then obtain q where q: "row = 20 * q" by auto
  show ?thesis
  proof (cases q)
    case 0
    then show ?thesis using q by (simp add: next_color_def color_at_def)
  next
    case (Suc k)
    then have "(row - 1) div 20 = k" using q by simp
    then show ?thesis
      using Suc q by (simp add: next_color_def color_at_def mod_Suc)
  qed
next
  case False
  then obtain k where "row = Suc k" by (cases row) auto
  then have "(row - 1) div 20 = row div 20" "row \<noteq> 0"
    using False by (auto simp: div_Suc mod_Suc split: if_splits)
  then show ?thesis using False by (simp add: next_color_def color_at_def)
qed

lemma color_at_Suc: "color_at (Suc row) = (row div 20 + 1) mod 5"
  by (simp add: color_at_def)

definition reads_past :: "nat \<Rightarrow> nat \<Rightarrow> nat" where
  "reads_past row m = length (filter (\<lambda>r. r mod 100 div 20 = 3) [row..<row + m])"

lemma band_of: "\<not> (row div 20 + 1) mod 5 < 4 \<longleftrightarrow> row mod 100 div 20 = (3 :: nat)"
proof -
  have "row mod 100 div 20 = row div 20 mod 5"
    using mod_mult2_eq [of row 20 5] by simp
  moreover have "\<not> Suc x mod 5 < 4 \<longleftrightarrow> x mod 5 = 3" for x :: nat
    using mod_less_divisor [of 5 x] by (simp add: mod_Suc) linarith
  ultimately show ?thesis by simp
qed

lemma bar_rows_exact:
  assumes "data \<noteq> - 1" "0 \<le> width"
  shows "yields (bar_rows E data width row (color_at row) m) w (\<lambda>r v. r = Inr ()
    \<and> put_cells (clog v) = put_cells (clog w) @ map int [nat width * row..<nat width * (row + m)]
    \<and> calls past_array (clog v) = calls past_array (clog w) + nat width * reads_past row m)"
proof (induction m arbitrary: row w)
  case 0
  then show ?case by (simp add: yields_simps reads_past_def)
next
  case (Suc m)
  have row: "map (\<lambda>j. int j + int row * width) [0..<nat width] = map int [nat width * row..<nat width * Suc row]"
    using assms(2) by (intro nth_equalityI) (simp_all add: algebra_simps)
  have split: "[nat width * row..<nat width * (row + Suc m)]
      = [nat width * row..<nat width * Suc row] @ [nat width * Suc row..<nat width * (Suc row + m)]"
    using upt_add_eq_append [of "nat width * row" "nat width * Suc row" "nat width * m"] by (simp add: algebra_simps)
  have rows: "[row..<row + Suc m] = row # [Suc row..<Suc row + m]"
    by (simp add: upt_conv_Cons del: upt_Suc)
  have past: "nat width * reads_past row (Suc m)
      = (if next_color row (color_at row) < 4 then 0 else nat width) + nat width * reads_past (Suc row) m"
    unfolding reads_past_def next_color_at rows using band_of [of row] by auto
  let ?Q = "\<lambda>r v. r = Inr ()
    \<and> put_cells (clog v) = put_cells (clog w) @ map int [nat width * row..<nat width * (row + Suc m)]
    \<and> calls past_array (clog v) = calls past_array (clog w) + nat width * reads_past row (Suc m)"
  show ?case
    unfolding bar_rows.simps yields_and_then
  proof (rule yields_mono [OF bar_row_exact [OF assms(1)]], elim conjE)
    fix r :: "stop + unit" and v :: log_world
    assume r: "r = Inr ()"
      and p: "put_cells (clog v) = put_cells (clog w) @ map (\<lambda>j. int j + int row * width) [0..<nat width]"
      and c: "calls past_array (clog v) = calls past_array (clog w)
        + (if next_color row (color_at row) < 4 then 0 else nat width)"
    have "yields (bar_rows E data width (Suc row) (next_color row (color_at row)) m) v ?Q"
      unfolding next_color_at color_at_Suc [symmetric]
      by (rule yields_mono [OF Suc.IH])
        (simp only: p c row split past next_color_at color_at_Suc map_append append_assoc add.assoc simp_thms)
    then show "case r of Inl e \<Rightarrow> ?Q (Inl e) v
      | Inr x \<Rightarrow> yields (bar_rows E data width (Suc row) (next_color row (color_at row)) m) v ?Q"
      by (simp add: r)
  qed
qed

end
