(* ===== verification/Fb_User_Passes.thy ===== *)
theory Fb_User_Passes
  imports Fb_User_Correct
begin

text \<open>
  The framebuffer test on a device that does what the test demands, and on devices that do not: the
  properties of the program.
\<close>

section \<open>A device that does what is demanded\<close>

definition well_behaved :: "log_env \<Rightarrow> bool" where
  "well_behaved E \<longleftrightarrow> (\<forall>h. dev E h Geteuid = 0 \<and> (\<forall>f m. 0 \<le> dev E h (Open f m)) \<and> (\<forall>fd. dev E h (Close fd) = 0)
     \<and> (\<forall>fd q x. good_answer (Ioctl fd q x) (dev E h (Ioctl fd q x)))
     \<and> dev E h (Field ''red'' 0) = new_r \<and> dev E h (Field ''green'' 0) = new_g \<and> dev E h (Field ''blue'' 0) = new_b
     \<and> (\<forall>fd len. 0 < dev E h (Mmap fd len)))"

lemma well_behaved_answers:
  assumes "well_behaved E"
  shows "dev E h Geteuid = 0" "dev E h (Open f m) \<noteq> - 1" "dev E h (Close fd) = 0"
    "good_answer (Ioctl fd q x) (dev E h (Ioctl fd q x))" "dev E h (Field ''red'' 0) = new_r"
    "dev E h (Field ''green'' 0) = new_g" "dev E h (Field ''blue'' 0) = new_b"
    "dev E h (Mmap fd len) \<noteq> 0 \<and> dev E h (Mmap fd len) \<noteq> - 1"
proof -
  have "0 \<le> dev E h (Open f m)" "0 < dev E h (Mmap fd len)"
    using assms by (simp_all add: well_behaved_def)
  then show "dev E h (Open f m) \<noteq> - 1" "dev E h (Mmap fd len) \<noteq> 0 \<and> dev E h (Mmap fd len) \<noteq> - 1"
    by auto
qed (use assms in \<open>simp_all add: well_behaved_def\<close>)

lemma in_use_fb_at: "in_use fs a w \<longleftrightarrow> fb_at fs a (others (clog w)) w"
  by (simp add: fb_at_in_use)

lemma fb_at_use: "fb_at fs a h w \<Longrightarrow> in_use fs a w"
  by (simp add: fb_at_in_use)

lemma use_sys:
  assumes "in_use fs a w" "\<And>h. P (dev E h c)" "\<And>v r. in_use fs a v \<Longrightarrow> P r \<Longrightarrow> yields (k r) v Q"
  shows "yields (and_then (sys (dev E) c) k) w Q"
  using assms by (auto simp: yields_and_then yields_sys in_use_def)

lemma use_pass:
  assumes "writes_progress E" "in_use fs a w" "running a" "\<And>v. in_use fs (one_passed a) v \<Longrightarrow> yields (k 1) v Q"
  shows "yields (and_then (fb_case_pass E (Some m)) k) w Q"
  by (rule fb_pass [OF assms(1) assms(2) [unfolded in_use_fb_at]]) (use assms(3,4) in \<open>auto dest: fb_at_use\<close>)

lemma use_info:
  assumes "writes_progress E" "in_use fs a w" "\<And>v. in_use fs a v \<Longrightarrow> yields (k 1) v Q"
  shows "yields (and_then (test_info_f E s) k) w Q"
  by (rule fb_info_f [OF assms(1) assms(2) [unfolded in_use_fb_at]]) (use assms(3) in \<open>auto dest: fb_at_use\<close>)

text \<open>A test that lets its running case pass.\<close>

definition passes_case :: "log_env \<Rightarrow> int log_prog \<Rightarrow> bool" where
  "passes_case E m \<longleftrightarrow> (\<forall>fs a w. in_use fs a w \<longrightarrow> running a \<longrightarrow>
     yields m w (\<lambda>r v. r = Inr 0 \<and> in_use fs (one_passed a) v))"

lemma passes_caseI:
  "(\<And>fs a w. in_use fs a w \<Longrightarrow> running a \<Longrightarrow> yields m w (\<lambda>r v. r = Inr 0 \<and> in_use fs (one_passed a) v))
    \<Longrightarrow> passes_case E m"
  by (simp add: passes_case_def)

lemma use_pass_give:
  assumes "writes_progress E" "in_use fs a w" "running a"
  shows "yields (and_then (fb_case_pass E (Some m)) (\<lambda>_. give 0)) w (\<lambda>r v. r = Inr 0 \<and> in_use fs (one_passed a) v)"
  by (rule use_pass [OF assms]) (simp add: yields_simps)

lemma use_ioctl:
  assumes "well_behaved E" "in_use fs a w"
    and "\<And>v r. in_use fs a v \<Longrightarrow> good_answer (Ioctl fd q x) r \<Longrightarrow> yields (k r) v Q"
  shows "yields (and_then (ioctl E fd q x) k) w Q"
  unfolding ioctl_def
  by (rule use_sys [where P = "good_answer (Ioctl fd q x)", OF assms(2)])
    (rule well_behaved_answers(4) [OF assms(1)], rule assms(3))

lemma use_ioctl_0:
  assumes "well_behaved E" "in_use fs a w" "q \<noteq> ''FBIOBADIOCTL''" "x \<noteq> ''NULL''"
    and "\<And>v. in_use fs a v \<Longrightarrow> yields k v Q"
  shows "yields (and_then (ioctl E fd q x) (\<lambda>ret. if ret \<noteq> 0 then m else k)) w Q"
  by (rule use_ioctl [OF assms(1,2)]) (use assms(3-5) in \<open>auto simp: good_answer_def\<close>)

lemma use_check:
  assumes "well_behaved E" "in_use fs a w" "\<And>r. good_answer (Ioctl fd q x) r \<Longrightarrow> \<not> bad r"
    and "\<And>v. in_use fs a v \<Longrightarrow> yields (k errs) v Q"
  shows "yields (and_then (check E (ioctl E fd q x) bad pre post errs) k) w Q"
  unfolding check_def and_then_assoc
  by (rule use_ioctl [OF assms(1,2)]) (use assms(3,4) in \<open>simp add: and_then_give\<close>)

lemma ioctl_tests_pass:
  assumes E: "writes_progress E" "well_behaved E"
  shows "passes_case E (call_test_ioctl E fd TST_BAD_IOCTL_CMD)"
    "passes_case E (call_test_ioctl E fd TST_SCREENINFO)" "passes_case E (call_test_ioctl E fd TST_CMAP)"
proof -
  have "passes_case E (ioctl_bad_command E fd)"
    unfolding ioctl_bad_command_def
    by (rule passes_caseI, rule use_ioctl [OF E(2)], assumption)
      (simp add: good_answer_def and_then_give use_pass_give [OF E(1)])
  moreover have "passes_case E (ioctl_screeninfo E fd)"
    unfolding ioctl_screeninfo_def
    by (rule passes_caseI, (rule use_check [OF E(2)], assumption, simp add: good_answer_def)+)
      (simp add: use_pass_give [OF E(1)])
  moreover have "passes_case E (ioctl_cmap E fd)"
    unfolding ioctl_cmap_def
    by (rule passes_caseI, (rule use_check [OF E(2)], assumption, simp add: good_answer_def)+)
      (simp add: use_pass_give [OF E(1)])
  ultimately show "passes_case E (call_test_ioctl E fd TST_BAD_IOCTL_CMD)"
    "passes_case E (call_test_ioctl E fd TST_SCREENINFO)" "passes_case E (call_test_ioctl E fd TST_CMAP)"
    by (simp_all add: call_test_ioctl_def TST_BAD_IOCTL_CMD_def TST_SCREENINFO_def TST_CMAP_def)
qed

text \<open>The first cell of an array is what the device says; the arrays have their length.\<close>

lemma use_cells:
  assumes w: "in_use fs a w" and c: "\<And>h. dev E h (Field name 0) = c" and n: "0 < n"
    and k: "\<And>v xs. in_use fs a v \<Longrightarrow> length xs = n \<Longrightarrow> xs ! 0 = c \<Longrightarrow> yields (k xs) v Q"
  shows "yields (and_then (read_cells E name n) k) w Q"
proof -
  have "yields (read_cells E name n) w (\<lambda>r v. \<exists>xs. r = Inr xs \<and> in_use fs a v \<and> length xs = n \<and> (0 < n \<longrightarrow> xs ! 0 = c))"
  proof (induction n)
    case 0
    then show ?case using w by (simp add: yields_simps)
  next
    case (Suc n)
    show ?case
      unfolding read_cells.simps
      by (rule yields_seq [OF Suc.IH], elim exE conjE, intro exI conjI, assumption,
          rule use_sys [where P = "\<lambda>r. n = 0 \<longrightarrow> r = c"], assumption)
        (auto simp: nth_append c yields_simps)
  qed
  then show ?thesis by (rule yields_seq) (use n k in auto)
qed

lemma use_log_cells:
  assumes "writes_progress E" "in_use fs a w" "\<And>v. in_use fs a v \<Longrightarrow> yields (k ()) v Q"
  shows "yields (and_then (log_cells E red green blue) k) w Q"
proof (rule yields_seq)
  show "yields (log_cells E red green blue) w (\<lambda>r v. r = Inr () \<and> in_use fs a v)"
    unfolding log_cells_def
    by (rule yields_for_prog [where I = "\<lambda>_. in_use fs a"])
      (auto intro!: use_info [OF assms(1)] simp: yields_simps assms(2))
qed (use assms(3) in auto)

lemma write_cmap_passes:
  assumes E: "writes_progress E" "well_behaved E"
  shows "passes_case E (write_cmap E fd)"
proof -
  have len: "0 < cmap_len" by (simp add: cmap_len_def)
  have readback: "yields (cmap_readback E fd) v (\<lambda>r v. r = Inr 0 \<and> in_use fs (one_passed a) v)"
    if v: "in_use fs a v" "running a" for fs a v
    unfolding cmap_readback_def
    by (rule use_ioctl_0 [OF E(2) v(1)], simp, simp,
        rule use_cells [OF _ well_behaved_answers(5) [OF E(2)] len], assumption,
        rule use_cells [OF _ well_behaved_answers(6) [OF E(2)] len], assumption,
        rule use_cells [OF _ well_behaved_answers(7) [OF E(2)] len], assumption,
        rule use_sys [where P = "\<lambda>_. True"], assumption, simp,
        rule use_info [OF E(1)], assumption, rule use_log_cells [OF E(1)], assumption,
        rule use_info [OF E(1)], assumption)
      (simp add: use_pass_give [OF E(1) _ v(2)])
  show ?thesis
    unfolding write_cmap_def
    by (rule passes_caseI, rule use_ioctl_0 [OF E(2)], assumption, simp, simp,
        rule use_cells [OF _ well_behaved_answers(5) [OF E(2)] len], assumption,
        rule use_cells [OF _ well_behaved_answers(6) [OF E(2)] len], assumption,
        rule use_cells [OF _ well_behaved_answers(7) [OF E(2)] len], assumption,
        rule use_sys [where P = "\<lambda>_. True"], assumption, simp,
        (rule use_info [OF E(1)], assumption)+, rule use_ioctl_0 [OF E(2)], assumption, simp, simp,
        rule use_info [OF E(1)], assumption, rule use_log_cells [OF E(1)], assumption)
      (rule readback)
qed

lemma write_screeninfo_passes:
  assumes E: "writes_progress E" "well_behaved E"
  shows "passes_case E (write_screeninfo E fd)"
  unfolding write_screeninfo_def
  by (rule passes_caseI, (rule use_ioctl_0 [OF E(2)], assumption, simp, simp)+) (rule use_pass_give [OF E(1)])

lemma use_bars:
  assumes "in_use fs a w" "data \<noteq> - 1" "\<And>v. in_use fs a v \<Longrightarrow> yields (k ()) v Q"
  shows "yields (and_then (bar_rows E data width row n m) k) w Q"
  using assms(1)
proof (induction m arbitrary: row n w)
  case 0
  then show ?case using assms(3) by (simp add: and_then_give)
next
  case (Suc m)
  have "yields (bar_row E data width row n') w (\<lambda>r v. r = Inr () \<and> in_use fs a v)" for n'
    unfolding bar_row_def
    by (rule yields_for_prog [where I = "\<lambda>_. in_use fs a"])
      (use assms(2) Suc.prems in \<open>auto simp: color_byte_def and_then_give yields_simps
        intro!: use_sys [where P = "\<lambda>_. True"]\<close>)
  then show ?case
    unfolding bar_rows.simps and_then_assoc by (rule yields_seq) (auto intro: Suc.IH)
qed

lemma write_data_passes:
  assumes E: "writes_progress E" "well_behaved E"
  shows "passes_case E (write_data E fd)"
  unfolding write_data_def
  by (rule passes_caseI, (rule use_ioctl_0 [OF E(2)], assumption, simp, simp)+,
      rule use_sys [where P = "\<lambda>_. True"], assumption, simp, rule use_sys [where P = "\<lambda>_. True"], assumption, simp,
      rule use_sys [where P = "\<lambda>r. r \<noteq> 0 \<and> r \<noteq> - 1"], assumption, rule well_behaved_answers(8) [OF E(2)])
    (auto intro!: use_bars use_pass_give [OF E(1)])

lemma write_tests_pass:
  assumes E: "writes_progress E" "well_behaved E"
  shows "passes_case E (call_test_write E fd TST_CMAP)" "passes_case E (call_test_write E fd TST_SCREENINFO)"
    "passes_case E (call_test_write E fd TST_DATA)"
  using write_cmap_passes [OF E] write_screeninfo_passes [OF E] write_data_passes [OF E]
  by (simp_all add: call_test_write_def TST_CMAP_def TST_SCREENINFO_def TST_DATA_def)

lemma open_tests_pass:
  assumes E: "writes_progress E" "well_behaved E" and flag: "flag_name flag = Some name"
  shows "passes_case E (call_test_open E flag)"
  unfolding call_test_open_def flag option.case
  by (rule passes_caseI, rule use_sys [where P = "\<lambda>r. r \<noteq> - 1"], assumption, rule well_behaved_answers(2) [OF E(2)])
    (auto simp: and_then_give and_then_assoc yields_simps intro!: use_pass [OF E(1)]
      use_sys [where P = "\<lambda>r. r = 0"] well_behaved_answers(3) [OF E(2)] simp del: append.simps)

text \<open>A log in use after \<open>i\<close> passed cases and nothing else.\<close>

definition all_clear :: "lfile list \<Rightarrow> int \<Rightarrow> log_world \<Rightarrow> bool" where
  "all_clear fs i w \<longleftrightarrow> (\<exists>a. in_use fs a w \<and> n_passed a = i \<and> n_failed a = 0 \<and> n_errors a = 0)"

lemma all_clearI: "in_use fs a w \<Longrightarrow> n_passed a = i \<Longrightarrow> n_failed a = 0 \<Longrightarrow> n_errors a = 0 \<Longrightarrow> all_clear fs i w"
  unfolding all_clear_def by blast

lemma resting_all_clear: "resting fs 0 w \<Longrightarrow> all_clear fs 0 w"
  by (auto simp: resting_def after_cases_def intro!: all_clearI fb_at_use)

lemma clear_case:
  assumes E: "writes_progress E" and w: "all_clear fs i w" and m: "passes_case E m"
    and k: "\<And>v. all_clear fs (i + 1) v \<Longrightarrow> yields (k errs) v Q"
  shows "yields (and_then (fb_case E name m errs) k) w Q"
proof -
  obtain a where a: "in_use fs a w" "n_passed a = i" "n_failed a = 0" "n_errors a = 0"
    using w by (auto simp: all_clear_def)
  show ?thesis
    unfolding fb_case_def and_then_assoc
  proof (rule fb_start [OF E a(1) [unfolded in_use_fb_at]])
    fix v assume "fb_at fs (a\<lparr>running := True\<rparr>) (others (clog w)) v"
    then have "yields m v (\<lambda>r v. r = Inr 0 \<and> in_use fs (one_passed (a\<lparr>running := True\<rparr>)) v)"
      using m unfolding passes_case_def by (auto dest: fb_at_use)
    then show "yields (and_then m (\<lambda>x. and_then (give (errs + x)) k)) v Q"
      by (rule yields_seq) (use a in \<open>auto simp: and_then_give intro!: k all_clearI\<close>)
  qed
qed

lemma clear_sys:
  assumes "all_clear fs i w" "\<And>h. P (dev E h c)" "\<And>v r. all_clear fs i v \<Longrightarrow> P r \<Longrightarrow> yields (k r) v Q"
  shows "yields (and_then (sys (dev E) c) k) w Q"
proof -
  obtain a where a: "in_use fs a w" "n_passed a = i" "n_failed a = 0" "n_errors a = 0"
    using assms(1) by (auto simp: all_clear_def)
  show ?thesis
    by (rule use_sys [where P = P, OF a(1) assms(2)]) (use a in \<open>auto intro!: assms(3) all_clearI\<close>)
qed

lemma clear_exit:
  assumes "writes_progress E" "all_clear fs 10 w"
  shows "yields (and_then (test_exit E m) k) w (\<lambda>r v. r = Inl (Exit 0) \<and> all_passed v)"
proof -
  obtain a where a: "in_use fs a w" "n_passed a = 10" "n_failed a = 0" "n_errors a = 0"
    using assms(2) by (auto simp: all_clear_def)
  show ?thesis
    by (rule fb_exit [OF assms(1) a(1) [unfolded in_use_fb_at]]) (use a in \<open>auto intro!: all_passedI dest: fb_at_use\<close>)
qed

lemma fb_flags:
  "flag_name O_RDONLY = Some ''O_RDONLY''" "flag_name O_WRONLY = Some ''O_WRONLY''"
  "flag_name O_RDWR = Some ''O_RDWR''" "flag_name O_CREAT = Some ''O_CREAT''"
  by (simp_all add: flag_name_def O_RDONLY_def O_WRONLY_def O_RDWR_def O_CREAT_def)

lemma fb_run_passes:
  assumes E: "writes_progress E" "well_behaved E" and w: "all_clear fs 0 w"
  shows "yields (fb_run E) w (\<lambda>r v. r = Inl (Exit 0) \<and> all_passed v)"
proof -
  note step = clear_case [OF E(1)]
  have device: "yields (fb_with_device E fd 0) v (\<lambda>r v. r = Inl (Exit 0) \<and> all_passed v)"
    if v: "all_clear fs 4 v" for fd v
    unfolding fb_with_device_def fb_device_cases_def and_then_assoc
    by (rule step [OF v ioctl_tests_pass(1) [OF E]],
        rule step [OF _ ioctl_tests_pass(2) [OF E]], assumption, rule step [OF _ ioctl_tests_pass(3) [OF E]], assumption,
        rule step [OF _ write_tests_pass(1) [OF E]], assumption, rule step [OF _ write_tests_pass(2) [OF E]], assumption,
        rule step [OF _ write_tests_pass(3) [OF E]], assumption,
        rule clear_sys [where P = "\<lambda>r. r = 0"], assumption, rule well_behaved_answers(3) [OF E(2)])
      (simp add: and_then_give clear_exit [OF E(1)])
  show ?thesis
    unfolding fb_run_def fb_open_cases_def and_then_assoc
    by (rule step [OF w open_tests_pass [OF E fb_flags(1)]],
        rule step [OF _ open_tests_pass [OF E fb_flags(2)]], assumption,
        rule step [OF _ open_tests_pass [OF E fb_flags(3)]], assumption,
        rule step [OF _ open_tests_pass [OF E fb_flags(4)]], assumption,
        rule clear_sys [where P = "\<lambda>r. r \<noteq> - 1"], assumption, rule well_behaved_answers(2) [OF E(2)])
      (simp add: device)
qed

text \<open>The start of the program, for a user who is root.\<close>

lemma fb_main_root:
  assumes E: "memory E" "writes_progress E" "\<And>h. 0 \<le> dev E h Uname" and root: "\<And>h. dev E h Geteuid = 0"
    and w: "clog w = []" and k: "\<And>fs v. resting fs 0 v \<Longrightarrow> yields (fb_run E) v Q"
  shows "yields (fb_main E) w Q"
proof -
  have "yields (and_then (test_create E) (\<lambda>_. and_then (fb_addfilebyname E (Some f) VERBOSE) (\<lambda>_.
      and_then (test_init E (Some name)) (\<lambda>_. fb_run E)))) (w\<lparr>clog := [(Geteuid, 0)]\<rparr>) Q" for f name
    by (rule fb_opens [OF E]) (simp add: good_answer_def, erule k)
  then show ?thesis
    unfolding fb_main_def yields_and_then [of "sys _ _"] yields_sys by (simp add: w root)
qed

section \<open>Properties\<close>

text \<open>A system whose frame buffer does what is demanded; one whose descriptors cannot be closed.\<close>

definition fb_device :: "int \<Rightarrow> sys_call device" where
  "fb_device close_result h c = (case c of
      Ioctl fd q x \<Rightarrow> if q = ''FBIOBADIOCTL'' \<or> x = ''NULL'' then - 1 else 0
    | Field s n \<Rightarrow> if s = ''red'' then new_r else if s = ''green'' then new_g else if s = ''blue'' then new_b else 2
    | Mmap fd len \<Rightarrow> 4096
    | Close fd \<Rightarrow> close_result
    | _ \<Rightarrow> plain_device h c)"

definition fb_system :: "int \<Rightarrow> log_env" where
  "fb_system close_result = plain_system\<lparr>dev := fb_device close_result\<rparr>"

lemma fb_system_promises [simp]:
  "memory (fb_system x)" "writes_progress (fb_system x)" "0 \<le> dev (fb_system x) h Uname"
  by (auto simp: memory_def writes_progress_def fb_system_def fb_device_def plain_device_def)

lemma fb_system_well_behaved [simp]: "well_behaved (fb_system 0)"
  by (auto simp: well_behaved_def fb_system_def fb_device_def plain_device_def good_answer_def)

definition start_world :: log_world where
  "start_world = \<lparr>clog = [], tlog = None\<rparr>"

text \<open>
  C6. Soundness of the framebuffer test: on any device, with memory and writes that accept a byte or
  fail, the program comes to an end by an exit, a failed assertion or a fault, never by a return; and if
  it exits with status 0, every request it made to the device was answered as demanded (the unknown
  request refused, those with a NULL argument refused, the others granted), and, unless a \<^verbatim>\<open>close\<close>
  failed, all ten cases have passed.
\<close>

theorem fb_verdict_sound:
  assumes "memory E" "writes_progress E" "\<And>h. 0 \<le> dev E h Uname"
  shows "\<exists>e w'. fb_main E start_world = Some (Inl e, w') \<and> e \<noteq> Overrun
    \<and> (e = Exit 0 \<longrightarrow> good_answers (clog w') \<and> (closes_ok E \<longrightarrow> all_passed w'))"
proof -
  have "yields (fb_main E) start_world (sound_end E)"
    by (rule fb_main_sound [OF assms]) (simp_all add: start_world_def)
  then obtain r w' where r: "fb_main E start_world = Some (r, w')" "sound_end E r w'"
    by (rule yieldsE)
  then show ?thesis by (cases r) (auto simp: sound_end_def)
qed

theorem fb_verdict_sound_witness:
  "\<exists>e w'. fb_main (fb_system 0) start_world = Some (Inl e, w') \<and> e \<noteq> Overrun"
  using fb_verdict_sound [of "fb_system 0"] by auto

text \<open>
  C10. Its converse: on a device that does what is demanded, with the colours stored and a mapping
  granted, the program exits with status 0 and ten passed cases, whatever the sizes of the screen,
  the messages and the pieces in which the log is written.
\<close>

theorem fb_good_device_passes:
  assumes "memory E" "writes_progress E" "\<And>h. 0 \<le> dev E h Uname" "well_behaved E"
  shows "\<exists>w'. fb_main E start_world = Some (Inl (Exit 0), w') \<and> all_passed w'"
proof -
  have "yields (fb_main E) start_world (\<lambda>r v. r = Inl (Exit 0) \<and> all_passed v)"
    by (rule fb_main_root [OF assms(1-3)])
      (auto simp: start_world_def well_behaved_answers [OF assms(4)] intro!: fb_run_passes [OF assms(2,4)]
        resting_all_clear)
  then show ?thesis by (auto simp: yields_def)
qed

theorem fb_good_device_passes_witness:
  "\<exists>w'. fb_main (fb_system 0) start_world = Some (Inl (Exit 0), w') \<and> all_passed w'"
  using fb_good_device_passes [of "fb_system 0"] by simp

text \<open>
  C40. A failing \<^verbatim>\<open>close\<close> ends the test as a success: for root on a system whose opens succeed and whose
  closes fail, the program stops in its first case, after one pass and with none of the other nine run;
  no failure is counted and the status is 0.
\<close>

theorem fb_close_unreported:
  assumes "memory E" "writes_progress E" "\<And>h. 0 \<le> dev E h Uname" "\<And>h. dev E h Geteuid = 0"
    and open_ok: "\<And>h f m. dev E h (Open f m) \<noteq> - 1" and close_fails: "\<And>h fd. dev E h (Close fd) \<noteq> 0"
  shows "\<exists>w'. fb_main E start_world = Some (Inl (Exit 0), w')
    \<and> (\<exists>fs a. in_use fs a w' \<and> n_passed a = 1 \<and> n_failed a = 0 \<and> n_errors a = 0)"
proof -
  have "yields (fb_run E) w (\<lambda>r v. r = Inl (Exit 0) \<and> (\<exists>fs. all_clear fs 1 v))" if rest: "resting fs 0 w" for fs w
  proof -
    obtain a where a: "in_use fs a w" "n_passed a = 0" "n_failed a = 0" "n_errors a = 0"
      using resting_all_clear [OF rest] by (auto simp: all_clear_def)
    let ?a = "one_passed (a\<lparr>running := True\<rparr>)"
    have ends: "yields (and_then (fb_test_fail_f E s) k) v (\<lambda>r v. r = Inl (Exit 0) \<and> (\<exists>fs. all_clear fs 1 v))"
      if v: "in_use fs ?a v" for s k v
      by (rule fb_test_fail_f_ends [OF assms(2) v [unfolded in_use_fb_at] refl])
        (use a in \<open>auto intro!: all_clearI dest!: fb_at_use\<close>)
    show ?thesis
      unfolding fb_run_def fb_open_cases_def fb_case_def call_test_open_def fb_flags option.case and_then_assoc
      by (rule fb_start [OF assms(2) a(1) [unfolded in_use_fb_at]], drule fb_at_use,
          rule use_sys [where P = "\<lambda>r. r \<noteq> - 1"], assumption, rule open_ok,
          simp add: and_then_assoc and_then_give del: append.simps, rule use_pass [OF assms(2)], assumption, simp,
          rule use_sys [where P = "\<lambda>r. r \<noteq> 0"], assumption, rule close_fails)
        (simp add: and_then_assoc ends del: append.simps)
  qed
  then have "yields (fb_main E) start_world (\<lambda>r v. r = Inl (Exit 0) \<and> (\<exists>fs. all_clear fs 1 v))"
    by (intro fb_main_root [OF assms(1-4)]) (auto simp: start_world_def)
  then show ?thesis unfolding yields_def all_clear_def by blast
qed

theorem fb_close_unreported_witness:
  "\<exists>w'. fb_main (fb_system (- 1)) start_world = Some (Inl (Exit 0), w')
    \<and> (\<exists>fs a. in_use fs a w' \<and> n_passed a = 1 \<and> n_failed a = 0 \<and> n_errors a = 0)"
proof -
  have "dev (fb_system (- 1)) h Geteuid = 0" "dev (fb_system (- 1)) h (Open f m) \<noteq> - 1"
    "dev (fb_system (- 1)) h (Close fd) \<noteq> 0" for h f m fd
    by (simp_all add: fb_system_def fb_device_def plain_device_def)
  then show ?thesis by (intro fb_close_unreported) simp_all
qed

text \<open>
  A device that accepts the unknown request is not reported but aborts the program: the case is
  failed and then passed as well, and the second verdict violates the assertion of the library.
\<close>

theorem fb_bad_command_aborts:
  assumes "writes_progress E" "in_use fs a w" "running a" "\<And>h. dev E h (Ioctl fd ''FBIOBADIOCTL'' ''0'') \<noteq> - 1"
  shows "\<exists>w'. call_test_ioctl E fd TST_BAD_IOCTL_CMD w = Some (Inl Abort, w')"
proof -
  have fails: "yields (and_then (fb_case_fail E (Some m)) (\<lambda>_. and_then (fb_case_pass E (Some m')) k)) v (\<lambda>r w'. r = Inl Abort)"
    if "in_use fs a v" for m m' v and k :: "int \<Rightarrow> int log_prog"
    by (rule fb_fail [OF assms(1) that [unfolded in_use_fb_at]], rule fb_pass [OF assms(1)], assumption)
      (simp_all add: assms(3))
  have "yields (ioctl_bad_command E fd) w (\<lambda>r w'. r = Inl Abort)"
    unfolding ioctl_bad_command_def ioctl_def
    by (rule use_sys [where P = "\<lambda>r. r \<noteq> - 1", OF assms(2,4)])
      (simp add: and_then_assoc and_then_give fails del: append.simps)
  then show ?thesis by (auto simp: yields_def call_test_ioctl_def)
qed

definition case_world :: log_world where
  "case_world = \<lparr>clog = [], tlog = Some \<lparr>loglist = Some \<lparr>nodes = [(\<lparr>lfd = 1, loglevel = 3\<rparr>, 0)], head = 1,
     currentp = 0\<rparr>, passes = 0, failures = 0, errors = 0, logging = 1, case_started = 1\<rparr>\<rparr>"

lemma case_world_in_use:
  "in_use [\<lparr>lfd = 1, loglevel = 3\<rparr>] \<lparr>n_passed = 0, n_failed = 0, n_errors = 0, running = True\<rparr> case_world"
proof (rule in_useI)
  let ?t = "\<lparr>loglist = None, passes = 0, failures = 0, errors = 0, logging = 1, case_started = 1\<rparr>"
  show "log_has [\<lparr>lfd = 1, loglevel = 3\<rparr>] ?t case_world"
    by (auto simp: log_has_def log_at_def case_world_def list_ok_def list_elems_def)
qed (simp_all add: tally_of_def)

theorem fb_bad_command_aborts_witness:
  "\<exists>w'. call_test_ioctl plain_system 5 TST_BAD_IOCTL_CMD case_world = Some (Inl Abort, w')"
  by (rule fb_bad_command_aborts [OF plain_system_progress case_world_in_use])
    (simp_all add: plain_system_def plain_device_def)

text \<open>
  C11. The colour bars write each byte of the mapping (twice the height times the width) exactly once, in
  order and nothing else; the colour array of four entries is read at index 4 for every pixel of the
  rows 60 to 79 of each hundred, so on every screen of more than 30 lines.
\<close>

theorem fb_bars_exact:
  assumes "data \<noteq> - 1" "0 \<le> width"
  shows "\<exists>w'. bar_rows E data width 0 0 (nat (2 * height)) w = Some (Inr (), w')
    \<and> put_cells (clog w') = put_cells (clog w) @ map int [0..<nat width * nat (2 * height)]
    \<and> calls past_array (clog w') = calls past_array (clog w)
        + nat width * length (filter (\<lambda>row. row mod 100 div 20 = 3) [0..<nat (2 * height)])"
  using bar_rows_exact [OF assms, of E 0 "nat (2 * height)" w]
  by (auto simp: yields_def color_at_def reads_past_def)

theorem fb_bars_exact_witness:
  "\<exists>w'. bar_rows plain_system 4096 3 0 0 (nat (2 * 31)) start_world = Some (Inr (), w')
    \<and> put_cells (clog w') = map int [0..<186] \<and> calls past_array (clog w') = 6"
proof -
  have "filter (\<lambda>row. row mod 100 div 20 = 3) [0..<nat (2 * 31)] = [60, 61]" by code_simp
  then show ?thesis
    using fb_bars_exact [of 4096 3 plain_system 31 start_world] by (simp add: start_world_def)
qed

end
