(* ===== verification/Pm_Clock.thy ===== *)
theory Pm_Clock
  imports Call_Env
begin

text \<open>
  The clock framework test module for OMAP4 (\<^verbatim>\<open>clock_test.c\<close>). The clock framework is a parameter: the
  answers of its calls, and of each clock its name, whether its rate can be set and whether it is a
  DPLL. A pointer that is an error is a negative number. Rates are \<^verbatim>\<open>unsigned long\<close> of 32 bits.
\<close>

datatype clk_call = Clk_get "string option" string | Clk_enable int | Clk_disable int | Clk_put int
  | Clk_get_rate int | Clk_round_rate int u32 | Clk_set_rate int u32 | Cpu_is_omap44xx

record clk_env =
  clk_dev :: "clk_call device"
  clk_name :: "int \<Rightarrow> string"
  has_set_rate :: "int \<Rightarrow> bool"
  has_dpll_data :: "int \<Rightarrow> bool"

type_synonym clk_world = "clk_call dev_world"

text \<open>The table of the clocks: device and connection names.\<close>

definition clks :: "(string option \<times> string) list" where
  "clks = [
    (None, ''extalt_clkin_ck''), (None, ''pad_clks_ck''), (None, ''pad_slimbus_core_clks_ck''),
    (None, ''secure_32k_clk_src_ck''), (None, ''slimbus_clk''), (None, ''sys_32k_ck''),
    (None, ''virt_12000000_ck''), (None, ''virt_13000000_ck''), (None, ''virt_16800000_ck''),
    (None, ''virt_19200000_ck''), (None, ''virt_26000000_ck''), (None, ''virt_27000000_ck''),
    (None, ''virt_38400000_ck''), (None, ''sys_clkin_ck''), (None, ''tie_low_clock_ck''),
    (None, ''utmi_phy_clkout_ck''), (None, ''xclk60mhsp1_ck''), (None, ''xclk60mhsp2_ck''),
    (None, ''xclk60motg_ck''), (None, ''abe_dpll_bypass_clk_mux_ck''), (None, ''abe_dpll_refclk_mux_ck''),
    (None, ''dpll_abe_ck''), (None, ''dpll_abe_m2x2_ck''), (None, ''abe_24m_fclk''),
    (None, ''abe_clk''), (None, ''aess_fclk''), (None, ''dpll_abe_m3_ck''),
    (None, ''core_hsd_byp_clk_mux_ck''), (None, ''dpll_core_ck''), (None, ''dpll_core_m6_ck''),
    (None, ''dbgclk_mux_ck''), (None, ''ddrphy_ck''), (None, ''dpll_core_m5_ck''),
    (None, ''div_core_ck''), (None, ''div_iva_hs_clk''), (None, ''div_mpu_hs_clk''),
    (None, ''dpll_core_m4_ck''), (None, ''dll_clk_div_ck''), (None, ''dpll_abe_m2_ck''),
    (None, ''dpll_core_m3_ck''), (None, ''dpll_core_m7_ck''), (None, ''iva_hsd_byp_clk_mux_ck''),
    (None, ''dpll_iva_ck''), (None, ''dpll_iva_m4_ck''), (None, ''dpll_iva_m5_ck''),
    (None, ''dpll_mpu_ck''), (None, ''dpll_mpu_m2_ck''), (None, ''per_hs_clk_div_ck''),
    (None, ''per_hsd_byp_clk_mux_ck''), (None, ''dpll_per_ck''), (None, ''dpll_per_m2_ck''),
    (None, ''dpll_per_m2x2_ck''), (None, ''dpll_per_m3x2_ck''), (None, ''dpll_per_m4x2_ck''),
    (None, ''dpll_per_m5x2_ck''), (None, ''dpll_per_m6x2_ck''), (None, ''dpll_per_m7x2_ck''),
    (None, ''usb_hs_clk_div_ck''), (None, ''dpll_usb_clkdcoldo_ck''), (None, ''dpll_usb_m2_ck''),
    (None, ''ducati_clk_mux_ck''), (None, ''func_12m_fclk''), (None, ''func_24m_clk''),
    (None, ''func_24mc_fclk''), (None, ''func_48m_fclk''), (None, ''func_48mc_fclk''),
    (None, ''func_64m_fclk''), (None, ''func_96m_fclk''), (None, ''hsmmc6_fclk''),
    (None, ''init_60m_fclk''), (None, ''l3_div_ck''), (None, ''l4_div_ck''),
    (None, ''lp_clk_div_ck''), (None, ''l4_wkup_clk_mux_ck''), (None, ''per_abe_nc_fclk''),
    (None, ''mcasp2_fclk''), (None, ''mcasp3_fclk''), (None, ''ocp_abe_iclk''),
    (None, ''per_abe_24m_fclk''), (None, ''pmd_stm_clock_mux_ck''), (None, ''pmd_trace_clk_mux_ck''),
    (None, ''syc_clk_div_ck''), (None, ''aes1_fck''), (None, ''aes2_fck''),
    (None, ''aess_fck''), (None, ''des3des_fck''), (None, ''dmic_sync_mux_ck''),
    (None, ''dmic_fck''), (Some ''omapdss_dss'', ''fck''), (None, ''efuse_ctrl_cust_fck''),
    (None, ''fdif_fck''), (None, ''fpka_fck''), (None, ''gpio1_ick''),
    (None, ''gpio2_ick''), (None, ''gpio3_ick''), (None, ''gpio4_ick''),
    (None, ''gpio5_ick''), (None, ''gpio6_ick''), (None, ''gpmc_ick''),
    (Some ''omap2_hdq.0'', ''fck''), (None, ''hsi_fck''), (Some ''omap_i2c.1'', ''fck''),
    (Some ''omap_i2c.2'', ''fck''), (Some ''omap_i2c.3'', ''fck''), (Some ''omap_i2c.4'', ''fck''),
    (None, ''iss_fck''), (None, ''iva_fck''), (None, ''kbd_fck''),
    (None, ''l3_instr_ick''), (None, ''l3_main_3_ick''), (None, ''mcasp_sync_mux_ck''),
    (None, ''mcasp_fck''), (None, ''mcbsp1_sync_mux_ck''), (None, ''mcbsp2_sync_mux_ck''),
    (None, ''mcbsp3_sync_mux_ck''), (None, ''mcbsp4_sync_mux_ck''), (None, ''mcpdm_fck''),
    (Some ''omap2_mcspi.1'', ''fck''), (Some ''omap2_mcspi.2'', ''fck''), (Some ''omap2_mcspi.3'', ''fck''),
    (Some ''omap2_mcspi.4'', ''fck''), (Some ''omap_hsmmc.2'', ''fck''), (Some ''omap_hsmmc.3'', ''fck''),
    (Some ''omap_hsmmc.4'', ''fck''), (None, ''ocp_wp_noc_ick''), (Some ''omap_rng'', ''ick''),
    (None, ''sha2md5_fck''), (None, ''sl2if_ick''), (None, ''slimbus1_fck''),
    (None, ''slimbus2_fck''), (None, ''smartreflex_core_fck''), (None, ''smartreflex_iva_fck''),
    (None, ''smartreflex_mpu_fck''), (None, ''uart1_fck''), (None, ''uart2_fck''),
    (None, ''uart4_fck''), (None, ''usb_host_fs_fck''), (None, ''usb_host_hs_fck''),
    (Some ''musb-omap2430'', ''ick''), (None, ''usb_tll_hs_ick''), (None, ''usim_ck''),
    (Some ''omap_wdt'', ''fck''), (None, ''wd_timer3_fck''), (None, ''otg_60m_gfclk''),
    (None, ''stm_clk_div_ck''), (None, ''trace_clk_div_ck''), (None, ''usim_fclk''),
    (None, ''utmi_p1_gfclk''), (None, ''utmi_p2_gfclk'')]"

definition EINVAL :: int where "EINVAL = 22"

definition is_err :: "int \<Rightarrow> bool" where
  "is_err p \<longleftrightarrow> p < 0"

text \<open>
  \<^verbatim>\<open>for (i = 0; i < ARRAY_SIZE(clks); i++)\<close> with the variable \<^verbatim>\<open>ret\<close> of the tests.
\<close>

fun each_clk :: "(string option \<times> string \<Rightarrow> int \<Rightarrow> clk_world \<Rightarrow> int \<times> clk_world)
    \<Rightarrow> (string option \<times> string) list \<Rightarrow> int \<Rightarrow> clk_world \<Rightarrow> int \<times> clk_world" where
  "each_clk body [] ret w = (ret, w)"
| "each_clk body (c # cs) ret w = (case body c ret w of (ret', w') \<Rightarrow> each_clk body cs ret' w')"

definition opt1_clk :: "clk_env \<Rightarrow> string option \<times> string \<Rightarrow> int \<Rightarrow> clk_world \<Rightarrow> int \<times> clk_world" where
  "opt1_clk E c ret w =
     (case ask (clk_dev E) (Clk_get (fst c) (snd c)) w of (tclk, w) \<Rightarrow>
      if is_err tclk then (1, w)
      else
        (case ask (clk_dev E) (Clk_enable tclk) w of (ret, w) \<Rightarrow>
          (ret, tell (clk_dev E) (Clk_put tclk)
             (if ret \<noteq> 0 then w else tell (clk_dev E) (Clk_disable tclk) w))))"

definition clk_test_opt1 :: "clk_env \<Rightarrow> clk_world \<Rightarrow> int \<times> clk_world" where
  "clk_test_opt1 E w = each_clk (opt1_clk E) clks 0 w"

text \<open>The clocks whose rate the second test leaves alone.\<close>

definition skipped_names :: "string list" where
  "skipped_names = [''dpll_core_m2_ck'', ''dpll_core_m3_ck'', ''dpll_core_m4_ck'', ''dpll_core_m5_ck'',
     ''dpll_core_m6_ck'', ''dpll_core_m7_ck'', ''func_48m_fclk'', ''func_64m_fclk'', ''func_96m_fclk'',
     ''dpll_per_m2x2_ck'', ''dpll_per_m2_ck'', ''dpll_per_ck'', ''per_abe_nc_fclk'']"

text \<open>Round a rate, and set and read it if there is a valid one; \<^verbatim>\<open>~0\<close> is the largest rate.\<close>

definition try_rate :: "clk_env \<Rightarrow> int \<Rightarrow> u32 \<Rightarrow> clk_world \<Rightarrow> clk_world" where
  "try_rate E tclk rate w =
     (case ask (clk_dev E) (Clk_round_rate tclk rate) w of (v, w) \<Rightarrow>
      let valid_rate = word_of_int v :: u32 in
      if valid_rate \<noteq> - 1
      then tell (clk_dev E) (Clk_get_rate tclk) (tell (clk_dev E) (Clk_set_rate tclk valid_rate) w)
      else w)"

text \<open>The end of a round: the clock is given back only when \<^verbatim>\<open>ret\<close> is 0.\<close>

definition give_back :: "clk_env \<Rightarrow> int \<Rightarrow> int \<Rightarrow> clk_world \<Rightarrow> clk_world" where
  "give_back E tclk ret w =
     (if ret = 0 then tell (clk_dev E) (Clk_put tclk) (tell (clk_dev E) (Clk_disable tclk) w) else w)"

definition opt2_rates :: "clk_env \<Rightarrow> int \<Rightarrow> u32 \<Rightarrow> clk_world \<Rightarrow> clk_world" where
  "opt2_rates E tclk orig_rate w =
     (if clk_name E tclk \<notin> set skipped_names \<and> has_set_rate E tclk
      then try_rate E tclk (orig_rate div 2)
             (if has_dpll_data E tclk then w else try_rate E tclk (orig_rate * 2) w)
      else w)"

definition opt2_clk :: "clk_env \<Rightarrow> string option \<times> string \<Rightarrow> int \<Rightarrow> clk_world \<Rightarrow> int \<times> clk_world" where
  "opt2_clk E c ret w =
     (case ask (clk_dev E) (Clk_get (fst c) (snd c)) w of (tclk, w) \<Rightarrow>
      if is_err tclk then (1, w)
      else
        (case ask (clk_dev E) (Clk_enable tclk) w of (ret, w) \<Rightarrow>
         case ask (clk_dev E) (Clk_get_rate tclk) w of (rate, w) \<Rightarrow>
           (ret, give_back E tclk ret (opt2_rates E tclk (word_of_int rate) w))))"

definition clk_test_opt2 :: "clk_env \<Rightarrow> clk_world \<Rightarrow> int \<times> clk_world" where
  "clk_test_opt2 E w = each_clk (opt2_clk E) clks 0 w"

text \<open>Round a rate, set it whatever it is and keep the result of setting it.\<close>

definition force_rate :: "clk_env \<Rightarrow> int \<Rightarrow> u32 \<Rightarrow> clk_world \<Rightarrow> int \<times> clk_world" where
  "force_rate E tclk rate w =
     (case ask (clk_dev E) (Clk_round_rate tclk rate) w of (v, w) \<Rightarrow>
      case ask (clk_dev E) (Clk_set_rate tclk (word_of_int v)) w of (ret, w) \<Rightarrow>
        (ret, tell (clk_dev E) (Clk_get_rate tclk) w))"

definition opt3_dpll :: "clk_env \<Rightarrow> int \<Rightarrow> int \<Rightarrow> clk_world \<Rightarrow> int \<times> clk_world" where
  "opt3_dpll E tclk ret w =
     (if has_dpll_data E tclk \<and> clk_name E tclk \<noteq> ''dpll_core_ck'' \<and> clk_name E tclk \<noteq> ''dpll_per_ck''
      then force_rate E tclk 100000000 (snd (force_rate E tclk 200000000 (snd (force_rate E tclk 300000000 w))))
      else (ret, w))"

definition opt3_clk :: "clk_env \<Rightarrow> string option \<times> string \<Rightarrow> int \<Rightarrow> clk_world \<Rightarrow> int \<times> clk_world" where
  "opt3_clk E c ret w =
     (case ask (clk_dev E) (Clk_get (fst c) (snd c)) w of (tclk, w) \<Rightarrow>
      if is_err tclk then (1, w)
      else
        (case ask (clk_dev E) (Clk_enable tclk) w of (ret, w) \<Rightarrow>
         case opt3_dpll E tclk ret w of (ret, w) \<Rightarrow> (ret, give_back E tclk ret w)))"

definition clk_test_opt3 :: "clk_env \<Rightarrow> clk_world \<Rightarrow> int \<times> clk_world" where
  "clk_test_opt3 E w = each_clk (opt3_clk E) clks 0 w"

text \<open>The negative test leaves its loop at the first rate of 0 that is not refused as invalid.\<close>

fun opt4_loop :: "clk_env \<Rightarrow> (string option \<times> string) list \<Rightarrow> clk_world \<Rightarrow> int \<times> clk_world" where
  "opt4_loop E [] w = (0, w)"
| "opt4_loop E (c # cs) w =
     (case ask (clk_dev E) (Clk_get (fst c) (snd c)) w of (tclk, w) \<Rightarrow>
      if is_err tclk then opt4_loop E cs w
      else if has_set_rate E tclk
      then
        (case ask (clk_dev E) (Clk_set_rate tclk 0) w of (ret, w) \<Rightarrow>
          if ret \<noteq> - EINVAL then (- 1, w) else opt4_loop E cs w)
      else opt4_loop E cs w)"

definition clk_test_opt4 :: "clk_env \<Rightarrow> clk_world \<Rightarrow> int \<times> clk_world" where
  "clk_test_opt4 E w =
     (case ask (clk_dev E) (Clk_get None ''bogus_clk'') w of (tclk, w) \<Rightarrow>
      if \<not> is_err tclk then (- 1, w) else opt4_loop E clks w)"

text \<open>
  \<^verbatim>\<open>clock_test_init\<close>: the verdict it prints, if any, \<open>True\<close> for PASSED. It returns 0 in every case.
\<close>

definition clock_test_init :: "clk_env \<Rightarrow> u32 \<Rightarrow> clk_world \<Rightarrow> bool option \<times> clk_world" where
  "clock_test_init E test_id w =
     (case ask (clk_dev E) Cpu_is_omap44xx w of (omap4, w) \<Rightarrow>
      if omap4 = 0 then (None, w)
      else
        let run = (\<lambda>test. case test w of (r, w) \<Rightarrow> (Some (r = (0 :: int)), w)) in
        if test_id = 1 then run (clk_test_opt1 E)
        else if test_id = 2 then run (clk_test_opt2 E)
        else if test_id = 3 then run (clk_test_opt3 E)
        else if test_id = 4 then run (clk_test_opt4 E)
        else (None, w))"

section \<open>Loops over the table\<close>

lemma each_clk_append:
  "each_clk body (xs @ ys) ret w = (case each_clk body xs ret w of (ret', w') \<Rightarrow> each_clk body ys ret' w')"
  by (induction xs arbitrary: ret w) (simp_all split: prod.splits)

lemma each_clk_keeps:
  assumes "\<And>c ret w. P w \<Longrightarrow> P (snd (body c ret w))" "P w"
  shows "P (snd (each_clk body cs ret w))"
  using assms(2)
proof (induction cs arbitrary: ret w)
  case (Cons c cs)
  then show ?case
    using assms(1) [OF Cons.prems, of c ret] by (cases "body c ret w") simp
qed simp

lemma clks_last: "clks = butlast clks @ [(None, ''utmi_p2_gfclk'')]"
  by (simp add: clks_def)

lemma ask_eq: "ask D c w = (D (clog w) c, w\<lparr>clog := (c, D (clog w) c) # clog w\<rparr>)"
  by (simp add: ask_def)

lemma opt1_clk_cases:
  obtains (refused) t where "is_err t" "opt1_clk E c ret w = (1, w\<lparr>clog := (Clk_get (fst c) (snd c), t) # clog w\<rparr>)"
  | (failed) t r a where "\<not> is_err t" "r \<noteq> 0" "opt1_clk E c ret w
      = (r, w\<lparr>clog := (Clk_put t, a) # (Clk_enable t, r) # (Clk_get (fst c) (snd c), t) # clog w\<rparr>)"
  | (enabled) t a b where "\<not> is_err t" "opt1_clk E c ret w = (0, w\<lparr>clog := (Clk_put t, a) # (Clk_disable t, b)
      # (Clk_enable t, 0) # (Clk_get (fst c) (snd c), t) # clog w\<rparr>)"
proof -
  define t where "t = clk_dev E (clog w) (Clk_get (fst c) (snd c))"
  define h1 where "h1 = (Clk_get (fst c) (snd c), t) # clog w"
  define r where "r = clk_dev E h1 (Clk_enable t)"
  define h2 where "h2 = (Clk_enable t, r) # h1"
  define b where "b = clk_dev E h2 (Clk_disable t)"
  have eq: "opt1_clk E c ret w = (if is_err t then (1, w\<lparr>clog := h1\<rparr>)
      else if r \<noteq> 0 then (r, w\<lparr>clog := (Clk_put t, clk_dev E h2 (Clk_put t)) # h2\<rparr>)
      else (0, w\<lparr>clog := (Clk_put t, clk_dev E ((Clk_disable t, b) # h2) (Clk_put t)) # (Clk_disable t, b) # h2\<rparr>))"
    by (simp add: opt1_clk_def ask_eq tell_def t_def h1_def r_def h2_def b_def)
  show thesis
  proof (cases "is_err t")
    case True
    then show thesis using refused [of t] eq by (simp add: h1_def)
  next
    case False
    then show thesis
      using eq failed [of t r] enabled [of t] by (cases "r = 0") (simp_all add: h1_def h2_def)
  qed
qed

section \<open>What is given back\<close>

text \<open>How often a clock was got, and how often it was got and could not be enabled.\<close>

definition gets :: "int \<Rightarrow> (clk_call \<times> int) list \<Rightarrow> nat" where
  "gets t h = length (filter (\<lambda>(c, r). (case c of Clk_get d n \<Rightarrow> True | _ \<Rightarrow> False) \<and> r = t) h)"

lemma gets_Cons [simp]:
  "gets t ((c, r) # h) = (if (case c of Clk_get d n \<Rightarrow> True | _ \<Rightarrow> False) \<and> r = t then Suc (gets t h) else gets t h)"
  by (simp add: gets_def)

definition enables :: "int \<Rightarrow> (clk_call \<times> int) list \<Rightarrow> nat" where
  "enables t h = calls (\<lambda>c. c = Clk_enable t) h"

definition enabled :: "int \<Rightarrow> (clk_call \<times> int) list \<Rightarrow> nat" where
  "enabled t h = successes (\<lambda>c. c = Clk_enable t) h"

definition disables :: "int \<Rightarrow> (clk_call \<times> int) list \<Rightarrow> nat" where
  "disables t h = calls (\<lambda>c. c = Clk_disable t) h"

definition puts :: "int \<Rightarrow> (clk_call \<times> int) list \<Rightarrow> nat" where
  "puts t h = calls (\<lambda>c. c = Clk_put t) h"

lemmas clk_counts = enables_def enabled_def disables_def puts_def

lemma opt1_balanced:
  assumes "0 \<le> t"
  shows "disables t (clog (snd (clk_test_opt1 E w))) + enabled t (clog w)
      = enabled t (clog (snd (clk_test_opt1 E w))) + disables t (clog w)
    \<and> puts t (clog (snd (clk_test_opt1 E w))) + gets t (clog w)
      = gets t (clog (snd (clk_test_opt1 E w))) + puts t (clog w)"
  unfolding clk_test_opt1_def
proof (rule each_clk_keeps [where P = "\<lambda>v. disables t (clog v) + enabled t (clog w) = enabled t (clog v) + disables t (clog w)
    \<and> puts t (clog v) + gets t (clog w) = gets t (clog v) + puts t (clog w)"])
  fix c ret and v :: clk_world
  assume P: "disables t (clog v) + enabled t (clog w) = enabled t (clog v) + disables t (clog w)
    \<and> puts t (clog v) + gets t (clog w) = gets t (clog v) + puts t (clog w)"
  show "disables t (clog (snd (opt1_clk E c ret v))) + enabled t (clog w)
      = enabled t (clog (snd (opt1_clk E c ret v))) + disables t (clog w)
    \<and> puts t (clog (snd (opt1_clk E c ret v))) + gets t (clog w)
      = gets t (clog (snd (opt1_clk E c ret v))) + puts t (clog w)"
    using P assms
    by (cases rule: opt1_clk_cases [of E c ret v]) (auto simp: clk_counts is_err_def)
qed simp

text \<open>The second test: trying rates enables, disables, gets and puts nothing.\<close>

lemma try_rate_counts [simp]:
  "enables t (clog (try_rate E c rate w)) = enables t (clog w)"
  "enabled t (clog (try_rate E c rate w)) = enabled t (clog w)"
  "disables t (clog (try_rate E c rate w)) = disables t (clog w)"
  "puts t (clog (try_rate E c rate w)) = puts t (clog w)"
  "gets t (clog (try_rate E c rate w)) = gets t (clog w)"
  by (simp_all add: try_rate_def ask_eq tell_def Let_def clk_counts)

lemma opt2_rates_counts [simp]:
  "enables t (clog (opt2_rates E c rate w)) = enables t (clog w)"
  "enabled t (clog (opt2_rates E c rate w)) = enabled t (clog w)"
  "disables t (clog (opt2_rates E c rate w)) = disables t (clog w)"
  "puts t (clog (opt2_rates E c rate w)) = puts t (clog w)"
  "gets t (clog (opt2_rates E c rate w)) = gets t (clog w)"
  by (simp_all add: opt2_rates_def)

lemma give_back_counts [simp]:
  "enables t (clog (give_back E c ret w)) = enables t (clog w)"
  "enabled t (clog (give_back E c ret w)) = enabled t (clog w)"
  "disables t (clog (give_back E c ret w)) = disables t (clog w) + (if ret = 0 \<and> c = t then 1 else 0)"
  "puts t (clog (give_back E c ret w)) = puts t (clog w) + (if ret = 0 \<and> c = t then 1 else 0)"
  "gets t (clog (give_back E c ret w)) = gets t (clog w)"
  by (simp_all add: give_back_def clk_counts)

lemma opt2_balanced:
  assumes "0 \<le> t" "clog w = []"
  shows "disables t (clog (snd (clk_test_opt2 E w))) = enabled t (clog (snd (clk_test_opt2 E w)))
    \<and> puts t (clog (snd (clk_test_opt2 E w))) = enabled t (clog (snd (clk_test_opt2 E w)))
    \<and> gets t (clog (snd (clk_test_opt2 E w))) = enables t (clog (snd (clk_test_opt2 E w)))"
  unfolding clk_test_opt2_def
proof (rule each_clk_keeps [where P = "\<lambda>v. disables t (clog v) = enabled t (clog v) \<and> puts t (clog v) = enabled t (clog v)
    \<and> gets t (clog v) = enables t (clog v)"])
  fix c ret and v :: clk_world
  assume "disables t (clog v) = enabled t (clog v) \<and> puts t (clog v) = enabled t (clog v) \<and> gets t (clog v) = enables t (clog v)"
  moreover have "enabled t ((Clk_get_rate x, y) # h) = enabled t h" "enables t ((Clk_get_rate x, y) # h) = enables t h"
    "disables t ((Clk_get_rate x, y) # h) = disables t h" "puts t ((Clk_get_rate x, y) # h) = puts t h"
    "enabled t ((Clk_get d n, y) # h) = enabled t h" "enables t ((Clk_get d n, y) # h) = enables t h"
    "disables t ((Clk_get d n, y) # h) = disables t h" "puts t ((Clk_get d n, y) # h) = puts t h"
    "enabled t ((Clk_enable x, y) # h) = (if x = t \<and> y = 0 then Suc (enabled t h) else enabled t h)"
    "enables t ((Clk_enable x, y) # h) = (if x = t then Suc (enables t h) else enables t h)"
    "disables t ((Clk_enable x, y) # h) = disables t h" "puts t ((Clk_enable x, y) # h) = puts t h" for x y h d n
    by (simp_all add: clk_counts)
  ultimately show "disables t (clog (snd (opt2_clk E c ret v))) = enabled t (clog (snd (opt2_clk E c ret v)))
    \<and> puts t (clog (snd (opt2_clk E c ret v))) = enabled t (clog (snd (opt2_clk E c ret v)))
    \<and> gets t (clog (snd (opt2_clk E c ret v))) = enables t (clog (snd (opt2_clk E c ret v)))"
    using assms(1) by (auto simp: opt2_clk_def ask_eq is_err_def Let_def)
qed (simp add: assms(2) clk_counts gets_def)

section \<open>Properties\<close>

text \<open>
  C13. The verdict of the first clock test is that of the last clock: the module prints PASSED exactly when
  the last four calls it made got, enabled, disabled and put \<^verbatim>\<open>utmi_p2_gfclk\<close>, the last of the 149 clocks
  of the table. What the other 148 calls of \<^verbatim>\<open>clk_get\<close> and \<^verbatim>\<open>clk_enable\<close> answered has no influence.
\<close>

theorem clock_opt1_last_only:
  "fst (clock_test_init E 1 w) = Some True \<longleftrightarrow>
    (\<exists>t a b h. clog (snd (clock_test_init E 1 w))
       = (Clk_put t, a) # (Clk_disable t, b) # (Clk_enable t, 0) # (Clk_get None ''utmi_p2_gfclk'', t) # h \<and> 0 \<le> t)"
proof -
  let ?w = "snd (ask (clk_dev E) Cpu_is_omap44xx w)"
  have init: "clock_test_init E 1 w = (if fst (ask (clk_dev E) Cpu_is_omap44xx w) = 0 then (None, ?w)
      else (Some (fst (clk_test_opt1 E ?w) = 0), snd (clk_test_opt1 E ?w)))"
    by (simp add: clock_test_init_def Let_def ask_eq split: prod.split)
  obtain r v where v: "each_clk (opt1_clk E) (butlast clks) 0 ?w = (r, v)"
    by fastforce
  have "each_clk (opt1_clk E) clks 0 ?w = opt1_clk E (None, ''utmi_p2_gfclk'') r v"
    by (subst clks_last) (simp add: each_clk_append v split: prod.split)
  then have opt1: "clk_test_opt1 E ?w = opt1_clk E (None, ''utmi_p2_gfclk'') r v"
    by (simp add: clk_test_opt1_def)
  show ?thesis
    by (cases rule: opt1_clk_cases [of E "(None, ''utmi_p2_gfclk'')" r v]; cases "fst (ask (clk_dev E) Cpu_is_omap44xx w) = 0")
      (auto simp: init opt1 is_err_def)
qed

text \<open>
  C14. Balance of the clock tests, for every clock and every behaviour of the clock framework: the first test
  disables each clock exactly as often as it was enabled and puts it as often as it was got; the second
  disables and puts it exactly as often as it was enabled, so a clock that was got and not enabled is
  never put.
\<close>

theorem clock_tests_balanced:
  assumes "0 \<le> t" "clog w = []"
    and "h1 = clog (snd (clk_test_opt1 E w))" "h2 = clog (snd (clk_test_opt2 E w))"
  shows "disables t h1 = enabled t h1 \<and> puts t h1 = gets t h1
    \<and> disables t h2 = enabled t h2 \<and> gets t h2 = puts t h2 + (enables t h2 - enabled t h2)"
proof -
  have "enabled t h2 \<le> enables t h2"
    unfolding enabled_def enables_def calls_def successes_def by (induction h2) auto
  then show ?thesis
    using opt1_balanced [OF assms(1), of E w] opt2_balanced [OF assms(1,2), of E]
    by (simp add: assms(2-4) clk_counts gets_def)
qed

definition clk_example :: clk_env where
  "clk_example = \<lparr>clk_dev = (\<lambda>h c. case c of Clk_get d n \<Rightarrow> 7 | Clk_enable t \<Rightarrow> int (length h) mod 2 | _ \<Rightarrow> 1),
     clk_name = (\<lambda>t. ''aes1_fck''), has_set_rate = (\<lambda>t. True), has_dpll_data = (\<lambda>t. False)\<rparr>"

theorem clock_tests_balanced_witness:
  "disables 7 (clog (snd (clk_test_opt1 clk_example \<lparr>clog = []\<rparr>))) = enabled 7 (clog (snd (clk_test_opt1 clk_example \<lparr>clog = []\<rparr>)))"
  using clock_tests_balanced [of 7 "\<lparr>clog = []\<rparr>" _ clk_example, OF _ _ refl refl] by simp

text \<open>
  In the third test a DPLL is disabled according to its rate and not to its being enabled: for a DPLL
  other than the core and peripheral ones whose \<^verbatim>\<open>clk_enable\<close> answers \<open>e\<close> and whose \<^verbatim>\<open>clk_set_rate\<close> answers
  \<open>r\<close>, the round enables it once if \<open>e\<close> is 0, disables it once if \<open>r\<close> is 0, and its result is \<open>r\<close>. With
  \<open>e\<close> not 0 and \<open>r\<close> 0 a clock is disabled that was never enabled, and the round counts as passed.
\<close>

theorem clock_opt3_unbalanced:
  assumes "has_dpll_data E t" "clk_name E t \<noteq> ''dpll_core_ck''" "clk_name E t \<noteq> ''dpll_per_ck''" "0 \<le> t"
    and "\<And>h. clk_dev E h (Clk_get d n) = t" "\<And>h. clk_dev E h (Clk_enable t) = e" "\<And>h v. clk_dev E h (Clk_set_rate t v) = r"
  shows "fst (opt3_clk E (d, n) ret w) = r
    \<and> enabled t (clog (snd (opt3_clk E (d, n) ret w))) = enabled t (clog w) + (if e = 0 then 1 else 0)
    \<and> disables t (clog (snd (opt3_clk E (d, n) ret w))) = disables t (clog w) + (if r = 0 then 1 else 0)"
  using assms(1-4)
  by (simp add: opt3_clk_def opt3_dpll_def force_rate_def ask_eq tell_def is_err_def assms(5-7) give_back_def clk_counts)

definition clk_locked :: clk_env where
  "clk_locked = \<lparr>clk_dev = (\<lambda>h c. case c of Clk_get d n \<Rightarrow> 7 | Clk_enable t \<Rightarrow> - 22 | Clk_set_rate t v \<Rightarrow> 0 | _ \<Rightarrow> 1),
     clk_name = (\<lambda>t. ''dpll_usb_ck''), has_set_rate = (\<lambda>t. True), has_dpll_data = (\<lambda>t. True)\<rparr>"

theorem clock_opt3_unbalanced_witness:
  "fst (opt3_clk clk_locked (None, ''dpll_usb_ck'') 0 \<lparr>clog = []\<rparr>) = 0
    \<and> enabled 7 (clog (snd (opt3_clk clk_locked (None, ''dpll_usb_ck'') 0 \<lparr>clog = []\<rparr>))) = 0
    \<and> disables 7 (clog (snd (opt3_clk clk_locked (None, ''dpll_usb_ck'') 0 \<lparr>clog = []\<rparr>))) = 1"
proof -
  have "enabled 7 [] = 0" "disables 7 [] = 0" by (simp_all add: clk_counts)
  then show ?thesis
    using clock_opt3_unbalanced [of clk_locked 7 None "''dpll_usb_ck''" "- 22" 0 0 "\<lparr>clog = []\<rparr>"]
    by (simp add: clk_locked_def)
qed

end
