(* ===== verification/Pm_Domains.thy ===== *)
theory Pm_Domains
  imports Halting_Prog Pm_Clock
begin

text \<open>
  The power domain and clock domain test modules for OMAP4 (\<^verbatim>\<open>pd_test.c\<close>, \<^verbatim>\<open>cd_test.c\<close>). The kernel
  answers every call; a pointer that \<^verbatim>\<open>pwrdm_lookup\<close> or \<^verbatim>\<open>clkdm_lookup\<close> did not find is 0, and reading a
  name through it is a fault. Of what is printed only the verdict is kept.
\<close>

datatype pd_call = Pwrdm_lookup string | Add_clkdm int | Del_clkdm int | Mem_bank_count int
  | Read_pwrst int | Set_next_pwrst int int | Read_next_pwrst int
  | Read_logic_pwrst int | Set_logic_retst int int | Read_logic_retst int
  | Clkdm_lookup string | Clkdm_clk_enable int | Clkdm_clk_disable int | Clkdm_get_pwrdm int
  | Allow_idle int | Deny_idle int | Clkdm_wakeup int | Clkdm_sleep int

text \<open>\<open>omap\<close> is the domain under test, \<open>verdict\<close> what was printed: \<open>True\<close> for TEST PASSED.\<close>

record pd_world = "pd_call dev_world" +
  omap :: int
  verdict :: "bool option"

type_synonym 'a pd_prog = "(pd_world, 'a) prog"

definition PWRDM_POWER_OFF :: int where "PWRDM_POWER_OFF = 0"
definition PWRDM_POWER_RET :: int where "PWRDM_POWER_RET = 1"
definition PWRDM_POWER_ON :: int where "PWRDM_POWER_ON = 3"

definition powerdomains_name :: "string list" where
  "powerdomains_name = [''core_pwrdm'', ''abe_pwrdm'', ''dss_pwrdm'', ''tesla_pwrdm'', ''wkup_pwrdm'',
     ''cpu0_pwrdm'', ''cpu1_pwrdm'', ''emu_pwrdm'', ''mpu_pwrdm'', ''ivahd_pwrdm'', ''cam_pwrdm'',
     ''l3init_pwrdm'', ''l4per_pwrdm'', ''always_on_core_pwrdm'', ''cefuse_pwrdm'']"

definition clockdomains_name :: "string list" where
  "clockdomains_name = [''l4_cefuse_clkdm'', ''l4_cfg_clkdm'', ''tesla_clkdm'', ''l3_gfx_clkdm'', ''ivahd_clkdm'',
     ''l4_secure_clkdm'', ''l4_per_clkdm'', ''abe_clkdm'', ''l3_instr_clkdm'', ''l3_init_clkdm'', ''mpuss_clkdm'',
     ''mpu0_clkdm'', ''mpu1_clkdm'', ''l3_emif_clkdm'', ''l4_ao_clkdm'', ''ducati_clkdm'', ''l3_2_clkdm'',
     ''l3_1_clkdm'', ''l3_d2d_clkdm'', ''iss_clkdm'', ''l3_dss_clkdm'', ''l4_wkup_clkdm'', ''emu_sys_clkdm'',
     ''l3_dma_clkdm'']"

text \<open>Printing \<^verbatim>\<open>p->name\<close>.\<close>

definition name_of :: "int \<Rightarrow> unit pd_prog" where
  "name_of p = (if p = 0 then halt Segv else give ())"

section \<open>Power domains\<close>

definition power_test_1 :: "pd_call device \<Rightarrow> int pd_prog" where
  "power_test_1 D =
     and_then (look omap) (\<lambda>p.
     and_then (sys D (Add_clkdm p)) (\<lambda>val.
     and_then (if val = 0 then and_then (name_of p) (\<lambda>_. give 0)
               else if val = - EINVAL then and_then (name_of p) (\<lambda>_. give (- 1)) else give 0) (\<lambda>ret.
     and_then (sys D (Del_clkdm p)) (\<lambda>val.
     and_then (if val = 0 then and_then (name_of p) (\<lambda>_. give ret)
               else if val = - EINVAL then and_then (name_of p) (\<lambda>_. give (- 1)) else give ret) (\<lambda>ret.
     and_then (sys D (Mem_bank_count p)) (\<lambda>_.
     and_then (name_of p) (\<lambda>_. give ret)))))))"

text \<open>
  One block of the tests 2 and 3: set a state; if it is not supported go on, if it failed go on with an
  error, otherwise read it back.
\<close>

definition try_state :: "pd_call device \<Rightarrow> (int \<Rightarrow> int \<Rightarrow> pd_call) \<Rightarrow> (int \<Rightarrow> pd_call) \<Rightarrow> int \<Rightarrow> int \<Rightarrow> int pd_prog" where
  "try_state D set_state read_state s ret =
     and_then (look omap) (\<lambda>p.
     and_then (sys D (set_state p s)) (\<lambda>val.
     if val = 0
     then
       and_then (name_of p) (\<lambda>_.
       and_then (sys D (read_state p)) (\<lambda>ret1.
       if ret1 = s then and_then (name_of p) (\<lambda>_. give ret) else give (- 1)))
     else if val = - EINVAL then and_then (name_of p) (\<lambda>_. give ret)
     else give (- 1)))"

definition power_test_2 :: "pd_call device \<Rightarrow> int pd_prog" where
  "power_test_2 D =
     and_then (look omap) (\<lambda>p.
     and_then (sys D (Read_pwrst p)) (\<lambda>_.
     and_then (name_of p) (\<lambda>_.
     and_then (try_state D Set_next_pwrst Read_next_pwrst PWRDM_POWER_ON 0) (\<lambda>ret.
     and_then (try_state D Set_next_pwrst Read_next_pwrst PWRDM_POWER_RET ret) (\<lambda>ret.
     try_state D Set_next_pwrst Read_next_pwrst PWRDM_POWER_OFF ret)))))"

definition power_test_3 :: "pd_call device \<Rightarrow> int pd_prog" where
  "power_test_3 D =
     and_then (look omap) (\<lambda>p.
     and_then (sys D (Read_logic_pwrst p)) (\<lambda>_.
     and_then (name_of p) (\<lambda>_.
     and_then (try_state D Set_logic_retst Read_logic_retst PWRDM_POWER_RET 0) (\<lambda>ret.
     try_state D Set_logic_retst Read_logic_retst PWRDM_POWER_OFF ret))))"

definition power_test_4 :: "int pd_prog" where
  "power_test_4 = give 0"

definition supported_2 :: "string \<Rightarrow> bool" where
  "supported_2 n \<longleftrightarrow> n \<noteq> ''cpu0_pwrdm'' \<and> n \<noteq> ''cpu1_pwrdm'' \<and> n \<noteq> ''mpu_pwrdm'' \<and> n \<noteq> ''core_pwrdm''
     \<and> n \<noteq> ''wkup_pwrdm'' \<and> n \<noteq> ''always_on_core_pwrdm'' \<and> n \<noteq> ''emu_pwrdm''"

definition supported_3 :: "string \<Rightarrow> bool" where
  "supported_3 n \<longleftrightarrow> n = ''core_pwrdm'' \<or> n = ''mpu_pwrdm'' \<or> n = ''tesla_pwrdm'' \<or> n \<noteq> ''l3init_pwrdm''
     \<or> n \<noteq> ''l4per_pwrdm''"

text \<open>
  \<^verbatim>\<open>for (i = 0; name[i]; i++)\<close>: look the domain up, run the test if it is supported, leave the loop with
  TEST FAILED at the first result that is not 0; after the loop a \<^verbatim>\<open>ret\<close> of 0 prints TEST PASSED.
\<close>

primrec domain_loop :: "pd_call device \<Rightarrow> (string \<Rightarrow> pd_call) \<Rightarrow> (string \<Rightarrow> bool) \<Rightarrow> int pd_prog \<Rightarrow> string list \<Rightarrow> int
    \<Rightarrow> unit pd_prog" where
  "domain_loop D lookup supported test [] ret =
     (if ret = 0 then change (verdict_update (\<lambda>_. Some True)) else give ())"
| "domain_loop D lookup supported test (n # ns) ret =
     and_then (sys D (lookup n)) (\<lambda>p.
     and_then (change (omap_update (\<lambda>_. p))) (\<lambda>_.
     if supported n
     then
       and_then test (\<lambda>ret.
       if ret \<noteq> 0 then change (verdict_update (\<lambda>_. Some False))
       else domain_loop D lookup supported test ns ret)
     else domain_loop D lookup supported test ns ret))"

text \<open>The fourth test runs through the domains without a verdict.\<close>

primrec silent_loop :: "pd_call device \<Rightarrow> (string \<Rightarrow> pd_call) \<Rightarrow> int pd_prog \<Rightarrow> string list \<Rightarrow> unit pd_prog" where
  "silent_loop D lookup test [] = give ()"
| "silent_loop D lookup test (n # ns) =
     and_then (sys D (lookup n)) (\<lambda>p.
     and_then (change (omap_update (\<lambda>_. p))) (\<lambda>_.
     and_then test (\<lambda>_. silent_loop D lookup test ns)))"

definition power_domain_test :: "pd_call device \<Rightarrow> u32 \<Rightarrow> unit pd_prog" where
  "power_domain_test D test_id =
     (if test_id = 1 then domain_loop D Pwrdm_lookup (\<lambda>_. True) (power_test_1 D) powerdomains_name (- 1)
      else if test_id = 2 then domain_loop D Pwrdm_lookup supported_2 (power_test_2 D) powerdomains_name (- 1)
      else if test_id = 3 then domain_loop D Pwrdm_lookup supported_3 (power_test_3 D) powerdomains_name (- 1)
      else if test_id = 4 then silent_loop D Pwrdm_lookup power_test_4 powerdomains_name
      else give ())"

definition pd_test_init :: "pd_call device \<Rightarrow> u32 \<Rightarrow> int pd_prog" where
  "pd_test_init D test_id = and_then (power_domain_test D test_id) (\<lambda>_. give 0)"

section \<open>Clock domains\<close>

definition clock_dm_test_1 :: "pd_call device \<Rightarrow> int pd_prog" where
  "clock_dm_test_1 D =
     and_then (look omap) (\<lambda>cd.
     and_then (sys D (Clkdm_clk_enable cd)) (\<lambda>val.
     and_then (if val = 0 then and_then (name_of cd) (\<lambda>_. give 0)
               else if val = - EINVAL then give 0 else and_then (name_of cd) (\<lambda>_. give (- 1))) (\<lambda>ret.
     and_then (sys D (Clkdm_clk_disable cd)) (\<lambda>val.
     and_then (if val = 0 then and_then (name_of cd) (\<lambda>_. give ret)
               else if val = - EINVAL then give ret else and_then (name_of cd) (\<lambda>_. give (- 1))) (\<lambda>ret.
     and_then (sys D (Clkdm_get_pwrdm cd)) (\<lambda>pd.
     and_then (if pd \<noteq> 0 then name_of cd else give ()) (\<lambda>_. give ret)))))))"

definition clock_dm_test_2 :: "pd_call device \<Rightarrow> int pd_prog" where
  "clock_dm_test_2 D =
     and_then (look omap) (\<lambda>cd.
     and_then (sys D (Allow_idle cd)) (\<lambda>_.
     and_then (sys D (Deny_idle cd)) (\<lambda>_.
     and_then (sys D (Clkdm_wakeup cd)) (\<lambda>val.
     and_then (name_of cd) (\<lambda>_.
     and_then (give (if val = 0 \<or> val = - EINVAL then 0 else - 1)) (\<lambda>ret.
     and_then (sys D (Clkdm_sleep cd)) (\<lambda>val.
     and_then (name_of cd) (\<lambda>_.
     give (if val = 0 \<or> val = - EINVAL then ret else - 1)))))))))"

definition clock_dm_test_3 :: "int pd_prog" where
  "clock_dm_test_3 = give 0"

definition clock_domain_test :: "pd_call device \<Rightarrow> u32 \<Rightarrow> unit pd_prog" where
  "clock_domain_test D test_id =
     (if test_id = 1 then domain_loop D Clkdm_lookup (\<lambda>_. True) (clock_dm_test_1 D) clockdomains_name (- 1)
      else if test_id = 2 then domain_loop D Clkdm_lookup (\<lambda>_. True) (clock_dm_test_2 D) clockdomains_name (- 1)
      else if test_id = 3 then silent_loop D Clkdm_lookup clock_dm_test_3 clockdomains_name
      else give ())"

definition cd_test_init :: "pd_call device \<Rightarrow> u32 \<Rightarrow> int pd_prog" where
  "cd_test_init D test_id = and_then (clock_domain_test D test_id) (\<lambda>_. give 0)"

section \<open>The contract of a domain test\<close>

text \<open>
  A test judges the history of calls by a predicate: started on a good history it ends with 0 exactly
  when the history is still good, or it faults on a domain that was not found.
\<close>

definition chronicle :: "pd_world \<Rightarrow> (pd_call \<times> int) list" where
  "chronicle w = rev (clog w)"

locale judged_test =
  fixes D :: "pd_call device" and lookup :: "string \<Rightarrow> pd_call" and supported :: "string \<Rightarrow> bool"
    and test :: "int pd_prog" and good :: "(pd_call \<times> int) list \<Rightarrow> bool"
  assumes good_start: "good []"
    and good_lookup: "good h \<Longrightarrow> good (h @ [(lookup n, p)])"
    and judges: "good (chronicle w) \<Longrightarrow> yields test w (\<lambda>r w'. (\<exists>h. chronicle w' = chronicle w @ h) \<and>
      (case r of Inl e \<Rightarrow> e = Segv \<and> omap w = 0 | Inr ret \<Rightarrow> (ret = 0) = good (chronicle w')))"
begin

lemma loop_judges:
  assumes "good (chronicle w)"
  shows "yields (domain_loop D lookup supported test ns ret) w (\<lambda>r w'.
    case r of
      Inl e \<Rightarrow> e = Segv \<and> (\<exists>n. (lookup n, 0) \<in> set (chronicle w'))
    | Inr _ \<Rightarrow> verdict w' = Some (good (chronicle w')) \<or> ret \<noteq> 0 \<and> (\<forall>n \<in> set ns. \<not> supported n))"
  using assms
proof (induction ns arbitrary: ret w)
  case Nil
  then show ?case by (simp add: yields_simps chronicle_def)
next
  case (Cons n ns)
  define p where "p = D (clog w) (lookup n)"
  define w1 where "w1 = w\<lparr>clog := (lookup n, p) # clog w, omap := p\<rparr>"
  have w1: "chronicle w1 = chronicle w @ [(lookup n, p)]" "omap w1 = p" "good (chronicle w1)"
    using good_lookup [OF Cons.prems] by (simp_all add: w1_def chronicle_def)
  let ?Q = "\<lambda>r w'. case r of Inl e \<Rightarrow> e = Segv \<and> (\<exists>n. (lookup n, 0) \<in> set (chronicle w'))
    | Inr _ \<Rightarrow> verdict w' = Some (good (chronicle w')) \<or> ret \<noteq> 0 \<and> (\<forall>n \<in> set (n # ns). \<not> supported n)"
  have step: "yields (domain_loop D lookup supported test (n # ns) ret) w ?Q \<longleftrightarrow>
      yields (if supported n then and_then test (\<lambda>ret. if ret \<noteq> 0 then change (verdict_update (\<lambda>_. Some False))
        else domain_loop D lookup supported test ns ret) else domain_loop D lookup supported test ns ret) w1 ?Q"
    by (simp add: yields_and_then yields_sys yields_simps w1_def p_def)
  show ?case
    unfolding step
  proof (cases "supported n")
    case False
    show "yields (if supported n then and_then test (\<lambda>ret. if ret \<noteq> 0 then change (verdict_update (\<lambda>_. Some False))
        else domain_loop D lookup supported test ns ret) else domain_loop D lookup supported test ns ret) w1 ?Q"
      unfolding if_not_P [OF False]
      by (rule yields_mono [OF Cons.IH [OF w1(3)]]) (use False in \<open>auto split: sum.splits\<close>)
  next
    case True
    show "yields (if supported n then and_then test (\<lambda>ret. if ret \<noteq> 0 then change (verdict_update (\<lambda>_. Some False))
        else domain_loop D lookup supported test ns ret) else domain_loop D lookup supported test ns ret) w1 ?Q"
      unfolding if_P [OF True] yields_and_then
    proof (rule yields_mono [OF judges [OF w1(3)]], elim conjE exE)
      fix r :: "stop + int" and w2 :: pd_world and h
      assume ext: "chronicle w2 = chronicle w1 @ h"
        and r: "case r of Inl e \<Rightarrow> e = Segv \<and> omap w1 = 0 | Inr ret \<Rightarrow> (ret = 0) = good (chronicle w2)"
      show "case r of Inl e \<Rightarrow> ?Q (Inl e) w2
        | Inr ret \<Rightarrow> yields (if ret \<noteq> 0 then change (verdict_update (\<lambda>_. Some False))
            else domain_loop D lookup supported test ns ret) w2 ?Q"
      proof (cases r)
        case (Inl e)
        then show ?thesis using r ext w1 by auto
      next
        case (Inr v)
        show ?thesis
        proof (cases "v = 0")
          case True
          then have "good (chronicle w2)" using r Inr by simp
          from Cons.IH [OF this, of 0] show ?thesis
            unfolding Inr sum.case by (simp add: True) (auto elim!: yields_mono split: sum.splits)
        next
          case False
          then show ?thesis using r Inr by (simp add: yields_simps chronicle_def)
        qed
      qed
    qed
  qed
qed

lemma verdict_exact:
  assumes "clog w = []" "\<exists>n \<in> set ns. supported n"
  shows "\<exists>r w'. domain_loop D lookup supported test ns ret w = Some (r, w') \<and>
    (r = Inr () \<and> verdict w' = Some (good (chronicle w')) \<or> r = Inl Segv \<and> (\<exists>n. (lookup n, 0) \<in> set (chronicle w')))"
proof -
  have "good (chronicle w)" using assms(1) good_start by (simp add: chronicle_def)
  from loop_judges [OF this, of ns ret] obtain r w' where "domain_loop D lookup supported test ns ret w = Some (r, w')"
    "case r of Inl e \<Rightarrow> e = Segv \<and> (\<exists>n. (lookup n, 0) \<in> set (chronicle w'))
      | Inr _ \<Rightarrow> verdict w' = Some (good (chronicle w')) \<or> ret \<noteq> 0 \<and> (\<forall>n \<in> set ns. \<not> supported n)"
    by (rule yieldsE)
  then show ?thesis using assms(2) by (cases r) auto
qed

end

section \<open>The tests meet it\<close>

text \<open>What the first test demands of the calls it makes.\<close>

definition registered :: "(pd_call \<times> int) list \<Rightarrow> bool" where
  "registered h \<longleftrightarrow> list_all (\<lambda>(c, r). case c of Add_clkdm p \<Rightarrow> r \<noteq> - EINVAL | Del_clkdm p \<Rightarrow> r \<noteq> - EINVAL | _ \<Rightarrow> True) h"

text \<open>
  What the tests 2 and 3 demand: a state that was set is read back by the next call, and a state that was
  not set was refused as invalid.
\<close>

definition set_call :: "pd_call \<Rightarrow> (pd_call \<times> int) option" where
  "set_call c = (case c of
      Set_next_pwrst p s \<Rightarrow> Some (Read_next_pwrst p, s)
    | Set_logic_retst p s \<Rightarrow> Some (Read_logic_retst p, s)
    | _ \<Rightarrow> None)"

fun echoes :: "(pd_call \<times> int) list \<Rightarrow> bool" where
  "echoes [] = True"
| "echoes ((c, r) # h) =
     (case set_call c of
        None \<Rightarrow> echoes h
      | Some (read_back, s) \<Rightarrow>
          if r = 0 then h \<noteq> [] \<and> hd h = (read_back, s) \<and> echoes (tl h)
          else r = - EINVAL \<and> echoes h)"

text \<open>What the clock domain tests demand: their requests succeed or are refused as invalid.\<close>

definition allowed :: "(pd_call \<times> int) list \<Rightarrow> bool" where
  "allowed h \<longleftrightarrow> list_all (\<lambda>(c, r). case c of
      Clkdm_clk_enable p \<Rightarrow> r = 0 \<or> r = - EINVAL
    | Clkdm_clk_disable p \<Rightarrow> r = 0 \<or> r = - EINVAL
    | Clkdm_wakeup p \<Rightarrow> r = 0 \<or> r = - EINVAL
    | Clkdm_sleep p \<Rightarrow> r = 0 \<or> r = - EINVAL
    | _ \<Rightarrow> True) h"

lemma EINVAL_pos: "EINVAL \<noteq> 0" "- EINVAL \<noteq> 0"
  by (simp_all add: EINVAL_def)

lemma pd_sys: "(\<And>v. yields (k v) (w\<lparr>clog := (c, v) # clog w\<rparr>) Q) \<Longrightarrow> yields (and_then (sys D c) k) w Q"
  by (simp add: yields_and_then yields_sys)

lemma pd_look: "yields (k (f w)) w Q \<Longrightarrow> yields (and_then (look f) k) w Q"
  by (simp add: yields_and_then yields_simps)

lemma pd_name:
  "(p = 0 \<Longrightarrow> Q (Inl Segv) w) \<Longrightarrow> (p \<noteq> 0 \<Longrightarrow> yields (k ()) w Q) \<Longrightarrow> yields (and_then (name_of p) k) w Q"
  by (auto simp: name_of_def yields_and_then yields_simps)

lemma pd_if: "(c \<Longrightarrow> yields m w Q) \<Longrightarrow> (\<not> c \<Longrightarrow> yields m' w Q) \<Longrightarrow> yields (if c then m else m') w Q"
  by simp

lemma pd_give: "Q (Inr x) w \<Longrightarrow> yields (give x) w Q"
  by (simp add: yields_simps)

lemmas pd_norm = if_distrib [of "\<lambda>m. and_then m _"] and_then_give and_then_assoc

lemmas pd_rules = pd_sys pd_look pd_name pd_if pd_give

interpretation pd1: judged_test D Pwrdm_lookup "\<lambda>_. True" "power_test_1 D" registered for D
proof
  fix w :: pd_world assume "registered (chronicle w)"
  then show "yields (power_test_1 D) w (\<lambda>r w'. (\<exists>h. chronicle w' = chronicle w @ h) \<and>
      (case r of Inl e \<Rightarrow> e = Segv \<and> omap w = 0 | Inr ret \<Rightarrow> (ret = 0) = registered (chronicle w')))"
    using EINVAL_pos
    unfolding power_test_1_def pd_norm
    by (intro pd_rules) (auto simp: chronicle_def registered_def)
qed (simp_all add: registered_def)

interpretation cd1: judged_test D Clkdm_lookup "\<lambda>_. True" "clock_dm_test_1 D" allowed for D
proof
  fix w :: pd_world assume "allowed (chronicle w)"
  then show "yields (clock_dm_test_1 D) w (\<lambda>r w'. (\<exists>h. chronicle w' = chronicle w @ h) \<and>
      (case r of Inl e \<Rightarrow> e = Segv \<and> omap w = 0 | Inr ret \<Rightarrow> (ret = 0) = allowed (chronicle w')))"
    unfolding clock_dm_test_1_def pd_norm
    by (intro pd_rules) (auto simp: chronicle_def allowed_def)
qed (simp_all add: allowed_def)

interpretation cd2: judged_test D Clkdm_lookup "\<lambda>_. True" "clock_dm_test_2 D" allowed for D
proof
  fix w :: pd_world assume "allowed (chronicle w)"
  then show "yields (clock_dm_test_2 D) w (\<lambda>r w'. (\<exists>h. chronicle w' = chronicle w @ h) \<and>
      (case r of Inl e \<Rightarrow> e = Segv \<and> omap w = 0 | Inr ret \<Rightarrow> (ret = 0) = allowed (chronicle w')))"
    unfolding clock_dm_test_2_def pd_norm
    by (intro pd_rules) (auto simp: chronicle_def allowed_def)
qed (simp_all add: allowed_def)

lemma echoes_append: "echoes h \<Longrightarrow> echoes (h @ g) = echoes g"
proof (induction h rule: echoes.induct)
  case (2 c r h)
  show ?case
  proof (cases "set_call c")
    case None
    then show ?thesis using 2 by simp
  next
    case (Some q)
    then show ?thesis using 2 by (cases q; cases h) (auto split: if_splits)
  qed
qed simp

definition doomed :: "(pd_call \<times> int) list \<Rightarrow> bool" where
  "doomed h \<longleftrightarrow> (\<forall>g. \<not> echoes (h @ g))"

lemma doomed_append: "doomed h \<Longrightarrow> doomed (h @ g)"
  by (simp add: doomed_def)

lemma doomed_not_echoes: "doomed h \<Longrightarrow> \<not> echoes h"
  unfolding doomed_def by (metis append_Nil2)

text \<open>The variable \<^verbatim>\<open>ret\<close> of a test against the history.\<close>

definition told :: "int \<Rightarrow> pd_world \<Rightarrow> bool" where
  "told ret w \<longleftrightarrow> (if ret = 0 then echoes (chronicle w) else doomed (chronicle w))"

lemma told_append:
  assumes "told ret w" "chronicle w' = chronicle w @ g" "echoes g"
  shows "told ret w'"
  using assms by (auto simp: told_def echoes_append doomed_append)

lemma told_fails:
  assumes "told ret w" "chronicle w' = chronicle w @ g" "doomed g"
  shows "told (- 1) w'"
proof (cases "ret = 0")
  case True
  then show ?thesis using assms by (auto simp: told_def doomed_def echoes_append)
next
  case False
  then show ?thesis using assms by (simp add: told_def doomed_append)
qed

lemma try_state_told:
  assumes calls: "\<And>p s. set_call (S p s) = Some (R p, s)" and w: "told ret w"
    and fault: "\<And>v. omap v = omap w \<Longrightarrow> omap w = 0 \<Longrightarrow> \<exists>h. chronicle v = chronicle w @ h \<Longrightarrow> Q (Inl Segv) v"
    and go_on: "\<And>v ret'. told ret' v \<Longrightarrow> omap v = omap w \<Longrightarrow> \<exists>h. chronicle v = chronicle w @ h \<Longrightarrow> yields (k ret') v Q"
  shows "yields (and_then (try_state D S R s ret) k) w Q"
  unfolding try_state_def pd_norm
proof (intro pd_rules, goal_cases)
  case (1 val)
  then show ?case by (intro fault) (simp_all add: chronicle_def)
next
  case (2 val v)
  then show ?case by (intro fault) (simp_all add: chronicle_def)
next
  case (3 val v)
  show ?case
    by (rule go_on, rule told_append [OF w, where g = "[(S (omap w) s, 0), (R (omap w), s)]"])
      (use 3 in \<open>simp_all add: chronicle_def calls\<close>)
next
  case (4 val v)
  show ?case
    by (rule go_on, rule told_fails [OF w, where g = "[(S (omap w) s, 0), (R (omap w), v)]"])
      (use 4 in \<open>simp_all add: chronicle_def calls doomed_def\<close>)
next
  case (5 val)
  then show ?case by (intro fault) (simp_all add: chronicle_def)
next
  case (6 val)
  show ?case
    by (rule go_on, rule told_append [OF w, where g = "[(S (omap w) s, - EINVAL)]"])
      (use 6 EINVAL_pos in \<open>simp_all add: chronicle_def calls\<close>)
next
  case (7 val)
  show ?case
    by (rule go_on, rule told_fails [OF w, where g = "[(S (omap w) s, val)]"])
      (use 7 in \<open>simp_all add: chronicle_def calls doomed_def\<close>)
qed

text \<open>The end of a test whose history is told by its result.\<close>

definition told_end :: "pd_world \<Rightarrow> stop + int \<Rightarrow> pd_world \<Rightarrow> bool" where
  "told_end w r w' \<longleftrightarrow> (\<exists>h. chronicle w' = chronicle w @ h) \<and>
     (case r of Inl e \<Rightarrow> e = Segv \<and> omap w = 0 | Inr ret \<Rightarrow> (ret = 0) = echoes (chronicle w'))"

lemma told_endI:
  "told ret v \<Longrightarrow> \<exists>h. chronicle v = chronicle w @ h \<Longrightarrow> told_end w (Inr ret) v"
  by (auto simp: told_end_def told_def dest: doomed_not_echoes split: if_splits)

lemma told_end_fault:
  "omap w = 0 \<Longrightarrow> \<exists>h. chronicle v = chronicle w @ h \<Longrightarrow> told_end w (Inl Segv) v"
  by (simp add: told_end_def)

lemma and_then_give_right: "and_then m give = m"
  by (rule ext) (auto simp: and_then_def give_def split: option.splits sum.splits)

lemma power_test_2_judges:
  assumes "echoes (chronicle w)"
  shows "yields (power_test_2 D) w (told_end w)"
proof -
  have "yields (and_then (power_test_2 D) give) w (told_end w)"
    unfolding power_test_2_def and_then_assoc
  proof (intro pd_sys pd_look pd_name, goal_cases)
    case (1 v)
    then show ?case by (intro told_end_fault) (simp_all add: chronicle_def)
  next
    case (2 v)
    let ?w = "w\<lparr>clog := (Read_pwrst (omap w), v) # clog w\<rparr>"
    have w: "told 0 ?w" "omap ?w = omap w" "\<exists>h. chronicle ?w = chronicle w @ h"
      using assms by (simp_all add: told_def chronicle_def echoes_append set_call_def)
    note step = try_state_told [where Q = "told_end w"]
    show ?case
      by (rule step [OF _ w(1)], simp add: set_call_def, rule told_end_fault, (use w 2 in force)+,
          rule step, simp add: set_call_def, assumption, rule told_end_fault, (use w 2 in force)+,
          rule step, simp add: set_call_def, assumption, rule told_end_fault, (use w 2 in force)+)
        (use w in \<open>fastforce intro: pd_give told_endI\<close>)
  qed
  then show ?thesis by (simp add: and_then_give_right)
qed

lemma power_test_3_judges:
  assumes "echoes (chronicle w)"
  shows "yields (power_test_3 D) w (told_end w)"
proof -
  have "yields (and_then (power_test_3 D) give) w (told_end w)"
    unfolding power_test_3_def and_then_assoc
  proof (intro pd_sys pd_look pd_name, goal_cases)
    case (1 v)
    then show ?case by (intro told_end_fault) (simp_all add: chronicle_def)
  next
    case (2 v)
    let ?w = "w\<lparr>clog := (Read_logic_pwrst (omap w), v) # clog w\<rparr>"
    have w: "told 0 ?w" "omap ?w = omap w" "\<exists>h. chronicle ?w = chronicle w @ h"
      using assms by (simp_all add: told_def chronicle_def echoes_append set_call_def)
    note step = try_state_told [where Q = "told_end w"]
    show ?case
      by (rule step [OF _ w(1)], simp add: set_call_def, rule told_end_fault, (use w 2 in force)+,
          rule step, simp add: set_call_def, assumption, rule told_end_fault, (use w 2 in force)+)
        (use w in \<open>fastforce intro: pd_give told_endI\<close>)
  qed
  then show ?thesis by (simp add: and_then_give_right)
qed

lemma echoes_lookup: "echoes h \<Longrightarrow> echoes (h @ [(Pwrdm_lookup n, p)])"
  by (simp add: echoes_append set_call_def)

interpretation pd2: judged_test D Pwrdm_lookup supported_2 "power_test_2 D" echoes for D
  by unfold_locales (simp, rule echoes_lookup, assumption, rule power_test_2_judges [unfolded told_end_def])

interpretation pd3: judged_test D Pwrdm_lookup supported_3 "power_test_3 D" echoes for D
  by unfold_locales (simp, rule echoes_lookup, assumption, rule power_test_3_judges [unfolded told_end_def])

section \<open>Properties\<close>

definition pd_start :: pd_world where
  "pd_start = \<lparr>clog = [], omap = 0, verdict = None\<rparr>"

lemma supported_exist:
  "\<exists>n \<in> set powerdomains_name. supported_2 n" "\<exists>n \<in> set powerdomains_name. supported_3 n"
  by (rule bexI [of _ "''abe_pwrdm''"]; simp add: supported_2_def supported_3_def powerdomains_name_def)+

text \<open>
  C12. The verdict of the power domain tests, for every kernel: the test ends, with a fault only if a domain
  was not found, and otherwise with TEST PASSED or TEST FAILED exactly as the calls say. For test 1,
  PASSED means that no link to the dummy clock domain was refused with \<^verbatim>\<open>-EINVAL\<close>, other errors being
  accepted; for the tests 2 and 3 it means that every state that was set was read back by the next
  call and every other one was refused with \<^verbatim>\<open>-EINVAL\<close>.
\<close>

theorem pd_verdict_exact:
  assumes "test_id = 1 \<or> test_id = 2 \<or> test_id = 3"
  shows "\<exists>r w'. power_domain_test D test_id pd_start = Some (r, w') \<and>
    (r = Inr () \<and> verdict w' = Some (if test_id = 1 then registered (rev (clog w')) else echoes (rev (clog w')))
     \<or> r = Inl Segv \<and> (\<exists>n. (Pwrdm_lookup n, 0) \<in> set (clog w')))"
proof -
  have w: "clog pd_start = []" by (simp add: pd_start_def)
  have ne: "\<exists>n \<in> set powerdomains_name. True" by (auto simp: powerdomains_name_def)
  consider "test_id = 1" | "test_id = 2" | "test_id = 3" using assms by blast
  then show ?thesis
  proof cases
    case 1
    then show ?thesis
      using pd1.verdict_exact [OF w ne, of D "- 1"] by (simp add: power_domain_test_def chronicle_def)
  next
    case 2
    then show ?thesis
      using pd2.verdict_exact [OF w supported_exist(1), of D "- 1"] by (simp add: power_domain_test_def chronicle_def)
  next
    case 3
    then show ?thesis
      using pd3.verdict_exact [OF w supported_exist(2), of D "- 1"] by (simp add: power_domain_test_def chronicle_def)
  qed
qed

theorem pd_verdict_exact_witness:
  "\<exists>r w'. power_domain_test (\<lambda>h c. case c of Pwrdm_lookup n \<Rightarrow> 1 | _ \<Rightarrow> - 22) 2 pd_start = Some (r, w') \<and>
    (r = Inr () \<and> verdict w' = Some (echoes (rev (clog w'))) \<or> r = Inl Segv \<and> (\<exists>n. (Pwrdm_lookup n, 0) \<in> set (clog w')))"
  using pd_verdict_exact [of 2 "\<lambda>h c. case c of Pwrdm_lookup n \<Rightarrow> 1 | _ \<Rightarrow> - 22"] by simp

text \<open>
  The verdict of the clock domain tests, for every kernel: the test ends, with a fault only if a domain
  was not found, and otherwise prints TEST PASSED exactly when each request to enable, disable, wake or
  put to sleep succeeded or was refused with \<^verbatim>\<open>-EINVAL\<close>, and TEST FAILED when one was not.
\<close>

theorem cd_verdict_exact:
  assumes "test_id = 1 \<or> test_id = 2"
  shows "\<exists>r w'. clock_domain_test D test_id pd_start = Some (r, w') \<and>
    (r = Inr () \<and> verdict w' = Some (allowed (rev (clog w'))) \<or> r = Inl Segv \<and> (\<exists>n. (Clkdm_lookup n, 0) \<in> set (clog w')))"
proof -
  have w: "clog pd_start = []" by (simp add: pd_start_def)
  have ne: "\<exists>n \<in> set clockdomains_name. True" by (auto simp: clockdomains_name_def)
  show ?thesis
    using assms cd1.verdict_exact [OF w ne, of D "- 1"] cd2.verdict_exact [OF w ne, of D "- 1"]
    by (auto simp: clock_domain_test_def chronicle_def)
qed

theorem cd_verdict_exact_witness:
  "\<exists>r w'. clock_domain_test (\<lambda>h c. case c of Clkdm_lookup n \<Rightarrow> 1 | _ \<Rightarrow> 0) 1 pd_start = Some (r, w') \<and>
    (r = Inr () \<and> verdict w' = Some (allowed (rev (clog w'))) \<or> r = Inl Segv \<and> (\<exists>n. (Clkdm_lookup n, 0) \<in> set (clog w')))"
  using cd_verdict_exact [of 1 "\<lambda>h c. case c of Clkdm_lookup n \<Rightarrow> 1 | _ \<Rightarrow> 0"] by simp

text \<open>
  The list of domains that test 3 is meant for has no effect: two of its five comparisons lack their
  negation, so every name passes.
\<close>

theorem supported_3_always: "supported_3 n"
  by (auto simp: supported_3_def)

end
