(* ===== verification/Spec2Isabelle.thy ===== *)
theory Spec2Isabelle
  imports Dma_Single_Correct Dma_Priority Dma_Stop Dma_Selflink Dma_Oswr Dma_Threads
    Dma_Chain_Dynamic_Order Dma_Dload_Threads_Correct Dma_Chain_Threads_Correct Gpio_Test Mcbsp_Setup_Correct Mcbsp_Threads Rtc_Set
    Uart_Correct Fb_User_Passes Pm_Domains
begin

text \<open>
  Verification of the device driver test suite: the DMA tests (\<^verbatim>\<open>src/dma/test_code/utils/dma/\<close>), the GPIO
  test module (\<^verbatim>\<open>src/gpio/test_code/utils/gpio_mods/gpio_test.c\<close>), the polled McBSP test module
  (\<^verbatim>\<open>src/mcbsp/test_code/utils/mcbsp_modules/omap_mcbsp_test_poll.c\<close>), the programs that set the
  real-time clock and its alarm (\<^verbatim>\<open>src/realtimeclock/test_code/utils/rtc/\<close>), the UART test program
  (\<^verbatim>\<open>src/hsuart/test_code/utils/hsuart_applications/\<close>), the test log library
  (\<^verbatim>\<open>src/mtd/test_code/utils/misc/testlog.c\<close> and its copies) with its programs, and the user-space test
  of the framebuffer (\<^verbatim>\<open>src/framebuffer/test_code/utils/internal/fb_user_tests.c\<close>), which is a client of it, and the
  OMAP4 modules that test clocks, power domains and clock domains (\<^verbatim>\<open>src/pmd/test_code/utils/omap4/\<close>).

  \<^bold>\<open>The program.\<close> The suite is a collection of tests per device that do not depend on each other. The
  largest tests the OMAP system DMA driver with kernel modules. Two common
  modules hold the machinery: \<^verbatim>\<open>dma_single_channel.c\<close> for transfers on one channel and
  \<^verbatim>\<open>dma_chain_transfer.c\<close> for chained transfers. Each test is a module of its own: its initialisation
  requests channels (or a chain), allocates and fills buffers, programs and starts the transfers and
  polls; a callback, run from the interrupt, compares source and destination and sets flags; the
  verdict is stored with \<^verbatim>\<open>set_test_passed\<close> and read through a proc file, whose reader waits until there
  is one; the exit function gives everything back. The GPIO module runs one of thirteen tests on a line
  when it is loaded; the McBSP module sends a pattern through an interface in loopback when a command is
  written to its proc file; the clock programs make a short sequence of device calls; the UART
  program configures a port and sends or receives a file. The log library counts cases for the flash and
  framebuffer tests, writes their messages to a list of files and ends them with a status; the
  framebuffer test makes its requests to the device between its calls.

  \<^bold>\<open>The environment.\<close> The kernel and the DMA driver are not part of the repository. \<open>Kernel_Env\<close>
  makes them a parameter, the record \<open>kernel\<close>: the result of each call and the value it writes
  through a pointer are arbitrary functions of the history of the run, and so are the events (device
  writes to memory, interrupts) that happen while a call of the module's thread is in progress. A
  statement about every \<open>kernel\<close> is about every kernel behaviour and every interrupt timing at the
  granularity of calls. What a theorem needs beyond that is a named hypothesis (\<open>irq_after_start\<close>,
  \<open>irq_after_chain_start\<close>: no callback before a start; \<open>grants_channel\<close>, \<open>grants_chain\<close>: a successful
  request stores the id; \<open>grants_all\<close>, \<open>engine_copies\<close>: a conforming system), or a condition on the history
  (\<open>irqs_handed\<close>: the driver only calls back for transfers that it accepted). The engine that carries out
  descriptor lists is a parameter too, with its documentation as the law \<open>sg_law\<close>. Witnesses use
  concrete kernels (\<open>demo_kernel\<close>, \<open>chain_demo\<close>, \<open>dyn_demo\<close>). A module's state extends \<open>base_world\<close>: the
  history of calls and interrupts, the memory (a byte per 32-bit address), the verdict, and the
  module's static data. Pointers into static arrays are indices; buffers are addresses; C's
  \<^verbatim>\<open>unsigned int\<close> is \<open>32 word\<close>; \<^verbatim>\<open>int\<close> flags and ids are \<open>int\<close>. Callbacks make their calls with
  \<open>kcall_irq\<close> (no nested events), threads with \<open>kcall_thread\<close>. The other tests only ask and look at the
  answer: for them \<open>Call_Env\<close> has a device whose answers are arbitrary functions of the calls before, and
  their states extend \<open>dev_world\<close>, the record of these calls.

  \<^bold>\<open>The theories.\<close>

  \<^item> \<open>DDT_Prelude\<close>: machine types, the three loop shapes of the sources (\<open>for_or_fail\<close>, \<open>for_each\<close>,
    \<open>poll_loop\<close>) with their invariant rules, byte buffers, counting in lists.
  \<^item> \<open>Kernel_Env\<close>: calls, histories, events, and the locale \<open>irq_invariant\<close>, the contract between a
    callback and the code it interrupts.
  \<^item> \<open>Dma_Single\<close>: \<^verbatim>\<open>dma_single_channel.h/.c\<close>, one definition per function; the locales \<open>irq_frame\<close> (what
    callbacks leave alone), \<open>sc_caller\<close> (what a call adds), \<open>setup_invariant\<close> (invariants of the set-up
    phase); the balances \<open>chan_balance\<close> and \<open>alloc_balance\<close>.
  \<^item> \<open>Dma_Single_Modules\<close>, \<open>Dma_Standard\<close>, \<open>Dma_Single_Correct\<close>: the eight burst-mode and addressing-mode
    modules as instances of one shape, their soundness, liveness and release properties, and the
    functional properties of the common module.
  \<^item> \<open>Dma_Priority\<close>: \<^verbatim>\<open>dma_priority_high.c\<close>, \<^verbatim>\<open>dma_priority_low.c\<close>; what PASSED says about the order of
    completions, and the overrun of the order array.
  \<^item> \<open>Dma_Stop\<close>: \<^verbatim>\<open>dma_stop_transfer.c\<close>, \<^verbatim>\<open>_twice.c\<close>, \<^verbatim>\<open>_invalid.c\<close>.
  \<^item> \<open>Dma_Selflink\<close>: \<^verbatim>\<open>dma_static_self_link.c\<close>, \<^verbatim>\<open>dma_unlink_before_stop_channels.c\<close>,
    \<^verbatim>\<open>dma_unlink_nonlinked_channels.c\<close>; one \<open>omap_free_dma\<close> per interrupt, and the buffers that leak.
  \<^item> \<open>Dma_Oswr\<close>: \<^verbatim>\<open>dma_addrmode_constant_oswr.c\<close>, \<^verbatim>\<open>dma_register_dump.c\<close>, \<^verbatim>\<open>dma_oswr_trigger.c\<close>.
  \<^item> \<open>Dma_Threads\<close>: \<^verbatim>\<open>dma_thread_access.c\<close>, two threads and the exit function as a step relation;
    ownership under every interleaving, the unprotected counter.
  \<^item> \<open>Dma_Chain\<close>: \<^verbatim>\<open>dma_chain_transfer.h/.c\<close>, one definition per function; locale \<open>ch_caller\<close>.
  \<^item> \<open>Dma_Chain_Static\<close>, \<open>Dma_Chain_Correct\<close>: the four static chain modules (\<^verbatim>\<open>dma_chain_static*.c\<close>) as
    instances of one shape; locale \<open>chain_setup\<close> for invariants of the building phase; the verdict of the
    three that verify their transfers (the break variant can only fail), what all four give back with the
    double free of the break variant, well-formed transfers.
  \<^item> \<open>Dma_Chain_Dynamic\<close>, \<open>Dma_Chain_Dynamic_Correct\<close>: the four dynamic chain modules
    (\<^verbatim>\<open>dma_chain_dynamic*.c\<close>), whose callback creates and chains the next transfer; locale \<open>dyn_variant\<close>;
    the verdict of the three that verify their transfers, and how the break variant passes too early.
  \<^item> \<open>Dma_Chain_Dynamic_Order\<close>: in which order all four chain their transfers and with which buffers; locales
    \<open>logged_call\<close> (a call adds itself to the history, whoever makes it) and \<open>dyn_order\<close>.
  \<^item> \<open>Dma_Dload\<close>: \<^verbatim>\<open>dma_dload.c\<close> and \<^verbatim>\<open>dma_dload_bad_descriptor.c\<close>; the descriptors, the law of
    the engine (\<open>sg_law\<close>) and one that obeys it (\<open>careful_engine\<close>), the gather specification, the round trip
    through the descriptors, the verdict.
  \<^item> \<open>DDT_Threads\<close>: threads that run one function, as a step relation, and the locale \<open>counted_threads\<close> for
    the modules that count finished threads in an unprotected variable.
  \<^item> \<open>Dma_Dload_Threads\<close>, \<open>Dma_Dload_Threads_Correct\<close>: \<^verbatim>\<open>dma_dload_thread_access.c\<close>; ownership of memory and
    channels and the verdict under every interleaving.
  \<^item> \<open>Dma_Chain_Threads\<close>, \<open>Dma_Chain_Threads_Correct\<close>: \<^verbatim>\<open>dma_chain_thread_access.c\<close> and
    \<^verbatim>\<open>dma_chain_thread_stress.c\<close>; locales \<open>chain_keeps\<close> (what the calls of the chain code keep) and
    \<open>cth_keeps\<close> (what every step keeps); the write behind the array of transfers, the leak, the exit that
    never ends, the stress rounds that do not wait.
  \<^item> \<open>Call_Env\<close>: devices that are asked, the record of calls, counting calls and successes.
  \<^item> \<open>Gpio_Test\<close>: \<^verbatim>\<open>gpio_test.c\<close>, every test and its threads; for all tests and interleavings the
    verdict from the recorded answers and the balance of requests and frees; the verdict that does not
    wait for its threads.
  \<^item> \<open>Mcbsp_Config\<close>, \<open>Mcbsp_Poll\<close>: \<^verbatim>\<open>omap_mcbsp_test_poll.c\<close>, the registers and the transmission with the
    life of the module; the macros of the kernel header are the record \<open>mcbsp_hw\<close>.
  \<^item> \<open>Mcbsp_Correct\<close>, \<open>Mcbsp_Setup_Correct\<close>: locale \<open>transmission_inv\<close> (what every word keeps, the loop keeps),
    interpreted for the bookkeeping of the transmission and for a loopback; status and counters, the
    verdict on a working interface, frame period and clock divider, division by zero, refused requests.
  \<^item> \<open>Mcbsp_Threads\<close>: the same file built with \<^verbatim>\<open>CONFIG_ARCH_OMAP4\<close>, two threads as steps per word; a thread that
    is not interrupted is the transmission, the status forgets the errors of the thread that starts first,
    and a status of failure always has an error behind it.
  \<^item> \<open>Rtc_Set\<close>: \<^verbatim>\<open>alarm_set.c\<close> and \<^verbatim>\<open>time_set.c\<close>; reading a date, the alarm some seconds ahead, the calls made.
  \<^item> \<open>Uart\<close>, \<open>Uart_Correct\<close>: \<^verbatim>\<open>common.c\<close> and \<^verbatim>\<open>ts_uart.c\<close>; the constants of \<^verbatim>\<open>termios.h\<close> are the record \<open>tty\<close>;
    the rate a port ends up with, how the program can end and when it does, the receiving loop on a silent
    line, which only the signal handler ends.
  \<^item> \<open>Halting_Prog\<close>: programs that may abort, fault, exit or not end at all, composed by \<open>and_then\<close>; the total
    correctness predicate \<open>yields\<close> with a rule per construct.
  \<^item> \<open>Log_List\<close>: \<^verbatim>\<open>list.c\<close>; the locale \<open>cursor_list\<close> is the contract of a list with a cursor, interpreted for
    the linked nodes, and the log library uses the list only through it.
  \<^item> \<open>Testlog\<close>: \<^verbatim>\<open>testlog.c\<close>, one definition per function; \<open>Testlog_Correct\<close>: what a string and a message leave in
    the files; \<open>Testlog_Session\<close>: refinement of a session by a tally of cases, the final report;
    \<open>Testlog_Programs\<close>: \<^verbatim>\<open>testtestlog.c\<close> to \<^verbatim>\<open>testtestlog5.c\<close> and the operations of the framebuffer copy.
  \<^item> \<open>Fb_User\<close>: \<^verbatim>\<open>fb_user_tests.c\<close>; \<open>Fb_User_Correct\<close>: each log operation as a step on the tally, what a run means,
    the colour bars; \<open>Fb_User_Passes\<close>: good and bad devices.
  \<^item> \<open>Pm_Clock\<close>: \<^verbatim>\<open>clock_test.c\<close>; the verdict that hangs on the last clock, the balance of enabling and disabling.
  \<^item> \<open>Pm_Domains\<close>: \<^verbatim>\<open>pd_test.c\<close> and \<^verbatim>\<open>cd_test.c\<close>; the locale \<open>judged_test\<close> (a test judges the history of its
    calls), interpreted for the five tests, gives the exact verdict of the loop over the domains.

  \<^bold>\<open>What is shown.\<close> For each family: what a PASSED verdict implies about the interrupts and the memory
  they saw; that every channel, chain and buffer is given back exactly once, or exactly where it is
  not; the functional behaviour of the shared operations on every branch; that index variables stay
  inside their arrays, or when they do not; and the places where the code does something other than it
  means to, each as a theorem.

  \<^bold>\<open>Loops and fuel.\<close> Loops over arrays are structural recursions. The polling loops have the bound of the
  source (60 rounds). The reader of the proc file waits without a bound, so \<open>dma_read_proc\<close> takes fuel;
  the property about it says for which amounts it returns. The exit functions of the
  threaded DMA modules wait without a bound and are steps of a step relation, as are the threads. The
  loops of the McBSP transmission and of the alarm computation have termination proofs; the loops of
  the UART program take fuel: \<open>uart_never_succeeds\<close> says from which amount on they have a result when
  the line and the file come to an end, and \<open>uart_silent_line\<close> when no fuel is enough. The loops of the log
  library are partial functions, whose value is \<open>None\<close> when they do not end; that they end is part of every
  property about them, given writes that accept a byte or fail and a list in order.

  \<^bold>\<open>Not modelled.\<close> Printing; events inside a stretch of code between two calls; the effect of
  \<^verbatim>\<open>dma_map_single\<close> on caches; the failure of thread creation, which no source checks; the text of the
  status pages; an interrupt of the UART program outside its receiving loop; the tests of other devices and the vendored
  suites in the rest of the repository.
\<close>

end
